(* ===== verification/Prelude.thy ===== *)
theory Prelude
  imports Main "HOL-Library.Sublist"
begin

text \<open>
  Shared vocabulary of the development: Python exceptions as values, the error monad the
  components are written in, Python's dictionaries as association lists that keep insertion
  order, the string operations the sources use, and the \<open>named_theorems\<close> collections.

  A Python \<open>str\<close> is the list of the bytes of its UTF-8 encoding; \<open>str.encode("utf-8")\<close>
  is then the identity, \<open>len(s.encode())\<close> is \<open>length\<close>, and comparison by code point is
  comparison of the bytes.
\<close>

named_theorems err_simps \<open>unfolding rules of the error monad\<close>
named_theorems dict_simps \<open>lookup after update of a Python dictionary\<close>

section \<open>Exceptions as values\<close>

text \<open>The exception classes of the modelled modules, with the message where one is given.\<close>

datatype pyerr =
    ValueError string
  | TypeError string
  | KeyError
  | OverflowError
  | ZeroDivisionError
  | AssertionError string
  | OSError
  | InterruptedError
  | TimeoutError
  | OtherException
  | LedgerUnavailableError string
  | LedgerBusyError
  | LedgerCorruptionError string
  | IntentConflictError
  | EventJournalUnavailableError string
  | EventJournalBusyError
  | EventJournalCorruptionError string
  | CaptureConflictError
  | ReconciliationInputError string
  | SubmitPathUnavailableError string
  | SubmitIntentConflictError
  | AmbiguousCancelFillRace string
  | MarketIdentifierError string
  | CloddsMappingError string
  | CloddsShadowProtocolError string
  | CloddsShadowClientError string
  | JsonlProcessTransportError string

type_synonym 'a res = "pyerr + 'a"

definition bindE :: "'a res \<Rightarrow> ('a \<Rightarrow> 'b res) \<Rightarrow> 'b res" where
  "bindE r k = (case r of Inl e \<Rightarrow> Inl e | Inr x \<Rightarrow> k x)"

definition raise_if :: "bool \<Rightarrow> pyerr \<Rightarrow> 'a res \<Rightarrow> 'a res" where
  "raise_if b e k = (if b then Inl e else k)"

lemma bindE_simps [simp]:
  "bindE (Inl e) k = Inl e"
  "bindE (Inr x) k = k x"
  by (simp_all add: bindE_def)

lemma raise_if_simps [simp]:
  "raise_if True e k = Inl e"
  "raise_if False e k = k"
  by (simp_all add: raise_if_def)

lemma bindE_Inr_iff [err_simps]: "bindE r k = Inr y \<longleftrightarrow> (\<exists>x. r = Inr x \<and> k x = Inr y)"
  by (cases r) simp_all

lemma bindE_Inl_iff [err_simps]:
  "bindE r k = Inl e \<longleftrightarrow> r = Inl e \<or> (\<exists>x. r = Inr x \<and> k x = Inl e)"
  by (cases r) simp_all

lemma raise_if_Inr_iff [err_simps]: "raise_if b e k = Inr y \<longleftrightarrow> \<not> b \<and> k = Inr y"
  by (simp add: raise_if_def)

lemma raise_if_Inl_iff [err_simps]:
  "raise_if b e k = Inl e' \<longleftrightarrow> (b \<and> e = e') \<or> (\<not> b \<and> k = Inl e')"
  by (simp add: raise_if_def)

lemma bindE_assoc: "bindE (bindE r f) g = bindE r (\<lambda>x. bindE (f x) g)"
  by (cases r) simp_all

text \<open>\<open>map\<close> with a fallible function, left to right, stopping at the first exception.\<close>

fun mapE :: "('a \<Rightarrow> 'b res) \<Rightarrow> 'a list \<Rightarrow> 'b list res" where
  "mapE f [] = Inr []"
| "mapE f (x # xs) = bindE (f x) (\<lambda>y. bindE (mapE f xs) (\<lambda>ys. Inr (y # ys)))"

lemma mapE_length: "mapE f xs = Inr ys \<Longrightarrow> length ys = length xs"
  by (induction xs arbitrary: ys) (auto simp: err_simps)

lemma mapE_id: "(\<And>x. x \<in> set xs \<Longrightarrow> f x = Inr x) \<Longrightarrow> mapE f xs = Inr xs"
  by (induction xs) auto

lemma mapE_Inr_all2: "mapE f xs = Inr ys \<Longrightarrow> list_all2 (\<lambda>x y. f x = Inr y) xs ys"
  by (induction xs arbitrary: ys) (auto simp: err_simps)

section \<open>Dictionaries with insertion order\<close>

text \<open>
  A Python \<open>dict\<close> iterates in insertion order and keeps the position of a key that is
  assigned again. It is an association list with distinct keys; \<open>map_of\<close> reads it.
\<close>

fun dput :: "'k \<Rightarrow> 'v \<Rightarrow> ('k \<times> 'v) list \<Rightarrow> ('k \<times> 'v) list" where
  "dput k v [] = [(k, v)]"
| "dput k v ((k', v') # d) = (if k' = k then (k, v) # d else (k', v') # dput k v d)"

definition dpop :: "'k \<Rightarrow> ('k \<times> 'v) list \<Rightarrow> ('k \<times> 'v) list" where
  "dpop k d = filter (\<lambda>(k', v). k' \<noteq> k) d"

definition dget :: "('k \<times> 'v) list \<Rightarrow> 'k \<Rightarrow> 'v \<Rightarrow> 'v" where
  "dget d k v = (case map_of d k of None \<Rightarrow> v | Some w \<Rightarrow> w)"

lemma map_of_dput [simp, dict_simps]: "map_of (dput k v d) = (map_of d)(k \<mapsto> v)"
  by (induction d) auto

lemma map_of_dpop [simp, dict_simps]: "map_of (dpop k d) = (map_of d)(k := None)"
  by (induction d) (auto simp: dpop_def)

lemma dget_dput [simp, dict_simps]: "dget (dput k v d) k' w = (if k' = k then v else dget d k' w)"
  by (simp add: dget_def)

lemma keys_dput: "fst ` set (dput k v d) = insert k (fst ` set d)"
proof (induction d)
  case (Cons p d)
  then show ?case by (cases p) (auto simp: insert_commute)
qed simp

lemma distinct_dput [simp]: "distinct (map fst d) \<Longrightarrow> distinct (map fst (dput k v d))"
proof (induction d)
  case (Cons p d)
  obtain a b where p: "p = (a, b)" by (cases p)
  have "set (map fst (dput k v d)) = insert k (fst ` set d)"
    by (simp add: keys_dput)
  with Cons p show ?case by auto
qed simp

lemma dput_fresh: "k \<notin> fst ` set d \<Longrightarrow> dput k v d = d @ [(k, v)]"
  by (induction d) auto

lemma distinct_dpop [simp]: "distinct (map fst d) \<Longrightarrow> distinct (map fst (dpop k d))"
  by (induction d) (auto simp: dpop_def image_iff)

text \<open>\<open>dict.fromkeys(xs)\<close> as a list: the first occurrence of every element, in order.\<close>

fun dedup_from :: "'a list \<Rightarrow> 'a list \<Rightarrow> 'a list" where
  "dedup_from seen [] = []"
| "dedup_from seen (x # xs) =
     (if x \<in> set seen then dedup_from seen xs else x # dedup_from (x # seen) xs)"

definition dict_fromkeys :: "'a list \<Rightarrow> 'a list" where
  "dict_fromkeys xs = dedup_from [] xs"

lemma set_dedup_from: "set (dedup_from seen xs) = set xs - set seen"
  by (induction seen xs rule: dedup_from.induct) auto

lemma set_dict_fromkeys [simp]: "set (dict_fromkeys xs) = set xs"
  by (simp add: dict_fromkeys_def set_dedup_from)

lemma distinct_dedup_from: "distinct (dedup_from seen xs)"
  by (induction seen xs rule: dedup_from.induct) (auto simp: set_dedup_from)

lemma distinct_dict_fromkeys [simp]: "distinct (dict_fromkeys xs)"
  by (simp add: dict_fromkeys_def distinct_dedup_from)

lemma dict_fromkeys_Nil_iff [simp]: "dict_fromkeys xs = [] \<longleftrightarrow> xs = []"
  by (metis set_dict_fromkeys set_empty)


section \<open>Methods that mutate an object and may raise\<close>

text \<open>
  A method of a mutable object takes the object's state and returns its result or exception
  together with the state it leaves: a statement that raises after an assignment keeps the
  assignment.  \<open>checkS\<close> runs a computation that mutates nothing, \<open>failS\<close> is
  \<open>if b: raise e\<close>, \<open>thenS\<close> runs a mutating call and goes on in the state it left.
\<close>

definition checkS :: "'a res \<Rightarrow> 's \<Rightarrow> ('a \<Rightarrow> 'b res \<times> 's) \<Rightarrow> 'b res \<times> 's" where
  "checkS r s k = (case r of Inl e \<Rightarrow> (Inl e, s) | Inr x \<Rightarrow> k x)"

definition failS :: "bool \<Rightarrow> pyerr \<Rightarrow> 's \<Rightarrow> 'b res \<times> 's \<Rightarrow> 'b res \<times> 's" where
  "failS b e s k = (if b then (Inl e, s) else k)"

definition thenS :: "'a res \<times> 's \<Rightarrow> ('a \<Rightarrow> 's \<Rightarrow> 'b res \<times> 's) \<Rightarrow> 'b res \<times> 's" where
  "thenS m k = (case m of (Inl e, s) \<Rightarrow> (Inl e, s) | (Inr x, s) \<Rightarrow> k x s)"

lemma checkS_simps [simp]:
  "checkS (Inl e) s k = (Inl e, s)"
  "checkS (Inr x) s k = k x"
  by (simp_all add: checkS_def)

lemma failS_simps [simp]:
  "failS True e s k = (Inl e, s)"
  "failS False e s k = k"
  by (simp_all add: failS_def)

lemma thenS_simps [simp]:
  "thenS (Inl e, s) k = (Inl e, s)"
  "thenS (Inr x, s) k = k x s"
  by (simp_all add: thenS_def)

lemma checkS_Inr_iff [err_simps]:
  "checkS r s k = (Inr y, s') \<longleftrightarrow> (\<exists>x. r = Inr x \<and> k x = (Inr y, s'))"
  by (cases r) simp_all

lemma checkS_Inl_iff [err_simps]:
  "checkS r s k = (Inl e, s') \<longleftrightarrow> (r = Inl e \<and> s' = s) \<or> (\<exists>x. r = Inr x \<and> k x = (Inl e, s'))"
  by (cases r) auto

lemma failS_Inr_iff [err_simps]: "failS b e s k = (Inr y, s') \<longleftrightarrow> \<not> b \<and> k = (Inr y, s')"
  by (simp add: failS_def)

lemma failS_Inl_iff [err_simps]:
  "failS b e s k = (Inl e', s') \<longleftrightarrow> (b \<and> e' = e \<and> s' = s) \<or> (\<not> b \<and> k = (Inl e', s'))"
  by (auto simp: failS_def)

lemma thenS_Inr_iff [err_simps]:
  "thenS m k = (Inr y, s') \<longleftrightarrow> (\<exists>x s. m = (Inr x, s) \<and> k x s = (Inr y, s'))"
  by (cases m; cases "fst m") auto

lemma thenS_Inl_iff [err_simps]:
  "thenS m k = (Inl e, s') \<longleftrightarrow> m = (Inl e, s') \<or> (\<exists>x s. m = (Inr x, s) \<and> k x s = (Inl e, s'))"
  by (cases m; cases "fst m") auto

text \<open>A postcondition of a method, over its result or exception and the state it leaves, and
  the rules that take it through the statements of a body.\<close>

definition post :: "('b res \<Rightarrow> 's \<Rightarrow> bool) \<Rightarrow> 'b res \<times> 's \<Rightarrow> bool" where
  "post Q m \<longleftrightarrow> Q (fst m) (snd m)"

lemma post_return: "Q r s \<Longrightarrow> post Q (r, s)"
  by (simp add: post_def)

lemma post_checkS:
  "(\<And>e. r = Inl e \<Longrightarrow> Q (Inl e) s) \<Longrightarrow> (\<And>x. r = Inr x \<Longrightarrow> post Q (f x)) \<Longrightarrow> post Q (checkS r s f)"
  by (cases r) (simp_all add: post_def)

lemma post_failS:
  "(b \<Longrightarrow> Q (Inl e) s) \<Longrightarrow> (\<not> b \<Longrightarrow> post Q m) \<Longrightarrow> post Q (failS b e s m)"
  by (simp add: post_def failS_def)

lemma post_thenS:
  "(\<And>e s. m = (Inl e, s) \<Longrightarrow> Q (Inl e) s) \<Longrightarrow> (\<And>x s. m = (Inr x, s) \<Longrightarrow> post Q (f x s)) \<Longrightarrow>
     post Q (thenS m f)"
  by (cases m; cases "fst m") (auto simp: post_def)

lemma postD: "post Q m \<Longrightarrow> m = (r, s) \<Longrightarrow> Q r s"
  by (simp add: post_def)

lemmas post_intros = post_checkS post_failS post_thenS post_return

text \<open>Evaluation of concrete runs: normalise the first computation before the continuation.\<close>

lemma bindE_weak: "x = y \<Longrightarrow> bindE x f = bindE y f"
  by simp

lemma raise_if_weak: "b = c \<Longrightarrow> raise_if b e k = raise_if c e k"
  by simp

lemma checkS_weak: "x = y \<Longrightarrow> checkS x s k = checkS y s k"
  by simp

lemma failS_weak: "b = c \<Longrightarrow> failS b e s k = failS c e s k"
  by simp

lemma thenS_weak: "x = y \<Longrightarrow> thenS x k = thenS y k"
  by simp

lemmas eval_cong = bindE_weak raise_if_weak checkS_weak failS_weak thenS_weak if_weak_cong

end
