(* ===== verification/PyFloat.thy ===== *)
theory PyFloat
  imports Complex_Main "HOL-Library.Log_Nat" Prelude
begin

text \<open>
  Python's \<open>float\<close>: IEEE 754 binary64 with rounding to nearest, ties to even.
  \<open>rnd\<close> rounds a rational to the nearest number with 53 significant bits and exponent at
  least \<open>-1074\<close>; \<open>b64\<close> adds the overflow to infinity; the arithmetic of \<open>pyfloat\<close>
  computes exactly and then rounds once, as the hardware does.  The sign of a zero is not
  represented (\<open>-0.0 == 0.0\<close> in every comparison of the modelled code).

  The laws the components rest on are those of the locale \<open>rounding\<close> (monotone, odd,
  idempotent), which \<open>rnd\<close> interprets.  The theory also models the builtins \<open>min\<close>,
  \<open>max\<close>, \<open>sum\<close> (Neumaier's compensated summation, CPython 3.12 and later),
  \<open>math.fsum\<close>, \<open>math.isclose\<close> and the shortest decimal that \<open>repr\<close> prints.
\<close>

named_theorems float_simps \<open>comparisons and operations on finite floats\<close>

section \<open>Rounding\<close>

definition rne :: "rat \<Rightarrow> int" where
  "rne x = (let f = \<lfloor>x\<rfloor>; d = x - of_int f in
     if d < 1/2 then f else if d > 1/2 then f + 1 else if even f then f else f + 1)"

lemma rne_bounds: "\<lfloor>x\<rfloor> \<le> rne x" "rne x \<le> \<lfloor>x\<rfloor> + 1"
  by (simp_all add: rne_def Let_def)

lemma rne_of_int [simp]: "rne (of_int n) = n"
  by (simp add: rne_def)

lemma rne_mono: "x \<le> y \<Longrightarrow> rne x \<le> rne y"
proof -
  assume le: "x \<le> y"
  then have fl: "\<lfloor>x\<rfloor> \<le> \<lfloor>y\<rfloor>" by (rule floor_mono)
  show ?thesis
  proof (cases "\<lfloor>x\<rfloor> = \<lfloor>y\<rfloor>")
    case True
    with le show ?thesis by (auto simp: rne_def Let_def)
  next
    case False
    with fl have "\<lfloor>x\<rfloor> + 1 \<le> \<lfloor>y\<rfloor>" by simp
    with rne_bounds [of x] rne_bounds [of y] show ?thesis by linarith
  qed
qed

lemma rne_minus: "rne (- x) = - rne x"
proof (cases "x = of_int \<lfloor>x\<rfloor>")
  case True
  then obtain n where n: "x = of_int n" by blast
  have "- x = of_int (- n)" by (simp add: n)
  then show ?thesis by (simp only: rne_of_int n)
next
  case False
  have f: "\<lfloor>- x\<rfloor> = - \<lfloor>x\<rfloor> - 1"
    using False by linarith
  show ?thesis unfolding rne_def f Let_def by auto
qed

lemma rne_le_of_int: "x \<le> of_int n \<Longrightarrow> rne x \<le> n"
  using rne_mono [of x "of_int n"] by simp

lemma rne_ge_of_int: "of_int n \<le> x \<Longrightarrow> n \<le> rne x"
  using rne_mono [of "of_int n" x] by simp

lemma rne_dist: "\<bar>of_int (rne x) - x\<bar> \<le> 1 / 2"
proof -
  have "of_int \<lfloor>x\<rfloor> \<le> x" "x < of_int \<lfloor>x\<rfloor> + 1" by linarith+
  then show ?thesis by (auto simp: rne_def Let_def abs_le_iff)
qed

definition ilog2 :: "rat \<Rightarrow> int" where
  "ilog2 x = (let (p, q) = quotient_of x; k = bitlen p - bitlen q in
     if 2 powi k \<le> x then k else k - 1)"

lemma powi_nat_sub: "0 \<le> a \<Longrightarrow> 0 \<le> b \<Longrightarrow> (2::rat) ^ nat a / 2 ^ nat b = 2 powi (a - b)"
  by (metis int_nat_eq nat_int power_int_diff power_int_of_nat zero_neq_numeral)

lemma ilog2_bounds:
  assumes "0 < x"
  shows "2 powi (ilog2 x) \<le> x" "x < 2 powi (ilog2 x + 1)"
proof -
  obtain p q where pq: "quotient_of x = (p, q)" by (cases "quotient_of x")
  have x: "x = of_int p / of_int q" and q: "0 < q"
    using pq by (simp_all add: quotient_of_div quotient_of_denom_pos)
  with assms have p: "0 < p" by (simp add: zero_less_divide_iff)
  define a b where "a = bitlen p" and "b = bitlen q"
  have ab: "1 \<le> a" "1 \<le> b"
    using p q by (auto simp: a_def b_def bitlen_def floorlog_def)
  have P: "(2::rat) ^ nat (a - 1) \<le> of_int p" "of_int p < (2::rat) ^ nat a"
    using bitlen_bounds [OF p] unfolding a_def by (metis of_int_le_iff of_int_less_iff of_int_numeral of_int_power)+
  have Q: "(2::rat) ^ nat (b - 1) \<le> of_int q" "of_int q < (2::rat) ^ nat b"
    using bitlen_bounds [OF q] unfolding b_def by (metis of_int_le_iff of_int_less_iff of_int_numeral of_int_power)+
  have lo: "2 powi (a - b - 1) \<le> x"
  proof -
    have "(2::rat) powi (a - b - 1) = 2 ^ nat (a - 1) / 2 ^ nat b"
      using ab by (subst powi_nat_sub) (auto simp: algebra_simps)
    also have "\<dots> \<le> of_int p / of_int q"
      using P Q q p by (intro frac_le) auto
    finally show ?thesis by (simp add: x)
  qed
  have hi: "x < 2 powi (a - b + 1)"
  proof -
    have "of_int p / of_int q < (2::rat) ^ nat a / 2 ^ nat (b - 1)"
      using P Q q p by (intro frac_less) auto
    also have "\<dots> = 2 powi (a - b + 1)"
      using ab by (subst powi_nat_sub) (auto simp: algebra_simps)
    finally show ?thesis by (simp add: x)
  qed
  have eq: "ilog2 x = (if 2 powi (a - b) \<le> x then a - b else a - b - 1)"
    by (simp add: ilog2_def pq a_def b_def)
  show "2 powi (ilog2 x) \<le> x" "x < 2 powi (ilog2 x + 1)"
    using lo hi by (auto simp: eq)
qed

lemma powi_less_cancel: "(2::rat) powi a < 2 powi b \<Longrightarrow> a < b"
  using power_int_increasing [of b a "2::rat"] by (metis linorder_not_less numeral_One one_le_numeral zero_neq_numeral)

lemma ilog2_unique: "0 < x \<Longrightarrow> 2 powi k \<le> x \<Longrightarrow> x < 2 powi (k + 1) \<Longrightarrow> ilog2 x = k"
  using ilog2_bounds [of x] powi_less_cancel
  by (smt (verit, best) order_le_less_trans)
  
lemma ilog2_less: "0 < x \<Longrightarrow> x < 2 powi k \<Longrightarrow> ilog2 x < k"
  using ilog2_bounds(1) [of x] powi_less_cancel order_le_less_trans by blast

lemma ilog2_mono: "0 < x \<Longrightarrow> x \<le> y \<Longrightarrow> ilog2 x \<le> ilog2 y"
proof -
  assume a: "0 < x" "x \<le> y"
  then have "(2::rat) powi (ilog2 x) < 2 powi (ilog2 y + 1)"
    using ilog2_bounds [of x] ilog2_bounds [of y] by linarith
  then show ?thesis using powi_less_cancel by fastforce
qed

definition fexp :: "rat \<Rightarrow> int" where
  "fexp x = max (ilog2 \<bar>x\<bar> - 52) (-1074)"

definition rnd :: "rat \<Rightarrow> rat" where
  "rnd x = (if x = 0 then 0 else of_int (rne (x / 2 powi (fexp x))) * 2 powi (fexp x))"

lemma rnd_0 [simp]: "rnd 0 = 0"
  by (simp add: rnd_def)

lemma rnd_minus: "rnd (- x) = - rnd x"
  by (simp add: rnd_def fexp_def rne_minus)

lemma rnd_nonneg: "0 \<le> x \<Longrightarrow> 0 \<le> rnd x"
  using rne_ge_of_int [of 0 "x / 2 powi (fexp x)"] by (simp add: rnd_def)

text \<open>The numbers binary64 has: 53 bits of significand, exponent at least \<open>-1074\<close>.\<close>

lemma rnd_repr_strict:
  assumes n: "\<bar>n\<bar> < 2 ^ 53" and k: "-1074 \<le> k"
  shows "rnd (of_int n * 2 powi k) = of_int n * 2 powi k"
proof (cases "n = 0")
  case False
  define x where "x = of_int n * (2::rat) powi k"
  have "\<bar>of_int n :: rat\<bar> < 2 powi 53"
    using n by (metis of_int_abs of_int_less_iff of_int_numeral of_int_power power_int_numeral)
  then have "\<bar>x\<bar> < 2 powi 53 * 2 powi k"
    unfolding x_def abs_mult by simp
  also have "\<dots> = 2 powi (53 + k)" by (subst power_int_add) auto
  finally have "ilog2 \<bar>x\<bar> < 53 + k"
    using False by (intro ilog2_less) (auto simp: x_def)
  with k have le: "fexp x \<le> k" by (simp add: fexp_def)
  have "x / 2 powi (fexp x) = of_int n * 2 powi (k - fexp x)"
    by (simp add: x_def power_int_diff)
  also have "\<dots> = of_int (n * 2 ^ nat (k - fexp x))"
    using le by (simp add: power_int_def)
  finally have "x / 2 powi (fexp x) = of_int (n * 2 ^ nat (k - fexp x))" .
  then have "rnd x = of_int (n * 2 ^ nat (k - fexp x)) * 2 powi (fexp x)"
    using False by (simp only: rnd_def rne_of_int) (simp add: x_def)
  also have "\<dots> = x"
    using \<open>x / 2 powi (fexp x) = of_int (n * 2 ^ nat (k - fexp x))\<close>
    by (simp add: field_simps)
  finally show ?thesis by (simp add: x_def)
qed simp

lemma rnd_repr:
  assumes n: "\<bar>n\<bar> \<le> 2 ^ 53" and k: "-1074 \<le> k"
  shows "rnd (of_int n * 2 powi k) = of_int n * 2 powi k"
proof (cases "\<bar>n\<bar> = 2 ^ 53")
  case True
  have e: "(2::rat) powi (k + 1) = 2 * 2 powi k" by (subst power_int_add) auto
  from True consider "n = 2 ^ 53" | "n = - (2 ^ 53)" by linarith
  then obtain m where m: "n = 2 * m" and b: "\<bar>m\<bar> < 2 ^ 53"
    by cases (auto intro: that [of "2 ^ 52"] that [of "- (2 ^ 52)"])
  have "rnd (of_int m * 2 powi (k + 1)) = of_int m * 2 powi (k + 1)"
    using b k by (intro rnd_repr_strict) auto
  moreover have "of_int n * (2::rat) powi k = of_int m * 2 powi (k + 1)"
    by (simp only: m e of_int_mult of_int_numeral mult.assoc mult.left_commute)
  ultimately show ?thesis by simp
qed (use assms in \<open>auto intro: rnd_repr_strict\<close>)

lemma rnd_of_int: "\<bar>n\<bar> \<le> 2 ^ 53 \<Longrightarrow> rnd (of_int n) = of_int n"
  using rnd_repr [of n 0] by simp

text \<open>What a rounded number looks like.\<close>

lemma rnd_shape: "\<exists>n. \<bar>n\<bar> \<le> 2 ^ 53 \<and> rnd x = of_int n * 2 powi (fexp x)"
proof (cases "x = 0")
  case True
  then show ?thesis by (intro exI [of _ 0]) simp
next
  case False
  define y where "y = x / 2 powi (fexp x)"
  have "\<bar>x\<bar> < 2 powi (ilog2 \<bar>x\<bar> + 1)" using False by (intro ilog2_bounds) auto
  also have "\<dots> \<le> 2 powi (53 + fexp x)"
    by (intro power_int_increasing) (auto simp: fexp_def)
  also have "\<dots> = 2 ^ 53 * 2 powi (fexp x)" by (subst power_int_add) auto
  finally have "\<bar>x\<bar> / 2 powi (fexp x) \<le> 2 ^ 53" by (simp add: field_simps)
  then have "\<bar>y\<bar> \<le> 2 ^ 53" by (simp add: y_def abs_divide)
  then have "y \<le> 2 ^ 53" "- (2 ^ 53) \<le> y" by (simp_all only: abs_le_iff minus_le_iff)
  then have "rne y \<le> 2 ^ 53" "- (2 ^ 53) \<le> rne y"
    by (auto intro!: rne_le_of_int rne_ge_of_int)
  then show ?thesis using False
    by (intro exI [of _ "rne y"]) (auto simp: rnd_def y_def)
qed

lemma rnd_idem [simp]: "rnd (rnd x) = rnd x"
proof -
  obtain n where "\<bar>n\<bar> \<le> 2 ^ 53" "rnd x = of_int n * 2 powi (fexp x)"
    using rnd_shape by blast
  then show ?thesis using rnd_repr [of n "fexp x"] by (simp add: fexp_def)
qed

lemma rnd_mono_pos:
  assumes "0 < x" "x \<le> y"
  shows "rnd x \<le> rnd y"
proof -
  have y: "0 < y" using assms by simp
  have le: "fexp x \<le> fexp y"
    using ilog2_mono [OF assms] assms y by (simp add: fexp_def)
  show ?thesis
  proof (cases "fexp x = fexp y")
    case True
    have "rne (x / 2 powi (fexp x)) \<le> rne (y / 2 powi (fexp x))"
      using assms by (intro rne_mono divide_right_mono) auto
    with assms y True show ?thesis by (simp add: rnd_def)
  next
    case False
    with le have lt: "fexp x < fexp y" by simp
    then have ey: "fexp y = ilog2 y - 52" using y by (auto simp: fexp_def)
    obtain n where n: "\<bar>n\<bar> \<le> 2 ^ 53" "rnd x = of_int n * 2 powi (fexp x)"
      using rnd_shape by blast
    have "of_int n * (2::rat) powi (fexp x) \<le> 2 ^ 53 * 2 powi (fexp x)"
      using n(1) by (intro mult_right_mono) (auto simp flip: of_int_le_iff)
    also have "\<dots> = 2 powi (fexp x + 1 + 52)" by (subst power_int_add) (auto simp: power_int_add)
    also have "\<dots> \<le> 2 powi (fexp y + 52)"
      using lt by (intro power_int_increasing) auto
    also have "\<dots> = of_int (2 ^ 52) * 2 powi (fexp y)" by (subst power_int_add) auto
    also have "\<dots> \<le> of_int (rne (y / 2 powi (fexp y))) * 2 powi (fexp y)"
    proof (intro mult_right_mono)
      have "(2::rat) powi (fexp y) * 2 ^ 52 = 2 powi (ilog2 y)"
        by (simp add: ey power_int_diff)
      also have "\<dots> \<le> y" using ilog2_bounds(1) [OF y] .
      finally have "2 ^ 52 \<le> y / 2 powi (fexp y)"
        by (simp add: field_simps)
      then have "2 ^ 52 \<le> rne (y / 2 powi (fexp y))"
        by (intro rne_ge_of_int) simp
      then show "(of_int (2 ^ 52) :: rat) \<le> of_int (rne (y / 2 powi (fexp y)))"
        by (simp only: of_int_le_iff)
    qed simp
    finally show ?thesis using n y by (simp add: rnd_def)
  qed
qed

lemma rnd_mono: "x \<le> y \<Longrightarrow> rnd x \<le> rnd y"
proof -
  assume le: "x \<le> y"
  consider "0 < x" | "x \<le> 0" "0 \<le> y" | "y < 0" by linarith
  then show ?thesis
  proof cases
    case 1
    then show ?thesis using le by (rule rnd_mono_pos)
  next
    case 2
    then have "rnd x \<le> 0" using rnd_nonneg [of "- x"] by (simp add: rnd_minus)
    also have "0 \<le> rnd y" using 2 by (simp add: rnd_nonneg)
    finally show ?thesis .
  next
    case 3
    with le have "rnd (- y) \<le> rnd (- x)" by (intro rnd_mono_pos) auto
    then show ?thesis by (simp add: rnd_minus)
  qed
qed

text \<open>The laws of a rounding function, and what follows from them alone.\<close>

locale rounding =
  fixes r :: "rat \<Rightarrow> rat"
  assumes mono: "x \<le> y \<Longrightarrow> r x \<le> r y"
    and odd: "r (- x) = - r x"
    and idem: "r (r x) = r x"
begin

lemma zero: "r 0 = 0"
  using odd [of 0] by simp

lemma nonneg: "0 \<le> x \<Longrightarrow> 0 \<le> r x"
  using mono [of 0 x] by (simp add: zero)

lemma nonpos: "x \<le> 0 \<Longrightarrow> r x \<le> 0"
  using mono [of x 0] by (simp add: zero)

lemma le_fix: "x \<le> y \<Longrightarrow> r y = y \<Longrightarrow> r x \<le> y"
  using mono [of x y] by simp

lemma ge_fix: "y \<le> x \<Longrightarrow> r y = y \<Longrightarrow> y \<le> r x"
  using mono [of y x] by simp

lemma sub_range: "r a = a \<Longrightarrow> 0 \<le> b \<Longrightarrow> b \<le> a \<Longrightarrow> 0 \<le> r (a - b) \<and> r (a - b) \<le> a"
  using nonneg [of "a - b"] le_fix [of "a - b" a] by simp

lemma add_ge: "r a = a \<Longrightarrow> 0 \<le> b \<Longrightarrow> a \<le> r (a + b)"
  using ge_fix [of a "a + b"] by simp

lemma less_imp: "r x < r y \<Longrightarrow> x < y"
  using mono [of y x] by (meson leD not_le_imp_less)

lemma sub_pos_imp: "0 < r (a - b) \<Longrightarrow> b < a"
  using nonpos [of "a - b"] by (meson diff_gt_0_iff_gt leD not_le_imp_less)

end

interpretation b64: rounding rnd
  by unfold_locales (simp_all add: rnd_mono rnd_minus)

section \<open>Floats\<close>

datatype pyfloat = Fin rat | PInf | NInf | NaN

definition b64 :: "rat \<Rightarrow> pyfloat" where
  "b64 q = (let y = rnd q in
     if y = 0 \<or> ilog2 \<bar>y\<bar> < 1024 then Fin y else if 0 < y then PInf else NInf)"

text \<open>The bound of the finite floats, kept folded in proofs.\<close>

definition float_limit :: rat where
  "float_limit = 2 ^ 1024"

lemma float_limit_pos [simp]: "0 < float_limit"
  by (simp add: float_limit_def)

lemma b64_eq: "b64 q = (if \<bar>rnd q\<bar> < float_limit then Fin (rnd q) else if 0 < rnd q then PInf else NInf)"
proof (cases "rnd q = 0")
  case False
  define y where "y = \<bar>rnd q\<bar>"
  have y: "0 < y" using False by (simp add: y_def)
  have "ilog2 y < 1024 \<longleftrightarrow> y < 2 powi 1024"
  proof
    assume "ilog2 y < 1024"
    then have "(2::rat) powi (ilog2 y + 1) \<le> 2 powi 1024"
      by (intro power_int_increasing) auto
    with ilog2_bounds(2) [OF y] show "y < 2 powi 1024" by linarith
  qed (rule ilog2_less [OF y])
  moreover have "(2::rat) powi 1024 = float_limit" by (simp add: power_int_def float_limit_def)
  ultimately show ?thesis using False by (simp add: b64_def Let_def y_def)
qed (simp add: b64_def)

fun wf_float :: "pyfloat \<Rightarrow> bool" where
  "wf_float (Fin q) \<longleftrightarrow> rnd q = q \<and> \<bar>q\<bar> < float_limit"
| "wf_float _ \<longleftrightarrow> True"

fun isfinite :: "pyfloat \<Rightarrow> bool" where
  "isfinite (Fin q) = True"
| "isfinite _ = False"

fun fneg :: "pyfloat \<Rightarrow> pyfloat" where
  "fneg (Fin q) = Fin (- q)"
| "fneg PInf = NInf"
| "fneg NInf = PInf"
| "fneg NaN = NaN"

fun fabs :: "pyfloat \<Rightarrow> pyfloat" where
  "fabs (Fin q) = Fin \<bar>q\<bar>"
| "fabs PInf = PInf"
| "fabs NInf = PInf"
| "fabs NaN = NaN"

fun fadd :: "pyfloat \<Rightarrow> pyfloat \<Rightarrow> pyfloat" where
  "fadd NaN y = NaN"
| "fadd x NaN = NaN"
| "fadd (Fin a) (Fin b) = b64 (a + b)"
| "fadd PInf NInf = NaN"
| "fadd NInf PInf = NaN"
| "fadd PInf y = PInf"
| "fadd NInf y = NInf"
| "fadd (Fin a) y = y"

definition fsub :: "pyfloat \<Rightarrow> pyfloat \<Rightarrow> pyfloat" where
  "fsub x y = fadd x (fneg y)"

fun finf :: "bool \<Rightarrow> pyfloat" where
  "finf True = PInf"
| "finf False = NInf"

fun fmul :: "pyfloat \<Rightarrow> pyfloat \<Rightarrow> pyfloat" where
  "fmul NaN y = NaN"
| "fmul x NaN = NaN"
| "fmul (Fin a) (Fin b) = b64 (a * b)"
| "fmul (Fin a) y = (if a = 0 then NaN else finf ((0 < a) = (y = PInf)))"
| "fmul x (Fin b) = (if b = 0 then NaN else finf ((0 < b) = (x = PInf)))"
| "fmul x y = finf (x = y)"

text \<open>Python raises on every division by a zero float.\<close>

fun fdiv :: "pyfloat \<Rightarrow> pyfloat \<Rightarrow> pyfloat res" where
  "fdiv x (Fin b) = (if b = 0 then Inl ZeroDivisionError else
     Inr (case x of Fin a \<Rightarrow> b64 (a / b) | NaN \<Rightarrow> NaN | _ \<Rightarrow> finf ((0 < b) = (x = PInf))))"
| "fdiv x NaN = Inr NaN"
| "fdiv (Fin a) y = Inr (Fin 0)"
| "fdiv x y = Inr NaN"

fun flt :: "pyfloat \<Rightarrow> pyfloat \<Rightarrow> bool" where
  "flt (Fin a) (Fin b) \<longleftrightarrow> a < b"
| "flt (Fin a) PInf \<longleftrightarrow> True"
| "flt NInf (Fin b) \<longleftrightarrow> True"
| "flt NInf PInf \<longleftrightarrow> True"
| "flt _ _ \<longleftrightarrow> False"

fun feq :: "pyfloat \<Rightarrow> pyfloat \<Rightarrow> bool" where
  "feq NaN y \<longleftrightarrow> False"
| "feq x y \<longleftrightarrow> x = y"

definition fle :: "pyfloat \<Rightarrow> pyfloat \<Rightarrow> bool" where
  "fle x y \<longleftrightarrow> flt x y \<or> feq x y"

text \<open>\<open>max(x, y)\<close> and \<open>min(x, y)\<close> keep the first argument unless the second is beyond it.\<close>

definition py_max :: "pyfloat \<Rightarrow> pyfloat \<Rightarrow> pyfloat" where
  "py_max x y = (if flt x y then y else x)"

definition py_min :: "pyfloat \<Rightarrow> pyfloat \<Rightarrow> pyfloat" where
  "py_min x y = (if flt y x then y else x)"

text \<open>The tolerance \<open>_EPS = 1e-12\<close> of the execution modules.\<close>

definition EPS :: pyfloat where
  "EPS = b64 (1 / 10 ^ 12)"

lemma EPS_eq: "EPS = Fin (4951760157141521 / 4951760157141521099596496896)"
  by code_simp

declare EPS_eq [code]

subsection \<open>Sums\<close>

fun neumaier :: "pyfloat \<Rightarrow> pyfloat \<Rightarrow> pyfloat list \<Rightarrow> pyfloat \<times> pyfloat" where
  "neumaier f c [] = (f, c)"
| "neumaier f c (x # xs) =
     (let t = fadd f x in
      neumaier t (if fle (fabs x) (fabs f) then fadd c (fadd (fsub f t) x)
                  else fadd c (fadd (fsub x t) f)) xs)"

definition py_sum :: "pyfloat list \<Rightarrow> pyfloat" where
  "py_sum xs = (case xs of [] \<Rightarrow> Fin 0
     | x # ys \<Rightarrow> (let (f, c) = neumaier x (Fin 0) ys in
         if c \<noteq> Fin 0 \<and> isfinite c then fadd f c else f))"

fun fin_val :: "pyfloat \<Rightarrow> rat" where
  "fin_val (Fin q) = q"
| "fin_val _ = 0"

definition fsum :: "pyfloat list \<Rightarrow> pyfloat res" where
  "fsum xs = (if list_all isfinite xs
     then (let s = b64 (sum_list (map fin_val xs)) in
           if isfinite s then Inr s else Inl OverflowError)
     else if NaN \<in> set xs then Inr NaN
     else if PInf \<in> set xs \<and> NInf \<in> set xs then Inl (ValueError ''-inf + inf in fsum'')
     else if PInf \<in> set xs then Inr PInf else Inr NInf)"

text \<open>\<open>math.isclose(a, b, rel_tol=t, abs_tol=0.0)\<close>.\<close>

definition isclose :: "pyfloat \<Rightarrow> pyfloat \<Rightarrow> pyfloat \<Rightarrow> bool" where
  "isclose t a b \<longleftrightarrow> feq a b \<or>
     (isfinite a \<and> isfinite b \<and>
      (let d = fabs (fsub b a) in
       fle d (fabs (fmul t b)) \<or> fle d (fabs (fmul t a)) \<or> fle d (Fin 0)))"


section \<open>Laws of the arithmetic\<close>

lemma wf_b64 [simp, intro]: "wf_float (b64 q)"
  by (simp add: b64_eq)

lemma wf_fneg [simp]: "wf_float (fneg x) = wf_float x"
  by (cases x) (simp_all add: rnd_minus)

lemma wf_fadd [simp]: "wf_float x \<Longrightarrow> wf_float y \<Longrightarrow> wf_float (fadd x y)"
  by (cases x; cases y) simp_all

lemma wf_fsub [simp]: "wf_float x \<Longrightarrow> wf_float y \<Longrightarrow> wf_float (fsub x y)"
  by (simp add: fsub_def)

lemma wf_finf [simp]: "wf_float (finf b)"
  by (cases b) simp_all

lemma wf_fmul [simp]: "wf_float x \<Longrightarrow> wf_float y \<Longrightarrow> wf_float (fmul x y)"
  by (cases x; cases y) simp_all

lemma wf_EPS [simp]: "wf_float EPS"
  by (simp add: EPS_def)

lemma wf_zero [simp]: "wf_float (Fin 0)"
  by simp

lemma wf_Fin_intro: "rnd q = q \<Longrightarrow> \<bar>q\<bar> < float_limit \<Longrightarrow> wf_float (Fin q)"
  by simp

lemma py_max_wf [simp]: "wf_float x \<Longrightarrow> wf_float y \<Longrightarrow> wf_float (py_max x y)"
  by (simp add: py_max_def)

lemma py_min_wf [simp]: "wf_float x \<Longrightarrow> wf_float y \<Longrightarrow> wf_float (py_min x y)"
  by (simp add: py_min_def)

lemma fsub_Fin [simp, float_simps]: "fsub (Fin a) (Fin b) = b64 (a - b)"
  by (simp add: fsub_def)

lemma py_max_Fin [simp, float_simps]: "py_max (Fin a) (Fin b) = Fin (max a b)"
  by (simp add: py_max_def max_def)

lemma py_min_Fin [simp, float_simps]: "py_min (Fin a) (Fin b) = Fin (min a b)"
  by (simp add: py_min_def min_def)

lemma fle_Fin [simp, float_simps]: "fle (Fin a) (Fin b) \<longleftrightarrow> a \<le> b"
  by (auto simp: fle_def)

lemma flt_irrefl [simp]: "\<not> flt x x"
  by (cases x) simp_all

lemma flt_trans: "flt x y \<Longrightarrow> flt y z \<Longrightarrow> flt x z"
  by (cases x; cases y; cases z) simp_all

lemma fle_trans: "fle x y \<Longrightarrow> fle y z \<Longrightarrow> fle x z"
  by (cases x; cases y; cases z) (auto simp: fle_def)

lemma flt_fle_trans: "flt x y \<Longrightarrow> fle y z \<Longrightarrow> flt x z"
  by (cases x; cases y; cases z) (auto simp: fle_def)

lemma fle_flt_trans: "fle x y \<Longrightarrow> flt y z \<Longrightarrow> flt x z"
  by (cases x; cases y; cases z) (auto simp: fle_def)

lemma fle_refl_fin [simp]: "isfinite x \<Longrightarrow> fle x x"
  by (cases x) simp_all

lemma not_flt_fin: "isfinite x \<Longrightarrow> isfinite y \<Longrightarrow> \<not> flt x y \<longleftrightarrow> fle y x"
  by (cases x; cases y) auto

lemma isfinite_iff: "isfinite x \<longleftrightarrow> (\<exists>q. x = Fin q)"
  by (cases x) simp_all

lemma EPS_pos [simp]: "flt (Fin 0) EPS" "fle (Fin 0) EPS" "isfinite EPS"
  by (simp_all add: EPS_eq)

text \<open>A result between zero and a float stays there when it is rounded.\<close>

lemma b64_between:
  assumes "wf_float (Fin a)" "0 \<le> q" "q \<le> a"
  obtains r where "b64 q = Fin r" "0 \<le> r" "r \<le> a" "wf_float (Fin r)"
proof -
  have "0 \<le> rnd q" "rnd q \<le> a"
    using assms by (auto intro: b64.nonneg b64.le_fix)
  moreover from this have "b64 q = Fin (rnd q)"
    using assms by (simp add: b64_eq)
  ultimately show thesis
    using that wf_b64 [of q] by metis
qed

lemma b64_repr: "wf_float (Fin q) \<Longrightarrow> b64 q = Fin q"
  by (simp add: b64_eq)

lemma wf_of_int: "\<bar>n\<bar> \<le> 2 ^ 53 \<Longrightarrow> wf_float (Fin (of_int n))"
proof -
  assume n: "\<bar>n\<bar> \<le> 2 ^ 53"
  then have "\<bar>of_int n :: rat\<bar> \<le> 2 ^ 53"
    by (metis of_int_abs of_int_le_iff of_int_numeral of_int_power)
  also have "(2::rat) ^ 53 < float_limit"
    unfolding float_limit_def by (rule power_strict_increasing) auto
  finally show ?thesis using n by (simp add: rnd_of_int)
qed

lemma fadd_0 [simp]: "wf_float x \<Longrightarrow> fadd x (Fin 0) = x" "wf_float x \<Longrightarrow> fadd (Fin 0) x = x"
  by (cases x; simp add: b64_eq)+

lemma fsub_0 [simp]: "wf_float x \<Longrightarrow> fsub x (Fin 0) = x"
  by (simp add: fsub_def)

lemma b64_ge:
  assumes "wf_float (Fin a)" "a \<le> q"
  shows "fle (Fin a) (b64 q)"
  using assms b64.ge_fix [of a q] by (auto simp: b64_eq fle_def)

lemma b64_le:
  assumes "wf_float (Fin a)" "q \<le> a"
  shows "fle (b64 q) (Fin a)"
  using assms b64.le_fix [of q a] by (auto simp: b64_eq fle_def)

lemma fle_PInf [simp, float_simps]: "fle PInf PInf" "fle NInf NInf"
  by (simp_all add: fle_def)

lemma fle_simps [simp, float_simps]:
  "fle (Fin a) PInf" "\<not> fle (Fin a) NInf" "\<not> fle (Fin a) NaN"
  "\<not> fle PInf (Fin a)" "fle NInf (Fin a)" "\<not> fle NaN x"
  by (simp_all add: fle_def)

lemma b64_nonneg: "0 \<le> q \<Longrightarrow> fle (Fin 0) (b64 q)"
  by (rule b64_ge) simp_all

lemma fadd_nonneg:
  "fle (Fin 0) x \<Longrightarrow> fle (Fin 0) y \<Longrightarrow> fle (Fin 0) (fadd x y)"
  by (cases x; cases y) (auto intro: b64_nonneg)

lemma fmul_nonneg:
  "flt (Fin 0) x \<Longrightarrow> flt (Fin 0) y \<Longrightarrow> fle (Fin 0) (fmul x y)"
  by (cases x; cases y) (auto intro: b64_nonneg)


text \<open>Small numbers are floats, and adding the tolerance does not take a number below another.\<close>

lemma wf_numeral: "(numeral k :: int) \<le> 2 ^ 53 \<Longrightarrow> wf_float (Fin (numeral k))"
  using wf_of_int [of "numeral k"] by simp

lemma b64_numeral [simp]:
  "b64 0 = Fin 0" "b64 1 = Fin 1"
  "(numeral k :: int) \<le> 2 ^ 53 \<Longrightarrow> b64 (numeral k) = Fin (numeral k)"
  "(numeral k :: int) \<le> 2 ^ 53 \<Longrightarrow> b64 (- numeral k) = Fin (- numeral k)"
  using wf_of_int [of 1] b64_repr [of "- numeral k"] wf_fneg [of "Fin (numeral k)"] wf_numeral [of k]
  by (simp_all add: b64_repr del: wf_fneg)

lemma add_EPS_ge: "wf_float (Fin y) \<Longrightarrow> y \<le> x \<Longrightarrow> \<not> flt (fadd (Fin x) EPS) (Fin y)"
  using b64_ge [of y "x + fin_val EPS"] flt_trans fle_def
  by (auto simp: EPS_eq simp del: wf_float.simps dest: flt_fle_trans)

lemma add_EPS_numeral [simp]:
  "(numeral k :: int) \<le> 2 ^ 53 \<Longrightarrow> (numeral k :: rat) \<le> x \<Longrightarrow> \<not> flt (fadd (Fin x) EPS) (Fin (numeral k))"
  "1 \<le> x \<Longrightarrow> \<not> flt (fadd (Fin x) EPS) (Fin 1)" "0 \<le> x \<Longrightarrow> \<not> flt (fadd (Fin x) EPS) (Fin 0)"
  using add_EPS_ge [OF wf_numeral [of k], of x] add_EPS_ge [of 1 x] add_EPS_ge [of 0 x]
    wf_of_int [of 1] wf_zero
  by (simp_all del: wf_float.simps)

lemma EPS_numeral [simp]:
  "\<not> fle (Fin (numeral k)) EPS" "\<not> fle (Fin 1) EPS" "fle (Fin 0) EPS" "\<not> flt EPS (Fin 0)"
  "flt EPS (Fin (numeral k))" "flt EPS (Fin 1)"
proof -
  have "(4951760157141521 / 4951760157141521099596496896 :: rat) < 1" by simp
  also have "(1 :: rat) \<le> numeral k" by simp
  finally show "\<not> fle (Fin (numeral k)) EPS" "flt EPS (Fin (numeral k))" by (simp_all add: EPS_eq)
qed (simp_all add: EPS_eq)

lemma neg_EPS_numeral [simp]:
  "0 \<le> x \<Longrightarrow> \<not> flt (Fin x) (fneg EPS)" "\<not> flt PInf (fneg EPS)" "flt (fneg EPS) (Fin 0)"
  by (simp_all add: EPS_eq)

end
