(* ===== verification/PyDecimal.thy ===== *)
theory PyDecimal
  imports PyFloat "HOL-Library.Char_ord"
begin

text \<open>
  How Python writes numbers: the decimal digits of an integer, the shortest decimal that
  rounds to a given float (\<open>repr\<close>), and the reading of such tokens.  The roundtrip theorems
  \<open>read_int_str\<close> and \<open>read_float_repr\<close> say that a printed number reads back as itself; they
  carry the roundtrip of the canonical JSON.
\<close>

section \<open>Digits\<close>

definition dig :: "nat \<Rightarrow> char" where
  "dig n = (char_of (48 + n) :: char)"

definition dval :: "char \<Rightarrow> nat" where
  "dval c = of_char c - 48"

definition is_digit :: "char \<Rightarrow> bool" where
  "is_digit c \<longleftrightarrow> 48 \<le> (of_char c :: nat) \<and> (of_char c :: nat) \<le> 57"

lemma of_char_dig: "n < 10 \<Longrightarrow> (of_char (dig n) :: nat) = 48 + n"
  by (simp add: dig_def)

lemma dval_dig [simp]: "n < 10 \<Longrightarrow> dval (dig n) = n"
  by (simp add: dval_def of_char_dig)

lemma is_digit_dig [simp]: "n < 10 \<Longrightarrow> is_digit (dig n)"
  by (simp add: is_digit_def of_char_dig)

fun nat_str :: "nat \<Rightarrow> string" where
  "nat_str n = (if n < 10 then [dig n] else nat_str (n div 10) @ [dig (n mod 10)])"

declare nat_str.simps [simp del]

definition digits_val :: "string \<Rightarrow> nat" where
  "digits_val s = foldl (\<lambda>a c. 10 * a + dval c) 0 s"

lemma digits_val_append: "digits_val (xs @ ys) = digits_val xs * 10 ^ length ys + digits_val ys"
proof (induction ys rule: rev_induct)
  case (snoc y ys)
  then show ?case by (simp add: digits_val_def algebra_simps flip: append_assoc)
qed (simp add: digits_val_def)

lemma digits_val_nat_str [simp]: "digits_val (nat_str n) = n"
proof (induction n rule: nat_str.induct)
  case (1 n)
  show ?case
  proof (cases "n < 10")
    case True
    then show ?thesis by (subst nat_str.simps) (simp add: digits_val_def)
  next
    case False
    with 1 show ?thesis
      by (subst nat_str.simps) (simp add: digits_val_append, simp add: digits_val_def)
  qed
qed

lemma nat_str_digits [simp]: "list_all is_digit (nat_str n)"
proof (induction n rule: nat_str.induct)
  case (1 n)
  then show ?case by (subst nat_str.simps) simp
qed

lemma nat_str_not_Nil [simp]: "nat_str n \<noteq> []"
  by (subst nat_str.simps) simp

lemma digits_val_zeros [simp]: "digits_val (replicate k (dig 0)) = 0"
  by (induction k) (simp_all add: digits_val_def)

lemma digits_val_shift [simp]: "digits_val (replicate k (dig 0) @ s) = digits_val s"
  by (simp add: digits_val_append)

section \<open>The shortest decimal\<close>

text \<open>
  \<open>repr\<close> of a finite float prints the decimal with the fewest digits that rounds back to it,
  and among those the nearest.  Fewest digits means the largest power of ten \<open>k\<close> with a
  multiple \<open>m * 10 powi k\<close> in the rounding interval; \<open>dec_cand\<close> tries the two multiples
  around \<open>x\<close>, the nearer first.  At \<open>k = - 1074\<close> every float is such a multiple, so the
  search, which starts above the magnitude of \<open>x\<close>, always finds one.
\<close>

definition dec_val :: "int \<times> int \<Rightarrow> rat" where
  "dec_val d = of_int (fst d) * 10 powi (snd d)"

definition dec_cand :: "rat \<Rightarrow> int \<Rightarrow> int option" where
  "dec_cand x k = (let y = x / 10 powi k; m = rne y in
     if rnd (dec_val (m, k)) = x then Some m else
     let m' = (if m = \<lfloor>y\<rfloor> then m + 1 else \<lfloor>y\<rfloor>) in
     if rnd (dec_val (m', k)) = x then Some m' else None)"

fun shortest_from :: "nat \<Rightarrow> rat \<Rightarrow> int \<Rightarrow> int \<times> int" where
  "shortest_from 0 x k = (rne (x / 10 powi k), k)"
| "shortest_from (Suc n) x k =
     (case dec_cand x k of Some m \<Rightarrow> (m, k) | None \<Rightarrow> shortest_from n x (k - 1))"

definition shortest :: "rat \<Rightarrow> int \<times> int" where
  "shortest x = (let k = (ilog2 x + 1) * 30103 div 100000 + 2 in
     shortest_from (nat (k + 1074)) x k)"

lemma dec_cand_val: "dec_cand x k = Some m \<Longrightarrow> rnd (dec_val (m, k)) = x"
  by (auto simp: dec_cand_def Let_def split: if_splits)

lemma dec_cand_nonneg: "0 < x \<Longrightarrow> dec_cand x k = Some m \<Longrightarrow> 0 \<le> m"
proof -
  assume x: "0 < x" and c: "dec_cand x k = Some m"
  have "0 \<le> \<lfloor>x / 10 powi k\<rfloor>" "0 \<le> rne (x / 10 powi k)"
    using x by (auto intro!: rne_ge_of_int)
  moreover have "m = rne (x / 10 powi k) \<or> m = rne (x / 10 powi k) + 1 \<or> m = \<lfloor>x / 10 powi k\<rfloor>"
    using c unfolding dec_cand_def Let_def by (simp split: if_split_asm)
  ultimately show ?thesis by linarith
qed

lemma powi10_mult: "(10::rat) powi a * 10 powi b = 10 powi (a + b)"
  by (simp add: power_int_add)

lemma repr_multiple:
  assumes "rnd x = x" "k \<le> fexp x" "k \<le> 0"
  shows "\<exists>n::int. x = of_int n * 10 powi k"
proof -
  obtain n where n: "x = of_int n * 2 powi (fexp x)"
    using rnd_shape [of x] assms(1) by auto
  have "(2::rat) powi (fexp x) = 2 powi (fexp x - k) * 2 powi k"
    by (simp flip: power_int_add)
  moreover have "(2::rat) powi k = 5 powi (- k) * 10 powi k"
    using power_int_mult_distrib [of "2::rat" 5 k] by (simp add: power_int_minus)
  ultimately have "x = of_int n * 2 powi (fexp x - k) * 5 powi (- k) * 10 powi k"
    by (subst n) simp
  moreover have "(2::rat) powi (fexp x - k) = of_int (2 ^ nat (fexp x - k))"
    using assms(2) by (simp add: power_int_def)
  moreover have "(5::rat) powi (- k) = of_int (5 ^ nat (- k))"
    using assms(3) by (simp add: power_int_def)
  ultimately have "x = of_int (n * 2 ^ nat (fexp x - k) * 5 ^ nat (- k)) * 10 powi k"
    by (simp only: of_int_mult)
  then show ?thesis by blast
qed

lemma shortest_from_val:
  assumes "rnd x = x" "k - int n = - 1074"
  shows "rnd (dec_val (shortest_from n x k)) = x"
  using assms(2)
proof (induction n arbitrary: k)
  case 0
  then have "k \<le> fexp x" "k \<le> 0" by (simp_all add: fexp_def)
  then obtain i where i: "x = of_int i * 10 powi k"
    using repr_multiple [OF assms(1)] by blast
  then have "x / 10 powi k = of_int i" by simp
  then have "shortest_from 0 x k = (i, k)" by (simp only: shortest_from.simps rne_of_int)
  then have "dec_val (shortest_from 0 x k) = x" using i by (simp add: dec_val_def)
  with assms(1) show ?case by simp
next
  case (Suc n)
  then show ?case by (auto split: option.split simp: dec_cand_val)
qed

lemma shortest_from_nonneg: "0 < x \<Longrightarrow> 0 \<le> fst (shortest_from n x k)"
proof (induction n arbitrary: k)
  case 0
  then show ?case using rne_ge_of_int [of 0 "x / 10 powi k"] by simp
next
  case (Suc n)
  then show ?case by (auto split: option.split dest: dec_cand_nonneg)
qed

lemma ilog2_repr_ge:
  assumes "0 < x" "rnd x = x"
  shows "-1074 \<le> ilog2 x"
proof -
  obtain n where n: "x = of_int n * 2 powi (fexp x)"
    using rnd_shape [of x] assms(2) by auto
  have "0 < of_int n * (2::rat) powi (fexp x)" using n assms(1) by simp
  moreover have "\<not> (2::rat) powi (fexp x) < 0" by (simp add: not_less)
  ultimately have "1 \<le> n" by (simp add: zero_less_mult_iff)
  then have "2 powi (fexp x) \<le> x"
    using mult_right_mono [of 1 "of_int n :: rat" "2 powi (fexp x)"] n by simp
  also have "x < 2 powi (ilog2 x + 1)" using ilog2_bounds assms(1) by blast
  finally have "fexp x < ilog2 x + 1" by (rule powi_less_cancel)
  then show ?thesis by (simp add: fexp_def)
qed

theorem shortest_val:
  assumes "0 < x" "rnd x = x"
  shows "rnd (dec_val (shortest x)) = x"
  unfolding shortest_def Let_def
  by (rule shortest_from_val [OF assms(2)]) (use ilog2_repr_ge [OF assms] in simp)

lemma shortest_nonneg: "0 < x \<Longrightarrow> 0 \<le> fst (shortest x)"
  by (simp add: shortest_def Let_def shortest_from_nonneg)

section \<open>Number tokens\<close>

definition zeros :: "int \<Rightarrow> string" where
  "zeros n = replicate (nat n) (dig 0)"

definition int_str :: "int \<Rightarrow> string" where
  "int_str i = (if i < 0 then ''-'' @ nat_str (nat (- i)) else nat_str (nat i))"

definition exp_str :: "int \<Rightarrow> string" where
  "exp_str e = ''e'' @ (if e < 0 then ''-'' else ''+'') @
     (if \<bar>e\<bar> < 10 then zeros 1 else []) @ nat_str (nat \<bar>e\<bar>)"

text \<open>
  \<open>repr\<close> of a positive float from its shortest digits: \<open>p\<close> is the position of the decimal
  point; positional notation for \<open>-4 < p <= 16\<close>, scientific otherwise.
\<close>

definition pos_repr :: "rat \<Rightarrow> string" where
  "pos_repr x = (let (m, k) = shortest x; ds = nat_str (nat m); n = int (length ds); p = n + k in
     if -4 < p \<and> p \<le> 16 then
       (if p \<le> 0 then ''0.'' @ zeros (- p) @ ds
        else if n \<le> p then ds @ zeros (p - n) @ ''.0''
        else take (nat p) ds @ ''.'' @ drop (nat p) ds)
     else take 1 ds @ (if n = 1 then [] else ''.'' @ drop 1 ds) @ exp_str (p - 1))"

fun float_repr :: "pyfloat \<Rightarrow> string" where
  "float_repr (Fin q) = (if q = 0 then ''0.0'' else if q < 0 then ''-'' @ pos_repr (- q) else pos_repr q)"
| "float_repr PInf = ''inf''"
| "float_repr NInf = ''-inf''"
| "float_repr NaN = ''nan''"

text \<open>
  Reading a number token the way \<open>json.loads\<close> does: an optional minus sign, digits, an
  optional fraction, an optional exponent; without fraction and exponent it is an integer,
  otherwise the decimal is rounded to a float.
\<close>

datatype num = NInt int | NFloat pyfloat

definition read_digits :: "string \<Rightarrow> nat option" where
  "read_digits u = (if u \<noteq> [] \<and> list_all is_digit u then Some (digits_val u) else None)"

definition read_exp :: "string \<Rightarrow> int option" where
  "read_exp s = (case s of [] \<Rightarrow> Some 0
     | c # t \<Rightarrow> if c \<noteq> CHR ''e'' \<and> c \<noteq> CHR ''E'' then None else
        (case t of [] \<Rightarrow> None
         | d # u \<Rightarrow> if d = CHR ''-'' then map_option (\<lambda>n. - int n) (read_digits u)
             else if d = CHR ''+'' then map_option int (read_digits u)
             else map_option int (read_digits t)))"

definition read_frac :: "string \<Rightarrow> string \<times> string" where
  "read_frac s = (case s of [] \<Rightarrow> ([], [])
     | c # t \<Rightarrow> if c = CHR ''.'' then (takeWhile is_digit t, dropWhile is_digit t) else ([], s))"

definition read_unsigned :: "string \<Rightarrow> (bool \<times> rat) option" where
  "read_unsigned s = (let ip = takeWhile is_digit s; r = dropWhile is_digit s;
       (fp, r') = read_frac r in
     if ip = [] then None else
     case read_exp r' of None \<Rightarrow> None
     | Some e \<Rightarrow> Some (r = [], of_nat (digits_val (ip @ fp)) * 10 powi (e - int (length fp))))"

definition read_num :: "string \<Rightarrow> num option" where
  "read_num s = (let (neg, t) = (case s of [] \<Rightarrow> (False, s)
       | c # u \<Rightarrow> if c = CHR ''-'' then (True, u) else (False, s)) in
     case read_unsigned t of None \<Rightarrow> None
     | Some (is_int, v) \<Rightarrow> let w = (if neg then - v else v) in
         Some (if is_int then NInt \<lfloor>w\<rfloor> else NFloat (b64 w)))"

lemma span_digits:
  assumes "list_all is_digit xs" "ys = [] \<or> \<not> is_digit (hd ys)"
  shows "takeWhile is_digit (xs @ ys) = xs" "dropWhile is_digit (xs @ ys) = ys"
  using assms by (induction xs; cases ys; auto)+

lemma not_digit [simp]:
  "is_digit CHR ''0''" "\<not> is_digit CHR ''.''" "\<not> is_digit CHR ''e''" "\<not> is_digit CHR ''-''" "\<not> is_digit CHR ''+''"
  by (simp_all add: is_digit_def)

lemma digit_0 [simp]: "dig 0 = CHR ''0''"
  by code_simp

lemma zeros_digits [simp]: "list_all is_digit (zeros n)"
  by (simp add: zeros_def list_all_iff)

section \<open>Printed numbers read back\<close>

lemma read_exp_digits:
  "list_all is_digit u \<Longrightarrow> u \<noteq> [] \<Longrightarrow> read_exp (CHR ''e'' # CHR ''-'' # u) = Some (- int (digits_val u))"
  "list_all is_digit u \<Longrightarrow> u \<noteq> [] \<Longrightarrow> read_exp (CHR ''e'' # CHR ''+'' # u) = Some (int (digits_val u))"
  by (simp_all add: read_exp_def read_digits_def)

lemma read_exp_Nil [simp]: "read_exp [] = Some 0"
  by (simp add: read_exp_def)

lemma read_exp_str [simp]: "read_exp (exp_str e) = Some e"
proof -
  define u where "u = (if \<bar>e\<bar> < 10 then zeros 1 else []) @ nat_str (nat \<bar>e\<bar>)"
  have u: "list_all is_digit u" "u \<noteq> []" "digits_val u = nat \<bar>e\<bar>"
    by (auto simp: u_def zeros_def digits_val_append)
      (simp_all add: digits_val_def dval_def)
  have "exp_str e = (if e < 0 then CHR ''e'' # CHR ''-'' # u else CHR ''e'' # CHR ''+'' # u)"
    by (simp add: exp_str_def u_def)
  with u show ?thesis by (simp add: read_exp_digits)
qed

lemma exp_str_Cons: "\<exists>t. exp_str e = CHR ''e'' # t"
  by (simp add: exp_str_def)

lemma read_unsigned_int:
  "list_all is_digit ip \<Longrightarrow> ip \<noteq> [] \<Longrightarrow>
    read_unsigned ip = Some (True, of_nat (digits_val ip))"
  by (simp add: read_unsigned_def read_frac_def span_digits [of ip "[]", unfolded append_Nil2])

lemma read_unsigned_exp:
  assumes "list_all is_digit ip" "ip \<noteq> []"
  shows "read_unsigned (ip @ exp_str e) = Some (False, of_nat (digits_val ip) * 10 powi e)"
proof -
  obtain t where t: "exp_str e = CHR ''e'' # t" using exp_str_Cons by blast
  have "read_exp (CHR ''e'' # t) = Some e" using read_exp_str [of e] t by simp
  with span_digits [of ip "exp_str e"] assms t show ?thesis
    by (simp add: read_unsigned_def read_frac_def)
qed

lemma read_unsigned_frac:
  assumes "list_all is_digit ip" "ip \<noteq> []" "list_all is_digit fp"
    and t: "t = [] \<and> e = 0 \<or> t = exp_str e"
  shows "read_unsigned (ip @ CHR ''.'' # fp @ t) =
    Some (False, of_nat (digits_val (ip @ fp)) * 10 powi (e - int (length fp)))"
proof -
  have "t = [] \<or> \<not> is_digit (hd t)" using t exp_str_Cons [of e] by auto
  moreover have "read_exp t = Some e" using t by auto
  ultimately show ?thesis
    using span_digits [of ip "CHR ''.'' # fp @ t"] span_digits [of fp t] assms(1-3)
    by (simp add: read_unsigned_def read_frac_def)
qed

lemma list_all_take_drop: "list_all P xs \<Longrightarrow> list_all P (take n xs) \<and> list_all P (drop n xs)"
  by (simp add: list_all_iff) (meson in_set_dropD in_set_takeD)

lemma pos_repr_reads:
  assumes m: "0 \<le> m" and sh: "shortest x = (m, k)"
  shows "read_unsigned (pos_repr x) = Some (False, of_int m * 10 powi k)"
proof -
  define ds where "ds = nat_str (nat m)"
  define n where "n = int (length ds)"
  define p where "p = n + k"
  have ds: "list_all is_digit ds" "ds \<noteq> []" "digits_val ds = nat m"
    by (simp_all add: ds_def)
  have n: "1 \<le> n" using ds by (cases ds) (simp_all add: n_def)
  have mv: "of_nat (nat m) = (of_int m :: rat)" using m by simp
  note td = list_all_take_drop [OF ds(1)]
  have eq: "pos_repr x = (if -4 < p \<and> p \<le> 16 then
       (if p \<le> 0 then ''0.'' @ zeros (- p) @ ds
        else if n \<le> p then ds @ zeros (p - n) @ ''.0''
        else take (nat p) ds @ ''.'' @ drop (nat p) ds)
     else take 1 ds @ (if n = 1 then [] else ''.'' @ drop 1 ds) @ exp_str (p - 1))"
    by (simp add: pos_repr_def sh ds_def n_def p_def Let_def)
  consider (small) "-4 < p" "p \<le> 0" | (big) "0 < p" "p \<le> 16" "n \<le> p"
    | (mid) "0 < p" "p \<le> 16" "p < n" | (sci1) "\<not> (-4 < p \<and> p \<le> 16)" "n = 1"
    | (sci) "\<not> (-4 < p \<and> p \<le> 16)" "n \<noteq> 1"
    by linarith
  then show ?thesis
  proof cases
    case small
    have "read_unsigned (''0'' @ CHR ''.'' # (zeros (- p) @ ds) @ []) =
      Some (False, of_nat (digits_val (''0'' @ zeros (- p) @ ds)) * 10 powi (0 - int (length (zeros (- p) @ ds))))"
      by (rule read_unsigned_frac) (use ds zeros_digits [of "- p"] in \<open>auto simp: is_digit_def\<close>)
    moreover have "digits_val (''0'' @ zeros (- p) @ ds) = nat m"
      using ds(3) digits_val_shift [of "Suc (nat (- p))" ds] by (simp add: zeros_def)
    moreover have "0 - int (length (zeros (- p) @ ds)) = k"
      using small by (simp add: zeros_def p_def n_def)
    ultimately show ?thesis using small mv by (simp add: eq)
  next
    case big
    have "read_unsigned ((ds @ zeros (p - n)) @ CHR ''.'' # ''0'' @ []) =
      Some (False, of_nat (digits_val ((ds @ zeros (p - n)) @ ''0'')) * 10 powi (0 - int (length ''0'')))"
      by (rule read_unsigned_frac) (use ds zeros_digits [of "p - n"] in \<open>auto simp: is_digit_def\<close>)
    moreover have "(ds @ zeros (p - n)) @ ''0'' = ds @ replicate (Suc (nat k)) (dig 0)"
      by (simp add: zeros_def p_def replicate_append_same)
    moreover have "(of_nat (digits_val (ds @ replicate (Suc (nat k)) (dig 0))) :: rat) = of_int m * 10 ^ Suc (nat k)"
      using mv ds(3) digits_val_zeros [of "Suc (nat k)"] by (simp only: digits_val_append length_replicate) simp
    moreover have "(10::rat) ^ Suc (nat k) * 10 powi (0 - int (length ''0'')) = 10 powi k"
      using big by (simp add: p_def power_int_def)
    ultimately show ?thesis using big by (simp add: eq)
  next
    case mid
    have "read_unsigned (take (nat p) ds @ CHR ''.'' # drop (nat p) ds @ []) =
      Some (False, of_nat (digits_val (take (nat p) ds @ drop (nat p) ds)) * 10 powi (0 - int (length (drop (nat p) ds))))"
      by (rule read_unsigned_frac) (use ds td mid in auto)
    moreover have "0 - int (length (drop (nat p) ds)) = k"
      using mid by (simp add: p_def n_def)
    ultimately show ?thesis using mid mv ds(3) by (simp add: eq)
  next
    case sci1
    then have "take 1 ds = ds" "p - 1 = k" by (simp_all add: n_def p_def)
    with sci1 have "pos_repr x = ds @ exp_str k" by (simp only: eq if_False simp_thms if_True append_Nil)
    with ds mv show ?thesis by (simp add: read_unsigned_exp)
  next
    case sci
    have "read_unsigned (take 1 ds @ CHR ''.'' # drop 1 ds @ exp_str (p - 1)) =
      Some (False, of_nat (digits_val (take 1 ds @ drop 1 ds)) * 10 powi (p - 1 - int (length (drop 1 ds))))"
      by (rule read_unsigned_frac) (use ds td in auto)
    moreover have "p - 1 - int (length (drop 1 ds)) = k"
      using n by (simp add: p_def n_def)
    moreover have "pos_repr x = take 1 ds @ CHR ''.'' # drop 1 ds @ exp_str (p - 1)"
      using sci by (simp only: eq simp_thms if_False append_Cons append_Nil)
    moreover have "take 1 ds @ drop 1 ds = ds" by simp
    ultimately show ?thesis using mv ds(3) by (simp only:)
  qed
qed

lemma is_digit_not_minus: "list_all is_digit u \<Longrightarrow> u \<noteq> [] \<Longrightarrow> hd u \<noteq> CHR ''-''"
  by (cases u) auto

lemma read_num_pos: "s \<noteq> [] \<Longrightarrow> hd s \<noteq> CHR ''-'' \<Longrightarrow> read_unsigned s = Some (i, v) \<Longrightarrow>
    read_num s = Some (if i then NInt \<lfloor>v\<rfloor> else NFloat (b64 v))"
  by (cases s) (auto simp: read_num_def)

lemma read_num_neg: "read_unsigned s = Some (i, v) \<Longrightarrow>
    read_num (CHR ''-'' # s) = Some (if i then NInt \<lfloor>- v\<rfloor> else NFloat (b64 (- v)))"
  by (auto simp: read_num_def)

theorem read_int_str: "read_num (int_str i) = Some (NInt i)"
proof (cases "i < 0")
  case True
  then show ?thesis
    by (simp add: int_str_def read_num_neg [OF read_unsigned_int])
next
  case False
  then show ?thesis
    by (simp add: int_str_def read_num_pos [OF _ _ read_unsigned_int] is_digit_not_minus)
qed

lemma read_unsigned_hd: "read_unsigned s = Some v \<Longrightarrow> s \<noteq> [] \<and> is_digit (hd s)"
  by (cases s) (auto simp: read_unsigned_def Let_def split: prod.splits if_splits)

theorem read_float_repr:
  assumes "wf_float (Fin q)"
  shows "read_num (float_repr (Fin q)) = Some (NFloat (Fin q))"
proof -
  have pos: "read_num (pos_repr x) = Some (NFloat (Fin x)) \<and>
      read_num (CHR ''-'' # pos_repr x) = Some (NFloat (Fin (- x)))"
    if x: "0 < x" "wf_float (Fin x)" for x
  proof -
    obtain m k where mk: "shortest x = (m, k)" by (cases "shortest x")
    have v: "rnd (of_int m * 10 powi k) = x"
      using shortest_val [of x] x mk by (simp add: dec_val_def)
    have "0 \<le> m" using shortest_nonneg [of x] x mk by simp
    then have r: "read_unsigned (pos_repr x) = Some (False, of_int m * 10 powi k)"
      by (rule pos_repr_reads [OF _ mk])
    have "b64 (of_int m * 10 powi k) = Fin x" "b64 (- (of_int m * 10 powi k)) = Fin (- x)"
      using v x by (simp_all add: b64_eq rnd_minus)
    moreover have "hd (pos_repr x) \<noteq> CHR ''-''" "pos_repr x \<noteq> []"
      using read_unsigned_hd [OF r] by auto
    ultimately show ?thesis
      using read_num_pos [OF _ _ r] read_num_neg [OF r] by auto
  qed
  consider "q = 0" | "0 < q" | "q < 0" by linarith
  then show ?thesis
  proof cases
    case 1
    have "read_unsigned (''0'' @ CHR ''.'' # ''0'' @ []) =
        Some (False, of_nat (digits_val (''0'' @ ''0'')) * 10 powi (0 - int (length ''0'')))"
      by (rule read_unsigned_frac) auto
    moreover have "digits_val ''00'' = 0" by code_simp
    ultimately have "read_unsigned ''0.0'' = Some (False, 0)" by simp
    with 1 show ?thesis using read_num_pos [of "''0.0''" False 0] by (simp add: b64_def)
  next
    case 2
    then show ?thesis using pos [of q] assms by simp
  next
    case 3
    then show ?thesis using pos [of "- q"] assms by (simp add: rnd_minus)
  qed
qed

end
