(* ===== verification/Json.thy ===== *)
theory Json
  imports PyDecimal "HOL-Library.List_Lexorder" "HOL-Library.Multiset"
begin

text \<open>
  The canonical JSON of the durable artifacts: \<open>json.dumps(value, sort_keys=True,
  separators=(",", ":"), ensure_ascii=False, allow_nan=False).encode("utf-8")\<close>, written
  \<open>_canonical\<close> in the ledger, journal, reconciliation and submit-path modules.

  \<open>canonical\<close> first sorts the keys of every object and then prints.  The payloads of the
  modelled code hold only finite floats (the contracts reject the others), which is what
  \<open>allow_nan=False\<close> asks for.  \<open>loads\<close> reads the compact texts \<open>canonical\<close> writes, with the
  object hook that rejects duplicate keys; the callers compare the re-printed value with the
  line they read, so texts outside the canonical form are rejected by the model and by the code
  alike.  The main facts are \<open>loads_dumps\<close> (printing and reading is the identity) and
  \<open>canonical_inj\<close> (two values with the same canonical text are equal up to key order).
\<close>

section \<open>Values and printing\<close>

datatype json =
    JNull
  | JBool bool
  | JInt int
  | JFloat pyfloat
  | JStr string
  | JList "json list"
  | JObj "(string \<times> json) list"

definition hex_digit :: "nat \<Rightarrow> char" where
  "hex_digit n = (if n < 10 then dig n else (char_of (87 + n) :: char))"

text \<open>Escapes of \<open>json.dumps\<close> with \<open>ensure_ascii=False\<close>: quote, backslash, control characters.\<close>

definition esc_char :: "char \<Rightarrow> string" where
  "esc_char c = (let n = (of_char c :: nat) in
     if n = 34 then [CHR 0x5C, CHR 0x22]
     else if n = 92 then [CHR 0x5C, CHR 0x5C]
     else if n = 10 then [CHR 0x5C, CHR ''n'']
     else if n = 13 then [CHR 0x5C, CHR ''r'']
     else if n = 9 then [CHR 0x5C, CHR ''t'']
     else if n = 8 then [CHR 0x5C, CHR ''b'']
     else if n = 12 then [CHR 0x5C, CHR ''f'']
     else if n < 32 then [CHR 0x5C, CHR ''u'', CHR ''0'', CHR ''0'', hex_digit (n div 16), hex_digit (n mod 16)]
     else [c])"

definition quote :: "string \<Rightarrow> string" where
  "quote s = CHR 0x22 # concat (map esc_char s) @ [CHR 0x22]"

fun join :: "string \<Rightarrow> string list \<Rightarrow> string" where
  "join sep [] = []"
| "join sep [x] = x"
| "join sep (x # y # ys) = x @ sep @ join sep (y # ys)"

fun dumps :: "json \<Rightarrow> string" where
  "dumps JNull = ''null''"
| "dumps (JBool b) = (if b then ''true'' else ''false'')"
| "dumps (JInt i) = int_str i"
| "dumps (JFloat x) = float_repr x"
| "dumps (JStr s) = quote s"
| "dumps (JList vs) = ''['' @ join '','' (map dumps vs) @ '']''"
| "dumps (JObj kvs) = ''{'' @ join '','' (map (\<lambda>(k, v). quote k @ '':'' @ dumps v) kvs) @ ''}''"

fun sort_json :: "json \<Rightarrow> json" where
  "sort_json (JList vs) = JList (map sort_json vs)"
| "sort_json (JObj kvs) = JObj (sort_key fst (map (\<lambda>(k, v). (k, sort_json v)) kvs))"
| "sort_json j = j"

definition canonical :: "json \<Rightarrow> string" where
  "canonical j = dumps (sort_json j)"

text \<open>Well-formed values: finite floats that binary64 has, and objects with distinct keys.\<close>

fun wf_json :: "json \<Rightarrow> bool" where
  "wf_json (JFloat x) \<longleftrightarrow> isfinite x \<and> wf_float x"
| "wf_json (JList vs) \<longleftrightarrow> list_all wf_json vs"
| "wf_json (JObj kvs) \<longleftrightarrow> distinct (map fst kvs) \<and> list_all (\<lambda>(k, v). wf_json v) kvs"
| "wf_json _ \<longleftrightarrow> True"

section \<open>Reading\<close>

definition unhex :: "char \<Rightarrow> nat option" where
  "unhex c = (let n = (of_char c :: nat) in
     if is_digit c then Some (n - 48) else if 97 \<le> n \<and> n \<le> 102 then Some (n - 87) else None)"

definition unesc :: "char \<Rightarrow> char option" where
  "unesc c = (if c = CHR 0x22 then Some (CHR 0x22) else if c = CHR 0x5C then Some (CHR 0x5C)
     else if c = CHR ''n'' then Some (CHR 0x0A) else if c = CHR ''r'' then Some (CHR 0x0D)
     else if c = CHR ''t'' then Some (CHR 0x09) else if c = CHR ''b'' then Some (CHR 0x08)
     else if c = CHR ''f'' then Some (CHR 0x0C) else None)"

definition cons_fst :: "'a \<Rightarrow> ('a list \<times> 'b) option \<Rightarrow> ('a list \<times> 'b) option" where
  "cons_fst x r = (case r of None \<Rightarrow> None | Some (xs, y) \<Rightarrow> Some (x # xs, y))"

lemma cons_fst_Some [simp]: "cons_fst x (Some (xs, y)) = Some (x # xs, y)"
  by (simp add: cons_fst_def)

text \<open>The rest of a string literal after its opening quote.\<close>

fun parse_str :: "string \<Rightarrow> (string \<times> string) option" where
  "parse_str [] = None"
| "parse_str (c # s) =
     (if c = CHR 0x22 then Some ([], s)
      else if c = CHR 0x5C then
        (case s of [] \<Rightarrow> None
         | e # t \<Rightarrow>
           (if e = CHR ''u'' then
              (case t of a # b # h # l # r \<Rightarrow>
                 (case (unhex h, unhex l) of (Some x, Some y) \<Rightarrow>
                    (if a = CHR ''0'' \<and> b = CHR ''0''
                     then cons_fst (char_of (16 * x + y)) (parse_str r) else None)
                  | _ \<Rightarrow> None)
               | _ \<Rightarrow> None)
            else (case unesc e of None \<Rightarrow> None | Some d \<Rightarrow> cons_fst d (parse_str t))))
      else cons_fst c (parse_str s))"

definition is_numchar :: "char \<Rightarrow> bool" where
  "is_numchar c \<longleftrightarrow> is_digit c \<or> c \<in> {CHR ''-'', CHR ''+'', CHR ''.'', CHR ''e'', CHR ''E''}"

definition json_of_num :: "num \<Rightarrow> json" where
  "json_of_num v = (case v of NInt i \<Rightarrow> JInt i | NFloat x \<Rightarrow> JFloat x)"

fun parse_value :: "nat \<Rightarrow> string \<Rightarrow> (json \<times> string) option"
  and parse_elems :: "nat \<Rightarrow> string \<Rightarrow> (json list \<times> string) option"
  and parse_members :: "nat \<Rightarrow> string \<Rightarrow> ((string \<times> json) list \<times> string) option" where
  "parse_value 0 s = None"
| "parse_value (Suc n) s =
     (case s of [] \<Rightarrow> None
      | c # t \<Rightarrow>
        if c = CHR 0x22 then map_option (\<lambda>(x, r). (JStr x, r)) (parse_str t)
        else if c = CHR ''['' then
          (if take 1 t = '']'' then Some (JList [], drop 1 t)
           else map_option (\<lambda>(vs, r). (JList vs, r)) (parse_elems n t))
        else if c = CHR ''{'' then
          (if take 1 t = ''}'' then Some (JObj [], drop 1 t)
           else (case parse_members n t of None \<Rightarrow> None
             | Some (kvs, r) \<Rightarrow> if distinct (map fst kvs) then Some (JObj kvs, r) else None))
        else if take 4 s = ''null'' then Some (JNull, drop 4 s)
        else if take 4 s = ''true'' then Some (JBool True, drop 4 s)
        else if take 5 s = ''false'' then Some (JBool False, drop 5 s)
        else map_option (\<lambda>v. (json_of_num v, dropWhile is_numchar s)) (read_num (takeWhile is_numchar s)))"
| "parse_elems 0 s = None"
| "parse_elems (Suc n) s =
     (case parse_value n s of Some (v, c # r) \<Rightarrow>
        (if c = CHR '','' then cons_fst v (parse_elems n r)
         else if c = CHR '']'' then Some ([v], r) else None)
      | _ \<Rightarrow> None)"
| "parse_members 0 s = None"
| "parse_members (Suc n) s =
     (case s of [] \<Rightarrow> None
      | q # t \<Rightarrow> if q \<noteq> CHR 0x22 then None else
        (case parse_str t of Some (k, d # u) \<Rightarrow> if d \<noteq> CHR '':'' then None else
           (case parse_value n u of Some (v, c # r) \<Rightarrow>
              (if c = CHR '','' then cons_fst (k, v) (parse_members n r)
               else if c = CHR ''}'' then Some ([(k, v)], r) else None)
            | _ \<Rightarrow> None)
         | _ \<Rightarrow> None))"

definition loads :: "string \<Rightarrow> json option" where
  "loads s = (case parse_value (length s) s of Some (j, []) \<Rightarrow> Some j | _ \<Rightarrow> None)"

section \<open>Roundtrip\<close>

lemma char_less_32_cases: "(of_char c :: nat) < 32 \<Longrightarrow> c = char_of (of_char c :: nat)"
  by simp

lemma unhex_hex_digit: "n < 16 \<Longrightarrow> unhex (hex_digit n) = Some n"
  by (auto simp: hex_digit_def unhex_def is_digit_def of_char_dig)

lemma parse_str_char: "parse_str (esc_char c @ s) = cons_fst c (parse_str s)"
proof -
  have c: "c = char_of (of_char c :: nat)" by simp
  have h: "unhex (hex_digit (of_char c div 16)) = Some (of_char c div 16)"
      "unhex (hex_digit (of_char c mod 16)) = Some (of_char c mod 16)" if "(of_char c :: nat) < 32"
    using that by (auto intro!: unhex_hex_digit)
  have e: "(of_char c :: nat) = of_char d \<longleftrightarrow> c = d" for d
    by (metis char_of_char)
  note eqs = e [of "CHR 0x22"] e [of "CHR 0x5C"] e [of "CHR 0x0A"] e [of "CHR 0x0D"]
    e [of "CHR 0x09"] e [of "CHR 0x08"] e [of "CHR 0x0C"]
  show ?thesis
    using eqs h by (auto simp: esc_char_def Let_def unesc_def)
qed

lemma parse_str_quote: "parse_str (concat (map esc_char s) @ CHR 0x22 # r) = Some (s, r)"
  by (induction s) (simp_all add: parse_str_char)

lemma numchar_digits: "list_all is_digit s \<Longrightarrow> list_all is_numchar s"
  by (auto simp: list_all_iff is_numchar_def)

lemma numchar_zeros [simp]: "list_all is_numchar (zeros n)"
  by (simp add: numchar_digits)

lemma numchar_nat_str [simp]: "list_all is_numchar (nat_str n)"
  by (simp add: numchar_digits)

lemma numchar_lits [simp]: "is_numchar CHR ''-''" "is_numchar CHR ''+''" "is_numchar CHR ''.''"
    "is_numchar CHR ''e''" "is_numchar CHR ''0''" "\<not> is_numchar CHR '',''" "\<not> is_numchar CHR '']''"
    "\<not> is_numchar CHR ''}''"
  by (simp_all add: is_numchar_def is_digit_def)

lemma numchar_exp_str [simp]: "list_all is_numchar (exp_str e)"
  by (simp add: exp_str_def)

lemma numchar_take_drop [simp]:
  "list_all is_numchar xs \<Longrightarrow> list_all is_numchar (take n xs)"
  "list_all is_numchar xs \<Longrightarrow> list_all is_numchar (drop n xs)"
  using list_all_take_drop by blast+

lemma numchar_int_str: "list_all is_numchar (int_str i)"
  by (simp add: int_str_def)

lemma numchar_pos_repr: "list_all is_numchar (pos_repr x)"
  by (simp add: pos_repr_def Let_def split: prod.split)

lemma numchar_float_repr: "isfinite x \<Longrightarrow> list_all is_numchar (float_repr x)"
  by (cases x) (simp_all add: numchar_pos_repr)

lemma read_num_hd: "read_num s = Some v \<Longrightarrow> s \<noteq> [] \<and> (is_digit (hd s) \<or> hd s = CHR ''-'')"
  by (cases s) (auto simp: read_num_def dest!: read_unsigned_hd split: if_splits option.splits)

lemma span_numchars:
  assumes "list_all is_numchar xs" "ys = [] \<or> \<not> is_numchar (hd ys)"
  shows "takeWhile is_numchar (xs @ ys) = xs" "dropWhile is_numchar (xs @ ys) = ys"
  using assms by (induction xs; cases ys; auto)+

lemma digit_not_lit: "is_digit c \<or> c = CHR ''-'' \<Longrightarrow>
  c \<noteq> CHR 0x22 \<and> c \<noteq> CHR ''['' \<and> c \<noteq> CHR ''{'' \<and> c \<noteq> CHR ''n'' \<and> c \<noteq> CHR ''t'' \<and> c \<noteq> CHR ''f''"
  by (auto simp: is_digit_def)

lemma parse_value_num:
  assumes "read_num s = Some v" "list_all is_numchar s" "rest = [] \<or> \<not> is_numchar (hd rest)"
  shows "parse_value (Suc n) (s @ rest) = Some (json_of_num v, rest)"
proof -
  obtain c t where s: "s = c # t" "is_digit c \<or> c = CHR ''-''"
    using read_num_hd [OF assms(1)] by (cases s) auto
  show ?thesis
    using digit_not_lit [OF s(2)] span_numchars [OF assms(2,3)] assms(1) s(1)
    by (simp add: json_of_num_def)
qed

text \<open>The first character of a printed value is never a closing bracket.\<close>

lemma dumps_hd:
  assumes "wf_json j" shows "\<exists>c t. dumps j = c # t \<and> c \<noteq> CHR '']'' \<and> c \<noteq> CHR ''}''"
proof (cases j)
  case (JInt i)
  then show ?thesis using read_num_hd [OF read_int_str [of i]]
    by (cases "int_str i") (auto simp: is_digit_def)
next
  case (JFloat x)
  with assms obtain q where x: "x = Fin q" "wf_float (Fin q)" by (auto simp: isfinite_iff)
  then show ?thesis using read_num_hd [OF read_float_repr [of q]] JFloat
    by (cases "float_repr (Fin q)") (auto simp: is_digit_def)
qed (auto simp: quote_def)

lemma parse_elems_join:
  assumes "\<And>v n rest. v \<in> set vs \<Longrightarrow> length (dumps v) \<le> n \<Longrightarrow>
      rest = [] \<or> \<not> is_numchar (hd rest) \<Longrightarrow> parse_value n (dumps v @ rest) = Some (v, rest)"
    and "vs \<noteq> []" "length (join '','' (map dumps vs)) < n"
  shows "parse_elems n (join '','' (map dumps vs) @ CHR '']'' # rest) = Some (vs, rest)"
  using assms
proof (induction vs arbitrary: n)
  case (Cons v vs)
  obtain n' where n: "n = Suc n'" using Cons.prems by (cases n) auto
  show ?case
  proof (cases vs)
    case Nil
    with Cons.prems n have "parse_value n' (dumps v @ CHR '']'' # rest) = Some (v, CHR '']'' # rest)"
      by auto
    with Nil n show ?thesis by simp
  next
    case (Cons w ws)
    let ?tl = "join '','' (map dumps vs) @ CHR '']'' # rest"
    have len: "length (dumps v) \<le> n'" "length (join '','' (map dumps vs)) < n'"
      using Cons.prems(3) n Cons by simp_all
    then have "parse_value n' (dumps v @ CHR '','' # ?tl) = Some (v, CHR '','' # ?tl)"
      using Cons.prems(1) by auto
    moreover have "parse_elems n' ?tl = Some (vs, rest)"
      using Cons.IH [of n'] Cons.prems(1) len Cons by auto
    ultimately show ?thesis using n Cons by simp
  qed
qed simp

definition member_str :: "string \<times> json \<Rightarrow> string" where
  "member_str p = (case p of (k, v) \<Rightarrow> quote k @ '':'' @ dumps v)"

lemma length_member_str [simp]:
  "length (member_str (k, v)) = length (quote k) + Suc (length (dumps v))"
  by (simp add: member_str_def)

lemma member_str_pair:
  "member_str (k, v) = CHR 0x22 # concat (map esc_char k) @ CHR 0x22 # CHR '':'' # dumps v"
  by (simp add: member_str_def quote_def)

lemma dumps_JObj: "dumps (JObj kvs) = ''{'' @ join '','' (map member_str kvs) @ ''}''"
  by (simp add: member_str_def [abs_def])

lemma parse_members_join:
  assumes "\<And>k v n rest. (k, v) \<in> set kvs \<Longrightarrow> length (dumps v) \<le> n \<Longrightarrow>
      rest = [] \<or> \<not> is_numchar (hd rest) \<Longrightarrow> parse_value n (dumps v @ rest) = Some (v, rest)"
    and "kvs \<noteq> []" "length (join '','' (map member_str kvs)) < n"
  shows "parse_members n (join '','' (map member_str kvs) @ CHR ''}'' # rest) = Some (kvs, rest)"
  using assms
proof (induction kvs arbitrary: n)
  case (Cons p kvs)
  obtain k v where p: "p = (k, v)" by (cases p)
  obtain n' where n: "n = Suc n'" using Cons.prems by (cases n) auto
  show ?case
  proof (cases kvs)
    case Nil
    with Cons.prems n p have "parse_value n' (dumps v @ CHR ''}'' # rest) = Some (v, CHR ''}'' # rest)"
      by (auto simp: member_str_def)
    with Nil n p show ?thesis by (simp add: member_str_def quote_def parse_str_quote)
  next
    case (Cons w ws)
    let ?tl = "join '','' (map member_str kvs) @ CHR ''}'' # rest"
    have len: "length (dumps v) \<le> n'" "length (join '','' (map member_str kvs)) < n'"
      using Cons.prems(3) n p Cons by simp_all
    have "parse_value n' (dumps v @ CHR '','' # ?tl) = Some (v, CHR '','' # ?tl)"
      by (rule Cons.prems(1) [of k v]) (use len p in auto)
    moreover have "parse_members n' ?tl = Some (kvs, rest)"
      using Cons.IH [of n'] Cons.prems(1) len Cons by auto
    ultimately show ?thesis using n p Cons by (simp add: member_str_pair parse_str_quote)
  qed
qed simp

lemma join_hd:
  assumes "x # xs \<noteq> []" "x = c # t" shows "\<exists>u. join s (x # xs) = c # u"
  using assms by (cases xs) auto

lemma parse_value_dumps:
  "wf_json j \<Longrightarrow> length (dumps j) \<le> n \<Longrightarrow> rest = [] \<or> \<not> is_numchar (hd rest) \<Longrightarrow>
    parse_value n (dumps j @ rest) = Some (j, rest)"
proof (induction j arbitrary: n rest)
  case (JInt i)
  obtain m where "n = Suc m"
    using JInt.prems(2) read_num_hd [OF read_int_str [of i]] by (cases n) auto
  then show ?case
    using parse_value_num [OF read_int_str numchar_int_str JInt.prems(3), of m] by (simp add: json_of_num_def)
next
  case (JFloat x)
  then obtain q where x: "x = Fin q" "wf_float (Fin q)" by (auto simp: isfinite_iff)
  obtain m where "n = Suc m"
    using JFloat.prems(2) read_num_hd [OF read_float_repr [OF x(2)]] x by (cases n) auto
  then show ?case
    using parse_value_num [OF read_float_repr [OF x(2)] numchar_float_repr JFloat.prems(3), of m] x
    by (simp add: json_of_num_def)
next
  case (JStr s)
  then obtain m where "n = Suc m" by (cases n) (auto simp: quote_def)
  then show ?case by (simp add: quote_def parse_str_quote)
next
  case (JList vs)
  then obtain m where n: "n = Suc m" by (cases n) auto
  show ?case
  proof (cases vs)
    case (Cons w ws)
    have "parse_elems m (join '','' (map dumps vs) @ CHR '']'' # rest) = Some (vs, rest)"
      using JList n by (intro parse_elems_join) (auto simp: list_all_iff Cons)
    moreover obtain c u where "join '','' (map dumps vs) = c # u" "c \<noteq> CHR '']''"
      using dumps_hd [of w] join_hd [of "dumps w"] JList.prems Cons by fastforce
    ultimately show ?thesis using n by simp
  qed (use n in simp)
next
  case (JObj kvs)
  then obtain m where n: "n = Suc m" by (cases n) auto
  show ?case
  proof (cases kvs)
    case (Cons w ws)
    have "parse_value i (dumps v @ r) = Some (v, r)"
      if "(k, v) \<in> set kvs" "length (dumps v) \<le> i" "r = [] \<or> \<not> is_numchar (hd r)" for k v i r
      using that JObj.IH [of "(k, v)" v i r] JObj.prems(1) by (auto simp: list_all_iff)
    moreover have "length (join '','' (map member_str kvs)) < m"
      using JObj.prems(2) n by (simp only: dumps_JObj) simp
    ultimately have "parse_members m (join '','' (map member_str kvs) @ CHR ''}'' # rest) = Some (kvs, rest)"
      using Cons by (intro parse_members_join) auto
    moreover obtain u where "join '','' (map member_str kvs) = CHR 0x22 # u"
      using join_hd [of "member_str w"] Cons
      by (cases w) (fastforce simp: member_str_def quote_def)
    ultimately show ?thesis using n JObj.prems(1) by (simp only: dumps_JObj) simp
  qed (use n in simp)
next
  case JNull
  then show ?case by (cases n) auto
next
  case (JBool b)
  then show ?case by (cases n; cases b) auto
qed

theorem loads_dumps: "wf_json j \<Longrightarrow> loads (dumps j) = Some j"
  using parse_value_dumps [of j "length (dumps j)" "[]"] by (simp add: loads_def)

corollary dumps_inj: "wf_json i \<Longrightarrow> wf_json j \<Longrightarrow> dumps i = dumps j \<Longrightarrow> i = j"
  by (metis loads_dumps option.inject)

lemma fst_pair_map: "map fst (map (\<lambda>(k, v). (k, f v)) kvs) = map fst kvs"
  by (induction kvs) auto

lemma distinct_map_sort_key: "distinct (map f (sort_key g xs)) = distinct (map f xs)"
  by (metis mset_eq_imp_distinct_iff mset_map mset_sort)

lemma wf_sort_json: "wf_json j \<Longrightarrow> wf_json (sort_json j)"
proof (induction j)
  case (JList vs)
  then show ?case by (simp add: list_all_iff)
next
  case (JObj kvs)
  have "distinct (map fst (sort_key fst (map (\<lambda>(k, v). (k, sort_json v)) kvs)))"
    using JObj.prems by (simp only: wf_json.simps distinct_map_sort_key fst_pair_map)
  then show ?case using JObj by (fastforce simp: list_all_iff)
qed simp_all

theorem canonical_inj:
  "wf_json i \<Longrightarrow> wf_json j \<Longrightarrow> canonical i = canonical j \<Longrightarrow> sort_json i = sort_json j"
  unfolding canonical_def by (blast intro: dumps_inj wf_sort_json)

theorem loads_canonical: "wf_json j \<Longrightarrow> loads (canonical j) = Some (sort_json j)"
  by (simp add: canonical_def loads_dumps wf_sort_json)


section \<open>Lines\<close>

text \<open>A canonical text never contains a newline, and printing an already sorted value changes nothing.\<close>

lemma esc_no_newline: "CHR 0x0A \<notin> set (esc_char c)"
proof (cases "(of_char c :: nat) = 10")
  case False
  have h: "hex_digit n \<noteq> CHR 0x0A" if "n < 16" for n
    using that by (auto simp: hex_digit_def of_char_dig dest: arg_cong [of _ _ "of_char :: char \<Rightarrow> nat"])
  from False have "c \<noteq> CHR 0x0A" by auto
  moreover have "(of_char c :: nat) div 16 < 16" "(of_char c :: nat) mod 16 < 16" if "(of_char c :: nat) < 32"
    using that by auto
  ultimately show ?thesis using h by (auto simp: esc_char_def Let_def dest: sym)
qed (simp add: esc_char_def)

lemma quote_no_newline: "CHR 0x0A \<notin> set (quote s)"
  using esc_no_newline by (auto simp: quote_def)

lemma join_no_newline: "CHR 0x0A \<notin> set sep \<Longrightarrow> (\<And>x. x \<in> set xs \<Longrightarrow> CHR 0x0A \<notin> set x) \<Longrightarrow> CHR 0x0A \<notin> set (join sep xs)"
  by (induction sep xs rule: join.induct) auto

lemma numchars_no_newline: "list_all is_numchar s \<Longrightarrow> CHR 0x0A \<notin> set s"
  by (auto simp: list_all_iff is_numchar_def is_digit_def)

lemma dumps_no_newline: "wf_json j \<Longrightarrow> CHR 0x0A \<notin> set (dumps j)"
proof (induction j)
  case (JList vs)
  then have "CHR 0x0A \<notin> set (join '','' (map dumps vs))"
    by (intro join_no_newline) (auto simp: list_all_iff)
  then show ?case by simp
next
  case (JObj kvs)
  have "CHR 0x0A \<notin> set (join '','' (map (\<lambda>(k, v). quote k @ '':'' @ dumps v) kvs))"
    using JObj quote_no_newline by (intro join_no_newline) (auto simp: list_all_iff)
  then show ?case by simp
qed (auto simp: quote_no_newline numchars_no_newline numchar_int_str numchar_float_repr)

lemma canonical_no_newline: "wf_json j \<Longrightarrow> CHR 0x0A \<notin> set (canonical j)"
  by (simp add: canonical_def dumps_no_newline wf_sort_json)

lemma sort_key_sorted: "sorted (map f xs) \<Longrightarrow> sort_key f xs = xs"
  by (induction xs) (auto simp: insort_is_Cons)

lemma sort_json_idem [simp]: "sort_json (sort_json j) = sort_json j"
proof (induction j)
  case (JObj kvs)
  let ?m = "map (\<lambda>(k, v). (k, sort_json v))"
  let ?s = "sort_key fst (?m kvs)"
  have "?m ?s = ?s"
    using JObj by (intro map_idI) force
  moreover have "sort_key fst ?s = ?s" by (rule sort_key_sorted) simp
  ultimately show ?case by simp
qed simp_all

lemma canonical_sort_json [simp]: "canonical (sort_json j) = canonical j"
  by (simp add: canonical_def)

end
