(* ===== verification/PyText.thy ===== *)
theory PyText
  imports Prelude Json
begin

text \<open>
  The string methods the contracts use: \<open>str.strip\<close>, \<open>str.upper\<close>, and the test for a
  lowercase SHA-256 hex digest.  Strings are UTF-8 bytes, so a Unicode whitespace character is
  one of the byte sequences \<open>ws_tokens\<close>.
\<close>

definition ws_tokens :: "string list" where
  "ws_tokens =
     [[CHR 0x09], [CHR 0x0A], [CHR 0x0B], [CHR 0x0C], [CHR 0x0D], [CHR 0x1C], [CHR 0x1D],
      [CHR 0x1E], [CHR 0x1F], [CHR 0x20], [CHR 0xC2, CHR 0x85], [CHR 0xC2, CHR 0xA0],
      [CHR 0xE1, CHR 0x9A, CHR 0x80], [CHR 0xE2, CHR 0x80, CHR 0x80], [CHR 0xE2, CHR 0x80, CHR 0x81],
      [CHR 0xE2, CHR 0x80, CHR 0x82], [CHR 0xE2, CHR 0x80, CHR 0x83], [CHR 0xE2, CHR 0x80, CHR 0x84],
      [CHR 0xE2, CHR 0x80, CHR 0x85], [CHR 0xE2, CHR 0x80, CHR 0x86], [CHR 0xE2, CHR 0x80, CHR 0x87],
      [CHR 0xE2, CHR 0x80, CHR 0x88], [CHR 0xE2, CHR 0x80, CHR 0x89], [CHR 0xE2, CHR 0x80, CHR 0x8A],
      [CHR 0xE2, CHR 0x80, CHR 0xA8], [CHR 0xE2, CHR 0x80, CHR 0xA9], [CHR 0xE2, CHR 0x80, CHR 0xAF],
      [CHR 0xE2, CHR 0x81, CHR 0x9F], [CHR 0xE3, CHR 0x80, CHR 0x80]]"

definition ws_prefix :: "string list \<Rightarrow> string \<Rightarrow> string option" where
  "ws_prefix toks s = find (\<lambda>t. t \<noteq> [] \<and> take (length t) s = t) toks"

lemma ws_prefix_shorter: "ws_prefix toks s = Some t \<Longrightarrow> length (drop (length t) s) < length s"
  by (cases s; cases t) (auto simp: ws_prefix_def find_Some_iff)

function lstrip_by :: "string list \<Rightarrow> string \<Rightarrow> string" where
  "lstrip_by toks s = (case ws_prefix toks s of None \<Rightarrow> s | Some t \<Rightarrow> lstrip_by toks (drop (length t) s))"
  by pat_completeness auto
termination
  by (relation "measure (\<lambda>(toks, s). length s)") (use ws_prefix_shorter in auto)

declare lstrip_by.simps [simp del]

definition py_strip :: "string \<Rightarrow> string" where
  "py_strip s = rev (lstrip_by (map rev ws_tokens) (rev (lstrip_by ws_tokens s)))"

lemma lstrip_by_None: "ws_prefix toks (lstrip_by toks s) = None"
proof (induction toks s rule: lstrip_by.induct)
  case (1 toks s)
  then show ?case by (subst lstrip_by.simps) (auto split: option.split)
qed

lemma lstrip_by_fix: "ws_prefix toks s = None \<Longrightarrow> lstrip_by toks s = s"
  by (subst lstrip_by.simps) simp

lemma lstrip_by_suffix: "\<exists>u. s = u @ lstrip_by toks s"
proof (induction toks s rule: lstrip_by.induct)
  case (1 toks s)
  show ?case
  proof (cases "ws_prefix toks s")
    case None
    then show ?thesis by (simp add: lstrip_by_fix)
  next
    case (Some t)
    then obtain u where "drop (length t) s = u @ lstrip_by toks (drop (length t) s)"
      using 1 by blast
    then have "s = (take (length t) s @ u) @ lstrip_by toks (drop (length t) s)"
      by (metis append_assoc append_take_drop_id)
    moreover have "lstrip_by toks s = lstrip_by toks (drop (length t) s)"
      using Some by (subst lstrip_by.simps) simp
    ultimately show ?thesis by metis
  qed
qed

lemma ws_prefix_None_prefix:
  assumes "ws_prefix toks (a @ b) = None" shows "ws_prefix toks a = None"
proof -
  have "\<not> (t \<noteq> [] \<and> take (length t) a = t)" if "t \<in> set toks" for t
  proof
    assume t: "t \<noteq> [] \<and> take (length t) a = t"
    then have "take (length t) (a @ b) = t"
      by (metis append_Nil2 diff_is_0_eq length_take min.cobounded1 take0 take_append)
    with that t assms show False by (auto simp: ws_prefix_def find_None_iff)
  qed
  then show ?thesis by (auto simp: ws_prefix_def find_None_iff)
qed

theorem py_strip_idem [simp]: "py_strip (py_strip s) = py_strip s"
proof -
  define a where "a = lstrip_by ws_tokens s"
  define r where "r = lstrip_by (map rev ws_tokens) (rev a)"
  have p: "py_strip s = rev r" by (simp add: py_strip_def a_def r_def)
  obtain u where "rev a = u @ r" using lstrip_by_suffix [of "rev a"] r_def by metis
  then have "a = rev r @ rev u" by (metis rev_append rev_rev_ident)
  then have "ws_prefix ws_tokens (rev r) = None"
    using lstrip_by_None [of ws_tokens s] ws_prefix_None_prefix by (metis a_def)
  then have "lstrip_by ws_tokens (rev r) = rev r" by (rule lstrip_by_fix)
  moreover have "lstrip_by (map rev ws_tokens) r = r"
    unfolding r_def by (rule lstrip_by_fix [OF lstrip_by_None])
  ultimately show ?thesis by (simp only: p, simp only: py_strip_def rev_rev_ident)
qed

text \<open>
  \<open>str.upper\<close> on the characters whose upper case is an ASCII letter: the ASCII letters and the
  long s (U+017F); other characters are kept, none of them becomes one of the words the code
  compares with.
\<close>

fun py_upper :: "string \<Rightarrow> string" where
  "py_upper [] = []"
| "py_upper [c] = [if 97 \<le> (of_char c :: nat) \<and> (of_char c :: nat) \<le> 122 then char_of ((of_char c :: nat) - 32) else c]"
| "py_upper (c # d # s) =
     (if c = CHR 0xC5 \<and> d = CHR 0xBF then CHR ''S'' # py_upper s
      else (if 97 \<le> (of_char c :: nat) \<and> (of_char c :: nat) \<le> 122 then char_of ((of_char c :: nat) - 32) else c)
        # py_upper (d # s))"

definition is_lower_hex :: "char \<Rightarrow> bool" where
  "is_lower_hex c \<longleftrightarrow> c \<in> set ''0123456789abcdef''"

section \<open>JSON objects\<close>

text \<open>Two objects with the same keys and the same canonical text have the same fields.\<close>

lemma sort_json_map_of:
  assumes "distinct (map fst kvs)" "distinct (map fst kvs')"
    and eq: "sort_json (JObj kvs) = sort_json (JObj kvs')"
  shows "map_option sort_json (map_of kvs k) = map_option sort_json (map_of kvs' k)"
proof -
  let ?s = "\<lambda>d. map (\<lambda>(k, v). (k, sort_json v)) d"
  have m: "map_of (?s d) k = map_option sort_json (map_of d k)" for d
    by (induction d) auto
  have d: "distinct (map fst (?s kvs))" "distinct (map fst (?s kvs'))"
    using assms by (simp_all only: fst_pair_map)
  have "set (sort_key fst (?s kvs)) = set (sort_key fst (?s kvs'))"
    using eq by (simp only: sort_json.simps json.inject)
  then have "set (?s kvs) = set (?s kvs')" by (simp only: set_sort)
  then have "map_of (?s kvs) = map_of (?s kvs')"
    using map_of_inject_set [OF d] by blast
  then show ?thesis using m by metis
qed

lemma canonical_obj_fields:
  assumes "wf_json (JObj kvs)" "wf_json (JObj kvs')" "canonical (JObj kvs) = canonical (JObj kvs')"
  shows "map_option sort_json (map_of kvs k) = map_option sort_json (map_of kvs' k)"
  using assms canonical_inj [OF assms] by (intro sort_json_map_of) auto

end
