(* ===== verification/Contracts.thy ===== *)
theory Contracts
  imports PyText
begin

text \<open>
  \<open>src/std0_quant/execution/contracts.py\<close>: the versioned execution boundary contracts.
  \<open>OrderIntent\<close> and \<open>OrderEvent\<close> are records; the constructor (\<open>__post_init__\<close>) is a
  function from the raw arguments to a result, with the checks in the source's order and its
  normalisation (stripping of the identifiers, parsing of the enums).  \<open>to_dict\<close> gives the
  JSON object in field order and \<open>from_dict\<close> calls the constructor on the fields of a JSON
  object; a field of another JSON type is rejected here, where Python would coerce it with
  \<open>str()\<close> or \<open>float()\<close> (the durable modules reject the coerced row, because its re-printed
  form differs).
\<close>

named_theorems contract_simps \<open>unfolding of the contract constructors\<close>

section \<open>Enumerations\<close>

datatype order_side = BUY | SELL

datatype time_in_force = GTC | IOC | FOK

datatype order_event_type =
    SUBMITTED | VENUE_ACK | PARTIAL_FILL | FILLED_EVENT | CANCEL_REQUESTED_EVENT
  | CANCELLED_EVENT | REJECTED_EVENT | EXPIRED_EVENT

fun side_value :: "order_side \<Rightarrow> string" where
  "side_value BUY = ''BUY''"
| "side_value SELL = ''SELL''"

fun tif_value :: "time_in_force \<Rightarrow> string" where
  "tif_value GTC = ''GTC''"
| "tif_value IOC = ''IOC''"
| "tif_value FOK = ''FOK''"

fun event_type_value :: "order_event_type \<Rightarrow> string" where
  "event_type_value SUBMITTED = ''SUBMITTED''"
| "event_type_value VENUE_ACK = ''VENUE_ACK''"
| "event_type_value PARTIAL_FILL = ''PARTIAL_FILL''"
| "event_type_value FILLED_EVENT = ''FILLED''"
| "event_type_value CANCEL_REQUESTED_EVENT = ''CANCEL_REQUESTED''"
| "event_type_value CANCELLED_EVENT = ''CANCELLED''"
| "event_type_value REJECTED_EVENT = ''REJECTED''"
| "event_type_value EXPIRED_EVENT = ''EXPIRED''"

definition parse_side :: "string \<Rightarrow> order_side option" where
  "parse_side s = find (\<lambda>x. side_value x = s) [BUY, SELL]"

definition parse_tif :: "string \<Rightarrow> time_in_force option" where
  "parse_tif s = find (\<lambda>x. tif_value x = s) [GTC, IOC, FOK]"

definition parse_event_type :: "string \<Rightarrow> order_event_type option" where
  "parse_event_type s = find (\<lambda>x. event_type_value x = s)
     [SUBMITTED, VENUE_ACK, PARTIAL_FILL, FILLED_EVENT, CANCEL_REQUESTED_EVENT,
      CANCELLED_EVENT, REJECTED_EVENT, EXPIRED_EVENT]"

lemma parse_side_value [simp]: "parse_side (side_value x) = Some x"
  by (cases x) (simp_all add: parse_side_def)

lemma parse_tif_value [simp]: "parse_tif (tif_value x) = Some x"
  by (cases x) (simp_all add: parse_tif_def)

lemma parse_event_type_value [simp]: "parse_event_type (event_type_value x) = Some x"
  by (cases x) (simp_all add: parse_event_type_def)

section \<open>Field validators\<close>

definition nonempty :: "string \<Rightarrow> string \<Rightarrow> string res" where
  "nonempty value name = (let v = py_strip value in
     if v = [] then Inl (ValueError (name @ '' must be non-empty'')) else Inr v)"

definition positive :: "pyfloat \<Rightarrow> string \<Rightarrow> pyfloat res" where
  "positive value name =
     (if \<not> isfinite value \<or> fle value (Fin 0)
      then Inl (ValueError (name @ '' must be finite and > 0'')) else Inr value)"

definition nonnegative :: "pyfloat \<Rightarrow> string \<Rightarrow> pyfloat res" where
  "nonnegative value name =
     (if \<not> isfinite value \<or> flt value (Fin 0)
      then Inl (ValueError (name @ '' must be finite and >= 0'')) else Inr value)"

text \<open>\<open>if value is not None: value = check(value)\<close>.\<close>

definition opt_check :: "('a \<Rightarrow> 'b res) \<Rightarrow> 'a option \<Rightarrow> 'b option res" where
  "opt_check f v = (case v of None \<Rightarrow> Inr None | Some x \<Rightarrow> bindE (f x) (\<lambda>y. Inr (Some y)))"

lemma nonempty_Inr [contract_simps]: "nonempty v n = Inr w \<longleftrightarrow> w = py_strip v \<and> w \<noteq> []"
  by (auto simp: nonempty_def Let_def)

lemma positive_Inr [contract_simps]:
  "positive v n = Inr w \<longleftrightarrow> w = v \<and> isfinite v \<and> flt (Fin 0) v"
  by (cases v) (auto simp: positive_def)

lemma nonnegative_Inr [contract_simps]:
  "nonnegative v n = Inr w \<longleftrightarrow> w = v \<and> isfinite v \<and> fle (Fin 0) v"
  by (cases v) (auto simp: nonnegative_def)

lemma opt_check_Inr [contract_simps]:
  "opt_check f v = Inr w \<longleftrightarrow> (case v of None \<Rightarrow> w = None | Some x \<Rightarrow> \<exists>y. f x = Inr y \<and> w = Some y)"
  by (cases v) (auto simp: opt_check_def err_simps)

section \<open>OrderIntent\<close>

record ('s, 't) intent_fields =
  oi_intent_id :: string
  oi_condition_id :: string
  oi_outcome :: string
  oi_side :: 's
  oi_qty :: pyfloat
  oi_limit_price :: pyfloat
  oi_time_in_force :: 't
  oi_decision_ts_ms :: pyfloat
  oi_market_data_ts_ms :: pyfloat
  oi_strategy_id :: string
  oi_strategy_version :: string
  oi_risk_policy_version :: string
  oi_schema_version :: string

type_synonym raw_intent = "(string, string) intent_fields"
type_synonym order_intent = "(order_side, time_in_force) intent_fields"

definition ORDER_INTENT_SCHEMA_V1 :: string where
  "ORDER_INTENT_SCHEMA_V1 = ''order_intent_v1''"

definition order_intent_post_init :: "raw_intent \<Rightarrow> order_intent res" where
  "order_intent_post_init r =
     bindE (nonempty (oi_intent_id r) ''intent_id'') (\<lambda>iid.
     bindE (nonempty (oi_condition_id r) ''condition_id'') (\<lambda>cid.
     bindE (nonempty (oi_outcome r) ''outcome'') (\<lambda>out.
     bindE (nonempty (oi_strategy_id r) ''strategy_id'') (\<lambda>sid.
     bindE (nonempty (oi_strategy_version r) ''strategy_version'') (\<lambda>sv.
     bindE (nonempty (oi_risk_policy_version r) ''risk_policy_version'') (\<lambda>rv.
     case parse_side (oi_side r) of None \<Rightarrow> Inl (ValueError ''side must be BUY or SELL'')
     | Some side \<Rightarrow>
     case parse_tif (oi_time_in_force r) of
       None \<Rightarrow> Inl (ValueError ''time_in_force must be GTC, IOC or FOK'')
     | Some tif \<Rightarrow>
     bindE (positive (oi_qty r) ''qty'') (\<lambda>q.
     bindE (positive (oi_limit_price r) ''limit_price'') (\<lambda>lp.
     bindE (nonnegative (oi_decision_ts_ms r) ''decision_ts_ms'') (\<lambda>dts.
     bindE (nonnegative (oi_market_data_ts_ms r) ''market_data_ts_ms'') (\<lambda>mts.
     raise_if (flt dts mts) (ValueError ''market_data_ts_ms cannot be after decision_ts_ms'') (
     raise_if (oi_schema_version r \<noteq> ORDER_INTENT_SCHEMA_V1)
       (ValueError ''unsupported OrderIntent schema_version'') (
     Inr \<lparr>oi_intent_id = iid, oi_condition_id = cid, oi_outcome = out, oi_side = side,
          oi_qty = q, oi_limit_price = lp, oi_time_in_force = tif, oi_decision_ts_ms = dts,
          oi_market_data_ts_ms = mts, oi_strategy_id = sid, oi_strategy_version = sv,
          oi_risk_policy_version = rv, oi_schema_version = oi_schema_version r\<rparr>))))))))))))"

definition raw_of_intent :: "order_intent \<Rightarrow> raw_intent" where
  "raw_of_intent i =
     \<lparr>oi_intent_id = oi_intent_id i, oi_condition_id = oi_condition_id i, oi_outcome = oi_outcome i,
      oi_side = side_value (oi_side i), oi_qty = oi_qty i, oi_limit_price = oi_limit_price i,
      oi_time_in_force = tif_value (oi_time_in_force i), oi_decision_ts_ms = oi_decision_ts_ms i,
      oi_market_data_ts_ms = oi_market_data_ts_ms i, oi_strategy_id = oi_strategy_id i,
      oi_strategy_version = oi_strategy_version i, oi_risk_policy_version = oi_risk_policy_version i,
      oi_schema_version = oi_schema_version i\<rparr>"

definition order_notional :: "order_intent \<Rightarrow> pyfloat" where
  "order_notional i = fmul (oi_qty i) (oi_limit_price i)"

text \<open>What a constructed intent satisfies; the constructor gives exactly these.\<close>

definition valid_text :: "string \<Rightarrow> bool" where
  "valid_text s \<longleftrightarrow> s \<noteq> [] \<and> py_strip s = s"

definition valid_intent :: "order_intent \<Rightarrow> bool" where
  "valid_intent i \<longleftrightarrow>
     valid_text (oi_intent_id i) \<and> valid_text (oi_condition_id i) \<and> valid_text (oi_outcome i) \<and>
     valid_text (oi_strategy_id i) \<and> valid_text (oi_strategy_version i) \<and>
     valid_text (oi_risk_policy_version i) \<and>
     isfinite (oi_qty i) \<and> flt (Fin 0) (oi_qty i) \<and>
     isfinite (oi_limit_price i) \<and> flt (Fin 0) (oi_limit_price i) \<and>
     isfinite (oi_decision_ts_ms i) \<and> fle (Fin 0) (oi_decision_ts_ms i) \<and>
     isfinite (oi_market_data_ts_ms i) \<and> fle (Fin 0) (oi_market_data_ts_ms i) \<and>
     \<not> flt (oi_decision_ts_ms i) (oi_market_data_ts_ms i) \<and>
     oi_schema_version i = ORDER_INTENT_SCHEMA_V1"

lemma post_init_valid: "order_intent_post_init r = Inr i \<Longrightarrow> valid_intent i"
  by (auto simp: order_intent_post_init_def err_simps contract_simps valid_intent_def valid_text_def
      split: option.splits)

lemma validators_ok:
  "valid_text s \<Longrightarrow> nonempty s n = Inr s"
  "isfinite x \<Longrightarrow> flt (Fin 0) x \<Longrightarrow> positive x n = Inr x"
  "isfinite x \<Longrightarrow> fle (Fin 0) x \<Longrightarrow> nonnegative x n = Inr x"
  by (auto simp: valid_text_def contract_simps)

lemma valid_post_init: "valid_intent i \<Longrightarrow> order_intent_post_init (raw_of_intent i) = Inr i"
  by (simp add: valid_intent_def order_intent_post_init_def raw_of_intent_def validators_ok)

subsection \<open>Dictionaries and JSON\<close>

definition intent_to_dict :: "order_intent \<Rightarrow> json" where
  "intent_to_dict i = JObj
     [(''intent_id'', JStr (oi_intent_id i)), (''condition_id'', JStr (oi_condition_id i)),
      (''outcome'', JStr (oi_outcome i)), (''side'', JStr (side_value (oi_side i))),
      (''qty'', JFloat (oi_qty i)), (''limit_price'', JFloat (oi_limit_price i)),
      (''time_in_force'', JStr (tif_value (oi_time_in_force i))),
      (''decision_ts_ms'', JFloat (oi_decision_ts_ms i)),
      (''market_data_ts_ms'', JFloat (oi_market_data_ts_ms i)),
      (''strategy_id'', JStr (oi_strategy_id i)), (''strategy_version'', JStr (oi_strategy_version i)),
      (''risk_policy_version'', JStr (oi_risk_policy_version i)),
      (''schema_version'', JStr (oi_schema_version i))]"

text \<open>Keyword arguments from a JSON object: a required field, an optional one, no unknown key.\<close>

definition get_str :: "(string \<times> json) list \<Rightarrow> string \<Rightarrow> string res" where
  "get_str d k = (case map_of d k of Some (JStr s) \<Rightarrow> Inr s | _ \<Rightarrow> Inl (TypeError k))"

definition get_float :: "(string \<times> json) list \<Rightarrow> string \<Rightarrow> pyfloat res" where
  "get_float d k = (case map_of d k of Some (JFloat x) \<Rightarrow> Inr x | _ \<Rightarrow> Inl (TypeError k))"

definition get_int :: "(string \<times> json) list \<Rightarrow> string \<Rightarrow> int res" where
  "get_int d k = (case map_of d k of Some (JInt x) \<Rightarrow> Inr x | _ \<Rightarrow> Inl (TypeError k))"

definition get_obj :: "(string \<times> json) list \<Rightarrow> string \<Rightarrow> (string \<times> json) list res" where
  "get_obj d k = (case map_of d k of Some (JObj x) \<Rightarrow> Inr x | _ \<Rightarrow> Inl (TypeError k))"

definition get_str_default :: "(string \<times> json) list \<Rightarrow> string \<Rightarrow> string \<Rightarrow> string res" where
  "get_str_default d k v = (case map_of d k of None \<Rightarrow> Inr v | Some (JStr s) \<Rightarrow> Inr s | _ \<Rightarrow> Inl (TypeError k))"

definition get_float_default :: "(string \<times> json) list \<Rightarrow> string \<Rightarrow> pyfloat \<Rightarrow> pyfloat res" where
  "get_float_default d k v = (case map_of d k of None \<Rightarrow> Inr v | Some (JFloat x) \<Rightarrow> Inr x | _ \<Rightarrow> Inl (TypeError k))"

definition get_opt_str :: "(string \<times> json) list \<Rightarrow> string \<Rightarrow> string option res" where
  "get_opt_str d k = (case map_of d k of None \<Rightarrow> Inr None | Some JNull \<Rightarrow> Inr None
     | Some (JStr s) \<Rightarrow> Inr (Some s) | _ \<Rightarrow> Inl (TypeError k))"

definition get_opt_float :: "(string \<times> json) list \<Rightarrow> string \<Rightarrow> pyfloat option res" where
  "get_opt_float d k = (case map_of d k of None \<Rightarrow> Inr None | Some JNull \<Rightarrow> Inr None
     | Some (JFloat x) \<Rightarrow> Inr (Some x) | _ \<Rightarrow> Inl (TypeError k))"

definition intent_field_names :: "string list" where
  "intent_field_names = [''intent_id'', ''condition_id'', ''outcome'', ''side'', ''qty'', ''limit_price'',
     ''time_in_force'', ''decision_ts_ms'', ''market_data_ts_ms'', ''strategy_id'',
     ''strategy_version'', ''risk_policy_version'', ''schema_version'']"

definition known_keys :: "(string \<times> json) list \<Rightarrow> string list \<Rightarrow> bool" where
  "known_keys d ks \<longleftrightarrow> list_all (\<lambda>k. k \<in> set ks) (map fst d)"

definition intent_from_dict :: "(string \<times> json) list \<Rightarrow> order_intent res" where
  "intent_from_dict d =
     raise_if (\<not> known_keys d intent_field_names) (TypeError ''unexpected keyword argument'') (
     bindE (get_str d ''intent_id'') (\<lambda>iid.
     bindE (get_str d ''condition_id'') (\<lambda>cid.
     bindE (get_str d ''outcome'') (\<lambda>out.
     bindE (get_str d ''side'') (\<lambda>side.
     bindE (get_float d ''qty'') (\<lambda>q.
     bindE (get_float d ''limit_price'') (\<lambda>lp.
     bindE (get_str d ''time_in_force'') (\<lambda>tif.
     bindE (get_float d ''decision_ts_ms'') (\<lambda>dts.
     bindE (get_float d ''market_data_ts_ms'') (\<lambda>mts.
     bindE (get_str d ''strategy_id'') (\<lambda>sid.
     bindE (get_str d ''strategy_version'') (\<lambda>sv.
     bindE (get_str d ''risk_policy_version'') (\<lambda>rv.
     bindE (get_str_default d ''schema_version'' ORDER_INTENT_SCHEMA_V1) (\<lambda>ver.
     order_intent_post_init
       \<lparr>oi_intent_id = iid, oi_condition_id = cid, oi_outcome = out, oi_side = side,
        oi_qty = q, oi_limit_price = lp, oi_time_in_force = tif, oi_decision_ts_ms = dts,
        oi_market_data_ts_ms = mts, oi_strategy_id = sid, oi_strategy_version = sv,
        oi_risk_policy_version = rv, oi_schema_version = ver\<rparr>))))))))))))))"

lemmas getters = get_str_def get_float_def get_int_def get_obj_def get_str_default_def
  get_float_default_def get_opt_str_def get_opt_float_def

definition obj_fields :: "json \<Rightarrow> (string \<times> json) list" where
  "obj_fields j = (case j of JObj d \<Rightarrow> d | _ \<Rightarrow> [])"

lemma intent_from_dict_perm:
  assumes "\<And>k. map_of d k = map_of (obj_fields (intent_to_dict i)) k" "known_keys d intent_field_names"
  shows "intent_from_dict d = order_intent_post_init (raw_of_intent i)"
  using assms(2)
  by (simp add: intent_from_dict_def getters assms(1) obj_fields_def intent_to_dict_def raw_of_intent_def)

lemma intent_from_to_dict:
  "intent_from_dict (obj_fields (intent_to_dict i)) = order_intent_post_init (raw_of_intent i)"
  by (rule intent_from_dict_perm) (simp_all add: known_keys_def obj_fields_def intent_to_dict_def intent_field_names_def)

lemma sort_json_fields:
  assumes "distinct (map fst d)"
  shows "map_of (obj_fields (sort_json (JObj d))) k = map_option sort_json (map_of d k)"
proof -
  let ?s = "map (\<lambda>(k, v). (k, sort_json v)) d"
  have d: "distinct (map fst ?s)" "distinct (map fst (sort_key fst ?s))"
    using assms by (simp_all only: fst_pair_map distinct_map_sort_key)
  have "map_of (sort_key fst ?s) = map_of ?s"
    using map_of_inject_set [OF d(2) d(1)] by simp
  moreover have "map_of ?s k = map_option sort_json (map_of d k)"
    by (induction d) auto
  ultimately show ?thesis by (simp add: obj_fields_def)
qed

lemma known_keys_sort [simp]:
  "known_keys (obj_fields (sort_json (JObj d))) ks = known_keys d ks"
proof -
  have "fst ` set (obj_fields (sort_json (JObj d))) = fst ` set d"
    by (force simp: obj_fields_def)
  then show ?thesis unfolding known_keys_def list_all_iff set_map by simp
qed

definition wf_intent :: "order_intent \<Rightarrow> bool" where
  "wf_intent i \<longleftrightarrow> valid_intent i \<and> wf_float (oi_qty i) \<and> wf_float (oi_limit_price i) \<and>
     wf_float (oi_decision_ts_ms i) \<and> wf_float (oi_market_data_ts_ms i)"

lemma wf_json_intent: "wf_intent i \<Longrightarrow> wf_json (intent_to_dict i)"
  by (simp add: wf_intent_def valid_intent_def intent_to_dict_def)

lemma intent_from_sorted:
  "intent_from_dict (obj_fields (sort_json (intent_to_dict i))) = order_intent_post_init (raw_of_intent i)"
proof (rule intent_from_dict_perm)
  obtain d where d: "intent_to_dict i = JObj d" "distinct (map fst d)" "known_keys d intent_field_names"
    by (simp add: intent_to_dict_def known_keys_def intent_field_names_def)
  then show "known_keys (obj_fields (sort_json (intent_to_dict i))) intent_field_names"
    using known_keys_sort [of d intent_field_names] by simp
  fix k
  have "map_of (obj_fields (sort_json (intent_to_dict i))) k = map_option sort_json (map_of d k)"
    using d sort_json_fields by simp
  also have "\<dots> = map_of d k"
    using d(1) by (cases "map_of d k") (auto simp: intent_to_dict_def split: if_splits dest!: map_of_SomeD)
  finally show "map_of (obj_fields (sort_json (intent_to_dict i))) k = map_of (obj_fields (intent_to_dict i)) k"
    using d(1) by (simp add: obj_fields_def)
qed

text \<open>An intent read back from its canonical text is the same intent.\<close>

lemma intent_text_roundtrip:
  assumes "wf_intent i"
  shows "\<exists>j. loads (canonical (intent_to_dict i)) = Some j \<and> intent_from_dict (obj_fields j) = Inr i"
  using assms loads_canonical [OF wf_json_intent [OF assms]] intent_from_sorted [of i] valid_post_init [of i]
  by (auto simp: wf_intent_def)

lemma canonical_intent_inj:
  assumes "wf_intent i" "wf_intent i'" "canonical (intent_to_dict i) = canonical (intent_to_dict i')"
  shows "i = i'"
  using intent_text_roundtrip [OF assms(1)] intent_text_roundtrip [OF assms(2)] assms(3) by auto

section \<open>OrderEvent\<close>

record 't event_fields =
  oe_event_id :: string
  oe_intent_id :: string
  oe_event_type :: 't
  oe_receive_ts_ms :: pyfloat
  oe_venue_ts_ms :: "pyfloat option"
  oe_venue_order_id :: "string option"
  oe_fill_qty :: pyfloat
  oe_fill_price :: "pyfloat option"
  oe_cumulative_filled_qty :: pyfloat
  oe_remaining_qty :: "pyfloat option"
  oe_reason :: "string option"
  oe_schema_version :: string

type_synonym raw_event = "string event_fields"
type_synonym order_event = "order_event_type event_fields"

definition ORDER_EVENT_SCHEMA_V1 :: string where
  "ORDER_EVENT_SCHEMA_V1 = ''order_event_v1''"

definition fill_event_type :: "order_event_type \<Rightarrow> bool" where
  "fill_event_type t \<longleftrightarrow> t = PARTIAL_FILL \<or> t = FILLED_EVENT"

definition order_event_post_init :: "raw_event \<Rightarrow> order_event res" where
  "order_event_post_init r =
     bindE (nonempty (oe_event_id r) ''event_id'') (\<lambda>eid.
     bindE (nonempty (oe_intent_id r) ''intent_id'') (\<lambda>iid.
     case parse_event_type (oe_event_type r) of
       None \<Rightarrow> Inl (ValueError ''unsupported order event type'')
     | Some et \<Rightarrow>
     bindE (nonnegative (oe_receive_ts_ms r) ''receive_ts_ms'') (\<lambda>rts.
     bindE (opt_check (\<lambda>x. nonnegative x ''venue_ts_ms'') (oe_venue_ts_ms r)) (\<lambda>vts.
     bindE (nonnegative (oe_fill_qty r) ''fill_qty'') (\<lambda>fq.
     bindE (opt_check (\<lambda>x. positive x ''fill_price'') (oe_fill_price r)) (\<lambda>fp.
     bindE (nonnegative (oe_cumulative_filled_qty r) ''cumulative_filled_qty'') (\<lambda>cq.
     bindE (opt_check (\<lambda>x. nonnegative x ''remaining_qty'') (oe_remaining_qty r)) (\<lambda>rq.
     raise_if (fill_event_type et \<and> fle fq (Fin 0)) (ValueError ''fill event requires fill_qty > 0'') (
     raise_if (fill_event_type et \<and> fp = None) (ValueError ''fill event requires fill_price'') (
     raise_if (\<not> fill_event_type et \<and> \<not> feq fq (Fin 0)) (ValueError ''non-fill event cannot contain fill_qty'') (
     raise_if (\<not> fill_event_type et \<and> fp \<noteq> None) (ValueError ''non-fill event cannot contain fill_price'') (
     raise_if (et = FILLED_EVENT \<and> (case rq of None \<Rightarrow> False | Some x \<Rightarrow> \<not> feq x (Fin 0)))
       (ValueError ''FILLED event requires remaining_qty == 0'') (
     raise_if (et = PARTIAL_FILL \<and> (case rq of None \<Rightarrow> False | Some x \<Rightarrow> fle x (Fin 0)))
       (ValueError ''PARTIAL_FILL requires remaining_qty > 0'') (
     raise_if (oe_schema_version r \<noteq> ORDER_EVENT_SCHEMA_V1)
       (ValueError ''unsupported OrderEvent schema_version'') (
     Inr \<lparr>oe_event_id = eid, oe_intent_id = iid, oe_event_type = et, oe_receive_ts_ms = rts,
          oe_venue_ts_ms = vts, oe_venue_order_id = oe_venue_order_id r, oe_fill_qty = fq,
          oe_fill_price = fp, oe_cumulative_filled_qty = cq, oe_remaining_qty = rq,
          oe_reason = oe_reason r, oe_schema_version = oe_schema_version r\<rparr>)))))))))))))))"

definition raw_of_event :: "order_event \<Rightarrow> raw_event" where
  "raw_of_event e =
     \<lparr>oe_event_id = oe_event_id e, oe_intent_id = oe_intent_id e,
      oe_event_type = event_type_value (oe_event_type e), oe_receive_ts_ms = oe_receive_ts_ms e,
      oe_venue_ts_ms = oe_venue_ts_ms e, oe_venue_order_id = oe_venue_order_id e,
      oe_fill_qty = oe_fill_qty e, oe_fill_price = oe_fill_price e,
      oe_cumulative_filled_qty = oe_cumulative_filled_qty e, oe_remaining_qty = oe_remaining_qty e,
      oe_reason = oe_reason e, oe_schema_version = oe_schema_version e\<rparr>"

definition opt_ok :: "(pyfloat \<Rightarrow> bool) \<Rightarrow> pyfloat option \<Rightarrow> bool" where
  "opt_ok P x \<longleftrightarrow> (case x of None \<Rightarrow> True | Some y \<Rightarrow> isfinite y \<and> P y)"

definition valid_event :: "order_event \<Rightarrow> bool" where
  "valid_event e \<longleftrightarrow>
     valid_text (oe_event_id e) \<and> valid_text (oe_intent_id e) \<and>
     isfinite (oe_receive_ts_ms e) \<and> fle (Fin 0) (oe_receive_ts_ms e) \<and>
     opt_ok (fle (Fin 0)) (oe_venue_ts_ms e) \<and>
     isfinite (oe_fill_qty e) \<and> fle (Fin 0) (oe_fill_qty e) \<and>
     opt_ok (flt (Fin 0)) (oe_fill_price e) \<and>
     isfinite (oe_cumulative_filled_qty e) \<and> fle (Fin 0) (oe_cumulative_filled_qty e) \<and>
     opt_ok (fle (Fin 0)) (oe_remaining_qty e) \<and>
     (if fill_event_type (oe_event_type e)
      then flt (Fin 0) (oe_fill_qty e) \<and> oe_fill_price e \<noteq> None
      else oe_fill_qty e = Fin 0 \<and> oe_fill_price e = None) \<and>
     (oe_event_type e = FILLED_EVENT \<longrightarrow> oe_remaining_qty e \<in> {None, Some (Fin 0)}) \<and>
     (oe_event_type e = PARTIAL_FILL \<longrightarrow> opt_ok (flt (Fin 0)) (oe_remaining_qty e)) \<and>
     oe_schema_version e = ORDER_EVENT_SCHEMA_V1"

lemma fle_not_flt: "isfinite x \<Longrightarrow> \<not> fle x (Fin 0) \<longleftrightarrow> flt (Fin 0) x"
  by (cases x) auto

lemma feq_Fin [simp]: "feq x (Fin q) \<longleftrightarrow> x = Fin q"
  by (cases x) auto

lemma flt_not_fle: "flt x y \<Longrightarrow> \<not> fle y x"
  by (cases x; cases y) (auto simp: fle_def)

lemma opt_check_ok:
  "opt_check (\<lambda>x. nonnegative x n) v = Inr w \<Longrightarrow> opt_ok (fle (Fin 0)) w"
  "opt_check (\<lambda>x. positive x n) v = Inr w \<Longrightarrow> opt_ok (flt (Fin 0)) w"
  by (auto simp: opt_ok_def opt_check_def contract_simps err_simps split: option.splits)

lemma event_post_init_valid:
  assumes "order_event_post_init r = Inr e"
  shows "valid_event e"
proof -
  obtain et where et: "parse_event_type (oe_event_type r) = Some et"
    using assms by (cases "parse_event_type (oe_event_type r)")
      (auto simp: order_event_post_init_def err_simps)
  obtain eid iid rts vts fq fp cq rq where
      n: "nonempty (oe_event_id r) ''event_id'' = Inr eid" "nonempty (oe_intent_id r) ''intent_id'' = Inr iid"
        "nonnegative (oe_receive_ts_ms r) ''receive_ts_ms'' = Inr rts"
        "nonnegative (oe_fill_qty r) ''fill_qty'' = Inr fq"
        "nonnegative (oe_cumulative_filled_qty r) ''cumulative_filled_qty'' = Inr cq"
      and o: "opt_check (\<lambda>x. nonnegative x ''venue_ts_ms'') (oe_venue_ts_ms r) = Inr vts"
        "opt_check (\<lambda>x. positive x ''fill_price'') (oe_fill_price r) = Inr fp"
        "opt_check (\<lambda>x. nonnegative x ''remaining_qty'') (oe_remaining_qty r) = Inr rq"
      and c: "\<not> (fill_event_type et \<and> fle fq (Fin 0))" "\<not> (fill_event_type et \<and> fp = None)"
        "\<not> (\<not> fill_event_type et \<and> \<not> feq fq (Fin 0))" "\<not> (\<not> fill_event_type et \<and> fp \<noteq> None)"
        "\<not> (et = FILLED_EVENT \<and> (case rq of None \<Rightarrow> False | Some x \<Rightarrow> \<not> feq x (Fin 0)))"
        "\<not> (et = PARTIAL_FILL \<and> (case rq of None \<Rightarrow> False | Some x \<Rightarrow> fle x (Fin 0)))"
        "oe_schema_version r = ORDER_EVENT_SCHEMA_V1"
      and e: "e = \<lparr>oe_event_id = eid, oe_intent_id = iid, oe_event_type = et, oe_receive_ts_ms = rts,
          oe_venue_ts_ms = vts, oe_venue_order_id = oe_venue_order_id r, oe_fill_qty = fq,
          oe_fill_price = fp, oe_cumulative_filled_qty = cq, oe_remaining_qty = rq,
          oe_reason = oe_reason r, oe_schema_version = oe_schema_version r\<rparr>"
    using assms [unfolded order_event_post_init_def err_simps et option.case sum.inject] by blast
  note ok = opt_check_ok(1) [OF o(1)] opt_check_ok(2) [OF o(2)] opt_check_ok(1) [OF o(3)]
  show ?thesis
    using n ok c unfolding e valid_event_def contract_simps
    by (auto simp: valid_text_def fle_not_flt opt_ok_def split: option.splits)
qed

lemma opt_ok_check:
  "opt_ok (fle (Fin 0)) v \<Longrightarrow> opt_check (\<lambda>x. nonnegative x n) v = Inr v"
  "opt_ok (flt (Fin 0)) v \<Longrightarrow> opt_check (\<lambda>x. positive x n) v = Inr v"
  by (auto simp: opt_ok_def opt_check_def validators_ok split: option.splits)

lemma valid_event_post_init:
  assumes v: "valid_event e"
  shows "order_event_post_init (raw_of_event e) = Inr e"
proof -
  have "\<not> (fill_event_type (oe_event_type e) \<and> fle (oe_fill_qty e) (Fin 0))"
      "\<not> (fill_event_type (oe_event_type e) \<and> oe_fill_price e = None)"
      "\<not> (\<not> fill_event_type (oe_event_type e) \<and> \<not> feq (oe_fill_qty e) (Fin 0))"
      "\<not> (\<not> fill_event_type (oe_event_type e) \<and> oe_fill_price e \<noteq> None)"
    using v by (auto simp: valid_event_def dest: flt_not_fle split: if_splits)
  moreover have "\<not> (oe_event_type e = FILLED_EVENT \<and>
        (case oe_remaining_qty e of None \<Rightarrow> False | Some x \<Rightarrow> \<not> feq x (Fin 0)))"
      "\<not> (oe_event_type e = PARTIAL_FILL \<and>
        (case oe_remaining_qty e of None \<Rightarrow> False | Some x \<Rightarrow> fle x (Fin 0)))"
    using v by (auto simp: valid_event_def opt_ok_def dest: flt_not_fle split: option.splits)
  ultimately show ?thesis
    using v by (simp add: valid_event_def order_event_post_init_def raw_of_event_def validators_ok
        opt_ok_check raise_if_def)
qed

definition opt_json :: "('a \<Rightarrow> json) \<Rightarrow> 'a option \<Rightarrow> json" where
  "opt_json f v = (case v of None \<Rightarrow> JNull | Some x \<Rightarrow> f x)"

definition event_to_dict :: "order_event \<Rightarrow> json" where
  "event_to_dict e = JObj
     [(''event_id'', JStr (oe_event_id e)), (''intent_id'', JStr (oe_intent_id e)),
      (''event_type'', JStr (event_type_value (oe_event_type e))),
      (''receive_ts_ms'', JFloat (oe_receive_ts_ms e)),
      (''venue_ts_ms'', opt_json JFloat (oe_venue_ts_ms e)),
      (''venue_order_id'', opt_json JStr (oe_venue_order_id e)),
      (''fill_qty'', JFloat (oe_fill_qty e)), (''fill_price'', opt_json JFloat (oe_fill_price e)),
      (''cumulative_filled_qty'', JFloat (oe_cumulative_filled_qty e)),
      (''remaining_qty'', opt_json JFloat (oe_remaining_qty e)),
      (''reason'', opt_json JStr (oe_reason e)), (''schema_version'', JStr (oe_schema_version e))]"

definition event_field_names :: "string list" where
  "event_field_names = [''event_id'', ''intent_id'', ''event_type'', ''receive_ts_ms'',
     ''venue_ts_ms'', ''venue_order_id'', ''fill_qty'', ''fill_price'', ''cumulative_filled_qty'',
     ''remaining_qty'', ''reason'', ''schema_version'']"

definition event_from_dict :: "(string \<times> json) list \<Rightarrow> order_event res" where
  "event_from_dict d =
     raise_if (\<not> known_keys d event_field_names) (TypeError ''unexpected keyword argument'') (
     bindE (get_str d ''event_id'') (\<lambda>eid.
     bindE (get_str d ''intent_id'') (\<lambda>iid.
     bindE (get_str d ''event_type'') (\<lambda>et.
     bindE (get_float d ''receive_ts_ms'') (\<lambda>rts.
     bindE (get_opt_float d ''venue_ts_ms'') (\<lambda>vts.
     bindE (get_opt_str d ''venue_order_id'') (\<lambda>void.
     bindE (get_float_default d ''fill_qty'' (Fin 0)) (\<lambda>fq.
     bindE (get_opt_float d ''fill_price'') (\<lambda>fp.
     bindE (get_float_default d ''cumulative_filled_qty'' (Fin 0)) (\<lambda>cq.
     bindE (get_opt_float d ''remaining_qty'') (\<lambda>rq.
     bindE (get_opt_str d ''reason'') (\<lambda>reason.
     bindE (get_str_default d ''schema_version'' ORDER_EVENT_SCHEMA_V1) (\<lambda>ver.
     order_event_post_init
       \<lparr>oe_event_id = eid, oe_intent_id = iid, oe_event_type = et, oe_receive_ts_ms = rts,
        oe_venue_ts_ms = vts, oe_venue_order_id = void, oe_fill_qty = fq, oe_fill_price = fp,
        oe_cumulative_filled_qty = cq, oe_remaining_qty = rq, oe_reason = reason,
        oe_schema_version = ver\<rparr>)))))))))))))"

lemma opt_json_getters [simp]:
  "map_of d k = Some (opt_json JFloat v) \<Longrightarrow> get_opt_float d k = Inr v"
  "map_of d k = Some (opt_json JStr w) \<Longrightarrow> get_opt_str d k = Inr w"
  by (simp_all add: opt_json_def getters split: option.splits)

lemma sort_opt_json [simp]:
  "sort_json (opt_json JFloat v) = opt_json JFloat v" "sort_json (opt_json JStr w) = opt_json JStr w"
  by (simp_all add: opt_json_def split: option.splits)

lemma event_from_dict_perm:
  assumes "\<And>k. map_of d k = map_of (obj_fields (event_to_dict e)) k" "known_keys d event_field_names"
  shows "event_from_dict d = order_event_post_init (raw_of_event e)"
proof -
  have "get_opt_float d ''venue_ts_ms'' = Inr (oe_venue_ts_ms e)"
    "get_opt_str d ''venue_order_id'' = Inr (oe_venue_order_id e)"
    "get_opt_float d ''fill_price'' = Inr (oe_fill_price e)"
    "get_opt_float d ''remaining_qty'' = Inr (oe_remaining_qty e)"
    "get_opt_str d ''reason'' = Inr (oe_reason e)"
    by (rule opt_json_getters; simp add: assms(1) obj_fields_def event_to_dict_def)+
  with assms(2) show ?thesis
    by (simp add: event_from_dict_def get_str_def get_float_def get_str_default_def get_float_default_def
        assms(1) obj_fields_def event_to_dict_def raw_of_event_def)
qed

definition wf_event :: "order_event \<Rightarrow> bool" where
  "wf_event e \<longleftrightarrow> valid_event e \<and> wf_float (oe_receive_ts_ms e) \<and> wf_float (oe_fill_qty e) \<and>
     wf_float (oe_cumulative_filled_qty e) \<and> pred_option wf_float (oe_venue_ts_ms e) \<and>
     pred_option wf_float (oe_fill_price e) \<and> pred_option wf_float (oe_remaining_qty e)"

lemma wf_json_event: "wf_event e \<Longrightarrow> wf_json (event_to_dict e)"
  by (auto simp: wf_event_def valid_event_def event_to_dict_def opt_json_def opt_ok_def split: option.splits)

lemma event_from_sorted:
  "event_from_dict (obj_fields (sort_json (event_to_dict e))) = order_event_post_init (raw_of_event e)"
proof (rule event_from_dict_perm)
  obtain d where d: "event_to_dict e = JObj d" "distinct (map fst d)" "known_keys d event_field_names"
      "list_all (\<lambda>(k, v). sort_json v = v) d"
    by (simp add: event_to_dict_def known_keys_def event_field_names_def)
  then show "known_keys (obj_fields (sort_json (event_to_dict e))) event_field_names"
    using known_keys_sort [of d event_field_names] by simp
  fix k
  have "map_of (obj_fields (sort_json (event_to_dict e))) k = map_option sort_json (map_of d k)"
    using d sort_json_fields by simp
  also have "\<dots> = map_of d k"
    using d(4) by (cases "map_of d k") (auto simp: list_all_iff dest!: map_of_SomeD)
  finally show "map_of (obj_fields (sort_json (event_to_dict e))) k = map_of (obj_fields (event_to_dict e)) k"
    using d(1) by (simp add: obj_fields_def)
qed

lemma event_text_roundtrip:
  assumes "wf_event e"
  shows "\<exists>j. loads (canonical (event_to_dict e)) = Some j \<and> event_from_dict (obj_fields j) = Inr e"
  using assms loads_canonical [OF wf_json_event [OF assms]] event_from_sorted [of e] valid_event_post_init [of e]
  by (auto simp: wf_event_def)

lemma canonical_event_inj:
  assumes "wf_event e" "wf_event e'" "canonical (event_to_dict e) = canonical (event_to_dict e')"
  shows "e = e'"
  using event_text_roundtrip [OF assms(1)] event_text_roundtrip [OF assms(2)] assms(3) by auto

end
