(* ===== verification/OrderState.thy ===== *)
theory OrderState
  imports Contracts
begin

text \<open>
  \<open>src/std0_quant/execution/order_state.py\<close>: the deterministic order state machine.  The
  mutable object is the record \<open>osm\<close>; every method returns the emitted event together with
  the new state, or the exception (each method checks before it assigns, so an exception
  leaves the object as it was).  \<open>osm_op\<close> names the calls a client can make and \<open>osm_step\<close>
  is the step relation of successful calls; the lemmas give the lifecycle graph, the
  timestamps, and the invariant of every reachable state.
\<close>

datatype order_status =
    NEW | SENT | ACKNOWLEDGED | PARTIALLY_FILLED | CANCEL_REQUESTED | CANCELLED | FILLED
  | EXPIRED | REJECTED

definition TERMINAL_STATUSES :: "order_status list" where
  "TERMINAL_STATUSES = [CANCELLED, FILLED, EXPIRED, REJECTED]"

fun status_value :: "order_status \<Rightarrow> string" where
  "status_value NEW = ''NEW''"
| "status_value SENT = ''SENT''"
| "status_value ACKNOWLEDGED = ''ACKNOWLEDGED''"
| "status_value PARTIALLY_FILLED = ''PARTIALLY_FILLED''"
| "status_value CANCEL_REQUESTED = ''CANCEL_REQUESTED''"
| "status_value CANCELLED = ''CANCELLED''"
| "status_value FILLED = ''FILLED''"
| "status_value EXPIRED = ''EXPIRED''"
| "status_value REJECTED = ''REJECTED''"

record sm_event =
  se_event_type :: string
  se_event_ts_ms :: pyfloat
  se_status_before :: order_status
  se_status_after :: order_status
  se_fill_qty :: pyfloat

record osm =
  sm_order_qty :: pyfloat
  sm_status :: order_status
  sm_filled_qty :: pyfloat
  sm_last_event_ts_ms :: "pyfloat option"

definition sm_normalize :: "osm \<Rightarrow> osm" where
  "sm_normalize s =
     (let s1 = (if fle (fabs (sm_filled_qty s)) EPS then s\<lparr>sm_filled_qty := Fin 0\<rparr> else s) in
      if fle (fabs (fsub (sm_filled_qty s1) (sm_order_qty s1))) EPS
      then s1\<lparr>sm_filled_qty := sm_order_qty s1\<rparr> else s1)"

definition sm_post_init :: "osm \<Rightarrow> osm res" where
  "sm_post_init s =
     bindE (positive (sm_order_qty s) ''order_qty'') (\<lambda>oq.
     bindE (nonnegative (sm_filled_qty s) ''filled_qty'') (\<lambda>fq.
     raise_if (flt (fadd oq EPS) fq) (ValueError ''filled_qty cannot exceed order_qty'') (
     raise_if (sm_status s = FILLED \<and> flt EPS (fabs (fsub fq oq)))
       (ValueError ''FILLED status requires filled_qty == order_qty'') (
     raise_if (sm_status s = PARTIALLY_FILLED \<and> (fle fq EPS \<or> fle (fsub oq EPS) fq))
       (ValueError ''PARTIALLY_FILLED requires 0 < filled_qty < order_qty'') (
     bindE (opt_check (\<lambda>t. nonnegative t ''last_event_ts_ms'') (sm_last_event_ts_ms s)) (\<lambda>ts.
     Inr (sm_normalize (s\<lparr>sm_order_qty := oq, sm_filled_qty := fq, sm_last_event_ts_ms := ts\<rparr>))))))))"

definition sm_remaining_qty :: "osm \<Rightarrow> pyfloat" where
  "sm_remaining_qty s = py_max (Fin 0) (fsub (sm_order_qty s) (sm_filled_qty s))"

definition sm_is_terminal :: "osm \<Rightarrow> bool" where
  "sm_is_terminal s \<longleftrightarrow> sm_status s \<in> set TERMINAL_STATUSES"

definition sm_checked_ts :: "osm \<Rightarrow> pyfloat \<Rightarrow> pyfloat res" where
  "sm_checked_ts s t = bindE (nonnegative t ''event_ts_ms'') (\<lambda>ts.
     raise_if (case sm_last_event_ts_ms s of None \<Rightarrow> False | Some l \<Rightarrow> flt (fadd ts EPS) l)
       (ValueError ''event timestamps must be monotonic'') (Inr ts))"

definition sm_transition ::
  "osm \<Rightarrow> string \<Rightarrow> pyfloat \<Rightarrow> order_status list \<Rightarrow> order_status \<Rightarrow> (sm_event \<times> osm) res" where
  "sm_transition s event_type t allowed target =
     bindE (sm_checked_ts s t) (\<lambda>ts.
     raise_if (sm_status s \<notin> set allowed)
       (ValueError (event_type @ '' not allowed from '' @ status_value (sm_status s))) (
     Inr (\<lparr>se_event_type = event_type, se_event_ts_ms = ts, se_status_before = sm_status s,
           se_status_after = target, se_fill_qty = Fin 0\<rparr>,
          s\<lparr>sm_status := target, sm_last_event_ts_ms := Some ts\<rparr>)))"

definition mark_sent :: "osm \<Rightarrow> pyfloat \<Rightarrow> (sm_event \<times> osm) res" where
  "mark_sent s t = sm_transition s ''SENT'' t [NEW] SENT"

definition acknowledge :: "osm \<Rightarrow> pyfloat \<Rightarrow> (sm_event \<times> osm) res" where
  "acknowledge s t = sm_transition s ''ACKNOWLEDGED'' t [SENT] ACKNOWLEDGED"

definition reject :: "osm \<Rightarrow> pyfloat \<Rightarrow> (sm_event \<times> osm) res" where
  "reject s t = sm_transition s ''REJECTED'' t [SENT] REJECTED"

definition expire :: "osm \<Rightarrow> pyfloat \<Rightarrow> (sm_event \<times> osm) res" where
  "expire s t = sm_transition s ''EXPIRED'' t [ACKNOWLEDGED, PARTIALLY_FILLED] EXPIRED"

definition request_cancel :: "osm \<Rightarrow> pyfloat \<Rightarrow> (sm_event \<times> osm) res" where
  "request_cancel s t =
     sm_transition s ''CANCEL_REQUESTED'' t [ACKNOWLEDGED, PARTIALLY_FILLED] CANCEL_REQUESTED"

definition acknowledge_cancel :: "osm \<Rightarrow> pyfloat \<Rightarrow> (sm_event \<times> osm) res" where
  "acknowledge_cancel s t = sm_transition s ''CANCELLED'' t [CANCEL_REQUESTED] CANCELLED"

definition apply_fill :: "osm \<Rightarrow> pyfloat \<Rightarrow> pyfloat \<Rightarrow> (sm_event \<times> osm) res" where
  "apply_fill s q t =
     bindE (positive q ''fill_qty'') (\<lambda>fq.
     bindE (sm_checked_ts s t) (\<lambda>ts.
     raise_if (sm_status s \<notin> {ACKNOWLEDGED, PARTIALLY_FILLED, CANCEL_REQUESTED})
       (ValueError (''fill not allowed from '' @ status_value (sm_status s))) (
     raise_if (flt (fadd (sm_remaining_qty s) EPS) fq) (ValueError ''fill_qty exceeds remaining_qty'') (
     let before = sm_status s;
         s1 = sm_normalize (s\<lparr>sm_filled_qty := fadd (sm_filled_qty s) fq\<rparr>);
         after = (if fle (sm_remaining_qty s1) EPS then FILLED
                  else if before = CANCEL_REQUESTED then CANCEL_REQUESTED else PARTIALLY_FILLED)
     in Inr (\<lparr>se_event_type = ''FILL'', se_event_ts_ms = ts, se_status_before = before,
              se_status_after = after, se_fill_qty = fq\<rparr>,
             s1\<lparr>sm_status := after, sm_last_event_ts_ms := Some ts\<rparr>)))))"

section \<open>Calls and runs\<close>

datatype osm_op =
    MarkSent pyfloat | Acknowledge pyfloat | Reject pyfloat | Expire pyfloat
  | RequestCancel pyfloat | AcknowledgeCancel pyfloat | ApplyFill pyfloat pyfloat

fun osm_exec :: "osm \<Rightarrow> osm_op \<Rightarrow> (sm_event \<times> osm) res" where
  "osm_exec s (MarkSent t) = mark_sent s t"
| "osm_exec s (Acknowledge t) = acknowledge s t"
| "osm_exec s (Reject t) = reject s t"
| "osm_exec s (Expire t) = expire s t"
| "osm_exec s (RequestCancel t) = request_cancel s t"
| "osm_exec s (AcknowledgeCancel t) = acknowledge_cancel s t"
| "osm_exec s (ApplyFill q t) = apply_fill s q t"

fun op_ts :: "osm_op \<Rightarrow> pyfloat" where
  "op_ts (MarkSent t) = t"
| "op_ts (Acknowledge t) = t"
| "op_ts (Reject t) = t"
| "op_ts (Expire t) = t"
| "op_ts (RequestCancel t) = t"
| "op_ts (AcknowledgeCancel t) = t"
| "op_ts (ApplyFill q t) = t"

inductive osm_step :: "osm \<Rightarrow> osm \<Rightarrow> bool" where
  step: "osm_exec s x = Inr (e, s') \<Longrightarrow> osm_step s s'"

inductive osm_reachable :: "osm \<Rightarrow> osm \<Rightarrow> bool" for s0 where
  refl: "osm_reachable s0 s0"
| trans: "osm_reachable s0 s \<Longrightarrow> osm_step s s' \<Longrightarrow> osm_reachable s0 s'"

inductive_cases osm_stepE: "osm_step s s'"

text \<open>The lifecycle: which status can follow which.\<close>

fun legal_next :: "order_status \<Rightarrow> order_status list" where
  "legal_next NEW = [SENT]"
| "legal_next SENT = [ACKNOWLEDGED, REJECTED]"
| "legal_next ACKNOWLEDGED = [EXPIRED, CANCEL_REQUESTED, PARTIALLY_FILLED, FILLED]"
| "legal_next PARTIALLY_FILLED = [EXPIRED, CANCEL_REQUESTED, PARTIALLY_FILLED, FILLED]"
| "legal_next CANCEL_REQUESTED = [CANCELLED, CANCEL_REQUESTED, FILLED]"
| "legal_next _ = []"

lemmas osm_op_defs = mark_sent_def acknowledge_def reject_def expire_def request_cancel_def
  acknowledge_cancel_def

lemma sm_checked_ts_Inr:
  "sm_checked_ts s t = Inr ts \<longleftrightarrow> ts = t \<and> isfinite t \<and> fle (Fin 0) t \<and>
     (case sm_last_event_ts_ms s of None \<Rightarrow> True | Some l \<Rightarrow> \<not> flt (fadd t EPS) l)"
  by (auto simp: sm_checked_ts_def err_simps contract_simps split: option.splits)

lemma sm_transition_Inr:
  "sm_transition s n t allowed target = Inr (e, s') \<longleftrightarrow>
     sm_checked_ts s t = Inr t \<and> sm_status s \<in> set allowed \<and>
     s' = s\<lparr>sm_status := target, sm_last_event_ts_ms := Some t\<rparr> \<and>
     e = \<lparr>se_event_type = n, se_event_ts_ms = t, se_status_before = sm_status s,
          se_status_after = target, se_fill_qty = Fin 0\<rparr>"
  by (auto simp: sm_transition_def err_simps sm_checked_ts_Inr)

lemma sm_normalize_fields [simp]:
  "sm_order_qty (sm_normalize s) = sm_order_qty s" "sm_status (sm_normalize s) = sm_status s"
  "sm_last_event_ts_ms (sm_normalize s) = sm_last_event_ts_ms s"
  by (simp_all add: sm_normalize_def Let_def)

lemma sm_normalize_filled:
  "sm_filled_qty (sm_normalize s) \<in> {Fin 0, sm_order_qty s, sm_filled_qty s}"
  by (simp add: sm_normalize_def Let_def)

lemma apply_fill_InrD:
  assumes "apply_fill s q t = Inr (e, s')"
  shows "isfinite q" "flt (Fin 0) q" "sm_checked_ts s t = Inr t"
    "sm_status s \<in> {ACKNOWLEDGED, PARTIALLY_FILLED, CANCEL_REQUESTED}"
    "\<not> flt (fadd (sm_remaining_qty s) EPS) q"
    "sm_filled_qty s' = sm_filled_qty (sm_normalize (s\<lparr>sm_filled_qty := fadd (sm_filled_qty s) q\<rparr>))"
    "sm_order_qty s' = sm_order_qty s" "sm_last_event_ts_ms s' = Some t"
    "sm_status s' = (if fle (sm_remaining_qty s') EPS then FILLED
       else if sm_status s = CANCEL_REQUESTED then CANCEL_REQUESTED else PARTIALLY_FILLED)"
    "se_status_before e = sm_status s" "se_status_after e = sm_status s'" "se_event_ts_ms e = t"
  using assms
  by (auto simp: apply_fill_def err_simps contract_simps Let_def sm_checked_ts_Inr sm_remaining_qty_def)

section \<open>Lifecycle, terminal states, timestamps\<close>

lemma exec_transition_cases:
  assumes "osm_exec s x = Inr (e, s')"
  shows "(\<exists>q t. x = ApplyFill q t \<and> apply_fill s q t = Inr (e, s')) \<or>
    (\<exists>n allowed target. sm_transition s n (op_ts x) allowed target = Inr (e, s') \<and>
      (allowed, target) \<in> {([NEW], SENT), ([SENT], ACKNOWLEDGED), ([SENT], REJECTED),
        ([ACKNOWLEDGED, PARTIALLY_FILLED], EXPIRED),
        ([ACKNOWLEDGED, PARTIALLY_FILLED], CANCEL_REQUESTED), ([CANCEL_REQUESTED], CANCELLED)})"
  using assms by (cases x) (auto simp: osm_op_defs)

lemma exec_legal:
  assumes "osm_exec s x = Inr (e, s')"
  shows "sm_status s' \<in> set (legal_next (sm_status s)) \<and> se_status_before e = sm_status s \<and>
    se_status_after e = sm_status s' \<and> se_event_ts_ms e = op_ts x"
  using exec_transition_cases [OF assms]
proof
  assume "\<exists>q t. x = ApplyFill q t \<and> apply_fill s q t = Inr (e, s')"
  then obtain q t where x: "x = ApplyFill q t" and f: "apply_fill s q t = Inr (e, s')" by blast
  from apply_fill_InrD(4,9,10,11,12) [OF f] x show ?thesis by auto
qed (auto simp: sm_transition_Inr)

lemma exec_ts:
  assumes "osm_exec s x = Inr (e, s')"
  shows "sm_checked_ts s (op_ts x) = Inr (op_ts x)" "sm_last_event_ts_ms s' = Some (op_ts x)"
    "sm_order_qty s' = sm_order_qty s"
  using exec_transition_cases [OF assms]
  by (auto simp: sm_transition_Inr dest: apply_fill_InrD)

lemma exec_errors: "osm_exec s x = Inl err \<Longrightarrow> \<exists>m. err = ValueError m"
  by (cases x) (auto simp: osm_op_defs sm_transition_def apply_fill_def sm_checked_ts_def positive_def
      nonnegative_def err_simps Let_def split: if_splits)

lemma terminal_no_success: "sm_is_terminal s \<Longrightarrow> osm_exec s x \<noteq> Inr (e, s')"
  using exec_legal [of s x e s'] by (auto simp: sm_is_terminal_def TERMINAL_STATUSES_def)

section \<open>The invariant of a machine\<close>

definition sm_inv :: "osm \<Rightarrow> bool" where
  "sm_inv s \<longleftrightarrow> wf_float (sm_order_qty s) \<and> isfinite (sm_order_qty s) \<and> flt (Fin 0) (sm_order_qty s) \<and>
     wf_float (sm_filled_qty s) \<and> fle (Fin 0) (sm_filled_qty s) \<and>
     (sm_filled_qty s = Fin 0 \<or> flt EPS (sm_filled_qty s) \<or> sm_filled_qty s = sm_order_qty s) \<and>
     (fle (sm_order_qty s) EPS \<longrightarrow> sm_filled_qty s \<noteq> Fin 0) \<and>
     (sm_status s = FILLED \<longrightarrow> fle (sm_remaining_qty s) EPS) \<and>
     (sm_status s = PARTIALLY_FILLED \<longrightarrow> flt EPS (sm_remaining_qty s)) \<and>
     (sm_status s \<noteq> FILLED \<longrightarrow> fle (sm_filled_qty s) (sm_order_qty s)) \<and>
     (case sm_last_event_ts_ms s of None \<Rightarrow> True | Some l \<Rightarrow> isfinite l \<and> fle (Fin 0) l)"

lemma remaining_pos_less:
  assumes "isfinite a" "isfinite b \<or> b = PInf" "flt EPS (py_max (Fin 0) (fsub a b))"
  shows "flt b a"
proof -
  obtain x where a: "a = Fin x" using assms(1) by (auto simp: isfinite_iff)
  show ?thesis
  proof (cases b)
    case (Fin y)
    have "0 < rnd (x - y)"
    proof (rule ccontr)
      assume "\<not> 0 < rnd (x - y)"
      then have "py_max (Fin 0) (b64 (x - y)) = Fin 0"
        by (auto simp: b64_eq py_max_def)
      then show False using assms(3) a Fin by (simp add: EPS_eq)
    qed
    then have "y < x" by (rule b64.sub_pos_imp)
    then show ?thesis by (simp add: a Fin)
  qed (use assms a in \<open>auto simp: fsub_def py_max_def EPS_eq\<close>)
qed

lemma wf_remaining [simp]:
  "wf_float (sm_order_qty s) \<Longrightarrow> wf_float (sm_filled_qty s) \<Longrightarrow> wf_float (sm_remaining_qty s)"
  unfolding sm_remaining_qty_def by (intro py_max_wf wf_fsub) auto

lemma remaining_finite: "isfinite (sm_order_qty s) \<Longrightarrow> fle (Fin 0) (sm_filled_qty s) \<Longrightarrow>
    wf_float (sm_order_qty s) \<Longrightarrow> isfinite (sm_remaining_qty s)"
proof -
  assume a: "isfinite (sm_order_qty s)" "fle (Fin 0) (sm_filled_qty s)" "wf_float (sm_order_qty s)"
  then obtain x where x: "sm_order_qty s = Fin x" by (auto simp: isfinite_iff)
  show ?thesis
  proof (cases "sm_filled_qty s")
    case (Fin y)
    have "rnd (x - y) \<le> x" using a x Fin by (intro b64.le_fix) auto
    then have "b64 (x - y) = Fin (rnd (x - y)) \<or> b64 (x - y) = NInf"
      using a x Fin by (auto simp: b64_eq)
    then show ?thesis using x Fin by (auto simp: sm_remaining_qty_def py_max_def)
  qed (use a x in \<open>auto simp: sm_remaining_qty_def fsub_def py_max_def\<close>)
qed

lemma fill_add_ge: "wf_float x \<Longrightarrow> fle (Fin 0) x \<Longrightarrow> isfinite q \<Longrightarrow> flt (Fin 0) q \<Longrightarrow> fle x (fadd x q)"
  by (cases x; cases q) (auto intro!: b64_ge simp del: wf_float.simps)

text \<open>What \<open>_normalize\<close> leaves of a filled quantity, and why it never drops below an earlier one.\<close>

lemma normalize_shape:
  assumes "flt (Fin 0) (sm_order_qty s)" "fle (Fin 0) (sm_filled_qty s)" "isfinite (sm_order_qty s)"
    "wf_float (sm_order_qty s)"
  defines "f \<equiv> sm_filled_qty (sm_normalize s)"
  shows "f = Fin 0 \<or> flt EPS f \<or> f = sm_order_qty s"
    and "fle (sm_order_qty s) EPS \<longrightarrow> f \<noteq> Fin 0"
    and "fle g (sm_filled_qty s) \<Longrightarrow> fle g (sm_order_qty s) \<Longrightarrow>
      g = Fin 0 \<or> flt EPS g \<or> g = sm_order_qty s \<Longrightarrow> fle g f"
proof -
  obtain x where x: "sm_order_qty s = Fin x" "0 < x"
    using assms by (auto simp: isfinite_iff)
  define a where "a = (if fle (fabs (sm_filled_qty s)) EPS then Fin 0 else sm_filled_qty s)"
  have f: "f = (if fle (fabs (fsub a (Fin x))) EPS then Fin x else a)"
    by (simp add: f_def sm_normalize_def Let_def a_def x)
  have abs: "fabs (sm_filled_qty s) = sm_filled_qty s"
    using assms(2) by (cases "sm_filled_qty s") auto
  have a: "a = Fin 0 \<or> flt EPS a"
    using assms(2) abs by (cases "sm_filled_qty s") (auto simp: a_def EPS_eq)
  have small: "fle (fabs (fsub (Fin 0) (Fin x))) EPS \<longleftrightarrow> x \<le> fin_val EPS"
    using assms(4) x by (simp add: b64_repr [of "- x", simplified rnd_minus wf_float.simps abs_minus_cancel] EPS_eq)
  show 1: "f = Fin 0 \<or> flt EPS f \<or> f = sm_order_qty s" using a x by (auto simp: f)
  show "fle (sm_order_qty s) EPS \<longrightarrow> f \<noteq> Fin 0"
  proof
    assume le: "fle (sm_order_qty s) EPS"
    show "f \<noteq> Fin 0"
    proof (cases "a = Fin 0")
      case True
      then show ?thesis using le small x by (auto simp: f EPS_eq)
    next
      case False
      then show ?thesis using x by (auto simp: f)
    qed
  qed
  show "fle g f" if g: "fle g (sm_filled_qty s)" "fle g (sm_order_qty s)"
      "g = Fin 0 \<or> flt EPS g \<or> g = sm_order_qty s"
  proof (cases "f = sm_order_qty s")
    case True
    with g show ?thesis by simp
  next
    case False
    then have fa: "f = a" using x by (auto simp: f split: if_splits)
    show ?thesis
    proof (cases "fle (fabs (sm_filled_qty s)) EPS")
      case True
      then have "fle g EPS" using g(1) abs fle_trans by metis
      then have "\<not> flt EPS g" using flt_not_fle by blast
      moreover have "g \<noteq> sm_order_qty s"
      proof
        assume "g = sm_order_qty s"
        then have "x \<le> fin_val EPS" using \<open>fle g EPS\<close> x by (simp add: EPS_eq)
        then have "f = Fin x" using True small by (simp add: f a_def)
        then show False using False x by simp
      qed
      ultimately have "g = Fin 0" using g(3) by blast
      then show ?thesis using fa True by (simp add: a_def)
    next
      case F: False
      then show ?thesis using fa g(1) by (simp add: a_def)
    qed
  qed
qed


lemma nonneg_fin_or_inf: "fle (Fin 0) x \<Longrightarrow> x \<noteq> PInf \<Longrightarrow> isfinite x"
  by (cases x) simp_all

lemma wf_fadd_fin: "wf_float x \<Longrightarrow> wf_float (fadd x (Fin q))"
  by (cases x) simp_all

lemma normalize_wf: "wf_float (sm_filled_qty s) \<Longrightarrow> wf_float (sm_order_qty s) \<Longrightarrow>
    wf_float (sm_filled_qty (sm_normalize s))"
  using sm_normalize_filled [of s] by auto

lemma remaining_upd [simp]:
  "sm_remaining_qty (s\<lparr>sm_status := x\<rparr>) = sm_remaining_qty s"
  "sm_remaining_qty (s\<lparr>sm_last_event_ts_ms := y\<rparr>) = sm_remaining_qty s"
  by (simp_all add: sm_remaining_qty_def)

lemma transition_inv:
  assumes "sm_inv s" "sm_transition s n t allowed target = Inr (e, s')"
    "target \<notin> {FILLED, PARTIALLY_FILLED}" "FILLED \<notin> set allowed"
  shows "sm_inv s' \<and> sm_filled_qty s' = sm_filled_qty s"
  using assms by (auto simp: sm_inv_def sm_transition_Inr sm_checked_ts_Inr)

lemma fill_inv:
  assumes "sm_inv s" "apply_fill s q t = Inr (e, s')"
  shows "sm_inv s'" "fle (sm_filled_qty s) (sm_filled_qty s')"
proof -
  note f = apply_fill_InrD [OF assms(2)]
  let ?s1 = "s\<lparr>sm_filled_qty := fadd (sm_filled_qty s) q\<rparr>"
  have o: "wf_float (sm_order_qty s)" "isfinite (sm_order_qty s)" "flt (Fin 0) (sm_order_qty s)"
    and g: "wf_float (sm_filled_qty s)" "fle (Fin 0) (sm_filled_qty s)"
      "sm_filled_qty s = Fin 0 \<or> flt EPS (sm_filled_qty s) \<or> sm_filled_qty s = sm_order_qty s"
      "fle (sm_filled_qty s) (sm_order_qty s)"
    using assms(1) f(4) by (auto simp: sm_inv_def)
  have up: "fle (sm_filled_qty s) (fadd (sm_filled_qty s) q)"
    using g f by (intro fill_add_ge) auto
  have up0: "fle (Fin 0) (fadd (sm_filled_qty s) q)" using g(2) up by (rule fle_trans)
  have sh: "sm_filled_qty s' = Fin 0 \<or> flt EPS (sm_filled_qty s') \<or> sm_filled_qty s' = sm_order_qty s'"
    "fle (sm_order_qty s') EPS \<longrightarrow> sm_filled_qty s' \<noteq> Fin 0"
    "fle (sm_filled_qty s) (sm_filled_qty s')"
    using normalize_shape [of ?s1] o g up up0 by (simp_all add: f(6,7))
  show "fle (sm_filled_qty s) (sm_filled_qty s')" by (rule sh)
  have pos: "fle (Fin 0) (sm_filled_qty s')" using g(2) sh(3) by (rule fle_trans)
  have wf: "wf_float (sm_filled_qty s')" unfolding f(6)
    using o g(1) f(1) by (intro normalize_wf) (auto simp: isfinite_iff intro: wf_fadd_fin)
  have fin: "isfinite (sm_remaining_qty s')" using o pos f(7) by (intro remaining_finite) auto
  have part: "sm_status s' \<noteq> FILLED \<Longrightarrow> flt EPS (sm_remaining_qty s')"
    using f(9) fin not_flt_fin EPS_pos(3) by metis
  have le: "sm_status s' \<noteq> FILLED \<Longrightarrow> fle (sm_filled_qty s') (sm_order_qty s')"
  proof -
    assume "sm_status s' \<noteq> FILLED"
    then have "flt EPS (sm_remaining_qty s')" by (rule part)
    then have "flt (sm_filled_qty s') (sm_order_qty s')"
      unfolding sm_remaining_qty_def f(7)
      using remaining_pos_less [OF o(2)] nonneg_fin_or_inf [OF pos] by blast
    then show ?thesis unfolding fle_def by blast
  qed
  have fl: "sm_status s' = FILLED \<Longrightarrow> fle (sm_remaining_qty s') EPS"
    using f(9) by (cases "fle (sm_remaining_qty s') EPS"; cases "sm_status s = CANCEL_REQUESTED") simp_all
  show "sm_inv s'" unfolding sm_inv_def
    using o f(3,7,8) wf pos sh part le fl by (simp add: sm_checked_ts_Inr)
qed

lemma exec_inv:
  assumes "sm_inv s" "osm_exec s x = Inr (e, s')"
  shows "sm_inv s' \<and> fle (sm_filled_qty s) (sm_filled_qty s')"
  using exec_transition_cases [OF assms(2)]
proof (elim disjE exE conjE)
  fix q t assume "apply_fill s q t = Inr (e, s')"
  with fill_inv [OF assms(1)] show ?thesis by blast
next
  fix n allowed target
  assume t: "sm_transition s n (op_ts x) allowed target = Inr (e, s')" 
    "(allowed, target) \<in> {([NEW], SENT), ([SENT], ACKNOWLEDGED), ([SENT], REJECTED),
        ([ACKNOWLEDGED, PARTIALLY_FILLED], EXPIRED),
        ([ACKNOWLEDGED, PARTIALLY_FILLED], CANCEL_REQUESTED), ([CANCEL_REQUESTED], CANCELLED)}"
  then have "sm_inv s' \<and> sm_filled_qty s' = sm_filled_qty s"
    by (intro transition_inv [OF assms(1)]) auto
  moreover have "fle (sm_filled_qty s) (sm_filled_qty s)"
    using assms(1) by (cases "sm_filled_qty s") (auto simp: sm_inv_def)
  ultimately show ?thesis by simp
qed

text \<open>A fresh machine, as the callers build it, satisfies the invariant.\<close>

lemma fresh_inv:
  assumes "wf_float oq" "sm_post_init \<lparr>sm_order_qty = oq, sm_status = NEW, sm_filled_qty = Fin 0,
     sm_last_event_ts_ms = None\<rparr> = Inr s"
  shows "sm_inv s" "sm_status s = NEW" "sm_order_qty s = oq" "sm_last_event_ts_ms s = None"
proof -
  let ?s = "\<lparr>sm_order_qty = oq, sm_status = NEW, sm_filled_qty = Fin 0, sm_last_event_ts_ms = None\<rparr>"
  have oq: "isfinite oq" "flt (Fin 0) oq" and s: "s = sm_normalize ?s"
    using assms(2) by (auto simp: sm_post_init_def err_simps contract_simps)
  have fin: "sm_filled_qty s = Fin 0 \<or> sm_filled_qty s = oq"
    using sm_normalize_filled [of ?s] by (auto simp: s)
  note sh = normalize_shape [of ?s, folded s]
  have 1: "sm_filled_qty s = Fin 0 \<or> flt EPS (sm_filled_qty s) \<or> sm_filled_qty s = oq"
    "fle oq EPS \<longrightarrow> sm_filled_qty s \<noteq> Fin 0"
    using sh(1,2) assms(1) oq by simp_all
  have 2: "sm_order_qty s = oq" "sm_status s = NEW" "sm_last_event_ts_ms s = None"
    by (simp_all add: s)
  show "sm_inv s" using assms(1) oq 1 2 fin
    by (cases oq) (auto simp: sm_inv_def)
  show "sm_status s = NEW" "sm_order_qty s = oq" "sm_last_event_ts_ms s = None" by (simp_all add: s)
qed

lemma reachable_inv:
  assumes "osm_reachable s0 s" "sm_inv s0"
  shows "sm_inv s \<and> fle (sm_filled_qty s0) (sm_filled_qty s)"
  using assms
proof (induction rule: osm_reachable.induct)
  case refl
  then show ?case by (cases "sm_filled_qty s0") (auto simp: sm_inv_def)
next
  case (trans s s')
  then show ?case using exec_inv fle_trans by (blast elim: osm_stepE)
qed


section \<open>Properties\<close>

text \<open>Sums the concrete runs below need.\<close>

lemma fill_sums:
  "fle (Fin (1 / 1099511627776)) EPS" "b64 (1 / 1099511627776) = Fin (1 / 1099511627776)"
  "\<not> flt (fadd (Fin 10) EPS) (Fin (1 / 1099511627776))"
proof -
  show b: "b64 (1 / 1099511627776) = Fin (1 / 1099511627776)" by code_simp
  show "fle (Fin (1 / 1099511627776)) EPS" by (simp add: EPS_eq)
  show "\<not> flt (fadd (Fin 10) EPS) (Fin (1 / 1099511627776))"
    using b wf_b64 [of "1 / 1099511627776"] by (intro add_EPS_ge) simp_all
qed

lemmas osm_eval = apply_fill_def sm_checked_ts_def positive_def nonnegative_def raise_if_def
  sm_remaining_qty_def sm_normalize_def Let_def



text \<open>C20. A call that succeeds moves the machine along the lifecycle graph only, reports
  the statuses it moved between and the time it was given in its event, records that time, keeps the
  order quantity, and is not earlier (by more than the tolerance) than the last event.\<close>
theorem order_lifecycle:
  assumes "osm_exec s x = Inr (e, s')"
  shows "sm_status s' \<in> set (legal_next (sm_status s)) \<and> se_status_before e = sm_status s \<and>
    se_status_after e = sm_status s' \<and> se_event_ts_ms e = op_ts x \<and>
    sm_last_event_ts_ms s' = Some (op_ts x) \<and> sm_order_qty s' = sm_order_qty s \<and>
    (\<forall>l. sm_last_event_ts_ms s = Some l \<longrightarrow> \<not> flt (fadd (op_ts x) EPS) l)"
  using exec_legal [OF assms] exec_ts [OF assms] by (auto simp: sm_checked_ts_Inr)

theorem order_lifecycle_witness:
  "\<exists>e s'. osm_exec \<lparr>sm_order_qty = Fin 10, sm_status = CANCEL_REQUESTED, sm_filled_qty = Fin 4,
     sm_last_event_ts_ms = Some (Fin 3)\<rparr> (ApplyFill (Fin 6) (Fin 5)) = Inr (e, s') \<and>
     sm_status s' = FILLED \<and> FILLED \<in> set (legal_next CANCEL_REQUESTED) \<and> se_event_ts_ms e = Fin 5"
proof -
  let ?s = "\<lparr>sm_order_qty = Fin 10, sm_status = CANCEL_REQUESTED, sm_filled_qty = Fin 4,
     sm_last_event_ts_ms = Some (Fin 3)\<rparr>"
  have r: "osm_exec ?s (ApplyFill (Fin 6) (Fin 5)) = Inr (\<lparr>se_event_type = ''FILL'',
      se_event_ts_ms = Fin 5, se_status_before = CANCEL_REQUESTED, se_status_after = FILLED,
      se_fill_qty = Fin 6\<rparr>, \<lparr>sm_order_qty = Fin 10, sm_status = FILLED, sm_filled_qty = Fin 10,
      sm_last_event_ts_ms = Some (Fin 5)\<rparr>)"
    by (simp add: osm_eval fill_sums cong: eval_cong)
  show ?thesis using order_lifecycle [OF r] r by auto
qed

text \<open>A terminal order refuses every call: whatever the operation and its arguments,
  the result is a \<open>ValueError\<close>, and the machine stays as it was.\<close>
theorem terminal_refuses_every_call:
  assumes "sm_is_terminal s"
  shows "\<exists>m. osm_exec s x = Inl (ValueError m)"
  using terminal_no_success [OF assms] exec_errors
  by (cases "osm_exec s x") auto

text \<open>A fill below the tolerance is accepted but lost: on an acknowledged order of ten, a fill
  of \<open>2^-40\<close> (less than \<open>1e-12\<close>) moves the machine to PARTIALLY_FILLED while \<open>_normalize\<close> resets
  its filled quantity to zero, a state the constructor itself refuses.\<close>
theorem dust_fill_leaves_invalid_partial:
  "\<exists>e s'. apply_fill \<lparr>sm_order_qty = Fin 10, sm_status = ACKNOWLEDGED, sm_filled_qty = Fin 0,
       sm_last_event_ts_ms = Some (Fin 2)\<rparr> (Fin (1 / 1099511627776)) (Fin 3) = Inr (e, s') \<and>
     sm_status s' = PARTIALLY_FILLED \<and> sm_filled_qty s' = Fin 0 \<and>
     sm_post_init s' = Inl (ValueError ''PARTIALLY_FILLED requires 0 < filled_qty < order_qty'')"
proof -
  let ?s = "\<lparr>sm_order_qty = Fin 10, sm_status = PARTIALLY_FILLED, sm_filled_qty = Fin 0,
    sm_last_event_ts_ms = Some (Fin 3)\<rparr>"
  have "apply_fill \<lparr>sm_order_qty = Fin 10, sm_status = ACKNOWLEDGED, sm_filled_qty = Fin 0,
       sm_last_event_ts_ms = Some (Fin 2)\<rparr> (Fin (1 / 1099511627776)) (Fin 3) =
     Inr (\<lparr>se_event_type = ''FILL'', se_event_ts_ms = Fin 3, se_status_before = ACKNOWLEDGED,
       se_status_after = PARTIALLY_FILLED, se_fill_qty = Fin (1 / 1099511627776)\<rparr>, ?s)"
    by (simp add: osm_eval fill_sums cong: eval_cong)
  moreover have "sm_post_init ?s =
      Inl (ValueError ''PARTIALLY_FILLED requires 0 < filled_qty < order_qty'')"
    by (simp add: sm_post_init_def opt_check_def osm_eval fill_sums cong: eval_cong)
  ultimately show ?thesis by auto
qed

end
