(* ===== verification/Portfolio.thy ===== *)
theory Portfolio
  imports PyText PyFloat
begin

text \<open>
  \<open>src/std0_quant/execution/portfolio.py\<close>: cash, reserved cash, positions and reserved
  positions.  Every method of \<open>PortfolioState\<close> takes the portfolio and returns its result or
  exception with the portfolio it leaves; \<open>positions\<close> and \<open>reserved_positions\<close> are
  dictionaries in insertion order, keyed by the stripped (condition id, outcome).
\<close>

section \<open>Validation\<close>

definition pf_finite :: "pyfloat \<Rightarrow> string \<Rightarrow> pyfloat res" where
  "pf_finite value name =
     raise_if (\<not> isfinite value) (ValueError (name @ '' must be finite'')) (Inr value)"

definition pf_nonnegative :: "pyfloat \<Rightarrow> string \<Rightarrow> pyfloat res" where
  "pf_nonnegative value name = bindE (pf_finite value name) (\<lambda>v.
     raise_if (flt v (Fin 0)) (ValueError (name @ '' must be >= 0'')) (Inr v))"

definition pf_positive :: "pyfloat \<Rightarrow> string \<Rightarrow> pyfloat res" where
  "pf_positive value name = bindE (pf_finite value name) (\<lambda>v.
     raise_if (fle v (Fin 0)) (ValueError (name @ '' must be > 0'')) (Inr v))"

definition pf_key :: "string \<Rightarrow> string \<Rightarrow> (string \<times> string) res" where
  "pf_key condition_id outcome =
     (let c = py_strip condition_id; o' = py_strip outcome in
      raise_if (c = []) (ValueError ''condition_id must be non-empty'') (
      raise_if (o' = []) (ValueError ''outcome must be non-empty'') (Inr (c, o'))))"

section \<open>State\<close>

record position =
  po_condition_id :: string
  po_outcome :: string
  po_qty :: pyfloat
  po_cost_basis :: pyfloat

definition average_cost :: "position \<Rightarrow> pyfloat option res" where
  "average_cost p = (if fle (po_qty p) EPS then Inr None
     else bindE (fdiv (po_cost_basis p) (po_qty p)) (\<lambda>c. Inr (Some c)))"

type_synonym pkey = "string \<times> string"

record portfolio =
  pf_cash :: pyfloat
  pf_reserved_cash :: pyfloat
  pf_realized_pnl :: pyfloat
  pf_positions :: "(pkey \<times> position) list"
  pf_reserved_positions :: "(pkey \<times> pyfloat) list"

definition portfolio_post_init :: "portfolio \<Rightarrow> portfolio res" where
  "portfolio_post_init p =
     bindE (pf_nonnegative (pf_cash p) ''cash'') (\<lambda>c.
     bindE (pf_nonnegative (pf_reserved_cash p) ''reserved_cash'') (\<lambda>r.
     bindE (pf_finite (pf_realized_pnl p) ''realized_pnl'') (\<lambda>g.
     raise_if (flt (fadd c EPS) r) (ValueError ''reserved_cash cannot exceed cash'')
       (Inr (p\<lparr>pf_cash := c, pf_reserved_cash := r, pf_realized_pnl := g\<rparr>)))))"

definition available_cash :: "portfolio \<Rightarrow> pyfloat" where
  "available_cash p = py_max (Fin 0) (fsub (pf_cash p) (pf_reserved_cash p))"

definition gross_cost_exposure :: "portfolio \<Rightarrow> pyfloat" where
  "gross_cost_exposure p = py_sum (map (po_cost_basis \<circ> snd) (pf_positions p))"

definition reserved_position_qty :: "portfolio \<Rightarrow> string \<Rightarrow> string \<Rightarrow> pyfloat res" where
  "reserved_position_qty p cid out =
     bindE (pf_key cid out) (\<lambda>k. Inr (dget (pf_reserved_positions p) k (Fin 0)))"

definition held_qty :: "portfolio \<Rightarrow> pkey \<Rightarrow> pyfloat" where
  "held_qty p k = (case map_of (pf_positions p) k of Some q \<Rightarrow> po_qty q | None \<Rightarrow> Fin 0)"

definition available_position_qty :: "portfolio \<Rightarrow> string \<Rightarrow> string \<Rightarrow> pyfloat res" where
  "available_position_qty p cid out = bindE (pf_key cid out) (\<lambda>k.
     Inr (py_max (Fin 0) (fsub (held_qty p k) (dget (pf_reserved_positions p) k (Fin 0)))))"

section \<open>Reservations of positions\<close>

definition reserve_sell_qty :: "string \<Rightarrow> string \<Rightarrow> pyfloat \<Rightarrow> portfolio \<Rightarrow> unit res \<times> portfolio" where
  "reserve_sell_qty cid out qty p =
     checkS (pf_positive qty ''qty'') p (\<lambda>q.
     checkS (pf_key cid out) p (\<lambda>k.
     checkS (available_position_qty p cid out) p (\<lambda>a.
     failS (flt (fadd a EPS) q) (ValueError ''insufficient available position'') p (
     (Inr (), p\<lparr>pf_reserved_positions :=
        dput k (fadd (dget (pf_reserved_positions p) k (Fin 0)) q) (pf_reserved_positions p)\<rparr>)))))"

definition release_reserved_sell_qty ::
  "string \<Rightarrow> string \<Rightarrow> pyfloat \<Rightarrow> portfolio \<Rightarrow> unit res \<times> portfolio" where
  "release_reserved_sell_qty cid out qty p =
     checkS (pf_positive qty ''qty'') p (\<lambda>q.
     checkS (pf_key cid out) p (\<lambda>k.
     let reserved = dget (pf_reserved_positions p) k (Fin 0) in
     failS (flt (fadd reserved EPS) q) (ValueError ''cannot release more than reserved position'') p (
     let remaining = fsub reserved q in
     (Inr (), p\<lparr>pf_reserved_positions :=
        (if fle remaining EPS then dpop k (pf_reserved_positions p)
         else dput k remaining (pf_reserved_positions p))\<rparr>))))"

text \<open>\<open>position\<close> inserts an empty position for a key it does not find, and returns the object
  in the dictionary: callers read and write it through the key.\<close>

definition empty_position :: "pkey \<Rightarrow> position" where
  "empty_position k = \<lparr>po_condition_id = fst k, po_outcome = snd k, po_qty = Fin 0, po_cost_basis = Fin 0\<rparr>"

definition position_of :: "string \<Rightarrow> string \<Rightarrow> portfolio \<Rightarrow> pkey res \<times> portfolio" where
  "position_of cid out p = checkS (pf_key cid out) p (\<lambda>k.
     (Inr k, if k \<in> fst ` set (pf_positions p) then p
             else p\<lparr>pf_positions := dput k (empty_position k) (pf_positions p)\<rparr>))"

definition pos_at :: "portfolio \<Rightarrow> pkey \<Rightarrow> position" where
  "pos_at p k = dget (pf_positions p) k (empty_position k)"

definition put_pos :: "pkey \<Rightarrow> position \<Rightarrow> portfolio \<Rightarrow> portfolio" where
  "put_pos k q p = p\<lparr>pf_positions := dput k q (pf_positions p)\<rparr>"

section \<open>Normalisation and its assertions\<close>

definition pf_normalize_position :: "pkey \<Rightarrow> portfolio \<Rightarrow> unit res \<times> portfolio" where
  "pf_normalize_position k p =
     (let p1 = (if fle (fabs (po_qty (pos_at p k))) EPS
                then put_pos k ((pos_at p k)\<lparr>po_qty := Fin 0, po_cost_basis := Fin 0\<rparr>) p else p) in
      failS (flt (po_qty (pos_at p1 k)) (fneg EPS))
        (AssertionError ''negative position invariant violated'') p1 (
      failS (flt (po_cost_basis (pos_at p1 k)) (fneg EPS))
        (AssertionError ''negative cost basis invariant violated'') p1 (Inr (), p1)))"

definition pf_normalize :: "portfolio \<Rightarrow> unit res \<times> portfolio" where
  "pf_normalize p =
     (let p1 = (if fle (fabs (pf_cash p)) EPS then p\<lparr>pf_cash := Fin 0\<rparr> else p);
          p2 = (if fle (fabs (pf_reserved_cash p1)) EPS then p1\<lparr>pf_reserved_cash := Fin 0\<rparr> else p1) in
      failS (flt (pf_cash p2) (fneg EPS)) (AssertionError ''negative cash invariant violated'') p2 (
      failS (flt (fadd (pf_cash p2) EPS) (pf_reserved_cash p2))
        (AssertionError ''reserved cash exceeds cash'') p2 (Inr (), p2)))"

section \<open>Cash reservations and fills\<close>

definition reserve_buy_cash :: "pyfloat \<Rightarrow> portfolio \<Rightarrow> unit res \<times> portfolio" where
  "reserve_buy_cash amount p =
     checkS (pf_positive amount ''amount'') p (\<lambda>a.
     failS (flt (fadd (available_cash p) EPS) a) (ValueError ''insufficient available cash'') p (
     pf_normalize (p\<lparr>pf_reserved_cash := fadd (pf_reserved_cash p) a\<rparr>)))"

definition release_reserved_cash :: "pyfloat \<Rightarrow> portfolio \<Rightarrow> unit res \<times> portfolio" where
  "release_reserved_cash amount p =
     checkS (pf_positive amount ''amount'') p (\<lambda>a.
     failS (flt (fadd (pf_reserved_cash p) EPS) a)
       (ValueError ''cannot release more than reserved cash'') p (
     pf_normalize (p\<lparr>pf_reserved_cash := fsub (pf_reserved_cash p) a\<rparr>)))"

definition apply_buy_fill ::
  "string \<Rightarrow> string \<Rightarrow> pyfloat \<Rightarrow> pyfloat \<Rightarrow> pyfloat \<Rightarrow> pyfloat \<Rightarrow> bool \<Rightarrow> portfolio \<Rightarrow> unit res \<times> portfolio"
where
  "apply_buy_fill cid out qty price fee rebate consume_reserved_cash p =
     checkS (pf_positive qty ''qty'') p (\<lambda>q.
     checkS (pf_positive price ''price'') p (\<lambda>pr.
     checkS (pf_nonnegative fee ''fee_cost'') p (\<lambda>f.
     checkS (pf_nonnegative rebate ''rebate_credit'') p (\<lambda>rb.
     let gross = fmul q pr;
         net_cash_cost = fsub (fadd gross f) rb in
     failS (flt net_cash_cost (fneg EPS))
       (ValueError ''rebate cannot create negative buy cash cost'') p (
     let p1 = (if consume_reserved_cash
        then p\<lparr>pf_reserved_cash :=
               fsub (pf_reserved_cash p) (py_min (pf_reserved_cash p) net_cash_cost)\<rparr>
        else p) in
     failS (flt (fadd (pf_cash p1) EPS) net_cash_cost) (ValueError ''insufficient cash for buy fill'') p1 (
     let p2 = p1\<lparr>pf_cash := fsub (pf_cash p1) net_cash_cost\<rparr> in
     thenS (position_of cid out p2) (\<lambda>k p3.
     let p4 = put_pos k ((pos_at p3 k)\<lparr>po_qty := fadd (po_qty (pos_at p3 k)) q,
                po_cost_basis := fadd (po_cost_basis (pos_at p3 k)) gross\<rparr>) p3;
         p5 = p4\<lparr>pf_realized_pnl := fadd (fsub (pf_realized_pnl p4) f) rb\<rparr> in
     thenS (pf_normalize_position k p5) (\<lambda>_ p6. pf_normalize p6))))))))"

definition apply_sell_fill ::
  "string \<Rightarrow> string \<Rightarrow> pyfloat \<Rightarrow> pyfloat \<Rightarrow> pyfloat \<Rightarrow> pyfloat \<Rightarrow> portfolio \<Rightarrow> unit res \<times> portfolio"
where
  "apply_sell_fill cid out qty price fee rebate p =
     checkS (pf_positive qty ''qty'') p (\<lambda>q.
     checkS (pf_positive price ''price'') p (\<lambda>pr.
     checkS (pf_nonnegative fee ''fee_cost'') p (\<lambda>f.
     checkS (pf_nonnegative rebate ''rebate_credit'') p (\<lambda>rb.
     thenS (position_of cid out p) (\<lambda>k p1.
     let pos = pos_at p1 k in
     failS (flt (fadd (po_qty pos) EPS) q) (ValueError ''cannot sell more shares than held'') p1 (
     checkS (average_cost pos) p1 (\<lambda>ac.
     case ac of None \<Rightarrow> (Inl (ValueError ''cannot sell empty position''), p1)
     | Some avg \<Rightarrow>
     let removed_cost = fmul avg q;
         gross_proceeds = fmul pr q;
         net_proceeds = fadd (fsub gross_proceeds f) rb;
         p2 = p1\<lparr>pf_cash := fadd (pf_cash p1) net_proceeds\<rparr>;
         p3 = put_pos k (pos\<lparr>po_qty := fsub (po_qty pos) q,
                po_cost_basis := fsub (po_cost_basis pos) removed_cost\<rparr>) p2;
         p4 = p3\<lparr>pf_realized_pnl := fadd (pf_realized_pnl p3)
                (fadd (fsub (fsub gross_proceeds removed_cost) f) rb)\<rparr> in
     thenS (pf_normalize_position k p4) (\<lambda>_ p5. pf_normalize p5))))))))"


section \<open>The calls a client makes\<close>

datatype pf_op =
    ReserveSell string string pyfloat | ReleaseSell string string pyfloat
  | ReserveCash pyfloat | ReleaseCash pyfloat
  | BuyFill string string pyfloat pyfloat pyfloat pyfloat bool
  | SellFill string string pyfloat pyfloat pyfloat pyfloat
  | LookupPosition string string

fun pf_exec :: "pf_op \<Rightarrow> portfolio \<Rightarrow> unit res \<times> portfolio" where
  "pf_exec (ReserveSell c o' q) p = reserve_sell_qty c o' q p"
| "pf_exec (ReleaseSell c o' q) p = release_reserved_sell_qty c o' q p"
| "pf_exec (ReserveCash a) p = reserve_buy_cash a p"
| "pf_exec (ReleaseCash a) p = release_reserved_cash a p"
| "pf_exec (BuyFill c o' q pr f rb b) p = apply_buy_fill c o' q pr f rb b p"
| "pf_exec (SellFill c o' q pr f rb) p = apply_sell_fill c o' q pr f rb p"
| "pf_exec (LookupPosition c o') p = thenS (position_of c o' p) (\<lambda>_ p'. (Inr (), p'))"

inductive pf_reachable :: "portfolio \<Rightarrow> portfolio \<Rightarrow> bool" for p0 where
  pf_refl: "pf_reachable p0 p0"
| pf_trans: "pf_reachable p0 p \<Longrightarrow> pf_exec x p = (Inr (), p') \<Longrightarrow> pf_reachable p0 p'"

named_theorems pf_simps \<open>validation and lookups of the portfolio\<close>

lemma pf_finite_Inr [pf_simps]: "pf_finite v n = Inr w \<longleftrightarrow> w = v \<and> isfinite v"
  by (auto simp: pf_finite_def err_simps)

lemma pf_nonnegative_Inr [pf_simps]: "pf_nonnegative v n = Inr w \<longleftrightarrow> w = v \<and> isfinite v \<and> fle (Fin 0) v"
  by (cases v) (auto simp: pf_nonnegative_def pf_finite_def err_simps)

lemma pf_positive_Inr [pf_simps]: "pf_positive v n = Inr w \<longleftrightarrow> w = v \<and> isfinite v \<and> flt (Fin 0) v"
  by (cases v) (auto simp: pf_positive_def pf_finite_def err_simps)

lemma pf_key_Inr [pf_simps]:
  "pf_key c u = Inr k \<longleftrightarrow> k = (py_strip c, py_strip u) \<and> py_strip c \<noteq> [] \<and> py_strip u \<noteq> []"
  by (auto simp: pf_key_def Let_def err_simps)

lemma position_of_Inr [pf_simps]:
  "position_of c u p = (Inr k, p') \<longleftrightarrow> pf_key c u = Inr k \<and>
     p' = (if k \<in> fst ` set (pf_positions p) then p else put_pos k (empty_position k) p)"
  by (cases "pf_key c u") (auto simp: position_of_def put_pos_def)

lemma put_pos_simps [simp]:
  "pf_cash (put_pos k q p) = pf_cash p" "pf_reserved_cash (put_pos k q p) = pf_reserved_cash p"
  "pf_realized_pnl (put_pos k q p) = pf_realized_pnl p"
  "pf_reserved_positions (put_pos k q p) = pf_reserved_positions p"
  "map_of (pf_positions (put_pos k q p)) = (map_of (pf_positions p))(k \<mapsto> q)"
  by (simp_all add: put_pos_def)

lemma pos_at_put [simp]: "pos_at (put_pos k q p) k' = (if k' = k then q else pos_at p k')"
  by (simp add: pos_at_def put_pos_def)

section \<open>The invariant\<close>

text \<open>The checks of \<open>_normalize\<close> and \<open>_normalize_position\<close> are comparisons that a NaN
  passes, so the invariant is stated with them.\<close>

definition pos_ok :: "position \<Rightarrow> bool" where
  "pos_ok q \<longleftrightarrow> \<not> flt (po_qty q) (Fin 0) \<and> \<not> flt (po_cost_basis q) (fneg EPS) \<and>
     (po_qty q = Fin 0 \<longrightarrow> po_cost_basis q = Fin 0)"

definition positions_ok :: "portfolio \<Rightarrow> bool" where
  "positions_ok p \<longleftrightarrow> distinct (map fst (pf_positions p)) \<and>
     (\<forall>k q. map_of (pf_positions p) k = Some q \<longrightarrow> pos_ok q)"

definition reserved_ok :: "portfolio \<Rightarrow> bool" where
  "reserved_ok p \<longleftrightarrow> distinct (map fst (pf_reserved_positions p)) \<and>
     (\<forall>k v. map_of (pf_reserved_positions p) k = Some v \<longrightarrow> fle (Fin 0) v)"

definition cash_ok :: "portfolio \<Rightarrow> bool" where
  "cash_ok p \<longleftrightarrow> \<not> flt (pf_cash p) (Fin 0) \<and> \<not> flt (fadd (pf_cash p) EPS) (pf_reserved_cash p)"

definition pf_ok :: "portfolio \<Rightarrow> bool" where
  "pf_ok p \<longleftrightarrow> cash_ok p \<and> positions_ok p \<and> reserved_ok p"

lemma above_dust: "\<not> fle (fabs x) EPS \<Longrightarrow> \<not> flt x (fneg EPS) \<Longrightarrow> \<not> flt x (Fin 0)"
  by (cases x) (auto simp: EPS_eq abs_if split: if_splits)

lemma pf_normalize_Inr:
  assumes "pf_normalize p = (Inr (), p')"
  shows "cash_ok p'" "pf_positions p' = pf_positions p"
    "pf_reserved_positions p' = pf_reserved_positions p" "pf_realized_pnl p' = pf_realized_pnl p"
    "pf_cash p' = (if fle (fabs (pf_cash p)) EPS then Fin 0 else pf_cash p)"
    "pf_reserved_cash p' = (if fle (fabs (pf_reserved_cash p)) EPS then Fin 0 else pf_reserved_cash p)"
  using assms above_dust [of "pf_cash p"]
  by (auto simp: pf_normalize_def cash_ok_def Let_def err_simps EPS_eq split: if_splits)

lemma pf_normalize_position_Inr:
  assumes "pf_normalize_position k p = (Inr (), p')"
  shows "pos_ok (pos_at p' k)" "\<And>k'. k' \<noteq> k \<Longrightarrow> map_of (pf_positions p') k' = map_of (pf_positions p) k'"
    "pf_reserved_positions p' = pf_reserved_positions p" "pf_realized_pnl p' = pf_realized_pnl p"
    "pf_cash p' = pf_cash p" "pf_reserved_cash p' = pf_reserved_cash p"
    "distinct (map fst (pf_positions p)) \<Longrightarrow> distinct (map fst (pf_positions p'))"
proof -
  let ?p1 = "if fle (fabs (po_qty (pos_at p k))) EPS
     then put_pos k ((pos_at p k)\<lparr>po_qty := Fin 0, po_cost_basis := Fin 0\<rparr>) p else p"
  have p': "p' = ?p1" and a: "\<not> flt (po_qty (pos_at ?p1 k)) (fneg EPS)"
      "\<not> flt (po_cost_basis (pos_at ?p1 k)) (fneg EPS)"
    using assms unfolding pf_normalize_position_def Let_def by (auto simp only: err_simps prod.inject)
  show "pos_ok (pos_at p' k)"
    using a above_dust [of "po_qty (pos_at p k)"] unfolding p' pos_ok_def
    by (auto split: if_splits)
  show "\<And>k'. k' \<noteq> k \<Longrightarrow> map_of (pf_positions p') k' = map_of (pf_positions p) k'"
    "pf_reserved_positions p' = pf_reserved_positions p" "pf_realized_pnl p' = pf_realized_pnl p"
    "pf_cash p' = pf_cash p" "pf_reserved_cash p' = pf_reserved_cash p"
    by (simp_all add: p')
  show "distinct (map fst (pf_positions p)) \<Longrightarrow> distinct (map fst (pf_positions p'))"
    by (simp add: p' put_pos_def)
qed

text \<open>What the tail of both fill methods establishes, whatever the update of position \<open>k\<close>.\<close>

definition settle :: "pkey \<Rightarrow> portfolio \<Rightarrow> unit res \<times> portfolio" where
  "settle k p = thenS (pf_normalize_position k p) (\<lambda>_. pf_normalize)"

lemma settle_Inr:
  assumes "settle k p = (Inr (), p')"
  shows "cash_ok p'" "pos_ok (pos_at p' k)"
    "\<And>k'. k' \<noteq> k \<Longrightarrow> map_of (pf_positions p') k' = map_of (pf_positions p) k'"
    "pf_reserved_positions p' = pf_reserved_positions p" "pf_realized_pnl p' = pf_realized_pnl p"
    "distinct (map fst (pf_positions p)) \<Longrightarrow> distinct (map fst (pf_positions p'))"
proof -
  obtain p1 where n: "pf_normalize_position k p = (Inr (), p1)" "pf_normalize p1 = (Inr (), p')"
    using assms by (auto simp: settle_def err_simps)
  note a = pf_normalize_position_Inr [OF n(1)] and b = pf_normalize_Inr [OF n(2)]
  show "cash_ok p'" by (rule b)
  show "pos_ok (pos_at p' k)" using a(1) by (simp add: pos_at_def b(2))
  show "\<And>k'. k' \<noteq> k \<Longrightarrow> map_of (pf_positions p') k' = map_of (pf_positions p) k'"
    "pf_reserved_positions p' = pf_reserved_positions p" "pf_realized_pnl p' = pf_realized_pnl p"
    "distinct (map fst (pf_positions p)) \<Longrightarrow> distinct (map fst (pf_positions p'))"
    using a b by auto
qed

lemma settle_ok:
  assumes "settle k p = (Inr (), p')" "reserved_ok p" "distinct (map fst (pf_positions p))"
    "\<And>k' q. k' \<noteq> k \<Longrightarrow> map_of (pf_positions p) k' = Some q \<Longrightarrow> pos_ok q"
  shows "pf_ok p'"
proof -
  note s = settle_Inr [OF assms(1)]
  have "pos_ok q" if "map_of (pf_positions p') k' = Some q" for k' q
    using that s(2) s(3) [of k'] assms(4) [of k' q] by (cases "k' = k") (auto simp: pos_at_def dget_def)
  then show ?thesis using s assms by (auto simp: pf_ok_def positions_ok_def reserved_ok_def)
qed


text \<open>A fill that succeeds is an update of one position followed by \<open>settle\<close>.\<close>

lemma position_of_facts:
  assumes "position_of c u p = (Inr k, p')"
  shows "pf_key c u = Inr k" "pf_cash p' = pf_cash p" "pf_reserved_cash p' = pf_reserved_cash p"
    "pf_realized_pnl p' = pf_realized_pnl p" "pf_reserved_positions p' = pf_reserved_positions p"
    "\<And>k'. k' \<noteq> k \<Longrightarrow> map_of (pf_positions p') k' = map_of (pf_positions p) k'"
    "pos_at p' k = pos_at p k" "distinct (map fst (pf_positions p)) \<Longrightarrow> distinct (map fst (pf_positions p'))"
proof -
  have absent: "dget (pf_positions p) k (empty_position k) = empty_position k"
    if "k \<notin> fst ` set (pf_positions p)"
    using that by (simp add: dget_def map_of_eq_None_iff [THEN iffD2])
  show "pf_key c u = Inr k" "pf_cash p' = pf_cash p" "pf_reserved_cash p' = pf_reserved_cash p"
    "pf_realized_pnl p' = pf_realized_pnl p" "pf_reserved_positions p' = pf_reserved_positions p"
    "\<And>k'. k' \<noteq> k \<Longrightarrow> map_of (pf_positions p') k' = map_of (pf_positions p) k'"
    "distinct (map fst (pf_positions p)) \<Longrightarrow> distinct (map fst (pf_positions p'))"
    using assms by (auto simp: pf_simps put_pos_def)
  show "pos_at p' k = pos_at p k"
    using assms absent by (auto simp: pf_simps pos_at_def [of p])
qed

lemma buy_Inr:
  assumes "apply_buy_fill c u q pr f rb b p = (Inr (), p')"
  defines "gross \<equiv> fmul q pr"
  defines "net \<equiv> fsub (fadd gross f) rb"
  obtains k p5 where "pf_key c u = Inr k" "settle k p5 = (Inr (), p')"
    "pf_reserved_positions p5 = pf_reserved_positions p"
    "\<And>k'. k' \<noteq> k \<Longrightarrow> map_of (pf_positions p5) k' = map_of (pf_positions p) k'"
    "distinct (map fst (pf_positions p)) \<Longrightarrow> distinct (map fst (pf_positions p5))"
    "pos_at p5 k = (pos_at p k)\<lparr>po_qty := fadd (po_qty (pos_at p k)) q,
       po_cost_basis := fadd (po_cost_basis (pos_at p k)) gross\<rparr>"
    "pf_cash p5 = fsub (pf_cash p) net"
    "pf_reserved_cash p5 = (if b then fsub (pf_reserved_cash p) (py_min (pf_reserved_cash p) net)
       else pf_reserved_cash p)"
    "pf_realized_pnl p5 = fadd (fsub (pf_realized_pnl p) f) rb"
    "isfinite q" "flt (Fin 0) q" "isfinite pr" "flt (Fin 0) pr" "isfinite f" "fle (Fin 0) f" "isfinite rb" "fle (Fin 0) rb"
    "\<not> flt net (fneg EPS)" "\<not> flt (fadd (pf_cash p) EPS) net"
proof -
  define p2 where "p2 = (if b then p\<lparr>pf_reserved_cash :=
      fsub (pf_reserved_cash p) (py_min (pf_reserved_cash p) net)\<rparr> else p)\<lparr>pf_cash := fsub (pf_cash p) net\<rparr>"
  have p2: "pf_positions p2 = pf_positions p" "pf_reserved_positions p2 = pf_reserved_positions p"
    "pf_realized_pnl p2 = pf_realized_pnl p" "pf_cash p2 = fsub (pf_cash p) net"
    "pf_reserved_cash p2 = (if b then fsub (pf_reserved_cash p) (py_min (pf_reserved_cash p) net)
       else pf_reserved_cash p)" "pos_at p2 k = pos_at p k" for k
    by (simp_all add: p2_def pos_at_def)
  have v: "isfinite q" "flt (Fin 0) q" "isfinite pr" "flt (Fin 0) pr" "isfinite f" "fle (Fin 0) f"
      "isfinite rb" "fle (Fin 0) rb" "\<not> flt net (fneg EPS)" "\<not> flt (fadd (pf_cash p) EPS) net"
    using assms(1) unfolding apply_buy_fill_def Let_def
    by (auto simp: err_simps pf_simps net_def gross_def split: if_splits)
  obtain k p3 where k: "position_of c u p2 = (Inr k, p3)"
    and s: "settle k ((put_pos k ((pos_at p3 k)\<lparr>po_qty := fadd (po_qty (pos_at p3 k)) q,
                po_cost_basis := fadd (po_cost_basis (pos_at p3 k)) gross\<rparr>) p3)
                \<lparr>pf_realized_pnl := fadd (fsub (pf_realized_pnl p3) f) rb\<rparr>) = (Inr (), p')"
    using assms(1) unfolding apply_buy_fill_def Let_def settle_def
    by (auto simp: err_simps pf_simps(1-3) net_def gross_def p2_def split: if_splits)
  note pk = position_of_facts [OF k]
  show thesis
    by (rule that [OF pk(1) s]) (use pk p2 v in \<open>auto simp: pos_at_def [of "_\<lparr>pf_realized_pnl := _\<rparr>"]
      put_pos_def pos_at_def\<close>)
qed


lemma average_cost_Inr: "average_cost x = Inr (Some a) \<Longrightarrow> \<not> fle (po_qty x) EPS"
  by (auto simp: average_cost_def split: if_splits)

lemma average_cost_total: "\<exists>a. average_cost x = Inr a"
proof (cases "fle (po_qty x) EPS")
  case False
  then have "po_qty x \<noteq> Fin 0" by (auto simp: EPS_eq)
  then show ?thesis by (cases "po_qty x"; cases "po_cost_basis x") (auto simp: average_cost_def)
qed (simp add: average_cost_def)

lemma sell_Inr:
  assumes "apply_sell_fill c u q pr f rb p = (Inr (), p')"
  obtains k p5 avg where "pf_key c u = Inr k" "settle k p5 = (Inr (), p')"
    "average_cost (pos_at p k) = Inr (Some avg)" "\<not> flt (fadd (po_qty (pos_at p k)) EPS) q"
    "pf_reserved_positions p5 = pf_reserved_positions p"
    "\<And>k'. k' \<noteq> k \<Longrightarrow> map_of (pf_positions p5) k' = map_of (pf_positions p) k'"
    "distinct (map fst (pf_positions p)) \<Longrightarrow> distinct (map fst (pf_positions p5))"
    "pos_at p5 k = (pos_at p k)\<lparr>po_qty := fsub (po_qty (pos_at p k)) q,
       po_cost_basis := fsub (po_cost_basis (pos_at p k)) (fmul avg q)\<rparr>"
    "pf_cash p5 = fadd (pf_cash p) (fadd (fsub (fmul pr q) f) rb)"
    "pf_reserved_cash p5 = pf_reserved_cash p"
    "pf_realized_pnl p5 = fadd (pf_realized_pnl p)
       (fadd (fsub (fsub (fmul pr q) (fmul avg q)) f) rb)"
proof -
  obtain k p1 avg where k: "position_of c u p = (Inr k, p1)"
    and r: "\<not> flt (fadd (po_qty (pos_at p1 k)) EPS) q"
    and avg: "average_cost (pos_at p1 k) = Inr (Some avg)"
    and s: "settle k ((put_pos k ((pos_at p1 k)\<lparr>po_qty := fsub (po_qty (pos_at p1 k)) q,
             po_cost_basis := fsub (po_cost_basis (pos_at p1 k)) (fmul avg q)\<rparr>)
             (p1\<lparr>pf_cash := fadd (pf_cash p1) (fadd (fsub (fmul pr q) f) rb)\<rparr>))
             \<lparr>pf_realized_pnl := fadd (pf_realized_pnl p1)
               (fadd (fsub (fsub (fmul pr q) (fmul avg q)) f) rb)\<rparr>) = (Inr (), p')"
    using assms unfolding apply_sell_fill_def Let_def settle_def
    by (auto simp: err_simps pf_simps(1-3) split: option.splits)
  note pk = position_of_facts [OF k]
  show thesis
    by (rule that [OF pk(1) s]) (use pk r avg in \<open>auto simp: put_pos_def pos_at_def\<close>)
qed

lemma reserved_ok_updates:
  assumes "reserved_ok p"
  shows "fle (Fin 0) w \<Longrightarrow> reserved_ok (p\<lparr>pf_reserved_positions := dput k w (pf_reserved_positions p)\<rparr>)"
    "reserved_ok (p\<lparr>pf_reserved_positions := dpop k (pf_reserved_positions p)\<rparr>)"
    "fle (Fin 0) (dget (pf_reserved_positions p) k (Fin 0))"
  using assms by (auto simp: reserved_ok_def dget_def simp del: map_of_eq_Some_iff split_paired_All split: option.splits)

lemma put_pos_ok:
  "positions_ok p \<Longrightarrow> pos_ok q \<Longrightarrow> positions_ok (put_pos k q p)"
  "cash_ok (put_pos k q p) = cash_ok p" "reserved_ok (put_pos k q p) = reserved_ok p"
  "pos_ok (empty_position k)"
  by (simp_all add: positions_ok_def cash_ok_def reserved_ok_def pos_ok_def empty_position_def EPS_eq
      del: map_of_eq_Some_iff, simp add: put_pos_def)

lemma settle_pf_ok:
  assumes "settle k p5 = (Inr (), p')" "pf_ok p" "pf_reserved_positions p5 = pf_reserved_positions p"
    "\<And>k'. k' \<noteq> k \<Longrightarrow> map_of (pf_positions p5) k' = map_of (pf_positions p) k'"
    "distinct (map fst (pf_positions p)) \<Longrightarrow> distinct (map fst (pf_positions p5))"
  shows "pf_ok p'"
proof (rule settle_ok [OF assms(1)])
  show "reserved_ok p5" "distinct (map fst (pf_positions p5))"
    using assms(2,3,5) by (auto simp: pf_ok_def reserved_ok_def positions_ok_def)
  show "pos_ok q" if "k' \<noteq> k" "map_of (pf_positions p5) k' = Some q" for k' q
    using assms(2) that assms(4) [of k'] unfolding pf_ok_def positions_ok_def by metis
qed

lemma reserved_upd_ok [simp]:
  "cash_ok (p\<lparr>pf_reserved_positions := d\<rparr>) = cash_ok p"
  "positions_ok (p\<lparr>pf_reserved_positions := d\<rparr>) = positions_ok p"
  by (simp_all add: cash_ok_def positions_ok_def)

lemma exec_pf_ok:
  assumes "pf_ok p" "pf_exec x p = (Inr (), p')"
  shows "pf_ok p'"
proof (cases x)
  case (ReserveSell c u q)
  then have "p' = (let k = (py_strip c, py_strip u) in p\<lparr>pf_reserved_positions :=
       dput k (fadd (dget (pf_reserved_positions p) k (Fin 0)) q) (pf_reserved_positions p)\<rparr>)"
    and q: "fle (Fin 0) q"
    using assms(2) by (auto simp: reserve_sell_qty_def err_simps pf_simps fle_def Let_def)
  then show ?thesis using assms(1) reserved_ok_updates [of p]
    by (simp add: Let_def pf_ok_def fadd_nonneg)
next
  case (ReleaseSell c u q)
  then have p': "p' = (let k = (py_strip c, py_strip u); r = fsub (dget (pf_reserved_positions p) k (Fin 0)) q
      in p\<lparr>pf_reserved_positions := (if fle r EPS then dpop k (pf_reserved_positions p)
           else dput k r (pf_reserved_positions p))\<rparr>)"
    and q: "isfinite q"
    using assms(2) by (auto simp: release_reserved_sell_qty_def err_simps pf_simps Let_def)
  have big: "fle (Fin 0) (fsub r q)" if "fle (Fin 0) r" "\<not> fle (fsub r q) EPS" for r
    using that q by (cases r; cases q; cases "fsub r q") (auto simp: fsub_def EPS_eq b64_eq split: if_splits)
  show ?thesis using p' assms(1) big reserved_ok_updates [of p]
    by (simp add: Let_def pf_ok_def)
next
  case (LookupPosition c u)
  then obtain k where "position_of c u p = (Inr k, p')"
    using assms(2) by (auto simp: err_simps)
  then show ?thesis using assms(1) by (auto simp: pf_simps pf_ok_def put_pos_ok)
next
  case (BuyFill c u q pr f rb b)
  then have "apply_buy_fill c u q pr f rb b p = (Inr (), p')" using assms(2) by simp
  then show ?thesis
  proof (rule buy_Inr)
    fix k p5
    assume s: "settle k p5 = (Inr (), p')" and r: "pf_reserved_positions p5 = pf_reserved_positions p"
      and o': "\<And>k'. k' \<noteq> k \<Longrightarrow> map_of (pf_positions p5) k' = map_of (pf_positions p) k'"
      and d: "distinct (map fst (pf_positions p)) \<Longrightarrow> distinct (map fst (pf_positions p5))"
    show ?thesis using settle_pf_ok [OF s assms(1) r o' d] .
  qed
next
  case (SellFill c u q pr f rb)
  then have "apply_sell_fill c u q pr f rb p = (Inr (), p')" using assms(2) by simp
  then show ?thesis
  proof (rule sell_Inr)
    fix k p5
    assume s: "settle k p5 = (Inr (), p')" and r: "pf_reserved_positions p5 = pf_reserved_positions p"
      and o': "\<And>k'. k' \<noteq> k \<Longrightarrow> map_of (pf_positions p5) k' = map_of (pf_positions p) k'"
      and d: "distinct (map fst (pf_positions p)) \<Longrightarrow> distinct (map fst (pf_positions p5))"
    show ?thesis using settle_pf_ok [OF s assms(1) r o' d] .
  qed
qed (use assms in \<open>auto simp: reserve_buy_cash_def release_reserved_cash_def err_simps pf_ok_def
  positions_ok_def reserved_ok_def dest: pf_normalize_Inr\<close>)


section \<open>Reserving and releasing cash\<close>

lemma pf_normalize_ok_iff:
  "fst (pf_normalize p) = Inr () \<longleftrightarrow>
     (let c = (if fle (fabs (pf_cash p)) EPS then Fin 0 else pf_cash p);
          r = (if fle (fabs (pf_reserved_cash p)) EPS then Fin 0 else pf_reserved_cash p) in
      \<not> flt c (fneg EPS) \<and> \<not> flt (fadd c EPS) r)"
  by (auto simp: pf_normalize_def Let_def failS_def)

lemma reserve_release_amounts:
  assumes "wf_float r" "fle (Fin 0) r" "wf_float a" "isfinite a" "flt (Fin 0) a" "isfinite r"
  defines "r1 \<equiv> (if fle (fabs (fadd r a)) EPS then Fin 0 else fadd r a)"
  defines "r2 \<equiv> (if fle (fabs (fsub r1 a)) EPS then Fin 0 else fsub r1 a)"
  shows "\<not> flt (fadd r1 EPS) a" "fle r2 r1" "fle (Fin 0) r2"
proof -
  obtain x y where xy: "r = Fin x" "0 \<le> x" "a = Fin y" "0 < y"
    using assms by (auto simp: isfinite_iff)
  have wy: "wf_float (Fin y)" using assms xy by simp
  have ge: "fle (Fin y) (b64 (x + y))" using wy xy by (intro b64_ge) simp_all
  have "\<not> flt (fadd r1 EPS) a \<and> fle r2 r1 \<and> fle (Fin 0) r2"
  proof (cases "b64 (x + y)")
    case (Fin z)
    then have z: "y \<le> z" "wf_float (Fin z)" using ge wf_b64 [of "x + y"] by (simp_all del: wf_float.simps)
    show ?thesis
    proof (cases "fle (Fin z) EPS")
      case True
      then have "fle (Fin y) EPS" using z fle_trans [of "Fin y" "Fin z" EPS] by simp
      moreover from this have "\<not> flt EPS (Fin y)" using fle_flt_trans by fastforce
      moreover have "b64 (- y) = Fin (- y)" using b64_repr [of "- y"] wy wf_fneg [of "Fin y"] by (simp del: wf_float.simps)
      moreover have "\<bar>z\<bar> = z" using z xy by simp
      ultimately show ?thesis using True xy Fin by (simp add: r1_def r2_def)
    next
      case False
      have 1: "fadd r a = Fin z" using Fin xy by simp
      have r1: "r1 = Fin z" using False z xy unfolding r1_def 1 by simp
      obtain w where w: "b64 (z - y) = Fin w" "0 \<le> w" "w \<le> z"
        using b64_between [OF z(2), of "z - y"] z(1) xy by auto
      have "\<not> flt (fadd r1 EPS) a" unfolding r1 xy using wy z by (intro add_EPS_ge)
      moreover have "r2 = Fin 0 \<or> r2 = Fin w" using w by (auto simp: r2_def r1 xy)
      ultimately show ?thesis using w r1 by auto
    qed
  next
    case PInf
    then show ?thesis using xy by (simp add: r1_def r2_def fsub_def EPS_eq)
  qed (use ge in auto)
  then show "\<not> flt (fadd r1 EPS) a" "fle r2 r1" "fle (Fin 0) r2" by auto
qed


section \<open>What a call can change, its failures included\<close>

fun op_keys :: "pf_op \<Rightarrow> pkey set" where
  "op_keys (ReserveSell c u q) = {(py_strip c, py_strip u)}"
| "op_keys (ReleaseSell c u q) = {(py_strip c, py_strip u)}"
| "op_keys (BuyFill c u q pr f rb b) = {(py_strip c, py_strip u)}"
| "op_keys (SellFill c u q pr f rb) = {(py_strip c, py_strip u)}"
| "op_keys (LookupPosition c u) = {(py_strip c, py_strip u)}"
| "op_keys _ = {}"

definition same_at :: "pkey \<Rightarrow> portfolio \<Rightarrow> portfolio \<Rightarrow> bool" where
  "same_at k p p' \<longleftrightarrow> map_of (pf_positions p') k = map_of (pf_positions p) k \<and>
     map_of (pf_reserved_positions p') k = map_of (pf_reserved_positions p) k"

lemma same_at_simps [simp]:
  "same_at k p p" "k \<noteq> j \<Longrightarrow> same_at k p (put_pos j q p') = same_at k p p'"
  "same_at k p (p'\<lparr>pf_cash := c\<rparr>) = same_at k p p'"
  "same_at k p (p'\<lparr>pf_reserved_cash := c\<rparr>) = same_at k p p'"
  "same_at k p (p'\<lparr>pf_realized_pnl := c\<rparr>) = same_at k p p'"
  by (simp_all add: same_at_def)

lemma position_of_same:
  "position_of c u p' = (r, s) \<Longrightarrow> k \<noteq> (py_strip c, py_strip u) \<Longrightarrow> same_at k p s = same_at k p p'"
  by (auto simp: position_of_def pf_key_def Let_def raise_if_def checkS_def same_at_def split: if_splits)

lemma pf_normalize_same [simp]: "same_at k p (snd (pf_normalize p')) = same_at k p p'"
  by (simp add: pf_normalize_def Let_def failS_def)

lemma pf_normalize_post: "same_at k p p' \<Longrightarrow> post (\<lambda>r. same_at k p) (pf_normalize p')"
  by (simp add: post_def)

lemma pf_normalize_position_same:
  "pf_normalize_position j p' = (r, s) \<Longrightarrow> k \<noteq> j \<Longrightarrow> same_at k p s = same_at k p p'"
  by (auto simp: pf_normalize_position_def Let_def failS_def split: if_splits)

lemma settle_same: "k \<noteq> j \<Longrightarrow> same_at k p p' \<Longrightarrow> post (\<lambda>r. same_at k p) (settle j p')"
  unfolding settle_def
  by (rule post_thenS) (auto simp: pf_normalize_position_same post_def)

lemma exec_same: "k \<notin> op_keys x \<Longrightarrow> post (\<lambda>r. same_at k p) (pf_exec x p)"
proof (cases x)
  case (BuyFill c u q pr f rb b)
  assume k: "k \<notin> op_keys x"
  show ?thesis using k unfolding BuyFill pf_exec.simps op_keys.simps apply_buy_fill_def Let_def settle_def [symmetric]
    by (auto intro!: post_intros settle_same simp: position_of_same pf_simps)
next
  case (SellFill c u q pr f rb)
  assume k: "k \<notin> op_keys x"
  show ?thesis using k unfolding SellFill pf_exec.simps op_keys.simps apply_sell_fill_def Let_def settle_def [symmetric]
    by (auto intro!: post_intros settle_same simp: position_of_same pf_simps split: option.split)
next
  case (LookupPosition c u)
  assume "k \<notin> op_keys x"
  then show ?thesis using LookupPosition by (auto intro!: post_intros simp: position_of_same)
qed (auto intro!: post_intros pf_normalize_post simp: reserve_sell_qty_def release_reserved_sell_qty_def
  Let_def pf_simps reserve_buy_cash_def release_reserved_cash_def same_at_def)

text \<open>The accounts a rejected call must not touch.\<close>

definition same_accounts :: "portfolio \<Rightarrow> portfolio \<Rightarrow> bool" where
  "same_accounts p p' \<longleftrightarrow> pf_cash p' = pf_cash p \<and> pf_reserved_cash p' = pf_reserved_cash p \<and>
     pf_realized_pnl p' = pf_realized_pnl p \<and> pf_reserved_positions p' = pf_reserved_positions p \<and>
     (\<forall>k. pos_at p' k = pos_at p k)"

definition rejected_clean :: "portfolio \<Rightarrow> 'a res \<Rightarrow> portfolio \<Rightarrow> bool" where
  "rejected_clean p r p' \<longleftrightarrow> (\<forall>m. r = Inl (ValueError m) \<longrightarrow> same_accounts p p')"

lemma same_accounts_refl [simp]: "same_accounts p p"
  by (simp add: same_accounts_def)

lemma position_of_same_accounts: "position_of c u p = (r, p') \<Longrightarrow> same_accounts p p'"
proof (cases r)
  case (Inr k)
  moreover assume "position_of c u p = (r, p')"
  ultimately have "position_of c u p = (Inr k, p')" by simp
  from position_of_facts [OF this] show ?thesis
    by (auto simp: same_accounts_def pos_at_def dget_def) metis
qed (auto simp: position_of_def err_simps)

lemma pf_normalize_no_value_error: "pf_normalize p \<noteq> (Inl (ValueError m), p')"
  by (auto simp: pf_normalize_def Let_def err_simps)

lemma settle_no_value_error: "settle k p \<noteq> (Inl (ValueError m), p')"
  using pf_normalize_no_value_error
  by (auto simp: settle_def pf_normalize_position_def Let_def err_simps split: if_splits)

lemma settle_clean: "post (rejected_clean p0) (settle k p)"
  using settle_no_value_error [of k p] by (cases "settle k p") (auto simp: post_def rejected_clean_def)

lemma normalize_clean: "post (rejected_clean p0) (pf_normalize p)"
  using pf_normalize_no_value_error [of p] by (cases "pf_normalize p") (auto simp: post_def rejected_clean_def)

lemma position_of_fresh:
  "pf_key c u = Inr k \<Longrightarrow> k \<notin> fst ` set (pf_positions p) \<Longrightarrow>
     position_of c u p = (Inr k, put_pos k (empty_position k) p)"
  by (simp add: position_of_def put_pos_def)

lemma position_of_known:
  "pf_key c u = Inr k \<Longrightarrow> k \<in> fst ` set (pf_positions p) \<Longrightarrow> position_of c u p = (Inr k, p)"
  by (simp add: position_of_def)

lemma empty_qty: "po_qty (empty_position k) = Fin 0" "po_cost_basis (empty_position k) = Fin 0"
  by (simp_all add: empty_position_def)

lemma settle_stays:
  assumes "po_qty (pos_at p k) = Fin a" "flt EPS (Fin a)" "po_cost_basis (pos_at p k) = Fin g" "0 \<le> g"
    "pf_cash p = Fin y" "y = 0 \<or> flt EPS (Fin y)" "pf_reserved_cash p = Fin 0"
  shows "settle k p = (Inr (), p)"
proof -
  have "0 < a" "0 \<le> y" using assms(2,6) by (auto simp: EPS_eq)
  moreover have "\<not> fle (Fin a) EPS" "y = 0 \<or> \<not> fle (Fin y) EPS" using assms(2,6) by (auto simp: EPS_eq)
  ultimately show ?thesis using assms
    by (auto simp: settle_def pf_normalize_position_def pf_normalize_def Let_def)
qed

lemma settle_empties:
  assumes "po_qty (pos_at p k) = Fin 0" "pf_cash p = Fin y" "flt EPS (Fin y)" "pf_reserved_cash p = Fin 0"
  shows "settle k p = (Inr (), put_pos k ((pos_at p k)\<lparr>po_qty := Fin 0, po_cost_basis := Fin 0\<rparr>) p)"
proof -
  have "0 < y" "\<not> fle (Fin y) EPS" using assms(3) by (auto simp: EPS_eq)
  then show ?thesis using assms
    by (simp add: settle_def pf_normalize_position_def pf_normalize_def Let_def)
qed

lemma exec_clean:
  assumes "\<And>c u q pr f rb b. x \<noteq> BuyFill c u q pr f rb b"
  shows "post (rejected_clean p) (pf_exec x p)"
proof (cases x)
  case (BuyFill c u q pr f rb b)
  with assms show ?thesis by blast
next
  case (SellFill c u q pr f rb)
  show ?thesis unfolding SellFill pf_exec.simps apply_sell_fill_def Let_def settle_def [symmetric]
    by (auto intro!: post_intros settle_clean simp: rejected_clean_def split: option.split)
      (blast intro: position_of_same_accounts)+
qed (auto intro!: post_intros normalize_clean simp: reserve_sell_qty_def release_reserved_sell_qty_def
  Let_def reserve_buy_cash_def release_reserved_cash_def rejected_clean_def intro: position_of_same_accounts)

section \<open>Properties\<close>


lemma release_after_reserve:
  assumes "wf_float (pf_reserved_cash p)" "fle (Fin 0) (pf_reserved_cash p)" "isfinite (pf_reserved_cash p)"
    and "wf_float a" "reserve_buy_cash a p = (Inr (), p1)"
  shows "\<exists>p2. release_reserved_cash a p1 = (Inr (), p2) \<and> pf_cash p2 = pf_cash p1 \<and>
    pf_positions p2 = pf_positions p \<and> pf_reserved_positions p2 = pf_reserved_positions p \<and>
    pf_realized_pnl p2 = pf_realized_pnl p \<and> fle (pf_reserved_cash p2) (pf_reserved_cash p1) \<and>
    fle (Fin 0) (pf_reserved_cash p2)"
proof -
  have a: "isfinite a" "flt (Fin 0) a"
    and n: "pf_normalize (p\<lparr>pf_reserved_cash := fadd (pf_reserved_cash p) a\<rparr>) = (Inr (), p1)"
    using assms(5) by (auto simp: reserve_buy_cash_def err_simps pf_simps)
  note n1 = pf_normalize_Inr [OF n]
  let ?p = "p1\<lparr>pf_reserved_cash := fsub (pf_reserved_cash p1) a\<rparr>"
  have r1: "pf_reserved_cash p1 = (if fle (fabs (fadd (pf_reserved_cash p) a)) EPS then Fin 0
      else fadd (pf_reserved_cash p) a)" using n1(6) by simp
  note am = reserve_release_amounts [OF assms(1,2,4) a assms(3), folded r1]
  have cash: "(if fle (fabs (pf_cash p1)) EPS then Fin 0 else pf_cash p1) = pf_cash p1"
    using n1(5) by auto
  have low: "\<not> flt (pf_cash p1) (fneg EPS)"
    using n1(1) flt_trans [of "pf_cash p1" "fneg EPS" "Fin 0"] by (auto simp: cash_ok_def EPS_eq)
  have up: "\<not> flt (fadd (pf_cash p1) EPS) r" if "fle r (pf_reserved_cash p1)" for r
    using n1(1) that flt_fle_trans unfolding cash_ok_def by blast
  have upd: "pf_cash ?p = pf_cash p1" "pf_reserved_cash ?p = fsub (pf_reserved_cash p1) a" by simp_all
  have "fst (pf_normalize ?p) = Inr ()"
    using low up [OF am(2)]
    by (simp only: pf_normalize_ok_iff Let_def upd cash simp_thms)
  then obtain p2 where p2: "pf_normalize ?p = (Inr (), p2)"
    by (metis (full_types) prod.collapse)
  note n2 = pf_normalize_Inr [OF p2, unfolded upd cash]
  have "release_reserved_cash a p1 = (Inr (), p2)"
    using a am(1) p2 by (simp add: release_reserved_cash_def pf_positive_Inr [THEN iffD2])
  moreover have "pf_positions p2 = pf_positions p" "pf_reserved_positions p2 = pf_reserved_positions p"
    "pf_realized_pnl p2 = pf_realized_pnl p" using n1(2-4) n2(2-4) by simp_all
  moreover have "fle (pf_reserved_cash p2) (pf_reserved_cash p1)" "fle (Fin 0) (pf_reserved_cash p2)"
    unfolding n2(6) by (rule am(2), rule am(3))
  ultimately show ?thesis using n2(5) by blast
qed

text \<open>Whatever cash a strategy reserved it can release: after a successful
  \<open>reserve_buy_cash\<close> the release of the same amount raises nothing, rounding included, leaves cash,
  positions and realized profit as they were, and does not increase the reserved cash.\<close>
theorem reserve_then_release:
  assumes "wf_float (pf_reserved_cash p)" "fle (Fin 0) (pf_reserved_cash p)" "isfinite (pf_reserved_cash p)"
    and "wf_float a" "reserve_buy_cash a p = (Inr (), p1)"
  shows "\<exists>p2. release_reserved_cash a p1 = (Inr (), p2) \<and> pf_cash p2 = pf_cash p1 \<and>
    pf_positions p2 = pf_positions p \<and> pf_reserved_positions p2 = pf_reserved_positions p \<and>
    pf_realized_pnl p2 = pf_realized_pnl p \<and> fle (pf_reserved_cash p2) (pf_reserved_cash p1) \<and>
    fle (Fin 0) (pf_reserved_cash p2)"
  by (rule release_after_reserve [OF assms])


text \<open>No call, whether it succeeds, is rejected or fails an assertion half way, touches the
  position or the reserved quantity of any other market outcome than the one it names; the cash
  reservations touch none at all.\<close>
theorem call_touches_its_key_only:
  assumes "pf_exec x p = (r, p')" "k \<notin> op_keys x"
  shows "map_of (pf_positions p') k = map_of (pf_positions p) k \<and>
    map_of (pf_reserved_positions p') k = map_of (pf_reserved_positions p) k"
  using postD [OF exec_same [OF assms(2)] assms(1)] by (simp add: same_at_def)

text \<open>A rejected call is harmless: every method except \<open>apply_buy_fill\<close> that raises
  \<open>ValueError\<close> leaves cash, reserved cash, realized profit, every reserved quantity and every
  position's quantity and cost as they were (a rejected sell may add an empty position object).\<close>
theorem rejected_call_keeps_accounts:
  assumes "pf_exec x p = (Inl (ValueError m), p')"
    and "\<forall>c u q pr f rb b. x \<noteq> BuyFill c u q pr f rb b"
  shows "same_accounts p p'"
  using postD [OF exec_clean assms(1)] assms(2) by (auto simp: rejected_clean_def)


text \<open>Reservations of shares are not bounded by the shares held: the tolerance lets a reservation
  of at most \<open>1e-12\<close> pass when nothing is available, each such reservation is added up, and no
  assertion of \<open>PortfolioState\<close> looks at reserved quantities. Two of them against an empty
  portfolio reserve more than the tolerance.\<close>
theorem dust_reservations_accumulate:
  "\<exists>p1 p2. let p0 = \<lparr>pf_cash = Fin 0, pf_reserved_cash = Fin 0, pf_realized_pnl = Fin 0,
       pf_positions = [], pf_reserved_positions = []\<rparr> in
     reserve_sell_qty ''m'' ''YES'' EPS p0 = (Inr (), p1) \<and> reserve_sell_qty ''m'' ''YES'' EPS p1 = (Inr (), p2) \<and>
     flt (fadd (held_qty p2 (''m'', ''YES'')) EPS) (dget (pf_reserved_positions p2) (''m'', ''YES'') (Fin 0))"
proof -
  have strip: "py_strip ''m'' = ''m''" "py_strip ''YES'' = ''YES''" by code_simp+
  define e2 where "e2 = fadd EPS EPS"
  have e2: "fadd EPS EPS = e2" "flt EPS e2" "b64 0 = Fin 0" "fsub (Fin 0) EPS = fneg EPS"
      "py_max (Fin 0) (fneg EPS) = Fin 0" "isfinite EPS" "\<not> fle EPS (Fin 0)" "fadd (Fin 0) EPS = EPS"
      "\<not> flt EPS EPS"
    unfolding e2_def by code_simp+
  let ?p = "\<lambda>r. \<lparr>pf_cash = Fin 0, pf_reserved_cash = Fin 0, pf_realized_pnl = Fin 0,
       pf_positions = [], pf_reserved_positions = r\<rparr>"
  have "reserve_sell_qty ''m'' ''YES'' EPS (?p []) = (Inr (), ?p [((''m'', ''YES''), EPS)])"
    "reserve_sell_qty ''m'' ''YES'' EPS (?p [((''m'', ''YES''), EPS)]) = (Inr (), ?p [((''m'', ''YES''), e2)])"
    by (simp_all add: reserve_sell_qty_def pf_positive_def pf_finite_def available_position_qty_def pf_key_def
        strip held_qty_def dget_def e2 cong: eval_cong)
  then show ?thesis using e2 by (simp add: held_qty_def dget_def)
qed



theorem call_touches_its_key_only_witness:
  "let p = \<lparr>pf_cash = Fin 100, pf_reserved_cash = Fin 0, pf_realized_pnl = Fin 0,
       pf_positions = [((''n'', ''NO''), \<lparr>po_condition_id = ''n'', po_outcome = ''NO'', po_qty = Fin 3,
          po_cost_basis = Fin 2\<rparr>)], pf_reserved_positions = []\<rparr> in
   map_of (pf_positions (snd (pf_exec (BuyFill ''m'' ''YES'' (Fin 4) (Fin 2) (Fin 0) (Fin 0) True) p))) (''n'', ''NO'') =
     map_of (pf_positions p) (''n'', ''NO'')"
proof -
  have "(''n'', ''NO'') \<notin> op_keys (BuyFill ''m'' ''YES'' (Fin 4) (Fin 2) (Fin 0) (Fin 0) True)" by code_simp
  then show ?thesis using call_touches_its_key_only [OF surjective_pairing] unfolding Let_def by blast
qed

text \<open>Buying shares and selling them at the same price without fees is neutral: when the cost
  is exact in binary64 and the cash left is zero or above the tolerance, the buy moves exactly the
  cost from cash to the position, and the sell restores the cash and the realized profit and leaves
  an empty position.\<close>
theorem buy_sell_round_trip:
  assumes "pf_cash p = Fin x" "wf_float (Fin x)" "flt EPS (Fin x)" "pf_reserved_cash p = Fin 0"
    and "pf_realized_pnl p = Fin w" "wf_float (Fin w)"
    and "pf_key c u = Inr k" "k \<notin> fst ` set (pf_positions p)"
    and "wf_float (Fin a)" "wf_float (Fin b)" "flt EPS (Fin a)" "0 < b" "wf_float (Fin (a * b))"
    and "wf_float (Fin (x - a * b))" "x = a * b \<or> flt EPS (Fin (x - a * b))"
  shows "\<exists>p1 p2. apply_buy_fill c u (Fin a) (Fin b) (Fin 0) (Fin 0) False p = (Inr (), p1) \<and>
     pf_cash p1 = Fin (x - a * b) \<and> po_qty (pos_at p1 k) = Fin a \<and> po_cost_basis (pos_at p1 k) = Fin (a * b) \<and>
     apply_sell_fill c u (Fin a) (Fin b) (Fin 0) (Fin 0) p1 = (Inr (), p2) \<and>
     pf_cash p2 = pf_cash p \<and> pf_realized_pnl p2 = pf_realized_pnl p \<and> pos_at p2 k = empty_position k"
proof -
  have a: "0 < a" "a \<noteq> 0" using assms(11) by (auto simp: EPS_eq)
  have x: "0 < x" using assms(3) by (auto simp: EPS_eq)
  have ab: "0 < a * b" using a assms(12) by simp
  have le: "a * b \<le> x" using assms(15) by (auto simp: EPS_eq)
  note w = assms(2,6,9,10,13,14)
  have b: "b64 (a * b) = Fin (a * b)" "b64 (b * a) = Fin (a * b)" "b64 (x - a * b) = Fin (x - a * b)"
      "b64 a = Fin a" "b64 b = Fin b" "b64 w = Fin w" "b64 x = Fin x" "b64 (x - a * b + a * b) = Fin x"
    using b64_repr [OF w(1)] b64_repr [OF w(2)] b64_repr [OF w(3)] b64_repr [OF w(4)] b64_repr [OF w(5)]
      b64_repr [OF w(6)] by (simp_all add: mult.commute [of b a])
  have t: "\<not> flt (fadd (Fin x) EPS) (Fin (a * b))" "\<not> flt (fadd (Fin a) EPS) (Fin a)"
    using add_EPS_ge [OF w(5) le] add_EPS_ge [OF w(3), of a] by simp_all
  have neg: "\<not> flt (Fin (a * b)) (fneg EPS)" using ab by simp
  have fresh: "pos_at p k = empty_position k" "map_of (pf_positions p) k = None"
    using assms(8) by (simp_all add: pos_at_def dget_def map_of_eq_None_iff [THEN iffD2])
  have pos: "0 \<le> x - a * b" using le by simp
  define q1 where "q1 = (empty_position k)\<lparr>po_qty := Fin a, po_cost_basis := Fin (a * b)\<rparr>"
  define p1 where "p1 = (put_pos k q1 (put_pos k (empty_position k) (p\<lparr>pf_cash := Fin (x - a * b)\<rparr>)))\<lparr>pf_realized_pnl := Fin w\<rparr>"
  have p1: "pos_at p1 k = q1" "pf_cash p1 = Fin (x - a * b)" "pf_reserved_cash p1 = Fin 0"
    "pf_realized_pnl p1 = Fin w" "k \<in> fst ` set (pf_positions p1)"
    using assms(4) by (simp_all add: p1_def pos_at_def put_pos_def keys_dput)
  have c0: "fadd (Fin 0) (Fin a) = Fin a" "fadd (Fin 0) (Fin (a * b)) = Fin (a * b)" "a - a = 0" "b64 0 = Fin 0"
    using b by simp_all
  have s1: "settle k p1 = (Inr (), p1)"
    by (rule settle_stays) (use p1 assms(11,15) ab in \<open>auto simp: q1_def\<close>)
  have buy: "apply_buy_fill c u (Fin a) (Fin b) (Fin 0) (Fin 0) False p = (Inr (), p1)"
    using a assms(1,5,7,8,12) b(1-4,6) t(1) neg s1 [unfolded p1_def q1_def] c0
    by (simp add: apply_buy_fill_def pf_positive_def pf_nonnegative_def pf_finite_def position_of_fresh
        settle_def [symmetric] p1_def q1_def empty_qty Let_def cong: eval_cong)
  have avg: "average_cost q1 = Inr (Some (Fin b))"
    using a assms(11) b(5) by (simp add: average_cost_def q1_def EPS_eq)
  define p2 where "p2 = (\<lambda>q2. (put_pos k q2 (p1\<lparr>pf_cash := Fin x\<rparr>))\<lparr>pf_realized_pnl := Fin w\<rparr>)"
  have "settle k (p2 (q1\<lparr>po_qty := Fin 0, po_cost_basis := Fin 0\<rparr>)) =
      (Inr (), put_pos k ((q1\<lparr>po_qty := Fin 0, po_cost_basis := Fin 0\<rparr>)) (p2 (q1\<lparr>po_qty := Fin 0, po_cost_basis := Fin 0\<rparr>)))"
    using settle_empties [of "p2 (q1\<lparr>po_qty := Fin 0, po_cost_basis := Fin 0\<rparr>)" k x] assms(3) p1
    by (simp add: p2_def pos_at_def put_pos_def)
  then have "apply_sell_fill c u (Fin a) (Fin b) (Fin 0) (Fin 0) p1 =
      (Inr (), put_pos k ((q1\<lparr>po_qty := Fin 0, po_cost_basis := Fin 0\<rparr>)) (p2 (q1\<lparr>po_qty := Fin 0, po_cost_basis := Fin 0\<rparr>)))"
    using a assms(7,12) avg b t(2) p1 c0
    by (simp add: apply_sell_fill_def pf_positive_def pf_nonnegative_def pf_finite_def position_of_known
        settle_def [symmetric] p2_def q1_def empty_qty Let_def cong: eval_cong)
  then show ?thesis using buy p1 assms(1,5)
    by (auto simp: p2_def q1_def empty_position_def)
qed


end
