(* ===== verification/OsFile.thy ===== *)
theory OsFile
  imports Prelude PyText
begin

text \<open>
  The operating system as the two durable logs use it: one append-only file, reached through an
  open descriptor, its \<open>stat\<close> answers, \<open>write\<close>, \<open>fsync\<close>, \<open>flock\<close>.  The \<open>world\<close> holds
  the bytes in the file, the bytes that are known to survive a crash, and the answers the system
  will give to the calls still to come; every theorem is for every list of answers, and an
  exhausted list is a failing system.  A write appends what it was told it wrote (\<open>O_APPEND\<close>); a
  successful \<open>fsync\<close> makes the whole content durable.
\<close>

record st =
  st_dev :: int
  st_ino :: int
  st_nlink :: int
  st_size :: int
  st_mtime_ns :: int
  st_ctime_ns :: int
  st_isreg :: bool

type_synonym stamp = "int \<times> int \<times> int \<times> int \<times> int \<times> int"

text \<open>\<open>_stamp\<close>, and the component \<open>stamp[3]\<close>.\<close>

definition stamp_of :: "st \<Rightarrow> stamp" where
  "stamp_of i = (st_dev i, st_ino i, st_nlink i, st_size i, st_mtime_ns i, st_ctime_ns i)"

definition stamp_size :: "stamp \<Rightarrow> int" where
  "stamp_size s = fst (snd (snd (snd s)))"

lemma stamp_size_of [simp]: "stamp_size (stamp_of i) = st_size i"
  by (simp add: stamp_size_def stamp_of_def)

text \<open>What a \<open>write\<close> call answers: a count, \<open>EINTR\<close>, an I/O error, or an exception raised by
  the interpreter meanwhile (such as KeyboardInterrupt).  A \<open>stat\<close> round answers \<open>fstat\<close> of the
  file, \<open>stat\<close> of its name, \<open>stat\<close> of the parent and \<open>fstat\<close> of the open parent, or an error.\<close>

datatype write_reply = Wrote int | WIntr | WFail | WBase

text \<open>What a \<open>pread\<close> call answers: how many of the bytes asked for it delivers (none at the end of the
  file), \<open>EINTR\<close> or an I/O error.\<close>

datatype pread_reply = Got nat | PIntr | PFail

type_synonym stat_reply = "(st \<times> st \<times> st \<times> st) option"

record world =
  w_linux :: bool
  w_pid :: int
  w_exists :: bool
  w_locked :: bool
  w_content :: string
  w_durable :: string
  w_opens :: "bool list"
  w_writes :: "write_reply list"
  w_stats :: "stat_reply list"
  w_syncs :: "bool list"
  w_reads :: "bool list"
  w_closes :: "bool list"
  w_preads :: "pread_reply list"

definition pop :: "'a \<Rightarrow> 'a list \<Rightarrow> 'a" where
  "pop d xs = (case xs of [] \<Rightarrow> d | x # _ \<Rightarrow> x)"

definition os_write :: "string \<Rightarrow> world \<Rightarrow> int res \<times> world" where
  "os_write view w =
     (let w' = w\<lparr>w_writes := drop 1 (w_writes w)\<rparr> in
      case pop WFail (w_writes w) of
        Wrote n \<Rightarrow> (Inr n, w'\<lparr>w_content := w_content w @ take (nat n) view\<rparr>)
      | WIntr \<Rightarrow> (Inl InterruptedError, w')
      | WFail \<Rightarrow> (Inl OSError, w')
      | WBase \<Rightarrow> (Inl OtherException, w'))"

definition os_fsync :: "world \<Rightarrow> unit res \<times> world" where
  "os_fsync w =
     (let w' = w\<lparr>w_syncs := drop 1 (w_syncs w)\<rparr> in
      if pop False (w_syncs w) then (Inr (), w'\<lparr>w_durable := w_content w\<rparr>) else (Inl OSError, w'))"

definition os_stat :: "world \<Rightarrow> (st \<times> st \<times> st \<times> st) res \<times> world" where
  "os_stat w =
     (let w' = w\<lparr>w_stats := drop 1 (w_stats w)\<rparr> in
      case pop None (w_stats w) of None \<Rightarrow> (Inl OSError, w') | Some s \<Rightarrow> (Inr s, w'))"

definition os_read :: "world \<Rightarrow> string res \<times> world" where
  "os_read w =
     (let w' = w\<lparr>w_reads := drop 1 (w_reads w)\<rparr> in
      if pop False (w_reads w) then (Inr (w_content w), w') else (Inl OSError, w'))"

definition os_open_dir :: "world \<Rightarrow> unit res \<times> world" where
  "os_open_dir w =
     (let w' = w\<lparr>w_opens := drop 1 (w_opens w)\<rparr> in
      if pop False (w_opens w) then (Inr (), w') else (Inl OSError, w'))"

text \<open>\<open>os.open\<close> of the file: \<open>O_CREAT | O_EXCL\<close> fails on an existing file, an open without
  \<open>O_CREAT\<close> on an absent one.\<close>

definition os_open_file :: "bool \<Rightarrow> world \<Rightarrow> unit res \<times> world" where
  "os_open_file create w =
     (let w' = w\<lparr>w_opens := drop 1 (w_opens w)\<rparr> in
      if pop False (w_opens w) \<and> w_exists w \<noteq> create
      then (Inr (), if create then w'\<lparr>w_exists := True, w_content := [], w_durable := []\<rparr> else w')
      else (Inl OSError, w'))"

definition os_close :: "world \<Rightarrow> bool \<times> world" where
  "os_close w = (pop True (w_closes w), w\<lparr>w_closes := drop 1 (w_closes w)\<rparr>)"

definition os_pread :: "nat \<Rightarrow> nat \<Rightarrow> world \<Rightarrow> string res \<times> world" where
  "os_pread sz offset w =
     (let w' = w\<lparr>w_preads := drop 1 (w_preads w)\<rparr> in
      case pop PFail (w_preads w) of
        Got n \<Rightarrow> (Inr (take (min n sz) (drop offset (w_content w))), w')
      | PIntr \<Rightarrow> (Inl InterruptedError, w')
      | PFail \<Rightarrow> (Inl OSError, w'))"

section \<open>\<open>_write_all\<close>\<close>

text \<open>Write until nothing is left: an interrupted call is repeated, a count outside
  \<open>1 .. len(view)\<close> is an I/O error.  Every round uses up one answer, and the empty list fails.\<close>

function write_all :: "string \<Rightarrow> world \<Rightarrow> unit res \<times> world" where
  "write_all view w =
     (if view = [] then (Inr (), w) else
      if w_writes w = [] then (Inl OSError, w) else
      (case os_write view w of
         (Inl e, w') \<Rightarrow> if e = InterruptedError then write_all view w' else (Inl e, w')
       | (Inr written, w') \<Rightarrow>
           if written \<le> 0 \<or> int (length view) < written then (Inl OSError, w')
           else write_all (drop (nat written) view) w'))"
  by pat_completeness auto
termination
  by (relation "measure (\<lambda>(view, w). length (w_writes w))")
    (auto simp: os_write_def Let_def split: write_reply.splits)

declare write_all.simps [simp del]

lemma write_all_end:
  "write_all [] w = (Inr (), w)"
  "view \<noteq> [] \<Longrightarrow> w_writes w = [] \<Longrightarrow> write_all view w = (Inl OSError, w)"
  by (subst write_all.simps, simp)+

lemma write_all_step:
  "view \<noteq> [] \<Longrightarrow> w_writes w \<noteq> [] \<Longrightarrow> write_all view w =
     (case os_write view w of
        (Inl e, w') \<Rightarrow> if e = InterruptedError then write_all view w' else (Inl e, w')
      | (Inr written, w') \<Rightarrow>
          if written \<le> 0 \<or> int (length view) < written then (Inl OSError, w')
          else write_all (drop (nat written) view) w')"
  by (subst write_all.simps) simp

text \<open>What a write can do to the world.\<close>

definition only_io :: "world \<Rightarrow> world \<Rightarrow> bool" where
  "only_io w w' \<longleftrightarrow> w_pid w' = w_pid w \<and> w_linux w' = w_linux w \<and> w_exists w' = w_exists w \<and>
     w_locked w' = w_locked w"

definition same_file :: "world \<Rightarrow> world \<Rightarrow> bool" where
  "same_file w w' \<longleftrightarrow> only_io w w' \<and> w_content w' = w_content w \<and> w_durable w' = w_durable w"

lemma only_io_refl [simp]: "only_io w w"
  by (simp add: only_io_def)

lemma only_io_trans: "only_io a b \<Longrightarrow> only_io b c \<Longrightarrow> only_io a c"
  by (simp add: only_io_def)

lemma same_file_refl [simp]: "same_file w w"
  by (simp add: same_file_def)

lemma same_file_trans: "same_file a b \<Longrightarrow> same_file b c \<Longrightarrow> same_file a c"
  by (auto simp: same_file_def intro: only_io_trans)

lemma os_stat_same: "os_stat w = (r, w') \<Longrightarrow> same_file w w'"
  by (auto simp: os_stat_def Let_def same_file_def only_io_def split: option.splits)

lemma os_read_same: "os_read w = (r, w') \<Longrightarrow> same_file w w' \<and> (\<forall>s. r = Inr s \<longrightarrow> s = w_content w)"
  by (auto simp: os_read_def Let_def same_file_def only_io_def split: if_splits)

lemma os_open_dir_same: "os_open_dir w = (r, w') \<Longrightarrow> same_file w w'"
  by (auto simp: os_open_dir_def Let_def same_file_def only_io_def split: if_splits)

lemma os_fsync_effect:
  "os_fsync w = (r, w') \<Longrightarrow> only_io w w' \<and> w_content w' = w_content w \<and>
     w_durable w' = (if r = Inr () then w_content w else w_durable w)"
  by (auto simp: os_fsync_def Let_def only_io_def split: if_splits)

text \<open>A completed \<open>_write_all\<close> appended exactly the payload; one that raised appended some
  prefix of it.  Either way nothing became durable.\<close>

lemma write_all_effect:
  "write_all view w = (r, w') \<Longrightarrow> only_io w w' \<and> w_durable w' = w_durable w \<and>
     (\<exists>x. prefix x view \<and> w_content w' = w_content w @ x \<and> (r = Inr () \<longrightarrow> x = view))"
proof (induction view w arbitrary: r w' rule: write_all.induct)
  case (1 view w)
  show ?case
  proof (cases "view = [] \<or> w_writes w = []")
    case True
    with 1(3) show ?thesis by (cases "view = []") (auto simp: write_all_end)
  next
    case False
    obtain q w1 where q: "os_write view w = (q, w1)" by (cases "os_write view w")
    have io: "only_io w w1" "w_durable w1 = w_durable w"
      using q by (auto simp: os_write_def Let_def only_io_def split: write_reply.splits)
    show ?thesis
    proof (cases q)
      case (Inl e)
      then have same: "w_content w1 = w_content w"
        using q by (auto simp: os_write_def Let_def split: write_reply.splits)
      show ?thesis
      proof (cases "e = InterruptedError")
        case True
        then have "write_all view w1 = (r, w')"
          using 1(3) False q Inl by (simp add: write_all_step)
        from 1(1) [OF _ _ q [symmetric] _ True this] False Inl io same show ?thesis
          by (auto intro: only_io_trans)
      next
        case other: False
        then have "r = Inl e \<and> w' = w1"
          using 1(3) False q Inl by (simp add: write_all_step)
        then show ?thesis using io same by auto
      qed
    next
      case (Inr n)
      then have app: "w_content w1 = w_content w @ take (nat n) view"
        using q by (auto simp: os_write_def Let_def split: write_reply.splits)
      show ?thesis
      proof (cases "n \<le> 0 \<or> int (length view) < n")
        case True
        then have "r = Inl OSError \<and> w' = w1"
          using 1(3) False q Inr by (simp add: write_all_step)
        then show ?thesis using io app by (auto simp: take_is_prefix)
      next
        case good: False
        then have "write_all (drop (nat n) view) w1 = (r, w')"
          using 1(3) False q Inr by (simp add: write_all_step)
        from 1(2) [OF _ _ q [symmetric] Inr good this] False
        obtain x where x: "only_io w1 w'" "w_durable w' = w_durable w1" "prefix x (drop (nat n) view)"
          "w_content w' = w_content w1 @ x" "r = Inr () \<longrightarrow> x = drop (nat n) view" by blast
        have "prefix (take (nat n) view @ x) view"
          using x(3) by (metis append_take_drop_id same_prefix_prefix)
        then show ?thesis using x io app
          by (auto intro: only_io_trans intro!: exI [of _ "take (nat n) view @ x"])
      qed
    qed
  qed
qed

section \<open>\<open>_read_exact\<close>\<close>

text \<open>Read until \<open>sz\<close> bytes are there: an interrupted call is repeated, an empty answer is an
  unexpected end of the file.\<close>

function read_exact :: "nat \<Rightarrow> nat \<Rightarrow> world \<Rightarrow> string res \<times> world" where
  "read_exact sz offset w =
     (if sz = 0 then (Inr [], w) else
      if w_preads w = [] then (Inl OSError, w) else
      (case os_pread sz offset w of
         (Inl e, w') \<Rightarrow> if e = InterruptedError then read_exact sz offset w' else (Inl e, w')
       | (Inr chunk, w') \<Rightarrow>
           if chunk = [] then (Inl OSError, w')
           else thenS (read_exact (sz - length chunk) (offset + length chunk) w') (\<lambda>rest w''. (Inr (chunk @ rest), w''))))"
  by pat_completeness auto
termination
  by (relation "measure (\<lambda>(sz, offset, w). length (w_preads w))")
    (auto simp: os_pread_def Let_def split: pread_reply.splits)

declare read_exact.simps [simp del]

lemma os_pread_same: "os_pread sz offset w = (r, w') \<Longrightarrow> same_file w w'"
  by (auto simp: os_pread_def Let_def same_file_def only_io_def split: pread_reply.splits)

lemma read_exact_effect:
  "read_exact sz offset w = (r, w') \<Longrightarrow> same_file w w' \<and> (\<forall>s. r = Inr s \<longrightarrow> s = take sz (drop offset (w_content w)) \<and> length s = sz)"
proof (induction sz offset w arbitrary: r w' rule: read_exact.induct)
  case (1 sz offset w)
  show ?case
  proof (cases "sz = 0 \<or> w_preads w = []")
    case True
    then show ?thesis using 1(3) by (subst (asm) read_exact.simps) (auto split: if_splits)
  next
    case False
    obtain q w1 where q: "os_pread sz offset w = (q, w1)" by (cases "os_pread sz offset w")
    note same = os_pread_same [OF q]
    have run: "(case (q, w1) of
         (Inl e, w') \<Rightarrow> if e = InterruptedError then read_exact sz offset w' else (Inl e, w')
       | (Inr chunk, w') \<Rightarrow>
           if chunk = [] then (Inl OSError, w')
           else thenS (read_exact (sz - length chunk) (offset + length chunk) w') (\<lambda>rest w''. (Inr (chunk @ rest), w''))) = (r, w')"
      using 1(3) False q by (subst (asm) read_exact.simps) simp
    show ?thesis
    proof (cases q)
      case (Inl e)
      show ?thesis
      proof (cases "e = InterruptedError")
        case True
        then have "read_exact sz offset w1 = (r, w')" using run Inl by simp
        from 1(1) [OF _ _ q [symmetric] Inl True this] False same show ?thesis
          by (auto simp: same_file_def intro: only_io_trans)
      qed (use run Inl same in auto)
    next
      case (Inr chunk)
      show ?thesis
      proof (cases "chunk = []")
        case ne: False
        obtain n where n: "chunk = take (min n sz) (drop offset (w_content w))"
          using q Inr by (auto simp: os_pread_def Let_def split: pread_reply.splits)
        then have len: "length chunk \<le> sz" by simp
        have pre: "chunk = take (length chunk) (drop offset (w_content w))" using n by (simp add: min_def)
        obtain r2 w2 where r2: "read_exact (sz - length chunk) (offset + length chunk) w1 = (r2, w2)"
          by (cases "read_exact (sz - length chunk) (offset + length chunk) w1")
        note ih = 1(2) [OF _ _ q [symmetric] Inr ne r2]
        have c1: "w_content w1 = w_content w" using same by (simp add: same_file_def)
        have "take sz (drop offset (w_content w)) = chunk @ take (sz - length chunk) (drop (offset + length chunk) (w_content w))"
          using len pre take_add [of "length chunk" "sz - length chunk" "drop offset (w_content w)"]
          by (simp add: add.commute)
        then show ?thesis using run Inr ne r2 ih False same c1 len
          by (cases r2) (auto simp: same_file_def intro: only_io_trans)
      qed (use run Inr same in auto)
    qed
  qed
qed

section \<open>Reading lines\<close>

fun upto_newline :: "string \<Rightarrow> string" where
  "upto_newline [] = []"
| "upto_newline (c # s) = (if c = CHR 0x0A then [c] else c # upto_newline s)"

text \<open>\<open>reader.readline(k)\<close> of a binary file.\<close>

definition readline :: "nat \<Rightarrow> string \<Rightarrow> string" where
  "readline k s = take k (upto_newline s)"

lemma upto_newline_prefix: "prefix (upto_newline s) s"
  by (induction s) auto

lemma readline_prefix: "prefix (readline k s) s"
  unfolding readline_def using upto_newline_prefix take_is_prefix prefix_order.order_trans by blast

lemma upto_newline_Nil [simp]: "upto_newline s = [] \<longleftrightarrow> s = []"
  by (cases s) auto

lemma readline_shorter: "0 < k \<Longrightarrow> s \<noteq> [] \<Longrightarrow> length (drop (length (readline k s)) s) < length s"
  by (cases s) (auto simp: readline_def)

lemma upto_newline_line: "CHR 0x0A \<notin> set a \<Longrightarrow> upto_newline (a @ CHR 0x0A # s) = a @ [CHR 0x0A]"
  by (induction a) auto

lemma readline_line:
  "CHR 0x0A \<notin> set a \<Longrightarrow> length a < k \<Longrightarrow> readline k (a @ CHR 0x0A # s) = a @ [CHR 0x0A]"
  by (simp add: readline_def upto_newline_line)

end
