(* ===== verification/DurableLog.thy ===== *)
theory DurableLog
  imports OsFile
begin

text \<open>
  What a client may rely on in an append-only durable log, whatever its records are: the contract
  the intent ledger and the event journal share.  \<open>ok\<close> is the provider's invariant, \<open>receipts\<close> what
  a handle has acknowledged so far, \<open>durable\<close> the bytes that survive a crash, \<open>app\<close> the append call
  and \<open>reload\<close> what a new process reads from a file.  Each provider interprets the locale on its own
  operations; what follows from the contract is proved here once.
\<close>

fun run_calls :: "('x \<Rightarrow> 's \<Rightarrow> 'r res \<times> 's) \<Rightarrow> 'x list \<Rightarrow> 's \<Rightarrow> 'r res list \<times> 's" where
  "run_calls f [] s = ([], s)"
| "run_calls f (x # xs) s =
     (case f x s of (r, s1) \<Rightarrow> (case run_calls f xs s1 of (rs, s2) \<Rightarrow> (r # rs, s2)))"

locale durable_log =
  fixes ok :: "'s \<Rightarrow> bool"
    and fits :: "'x \<Rightarrow> bool"
    and receipts :: "'s \<Rightarrow> 'r list"
    and durable :: "'s \<Rightarrow> string"
    and app :: "'x \<Rightarrow> 's \<Rightarrow> 'r res \<times> 's"
    and reload :: "string \<Rightarrow> 'r list res"
  assumes app_ack: "ok s \<Longrightarrow> fits x \<Longrightarrow> app x s = (Inr r, s') \<Longrightarrow>
      ok s' \<and> prefix (receipts s) (receipts s') \<and> r \<in> set (receipts s')"
    and app_raise: "ok s \<Longrightarrow> fits x \<Longrightarrow> app x s = (Inl e, s') \<Longrightarrow> ok s' \<and> receipts s' = receipts s"
    and reload_extends: "ok s \<Longrightarrow> prefix (durable s) c \<Longrightarrow> reload c = Inr rs \<Longrightarrow> prefix (receipts s) rs"
begin

lemma app_any: "ok s \<Longrightarrow> fits x \<Longrightarrow> app x s = (r, s') \<Longrightarrow> ok s' \<and> prefix (receipts s) (receipts s')"
  using app_ack [of s x _ s'] app_raise [of s x _ s'] by (cases r) auto

text \<open>After any sequence of appends, some of which raised, the handle still has every receipt it
  ever returned, in the order it returned them.\<close>

lemma run_keeps:
  "ok s \<Longrightarrow> list_all fits xs \<Longrightarrow> run_calls app xs s = (rs, s') \<Longrightarrow>
     ok s' \<and> prefix (receipts s) (receipts s') \<and> (\<forall>r. Inr r \<in> set rs \<longrightarrow> r \<in> set (receipts s'))"
proof (induction xs arbitrary: s rs)
  case (Cons x xs)
  obtain r s1 where a: "app x s = (r, s1)" by (cases "app x s")
  obtain rs1 where b: "run_calls app xs s1 = (rs1, s')" "rs = r # rs1"
    using Cons.prems(3) a by (auto split: prod.splits)
  have 1: "ok s1" "prefix (receipts s) (receipts s1)" using app_any a Cons.prems by auto
  have 2: "ok s'" "prefix (receipts s1) (receipts s')" "\<forall>q. Inr q \<in> set rs1 \<longrightarrow> q \<in> set (receipts s')"
    using Cons.IH [OF 1(1) _ b(1)] Cons.prems(2) by auto
  have "q \<in> set (receipts s')" if "r = Inr q" for q
  proof -
    have "q \<in> set (receipts s1)" using app_ack [of s x q s1] a that Cons.prems by auto
    then show ?thesis using 2(2) set_mono_prefix by blast
  qed
  then show ?case using 1 2 b(2) prefix_order.order_trans by auto
qed simp

text \<open>No acknowledged record is lost in a crash: whatever the file holds afterwards beyond the durable
  bytes, a process that reopens it finds every receipt any append returned.\<close>

lemma acknowledged_survives:
  assumes "ok s" "list_all fits xs" "run_calls app xs s = (rs, s')" "Inr r \<in> set rs"
    and "prefix (durable s') c" "reload c = Inr found"
  shows "r \<in> set found"
  using run_keeps [OF assms(1-3)] assms(4) reload_extends [OF _ assms(5,6)] set_mono_prefix by blast

end

end
