(* ===== verification/IntentLedger.thy ===== *)
theory IntentLedger
  imports Contracts DurableLog
begin

text \<open>
  \<open>src/std0_quant/execution/durable_intent_ledger_v1.py\<close>: the single-writer durable intent
  ledger.  The hash function is an argument (\<open>sha\<close>, the hex digest of a byte string); the handle
  is the record \<open>ledger\<close>; the methods take the handle and the world of \<open>OsFile\<close> and return a
  result or exception with the handle and world they leave.

  The pure part (\<open>ledger_lines\<close>, \<open>ledger_entries\<close>) says what the file of a list of intents is; the
  lemmas show that reading such a file back gives exactly its entries, that a handle always agrees
  with its durable file, and what a failed append leaves behind.
\<close>

section \<open>Hashes, receipts and records\<close>

definition HEADER_SCHEMA :: string where
  "HEADER_SCHEMA = ''durable_intent_ledger_header_v1''"

definition RECORD_SCHEMA :: string where
  "RECORD_SCHEMA = ''durable_intent_record_v1''"

definition RECEIPT_SCHEMA :: string where
  "RECEIPT_SCHEMA = ''durable_intent_receipt_v1''"

definition MAX_LINE_BYTES :: nat where
  "MAX_LINE_BYTES = 1024 * 1024"

definition LEDGER_HASH_DOMAIN :: string where
  "LEDGER_HASH_DOMAIN = ''std0-quant/durable-intent-ledger/v1/''"

definition NL :: string where
  "NL = [CHR 0x0A]"

type_synonym hasher = "string \<Rightarrow> string"

definition ledger_text :: "string \<Rightarrow> string \<Rightarrow> string res" where
  "ledger_text value name =
     raise_if (value = [] \<or> value \<noteq> py_strip value)
       (ValueError (name @ '' must be non-empty without surrounding whitespace'')) (Inr value)"

definition hash_text :: "string \<Rightarrow> string res" where
  "hash_text value = bindE (ledger_text value ''hash'') (\<lambda>v.
     raise_if (length v \<noteq> 64 \<or> \<not> list_all is_lower_hex v)
       (ValueError ''hash must be lowercase SHA256 hex'') (Inr v))"

definition ledger_digest :: "hasher \<Rightarrow> string \<Rightarrow> json \<Rightarrow> string" where
  "ledger_digest sha kind payload = sha (LEDGER_HASH_DOMAIN @ kind @ NL @ canonical payload)"

definition intent_payload :: "order_intent \<Rightarrow> json res" where
  "intent_payload i = (let row = intent_to_dict i in
     bindE (intent_from_dict (obj_fields row)) (\<lambda>normalized.
     raise_if (canonical row \<noteq> canonical (intent_to_dict normalized))
       (ValueError ''intent is not in normalized OrderIntent form'') (Inr row)))"

definition order_intent_payload_hash_v1 :: "hasher \<Rightarrow> order_intent \<Rightarrow> string res" where
  "order_intent_payload_hash_v1 sha i = bindE (intent_payload i) (\<lambda>row. Inr (ledger_digest sha ''intent'' row))"

record ledger_checkpoint =
  lc_ledger_id :: string
  lc_sequence :: int
  lc_record_hash :: string

definition ledger_checkpoint_post_init :: "ledger_checkpoint \<Rightarrow> ledger_checkpoint res" where
  "ledger_checkpoint_post_init c =
     bindE (ledger_text (lc_ledger_id c) ''ledger_id'') (\<lambda>_.
     raise_if (lc_sequence c < 0) (ValueError ''checkpoint sequence must be a nonnegative integer'') (
     bindE (hash_text (lc_record_hash c)) (\<lambda>_. Inr c)))"

record intent_receipt =
  rc_ledger_id :: string
  rc_sequence :: int
  rc_intent_id :: string
  rc_intent_hash :: string
  rc_record_hash :: string
  rc_schema_version :: string

definition intent_receipt_post_init :: "intent_receipt \<Rightarrow> intent_receipt res" where
  "intent_receipt_post_init r =
     bindE (ledger_text (rc_ledger_id r) ''ledger_id'') (\<lambda>_.
     bindE (ledger_text (rc_intent_id r) ''intent_id'') (\<lambda>_.
     raise_if (rc_sequence r < 1) (ValueError ''receipt sequence must be a positive integer'') (
     bindE (hash_text (rc_intent_hash r)) (\<lambda>_.
     bindE (hash_text (rc_record_hash r)) (\<lambda>_.
     raise_if (rc_schema_version r \<noteq> RECEIPT_SCHEMA) (ValueError ''unsupported receipt schema'') (Inr r))))))"

definition header_payload :: "string \<Rightarrow> (string \<times> json) list" where
  "header_payload ledger_id = [(''schema_version'', JStr HEADER_SCHEMA), (''ledger_id'', JStr ledger_id)]"

definition header_hash :: "hasher \<Rightarrow> string \<Rightarrow> string" where
  "header_hash sha ledger_id = ledger_digest sha ''header'' (JObj (header_payload ledger_id))"

definition ledger_header :: "hasher \<Rightarrow> string \<Rightarrow> json" where
  "ledger_header sha ledger_id =
     JObj (header_payload ledger_id @ [(''record_hash'', JStr (header_hash sha ledger_id))])"

definition record_payload :: "hasher \<Rightarrow> string \<Rightarrow> int \<Rightarrow> string \<Rightarrow> json \<Rightarrow> (string \<times> json) list" where
  "record_payload sha ledger_id seq previous intent =
     [(''schema_version'', JStr RECORD_SCHEMA), (''ledger_id'', JStr ledger_id), (''sequence'', JInt seq),
      (''previous_hash'', JStr previous), (''intent'', intent),
      (''intent_hash'', JStr (ledger_digest sha ''intent'' intent))]"

definition record_hash :: "hasher \<Rightarrow> string \<Rightarrow> int \<Rightarrow> string \<Rightarrow> json \<Rightarrow> string" where
  "record_hash sha ledger_id seq previous intent =
     ledger_digest sha ''record'' (JObj (record_payload sha ledger_id seq previous intent))"

definition ledger_record :: "hasher \<Rightarrow> string \<Rightarrow> int \<Rightarrow> string \<Rightarrow> json \<Rightarrow> json" where
  "ledger_record sha ledger_id seq previous intent =
     JObj (record_payload sha ledger_id seq previous intent
           @ [(''record_hash'', JStr (record_hash sha ledger_id seq previous intent))])"

text \<open>\<open>_receipt(row)\<close> of a record row built by \<open>_record\<close>.\<close>

definition ledger_receipt :: "json \<Rightarrow> intent_receipt res" where
  "ledger_receipt row = (let d = obj_fields row in
     bindE (get_str d ''ledger_id'') (\<lambda>lid.
     bindE (get_int d ''sequence'') (\<lambda>seq.
     bindE (get_obj d ''intent'') (\<lambda>intent.
     bindE (get_str intent ''intent_id'') (\<lambda>iid.
     bindE (get_str d ''intent_hash'') (\<lambda>ih.
     bindE (get_str d ''record_hash'') (\<lambda>rh.
     intent_receipt_post_init \<lparr>rc_ledger_id = lid, rc_sequence = seq, rc_intent_id = iid,
       rc_intent_hash = ih, rc_record_hash = rh, rc_schema_version = RECEIPT_SCHEMA\<rparr>)))))))"

definition decode_line :: "string \<Rightarrow> (string \<times> json) list res" where
  "decode_line line =
     raise_if (MAX_LINE_BYTES < length line \<or> line = [] \<or> last line \<noteq> CHR 0x0A)
       (ValueError ''oversized or incomplete ledger line'') (
     case loads (butlast line) of
       Some (JObj d) \<Rightarrow> raise_if (canonical (JObj d) @ NL \<noteq> line) (ValueError ''noncanonical ledger line'') (Inr d)
     | _ \<Rightarrow> Inl (ValueError ''noncanonical ledger line''))"

section \<open>The handle\<close>

record ledger =
  l_fd :: bool
  l_dir_fd :: bool
  l_pid :: int
  l_poisoned :: bool
  l_ledger_id :: string
  l_records :: "(intent_receipt \<times> string) list"
  l_by_id :: "(string \<times> nat) list"
  l_tip :: string
  l_stamp :: stamp

text \<open>The exceptions the \<open>except (OSError, LedgerError)\<close> clauses catch.\<close>

fun os_or_ledger_error :: "pyerr \<Rightarrow> bool" where
  "os_or_ledger_error OSError = True"
| "os_or_ledger_error InterruptedError = True"
| "os_or_ledger_error TimeoutError = True"
| "os_or_ledger_error (LedgerUnavailableError m) = True"
| "os_or_ledger_error LedgerBusyError = True"
| "os_or_ledger_error (LedgerCorruptionError m) = True"
| "os_or_ledger_error IntentConflictError = True"
| "os_or_ledger_error _ = False"

definition ledger_identity :: "world \<Rightarrow> st res \<times> world" where
  "ledger_identity w = thenS (os_stat w) (\<lambda>(info, named, parent, pinned) w'.
     failS (\<not> st_isreg info \<or> st_nlink info \<noteq> 1 \<or> \<not> st_isreg named
            \<or> (st_dev named, st_ino named) \<noteq> (st_dev info, st_ino info)
            \<or> (st_dev parent, st_ino parent) \<noteq> (st_dev pinned, st_ino pinned))
       (LedgerUnavailableError ''ledger path/inode/link identity changed'') w' (Inr info, w'))"

text \<open>One line of \<open>_recover\<close>; the state is (lines read, records, ids, tip).\<close>

type_synonym recovery = "nat \<times> (intent_receipt \<times> string) list \<times> (string \<times> nat) list \<times> string"

definition recover_record ::
  "hasher \<Rightarrow> string \<Rightarrow> (string \<times> json) list \<Rightarrow> recovery \<Rightarrow> recovery res" where
  "recover_record sha lid d = (\<lambda>(n, recs, ids, tip).
     bindE (case map_of d ''intent'' of Some (JObj p) \<Rightarrow> Inr p
            | _ \<Rightarrow> Inl (ValueError ''intent fields mismatch'')) (\<lambda>p.
     raise_if (set (map fst p) \<noteq> set intent_field_names) (ValueError ''intent fields mismatch'') (
     bindE (intent_from_dict p) (\<lambda>i.
     bindE (intent_payload i) (\<lambda>normalized.
     raise_if (canonical (JObj p) \<noteq> canonical normalized) (ValueError ''non-normalized intent payload'') (
     let seq = int (length recs) + 1 in
     bindE (case map_of d ''sequence'' of Some (JInt _) \<Rightarrow> Inr ()
            | _ \<Rightarrow> Inl (ValueError ''invalid sequence type'')) (\<lambda>_.
     let expected = ledger_record sha lid seq tip normalized in
     raise_if (canonical (JObj d) \<noteq> canonical expected)
       (ValueError ''record/schema/sequence/hash-chain mismatch'') (
     raise_if (map_of ids (oi_intent_id i) \<noteq> None) (ValueError ''duplicate intent ID in persisted history'') (
     bindE (ledger_receipt expected) (\<lambda>receipt.
     Inr (n, recs @ [(receipt, canonical normalized)],
          dput (oi_intent_id i) (length recs) ids, rc_record_hash receipt)))))))))))"

definition same_fields :: "(string \<times> json) list \<Rightarrow> json \<Rightarrow> bool" where
  "same_fields d j \<longleftrightarrow> set d = set (obj_fields j)"

definition recover_line :: "hasher \<Rightarrow> string \<Rightarrow> string \<Rightarrow> recovery \<Rightarrow> recovery res" where
  "recover_line sha lid line = (\<lambda>(n, recs, ids, tip).
     bindE (decode_line line) (\<lambda>d.
     if n = 0 then raise_if (\<not> same_fields d (ledger_header sha lid))
         (ValueError ''header/hash/ledger identity mismatch'') (Inr (1, recs, ids, tip))
     else bindE (recover_record sha lid d (n, recs, ids, tip)) (\<lambda>(_, recs', ids', tip').
         Inr (n + 1, recs', ids', tip'))))"

text \<open>\<open>except (ValueError, TypeError, KeyError, OverflowError, ...) as exc: raise LedgerCorruptionError\<close>.\<close>

fun corruption :: "string \<Rightarrow> pyerr \<Rightarrow> pyerr" where
  "corruption m (ValueError _) = LedgerCorruptionError m"
| "corruption m (TypeError _) = LedgerCorruptionError m"
| "corruption m KeyError = LedgerCorruptionError m"
| "corruption m OverflowError = LedgerCorruptionError m"
| "corruption m e = e"

definition map_error :: "(pyerr \<Rightarrow> pyerr) \<Rightarrow> 'a res \<Rightarrow> 'a res" where
  "map_error f r = (case r of Inl e \<Rightarrow> Inl (f e) | Inr x \<Rightarrow> Inr x)"

function recover_lines :: "hasher \<Rightarrow> string \<Rightarrow> string \<Rightarrow> recovery \<Rightarrow> recovery res" where
  "recover_lines sha lid s st =
     (if s = [] then Inr st else
      let line = readline (MAX_LINE_BYTES + 1) s in
      (case map_error (corruption (''invalid ledger line '' @ nat_str (fst st + 1))) (recover_line sha lid line st) of
         Inl e \<Rightarrow> Inl e
       | Inr st' \<Rightarrow> recover_lines sha lid (drop (length line) s) st'))"
  by pat_completeness auto
termination
proof (relation "measure (\<lambda>(sha, lid, s, st). length s)")
  fix sha lid s st x y
  assume "s \<noteq> ([] :: string)" "x = readline (MAX_LINE_BYTES + 1) s"
  then show "((sha, lid, drop (length x) s, y), (sha, lid, s, st)) \<in> measure (\<lambda>(sha, lid, s, st). length s)"
    using readline_shorter [of "MAX_LINE_BYTES + 1" s] by simp
qed simp

declare recover_lines.simps [simp del]

definition ledger_recover :: "hasher \<Rightarrow> string \<Rightarrow> string \<Rightarrow> recovery res" where
  "ledger_recover sha lid content =
     bindE (recover_lines sha lid content (0, [], [], header_hash sha lid)) (\<lambda>(n, recs, ids, tip).
     raise_if (n = 0) (LedgerCorruptionError ''empty ledger; header is required'') (Inr (n, recs, ids, tip)))"

definition check_checkpoint ::
  "hasher \<Rightarrow> string \<Rightarrow> (intent_receipt \<times> string) list \<Rightarrow> ledger_checkpoint \<Rightarrow> unit res" where
  "check_checkpoint sha lid recs c =
     raise_if (int (length recs) < lc_sequence c) (LedgerCorruptionError ''history shorter than trusted checkpoint'') (
     let actual = (if lc_sequence c = 0 then header_hash sha lid
                   else rc_record_hash (fst (recs ! nat (lc_sequence c - 1)))) in
     raise_if (actual \<noteq> lc_record_hash c) (LedgerCorruptionError ''trusted checkpoint hash mismatch'') (Inr ()))"


section \<open>Opening\<close>

definition fresh_ledger :: "string \<Rightarrow> world \<Rightarrow> recovery \<Rightarrow> stamp \<Rightarrow> ledger" where
  "fresh_ledger lid w = (\<lambda>(n, recs, ids, tip) st.
     \<lparr>l_fd = True, l_dir_fd = True, l_pid = w_pid w, l_poisoned = False, l_ledger_id = lid,
      l_records = recs, l_by_id = ids, l_tip = tip, l_stamp = st\<rparr>)"

text \<open>The \<open>try\<close> block of \<open>_open\<close>: its value is the stamp taken before the sync and the recovered
  records; the handle is built only when nothing raised.\<close>

definition open_body ::
  "hasher \<Rightarrow> string \<Rightarrow> bool \<Rightarrow> ledger_checkpoint option \<Rightarrow> world \<Rightarrow> (recovery \<times> stamp) res \<times> world" where
  "open_body sha lid create checkpoint w0 =
     thenS (os_open_dir w0) (\<lambda>_ w1.
     thenS (os_open_file create w1) (\<lambda>_ w2.
     thenS (ledger_identity w2) (\<lambda>_ w3.
     failS (w_locked w3) LedgerBusyError w3 (
     thenS (ledger_identity w3) (\<lambda>info w4.
     thenS (if create then
        (let raw = canonical (ledger_header sha lid) @ NL in
         thenS (write_all raw w4) (\<lambda>_ w5.
         thenS (ledger_identity w5) (\<lambda>info' w6.
         failS (st_size info' \<noteq> int (length raw))
           (LedgerCorruptionError ''unexpected size after header write'') w6
           (Inr ((0, [], [], header_hash sha lid), stamp_of info'), w6))))
      else
        thenS (os_read w4) (\<lambda>content w5.
        checkS (ledger_recover sha lid content) w5 (\<lambda>st.
        thenS (ledger_identity w5) (\<lambda>info' w6.
        failS (stamp_of info' \<noteq> stamp_of info) (LedgerCorruptionError ''file changed during recovery'') w6 (
        checkS (case checkpoint of None \<Rightarrow> Inr ()
                | Some c \<Rightarrow> check_checkpoint sha lid (fst (snd st)) c) w6 (\<lambda>_.
        (Inr (st, stamp_of info), w6)))))))
     (\<lambda>(st, before) w7.
     thenS (os_fsync w7) (\<lambda>_ w8.
     thenS (os_fsync w8) (\<lambda>_ w9.
     thenS (ledger_identity w9) (\<lambda>info'' w10.
     failS (stamp_of info'' \<noteq> before) (LedgerCorruptionError ''file changed during initialization sync'') w10
       (Inr (st, before), w10))))))))))"

definition ledger_open ::
  "hasher \<Rightarrow> string \<Rightarrow> bool \<Rightarrow> ledger_checkpoint option \<Rightarrow> world \<Rightarrow> ledger res \<times> world" where
  "ledger_open sha ledger_id create checkpoint w =
     failS (\<not> w_linux w) (LedgerUnavailableError ''Linux local filesystems only'') w (
     checkS (ledger_text ledger_id ''ledger_id'') w (\<lambda>lid.
     failS (256 < length lid) (ValueError ''ledger_id exceeds 256 UTF-8 bytes'') w (
     failS (case checkpoint of None \<Rightarrow> False | Some c \<Rightarrow> lc_ledger_id c \<noteq> lid)
       (LedgerCorruptionError ''checkpoint ledger identity mismatch'') w (
     (case open_body sha lid create checkpoint w of
        (Inl e, w') \<Rightarrow> (Inl e, snd (os_close (snd (os_close w'))))
      | (Inr (st, before), w') \<Rightarrow> (Inr (fresh_ledger lid w st before), w'))))))"

definition ledger_create :: "hasher \<Rightarrow> string \<Rightarrow> world \<Rightarrow> ledger res \<times> world" where
  "ledger_create sha ledger_id w = ledger_open sha ledger_id True None w"

definition ledger_open_existing ::
  "hasher \<Rightarrow> string \<Rightarrow> ledger_checkpoint option \<Rightarrow> world \<Rightarrow> ledger res \<times> world" where
  "ledger_open_existing sha ledger_id checkpoint w = ledger_open sha ledger_id False checkpoint w"

section \<open>The methods of an open handle\<close>

type_synonym lstate = "ledger \<times> world"

definition poison :: "lstate \<Rightarrow> lstate" where
  "poison s = ((fst s)\<lparr>l_poisoned := True\<rparr>, snd s)"

definition ledger_owner :: "lstate \<Rightarrow> unit res \<times> lstate" where
  "ledger_owner s = failS (w_pid (snd s) \<noteq> l_pid (fst s))
     (LedgerUnavailableError ''fork-inherited handle; close it and reopen'') s (Inr (), s)"

text \<open>\<open>except (OSError, LedgerError)\<close> poisons the handle and raises \<open>LedgerUnavailableError\<close>.\<close>

definition guard_fail :: "pyerr \<Rightarrow> lstate \<Rightarrow> 'a res \<times> lstate" where
  "guard_fail e s = (if os_or_ledger_error e
     then (Inl (LedgerUnavailableError ''ledger identity/content changed; stop''), poison s) else (Inl e, s))"

definition ledger_guard :: "lstate \<Rightarrow> unit res \<times> lstate" where
  "ledger_guard s = (let (l, w) = s in
     failS (\<not> l_fd l \<or> l_poisoned l)
       (LedgerUnavailableError ''closed or poisoned ledger; reopen and reconcile'') s (
     (case ledger_identity w of
        (Inl e, w') \<Rightarrow> guard_fail e (l, w')
      | (Inr info, w') \<Rightarrow>
          if stamp_of info \<noteq> l_stamp l
          then guard_fail (LedgerUnavailableError ''ledger changed outside this handle'') (l, w')
          else (Inr (), (l, w')))))"

definition entered :: "lstate \<Rightarrow> unit res \<times> lstate" where
  "entered s = thenS (ledger_owner s) (\<lambda>_. ledger_guard)"

text \<open>The \<open>try\<close> block of \<open>append\<close>: write, sync, check the size.\<close>

definition append_persist :: "string \<Rightarrow> stamp \<Rightarrow> world \<Rightarrow> st res \<times> world" where
  "append_persist raw st w =
     thenS (write_all raw w) (\<lambda>_ w1.
     thenS (os_fsync w1) (\<lambda>_ w2.
     thenS (ledger_identity w2) (\<lambda>info w3.
     failS (st_size info \<noteq> stamp_size st + int (length raw))
       (LedgerUnavailableError ''unexpected size after append'') w3 (Inr info, w3))))"

definition append_fail :: "pyerr \<Rightarrow> lstate \<Rightarrow> 'a res \<times> lstate" where
  "append_fail e s = (if os_or_ledger_error e
     then (Inl (LedgerUnavailableError ''append not acknowledged; preserve file, close, reopen, reconcile''), poison s)
     else (Inl e, poison s))"

text \<open>The rest of \<open>append\<close> for an intent id not recorded yet: build the record, persist it, and only
  then update the memory.\<close>

definition append_record :: "hasher \<Rightarrow> order_intent \<Rightarrow> json \<Rightarrow> lstate \<Rightarrow> intent_receipt res \<times> lstate" where
  "append_record sha i payload s =
     (let l = fst s;
          row = ledger_record sha (l_ledger_id l) (int (length (l_records l)) + 1) (l_tip l) payload;
          raw = canonical row @ NL in
      failS (MAX_LINE_BYTES < length raw) (ValueError ''intent record exceeds MAX_LINE_BYTES'') s (
      checkS (ledger_receipt row) s (\<lambda>receipt.
      (case append_persist raw (l_stamp l) (snd s) of
         (Inl e, w) \<Rightarrow> append_fail e (l, w)
       | (Inr info, w) \<Rightarrow>
           (Inr receipt,
            (l\<lparr>l_by_id := dput (oi_intent_id i) (length (l_records l)) (l_by_id l),
               l_records := l_records l @ [(receipt, canonical payload)],
               l_tip := rc_record_hash receipt, l_stamp := stamp_of info\<rparr>, w))))))"

definition ledger_append :: "hasher \<Rightarrow> order_intent \<Rightarrow> lstate \<Rightarrow> intent_receipt res \<times> lstate" where
  "ledger_append sha i s =
     thenS (entered s) (\<lambda>_ s1.
     checkS (intent_payload i) s1 (\<lambda>payload.
     case map_of (l_by_id (fst s1)) (oi_intent_id i) of
       Some index \<Rightarrow>
         (let (receipt, existing) = l_records (fst s1) ! index in
          failS (canonical payload \<noteq> existing) IntentConflictError s1 (Inr receipt, s1))
     | None \<Rightarrow> append_record sha i payload s1))"

definition ledger_get_intent :: "string \<Rightarrow> lstate \<Rightarrow> order_intent option res \<times> lstate" where
  "ledger_get_intent intent_id s =
     thenS (entered s) (\<lambda>_ s1.
     checkS (ledger_text intent_id ''intent_id'') s1 (\<lambda>iid.
     case map_of (l_by_id (fst s1)) iid of
       None \<Rightarrow> (Inr None, s1)
     | Some index \<Rightarrow>
         (case loads (snd (l_records (fst s1) ! index)) of
            Some (JObj d) \<Rightarrow> checkS (intent_from_dict d) s1 (\<lambda>i. (Inr (Some i), s1))
          | _ \<Rightarrow> (Inl (ValueError ''invalid JSON''), s1))))"

definition ledger_receipts :: "lstate \<Rightarrow> intent_receipt list res \<times> lstate" where
  "ledger_receipts s = thenS (entered s) (\<lambda>_ s1. (Inr (map fst (l_records (fst s1))), s1))"

definition ledger_checkpoint_of :: "lstate \<Rightarrow> ledger_checkpoint res \<times> lstate" where
  "ledger_checkpoint_of s = thenS (entered s) (\<lambda>_ s1.
     checkS (ledger_checkpoint_post_init \<lparr>lc_ledger_id = l_ledger_id (fst s1),
        lc_sequence = int (length (l_records (fst s1))), lc_record_hash = l_tip (fst s1)\<rparr>) s1
       (\<lambda>c. (Inr c, s1)))"

text \<open>\<open>_release\<close> closes both descriptors and reports the first failure; \<open>close\<close> raises it.\<close>

definition ledger_release :: "lstate \<Rightarrow> bool \<times> lstate" where
  "ledger_release s = (let (l, w) = s;
       (ok1, w1) = (if l_fd l then os_close w else (True, w));
       (ok2, w2) = (if l_dir_fd l then os_close w1 else (True, w1)) in
     (ok1 \<and> ok2, (l\<lparr>l_fd := False, l_dir_fd := False\<rparr>, w2)))"

definition ledger_close :: "lstate \<Rightarrow> unit res \<times> lstate" where
  "ledger_close s = (case ledger_release s of (ok, s') \<Rightarrow>
     if ok then (Inr (), s') else (Inl (LedgerUnavailableError ''descriptor close failed; handle is unusable''), s'))"


section \<open>The file of a list of intents\<close>

definition receipt_of :: "hasher \<Rightarrow> string \<Rightarrow> recovery \<Rightarrow> order_intent \<Rightarrow> intent_receipt" where
  "receipt_of sha lid = (\<lambda>(n, recs, ids, tip) i.
     \<lparr>rc_ledger_id = lid, rc_sequence = int (length recs) + 1, rc_intent_id = oi_intent_id i,
      rc_intent_hash = ledger_digest sha ''intent'' (intent_to_dict i),
      rc_record_hash = record_hash sha lid (int (length recs) + 1) tip (intent_to_dict i),
      rc_schema_version = RECEIPT_SCHEMA\<rparr>)"

definition row_of :: "hasher \<Rightarrow> string \<Rightarrow> recovery \<Rightarrow> order_intent \<Rightarrow> json" where
  "row_of sha lid = (\<lambda>(n, recs, ids, tip) i.
     ledger_record sha lid (int (length recs) + 1) tip (intent_to_dict i))"

definition line_of :: "hasher \<Rightarrow> string \<Rightarrow> recovery \<Rightarrow> order_intent \<Rightarrow> string" where
  "line_of sha lid st i = canonical (row_of sha lid st i) @ NL"

definition add_entry :: "hasher \<Rightarrow> string \<Rightarrow> recovery \<Rightarrow> order_intent \<Rightarrow> recovery" where
  "add_entry sha lid = (\<lambda>(n, recs, ids, tip) i.
     (n + 1, recs @ [(receipt_of sha lid (n, recs, ids, tip) i, canonical (intent_to_dict i))],
      dput (oi_intent_id i) (length recs) ids, rc_record_hash (receipt_of sha lid (n, recs, ids, tip) i)))"

fun run_intents :: "hasher \<Rightarrow> string \<Rightarrow> recovery \<Rightarrow> order_intent list \<Rightarrow> recovery" where
  "run_intents sha lid st [] = st"
| "run_intents sha lid st (i # is) = run_intents sha lid (add_entry sha lid st i) is"

fun text_of :: "hasher \<Rightarrow> string \<Rightarrow> recovery \<Rightarrow> order_intent list \<Rightarrow> string" where
  "text_of sha lid st [] = []"
| "text_of sha lid st (i # is) = line_of sha lid st i @ text_of sha lid (add_entry sha lid st i) is"

definition start_state :: "hasher \<Rightarrow> string \<Rightarrow> recovery" where
  "start_state sha lid = (1, [], [], header_hash sha lid)"

definition header_line :: "hasher \<Rightarrow> string \<Rightarrow> string" where
  "header_line sha lid = canonical (ledger_header sha lid) @ NL"

definition file_text :: "hasher \<Rightarrow> string \<Rightarrow> order_intent list \<Rightarrow> string" where
  "file_text sha lid is = header_line sha lid @ text_of sha lid (start_state sha lid) is"

text \<open>What \<open>append\<close> checks before it writes a new record.\<close>

definition recordable :: "hasher \<Rightarrow> string \<Rightarrow> recovery \<Rightarrow> order_intent \<Rightarrow> bool" where
  "recordable sha lid st i \<longleftrightarrow> wf_intent i \<and> map_of (fst (snd (snd st))) (oi_intent_id i) = None \<and>
     length (line_of sha lid st i) \<le> MAX_LINE_BYTES \<and>
     intent_receipt_post_init (receipt_of sha lid st i) = Inr (receipt_of sha lid st i)"

fun recordable_all :: "hasher \<Rightarrow> string \<Rightarrow> recovery \<Rightarrow> order_intent list \<Rightarrow> bool" where
  "recordable_all sha lid st [] \<longleftrightarrow> True"
| "recordable_all sha lid st (i # is) \<longleftrightarrow>
     recordable sha lid st i \<and> recordable_all sha lid (add_entry sha lid st i) is"

lemma run_intents_append: "run_intents sha lid st (xs @ ys) = run_intents sha lid (run_intents sha lid st xs) ys"
  by (induction xs arbitrary: st) auto

lemma text_of_append:
  "text_of sha lid st (xs @ ys) = text_of sha lid st xs @ text_of sha lid (run_intents sha lid st xs) ys"
  by (induction xs arbitrary: st) auto

lemma recordable_all_append:
  "recordable_all sha lid st (xs @ ys) \<longleftrightarrow>
     recordable_all sha lid st xs \<and> recordable_all sha lid (run_intents sha lid st xs) ys"
  by (induction xs arbitrary: st) auto

text \<open>Normalised intents: the ledger accepts exactly those.\<close>

lemma valid_payload: "valid_intent i \<Longrightarrow> intent_payload i = Inr (intent_to_dict i)"
  by (simp add: intent_payload_def Let_def intent_from_to_dict valid_post_init)

lemma payload_is_dict: "intent_payload i = Inr row \<Longrightarrow> row = intent_to_dict i"
  by (auto simp: intent_payload_def Let_def err_simps)

lemma payload_wf:
  assumes "intent_payload i = Inr row"
    and "wf_float (oi_qty i)" "wf_float (oi_limit_price i)" "wf_float (oi_decision_ts_ms i)" "wf_float (oi_market_data_ts_ms i)"
  shows "wf_intent i"
proof -
  obtain m where m: "order_intent_post_init (raw_of_intent i) = Inr m"
    and eq: "canonical (intent_to_dict i) = canonical (intent_to_dict m)"
    using assms(1) by (auto simp: intent_payload_def Let_def err_simps intent_from_to_dict)
  have fields: "oi_qty m = oi_qty i" "oi_limit_price m = oi_limit_price i"
      "oi_decision_ts_ms m = oi_decision_ts_ms i" "oi_market_data_ts_ms m = oi_market_data_ts_ms i"
    using m by (auto simp: order_intent_post_init_def raw_of_intent_def err_simps contract_simps split: option.splits)
  have vm: "valid_intent m" using m by (rule post_init_valid)
  then have wm: "wf_intent m" using fields assms by (simp add: wf_intent_def)
  have "wf_json (intent_to_dict i)"
    using assms vm fields by (simp add: intent_to_dict_def valid_intent_def)
  then have s: "sort_json (intent_to_dict i) = sort_json (intent_to_dict m)"
    using eq wf_json_intent [OF wm] by (intro canonical_inj)
  have k: "map_option sort_json (map_of (obj_fields (intent_to_dict i)) k) =
      map_option sort_json (map_of (obj_fields (intent_to_dict m)) k)" for k
    using s by (intro sort_json_map_of) (simp_all add: intent_to_dict_def obj_fields_def)
  have "oi_intent_id i = oi_intent_id m"
    using k [of "''intent_id''"] by (simp add: intent_to_dict_def obj_fields_def)
  moreover have "oi_condition_id i = oi_condition_id m"
    using k [of "''condition_id''"] by (simp add: intent_to_dict_def obj_fields_def)
  moreover have "oi_outcome i = oi_outcome m"
    using k [of "''outcome''"] by (simp add: intent_to_dict_def obj_fields_def)
  moreover have "side_value (oi_side i) = side_value (oi_side m)"
    using k [of "''side''"] by (simp add: intent_to_dict_def obj_fields_def)
  then have "oi_side i = oi_side m" by (metis option.inject parse_side_value)
  moreover have "tif_value (oi_time_in_force i) = tif_value (oi_time_in_force m)"
    using k [of "''time_in_force''"] by (simp add: intent_to_dict_def obj_fields_def)
  then have "oi_time_in_force i = oi_time_in_force m" by (metis option.inject parse_tif_value)
  moreover have "oi_strategy_id i = oi_strategy_id m"
    using k [of "''strategy_id''"] by (simp add: intent_to_dict_def obj_fields_def)
  moreover have "oi_strategy_version i = oi_strategy_version m"
    using k [of "''strategy_version''"] by (simp add: intent_to_dict_def obj_fields_def)
  moreover have "oi_risk_policy_version i = oi_risk_policy_version m"
    using k [of "''risk_policy_version''"] by (simp add: intent_to_dict_def obj_fields_def)
  moreover have "oi_schema_version i = oi_schema_version m"
    using k [of "''schema_version''"] by (simp add: intent_to_dict_def obj_fields_def)
  ultimately have "i = m" using fields by (intro intent_fields.equality) simp_all
  then show ?thesis using wm by simp
qed


section \<open>Reading a file back\<close>

lemma decode_canonical:
  assumes "wf_json (JObj d)" "length (canonical (JObj d) @ NL) \<le> MAX_LINE_BYTES"
  shows "decode_line (canonical (JObj d) @ NL) = Inr (obj_fields (sort_json (JObj d)))"
proof -
  obtain d' where d': "sort_json (JObj d) = JObj d'" by simp
  have "loads (canonical (JObj d)) = Some (JObj d')" using loads_canonical [OF assms(1)] d' by simp
  moreover have "canonical (JObj d') = canonical (JObj d)" using canonical_sort_json [of "JObj d"] d' by simp
  ultimately show ?thesis using assms(2) d'
    by (simp add: decode_line_def NL_def obj_fields_def raise_if_def)
qed

lemma wf_record: "wf_intent i \<Longrightarrow> wf_json (ledger_record sha lid q tip (intent_to_dict i))"
  by (simp add: ledger_record_def record_payload_def wf_json_intent)

lemma wf_header: "wf_json (ledger_header sha lid)"
  by (simp add: ledger_header_def header_payload_def)

lemma sorted_intent:
  obtains p where "sort_json (intent_to_dict i) = JObj p" "set (map fst p) = set intent_field_names"
proof -
  obtain d where d: "intent_to_dict i = JObj d" "set (map fst d) = set intent_field_names"
    by (simp add: intent_to_dict_def intent_field_names_def)
  obtain p where p: "sort_json (intent_to_dict i) = JObj p" using d(1) by simp
  have "p = sort_key fst (map (\<lambda>(k, v). (k, sort_json v)) d)" using p d(1) by simp
  then have "set (map fst p) = fst ` set (map (\<lambda>(k, v). (k, sort_json v)) d)"
    by (simp only: set_map set_sort)
  also have "\<dots> = set (map fst (map (\<lambda>(k, v). (k, sort_json v)) d))" by (simp only: set_map)
  also have "\<dots> = set (map fst d)" by (simp only: fst_pair_map)
  finally show thesis using p d(2) by (intro that) auto
qed

lemma ledger_receipt_row:
  "ledger_receipt (row_of sha lid st i) = intent_receipt_post_init (receipt_of sha lid st i)"
  by (cases st) (simp add: ledger_receipt_def row_of_def ledger_record_def record_payload_def obj_fields_def
      getters receipt_of_def intent_to_dict_def record_hash_def Let_def)

lemma recover_record_row:
  assumes "recordable sha lid st i"
  shows "recover_record sha lid (obj_fields (sort_json (row_of sha lid st i))) st =
    Inr (fst st, snd (add_entry sha lid st i))"
proof -
  obtain n recs ids tip where st: "st = (n, recs, ids, tip)" by (cases st) auto
  let ?q = "int (length recs) + 1"
  let ?row = "ledger_record sha lid ?q tip (intent_to_dict i)"
  define d where "d = obj_fields (sort_json ?row)"
  have wf: "wf_intent i" and v: "valid_intent i" using assms by (auto simp: recordable_def wf_intent_def)
  obtain p where p: "sort_json (intent_to_dict i) = JObj p" "set (map fst p) = set intent_field_names"
    by (rule sorted_intent)
  have dp: "distinct (map fst (record_payload sha lid ?q tip (intent_to_dict i)
      @ [(''record_hash'', JStr (record_hash sha lid ?q tip (intent_to_dict i)))]))"
    by (simp add: record_payload_def)
  have get: "map_of d k = map_option sort_json (map_of (record_payload sha lid ?q tip (intent_to_dict i)
      @ [(''record_hash'', JStr (record_hash sha lid ?q tip (intent_to_dict i)))]) k)" for k
    unfolding d_def ledger_record_def by (rule sort_json_fields [OF dp])
  have g: "map_of d ''intent'' = Some (JObj p)" "map_of d ''sequence'' = Some (JInt ?q)"
    unfolding get by (simp_all add: record_payload_def p)
  have row: "JObj d = sort_json ?row" by (simp add: d_def obj_fields_def ledger_record_def)
  have c: "canonical (JObj d) = canonical ?row" "canonical (JObj p) = canonical (intent_to_dict i)"
    by (simp_all add: row p(1) [symmetric])
  have f: "intent_from_dict p = Inr i"
    using intent_from_sorted [of i] valid_post_init [OF v] p(1) by (simp add: obj_fields_def)
  have r: "ledger_receipt ?row = Inr (receipt_of sha lid st i)"
    using assms ledger_receipt_row [of sha lid st i] by (simp add: recordable_def st row_of_def)
  have fresh: "map_of ids (oi_intent_id i) = None" using assms by (simp add: recordable_def st)
  have "recover_record sha lid d st = Inr (fst st, snd (add_entry sha lid st i))"
    unfolding recover_record_def st prod.case g option.case json.case bindE_simps f
      valid_payload [OF v] c r [unfolded st] Let_def
    by (simp only: p(2)) (simp add: fresh add_entry_def receipt_of_def)
  then show ?thesis by (simp add: d_def row_of_def st)
qed

lemma row_of_obj: "\<exists>d. row_of sha lid st i = JObj d"
  by (cases st) (simp add: row_of_def ledger_record_def)

lemma decode_row:
  assumes "recordable sha lid st i"
  shows "decode_line (line_of sha lid st i) = Inr (obj_fields (sort_json (row_of sha lid st i)))"
proof -
  obtain d where d: "row_of sha lid st i = JObj d" using row_of_obj by blast
  have "wf_json (row_of sha lid st i)"
    using assms by (cases st) (simp add: row_of_def wf_record recordable_def)
  then show ?thesis using decode_canonical [of d] assms d by (simp add: line_of_def recordable_def)
qed

lemma recover_line_row:
  assumes "recordable sha lid st i" "0 < fst st"
  shows "recover_line sha lid (line_of sha lid st i) st = Inr (add_entry sha lid st i)"
proof -
  obtain n recs ids tip where st: "st = (n, recs, ids, tip)" by (cases st) auto
  have "recover_line sha lid (line_of sha lid st i) st =
     bindE (recover_record sha lid (obj_fields (sort_json (row_of sha lid st i))) st)
       (\<lambda>(_, recs', ids', tip'). Inr (n + 1, recs', ids', tip'))"
    using assms(2) by (simp add: recover_line_def decode_row [OF assms(1)] st [symmetric]) (simp add: st)
  then show ?thesis using recover_record_row [OF assms(1)] by (simp add: st add_entry_def)
qed

lemma readline_row:
  assumes "recordable sha lid st i"
  shows "readline (MAX_LINE_BYTES + 1) (line_of sha lid st i @ rest) = line_of sha lid st i"
proof -
  have "wf_json (row_of sha lid st i)"
    using assms by (cases st) (simp add: row_of_def wf_record recordable_def)
  then have "CHR 0x0A \<notin> set (canonical (row_of sha lid st i))" by (rule canonical_no_newline)
  moreover have "length (canonical (row_of sha lid st i)) < MAX_LINE_BYTES + 1"
    using assms by (simp add: recordable_def line_of_def)
  ultimately show ?thesis using readline_line by (simp add: line_of_def NL_def)
qed

lemma add_entry_count [simp]: "fst (add_entry sha lid st i) = fst st + 1"
  by (cases st) (simp add: add_entry_def)

lemma recover_lines_step:
  "s \<noteq> [] \<Longrightarrow> recover_lines sha lid s st =
     (case map_error (corruption (''invalid ledger line '' @ nat_str (fst st + 1)))
        (recover_line sha lid (readline (MAX_LINE_BYTES + 1) s) st) of
       Inl e \<Rightarrow> Inl e
     | Inr st' \<Rightarrow> recover_lines sha lid (drop (length (readline (MAX_LINE_BYTES + 1) s)) s) st')"
  by (subst recover_lines.simps) (simp only: Let_def if_False)

lemma recover_lines_Nil [simp]: "recover_lines sha lid [] st = Inr st"
  by (subst recover_lines.simps) simp

lemma line_of_nonempty [simp]: "line_of sha lid st i \<noteq> []"
  by (simp add: line_of_def NL_def)

text \<open>The lines of recordable intents are read back as those intents, whatever follows them.\<close>

lemma recover_text:
  "recordable_all sha lid st is \<Longrightarrow> 0 < fst st \<Longrightarrow>
     recover_lines sha lid (text_of sha lid st is @ rest) st = recover_lines sha lid rest (run_intents sha lid st is)"
proof (induction "is" arbitrary: st)
  case (Cons i "is")
  then have r: "recordable sha lid st i" by simp
  show ?case
    using Cons readline_row [OF r] recover_line_row [OF r Cons.prems(2)]
    by (simp add: recover_lines_step map_error_def)
qed simp

definition header_ok :: "hasher \<Rightarrow> string \<Rightarrow> bool" where
  "header_ok sha lid \<longleftrightarrow> length (header_line sha lid) \<le> MAX_LINE_BYTES"

lemma recover_header:
  assumes "header_ok sha lid"
  shows "recover_lines sha lid (header_line sha lid @ rest) (0, [], [], tip) =
    recover_lines sha lid rest (1, [], [], tip)"
proof -
  obtain d where d: "ledger_header sha lid = JObj d" "distinct (map fst d)" "\<forall>(k, v) \<in> set d. sort_json v = v"
    by (simp add: ledger_header_def header_payload_def)
  have nl: "CHR 0x0A \<notin> set (canonical (ledger_header sha lid))"
    by (rule canonical_no_newline [OF wf_header])
  have rl: "readline (MAX_LINE_BYTES + 1) (header_line sha lid @ rest) = header_line sha lid"
    using readline_line [OF nl] assms by (simp add: header_line_def header_ok_def NL_def)
  have "decode_line (header_line sha lid) = Inr (obj_fields (sort_json (JObj d)))"
    using decode_canonical [of d] wf_header [of sha lid] assms d(1) by (simp add: header_line_def header_ok_def)
  moreover have "set (obj_fields (sort_json (JObj d))) = set d"
    using d(3) by (force simp: obj_fields_def)
  ultimately have "recover_line sha lid (header_line sha lid) (0, [], [], tip) = Inr (1, [], [], tip)"
    by (simp add: recover_line_def same_fields_def d(1) obj_fields_def)
  then show ?thesis using rl by (simp add: recover_lines_step map_error_def header_line_def NL_def)
qed

lemma recover_file:
  assumes "header_ok sha lid" "recordable_all sha lid (start_state sha lid) is"
  shows "ledger_recover sha lid (file_text sha lid is @ rest) =
    bindE (recover_lines sha lid rest (run_intents sha lid (start_state sha lid) is))
      (\<lambda>(n, recs, ids, tip). raise_if (n = 0) (LedgerCorruptionError ''empty ledger; header is required'')
         (Inr (n, recs, ids, tip)))"
  using recover_text [OF assms(2), of rest] recover_header [OF assms(1)]
  by (simp add: ledger_recover_def file_text_def start_state_def)


section \<open>What a list of intents determines\<close>

definition state_of :: "hasher \<Rightarrow> string \<Rightarrow> order_intent list \<Rightarrow> recovery" where
  "state_of sha lid is = run_intents sha lid (start_state sha lid) is"

definition recordable_list :: "hasher \<Rightarrow> string \<Rightarrow> order_intent list \<Rightarrow> bool" where
  "recordable_list sha lid is \<longleftrightarrow> header_ok sha lid \<and> recordable_all sha lid (start_state sha lid) is"

lemma state_of_Nil: "state_of sha lid [] = start_state sha lid"
  by (simp add: state_of_def)

lemma state_of_snoc: "state_of sha lid (is @ [i]) = add_entry sha lid (state_of sha lid is) i"
  by (simp add: state_of_def run_intents_append)

lemma file_text_snoc: "file_text sha lid (is @ [i]) = file_text sha lid is @ line_of sha lid (state_of sha lid is) i"
  by (simp add: file_text_def text_of_append state_of_def)

lemma recordable_list_snoc:
  "recordable_list sha lid (is @ [i]) \<longleftrightarrow> recordable_list sha lid is \<and> recordable sha lid (state_of sha lid is) i"
  by (auto simp: recordable_list_def recordable_all_append state_of_def)

lemma state_of_shape:
  assumes "recordable_list sha lid is" "state_of sha lid is = (n, recs, ids, tip)"
  shows "n = length is + 1 \<and> length recs = length is \<and>
    (\<forall>k < length is. snd (recs ! k) = canonical (intent_to_dict (is ! k)) \<and>
       rc_intent_id (fst (recs ! k)) = oi_intent_id (is ! k) \<and> rc_sequence (fst (recs ! k)) = int k + 1 \<and>
       rc_ledger_id (fst (recs ! k)) = lid) \<and>
    (\<forall>x k. map_of ids x = Some k \<longleftrightarrow> k < length is \<and> oi_intent_id (is ! k) = x) \<and>
    (\<forall>i \<in> set is. wf_intent i) \<and> tip = (if is = [] then header_hash sha lid else rc_record_hash (fst (last recs)))"
  using assms
proof (induction "is" arbitrary: n recs ids tip rule: rev_induct)
  case Nil
  then show ?case by (simp add: state_of_Nil start_state_def)
next
  case (snoc i "is")
  obtain n' recs' ids' tip' where st: "state_of sha lid is = (n', recs', ids', tip')"
    by (cases "state_of sha lid is") auto
  have r: "recordable_list sha lid is" "recordable sha lid (state_of sha lid is) i"
    using snoc.prems(1) by (auto simp: recordable_list_snoc)
  note IH = snoc.IH [OF r(1) st]
  have new: "n = n' + 1" "recs = recs' @ [(receipt_of sha lid (n', recs', ids', tip') i, canonical (intent_to_dict i))]"
    "ids = dput (oi_intent_id i) (length recs') ids'" "tip = rc_record_hash (receipt_of sha lid (n', recs', ids', tip') i)"
    using snoc.prems(2) by (simp_all add: state_of_snoc st add_entry_def)
  have f: "map_of ids' (oi_intent_id i) = None" "wf_intent i" using r(2) by (simp_all add: recordable_def st)
  have fresh: "k < length is \<Longrightarrow> oi_intent_id (is ! k) \<noteq> oi_intent_id i" for k
    using f(1) IH by (metis option.distinct(1))
  show ?case
    unfolding new using IH f(2) fresh
    by (auto simp: nth_append receipt_of_def less_Suc_eq)
qed

lemma state_of_grows: "prefix (fst (snd (run_intents sha lid st xs))) (fst (snd (run_intents sha lid st (xs @ ys))))"
proof (induction ys rule: rev_induct)
  case (snoc y ys)
  then show ?case
    by (cases "run_intents sha lid st (xs @ ys)")
      (auto simp: add_entry_def run_intents_append [of _ _ _ "xs @ ys" "[y]", simplified] intro: prefix_order.order_trans)
qed simp

text \<open>A successful recovery only adds records to those it has already read.\<close>

lemma recover_record_grows:
  "recover_record sha lid d st = Inr st' \<Longrightarrow> fst st' = fst st \<and> prefix (fst (snd st)) (fst (snd st'))"
  by (cases st) (auto simp: recover_record_def err_simps Let_def split: option.splits json.splits)

lemma recover_line_grows:
  "recover_line sha lid line st = Inr st' \<Longrightarrow> fst st' = fst st + 1 \<and> prefix (fst (snd st)) (fst (snd st'))"
  by (cases st) (auto simp: recover_line_def err_simps split: if_splits dest!: recover_record_grows)

lemma map_error_Inr [simp]: "map_error f r = Inr x \<longleftrightarrow> r = Inr x"
  by (cases r) (simp_all add: map_error_def)

lemma recover_lines_grow:
  "recover_lines sha lid s st = Inr st' \<Longrightarrow> fst st \<le> fst st' \<and> prefix (fst (snd st)) (fst (snd st'))"
proof (induction sha lid s st rule: recover_lines.induct)
  case (1 sha lid s st)
  show ?case
  proof (cases "s = []")
    case False
    then obtain st1 where l: "recover_line sha lid (readline (MAX_LINE_BYTES + 1) s) st = Inr st1"
      "recover_lines sha lid (drop (length (readline (MAX_LINE_BYTES + 1) s)) s) st1 = Inr st'"
      using 1(2) by (auto simp: recover_lines_step map_error_def split: sum.splits)
    have "fst st1 \<le> fst st' \<and> prefix (fst (snd st1)) (fst (snd st'))"
      by (rule 1(1) [OF False refl _ l(2)]) (simp only: map_error_Inr l)
    then show ?thesis using recover_line_grows [OF l(1)] prefix_order.order_trans by fastforce
  qed (use 1 in simp)
qed

lemma recover_prefix:
  assumes "recordable_list sha lid is" "ledger_recover sha lid (file_text sha lid is @ rest) = Inr out"
  shows "prefix (fst (snd (state_of sha lid is))) (fst (snd out))"
proof -
  have "recover_lines sha lid rest (state_of sha lid is) = Inr out"
    using assms recover_file [of sha lid "is" rest]
    by (auto simp: recordable_list_def state_of_def err_simps)
  then show ?thesis using recover_lines_grow by blast
qed

lemma recover_exact:
  assumes "recordable_list sha lid is"
  shows "ledger_recover sha lid (file_text sha lid is) = Inr (state_of sha lid is)"
proof -
  obtain n recs ids tip where st: "state_of sha lid is = (n, recs, ids, tip)" by (cases "state_of sha lid is") auto
  show ?thesis using recover_file [of sha lid "is" "[]"] assms state_of_shape [OF assms st] st
    by (simp add: recordable_list_def state_of_def)
qed


section \<open>The invariant of a handle and its file\<close>

definition live :: "ledger \<Rightarrow> bool" where
  "live l \<longleftrightarrow> l_fd l \<and> \<not> l_poisoned l"

definition agrees :: "hasher \<Rightarrow> string \<Rightarrow> order_intent list \<Rightarrow> ledger \<Rightarrow> bool" where
  "agrees sha lid is l \<longleftrightarrow> l_ledger_id l = lid \<and>
     (length is + 1, l_records l, l_by_id l, l_tip l) = state_of sha lid is"

text \<open>\<open>ledger_ok sha lid is s\<close>: the handle holds exactly the entries of the intents \<open>is\<close>; while it is
  usable its file holds exactly their lines, all durable; after a failure their lines are still a
  durable prefix of the file.\<close>

definition ledger_ok :: "hasher \<Rightarrow> string \<Rightarrow> order_intent list \<Rightarrow> lstate \<Rightarrow> bool" where
  "ledger_ok sha lid is s \<longleftrightarrow> recordable_list sha lid is \<and> agrees sha lid is (fst s) \<and>
     prefix (file_text sha lid is) (w_durable (snd s)) \<and> prefix (w_durable (snd s)) (w_content (snd s)) \<and>
     (live (fst s) \<longrightarrow> w_content (snd s) = file_text sha lid is \<and> w_durable (snd s) = file_text sha lid is)"

lemma ledger_identity_same: "ledger_identity w = (r, w') \<Longrightarrow> same_file w w'"
  by (cases "os_stat w"; cases "fst (os_stat w)")
    (auto simp: ledger_identity_def failS_def dest!: os_stat_same split: prod.splits if_splits)

lemma ledger_ok_poison: "ledger_ok sha lid is s \<Longrightarrow> ledger_ok sha lid is (poison s)"
  by (cases s) (auto simp: ledger_ok_def poison_def agrees_def live_def)

lemma ledger_ok_same_file: "same_file w w' \<Longrightarrow> ledger_ok sha lid is (l, w') = ledger_ok sha lid is (l, w)"
  by (simp add: ledger_ok_def same_file_def)

text \<open>The guard lets a call through only on a usable handle, and changes neither the handle nor the
  file then.\<close>

lemma ledger_guard_effect:
  assumes "ledger_guard s = (r, s')"
  shows "same_file (snd s) (snd s')" "r = Inr () \<Longrightarrow> fst s' = fst s \<and> live (fst s)"
    "fst s' = fst s \<or> s' = poison (fst s, snd s')"
    "r \<noteq> Inr () \<Longrightarrow> os_or_ledger_error (projl r) \<Longrightarrow> \<exists>m. r = Inl (LedgerUnavailableError m)"
proof -
  obtain l w where s: "s = (l, w)" by (cases s)
  obtain q w1 where q: "ledger_identity w = (q, w1)" by (cases "ledger_identity w")
  note same = ledger_identity_same [OF q]
  have "same_file (snd s) (snd s') \<and> (r = Inr () \<longrightarrow> fst s' = fst s \<and> live (fst s)) \<and>
    (fst s' = fst s \<or> s' = poison (fst s, snd s')) \<and>
    (r \<noteq> Inr () \<longrightarrow> os_or_ledger_error (projl r) \<longrightarrow> (\<exists>m. r = Inl (LedgerUnavailableError m)))"
  proof (cases "\<not> l_fd l \<or> l_poisoned l")
    case True
    then show ?thesis using assms s by (auto simp: ledger_guard_def)
  next
    case False
    then show ?thesis using assms s q same
      by (cases q) (auto simp: ledger_guard_def failS_def live_def guard_fail_def poison_def split: if_splits)
  qed
  then show "same_file (snd s) (snd s')" "r = Inr () \<Longrightarrow> fst s' = fst s \<and> live (fst s)"
    "fst s' = fst s \<or> s' = poison (fst s, snd s')"
    "r \<noteq> Inr () \<Longrightarrow> os_or_ledger_error (projl r) \<Longrightarrow> \<exists>m. r = Inl (LedgerUnavailableError m)" by auto
qed

lemma entered_effect:
  assumes "entered s = (r, s')"
  shows "same_file (snd s) (snd s')" "r = Inr () \<Longrightarrow> fst s' = fst s \<and> live (fst s)"
    "fst s' = fst s \<or> s' = poison (fst s, snd s')"
proof -
  have "same_file (snd s) (snd s') \<and> (r = Inr () \<longrightarrow> fst s' = fst s \<and> live (fst s)) \<and>
    (fst s' = fst s \<or> s' = poison (fst s, snd s'))"
  proof (cases "w_pid (snd s) \<noteq> l_pid (fst s)")
    case True
    then show ?thesis using assms by (auto simp: entered_def ledger_owner_def)
  next
    case False
    then have "ledger_guard s = (r, s')" using assms by (simp add: entered_def ledger_owner_def)
    from ledger_guard_effect(1-3) [OF this] show ?thesis by blast
  qed
  then show "same_file (snd s) (snd s')" "r = Inr () \<Longrightarrow> fst s' = fst s \<and> live (fst s)"
    "fst s' = fst s \<or> s' = poison (fst s, snd s')" by auto
qed

lemma entered_ok: "ledger_ok sha lid is s \<Longrightarrow> entered s = (r, s') \<Longrightarrow> ledger_ok sha lid is s'"
  using entered_effect [of s r s'] ledger_ok_same_file [of "snd s" "snd s'" sha lid "is" "fst s"]
    ledger_ok_poison [of sha lid "is" "(fst s, snd s')"] by (cases s'; cases s) auto

lemma append_persist_effect:
  assumes "append_persist raw st w = (r, w')"
  shows "only_io w w'" "\<exists>x. prefix x raw \<and> w_content w' = w_content w @ x"
    "w_durable w' = w_durable w \<or> w_durable w' = w_content w'"
    "r = Inr info \<Longrightarrow> w_content w' = w_content w @ raw \<and> w_durable w' = w_content w @ raw \<and>
       st_size info = stamp_size st + int (length raw)"
proof -
  obtain r1 w1 where 1: "write_all raw w = (r1, w1)" by (cases "write_all raw w")
  note e1 = write_all_effect [OF 1]
  have "only_io w w' \<and> (\<exists>x. prefix x raw \<and> w_content w' = w_content w @ x) \<and>
    (w_durable w' = w_durable w \<or> w_durable w' = w_content w') \<and>
    (r = Inr info \<longrightarrow> w_content w' = w_content w @ raw \<and> w_durable w' = w_content w @ raw \<and>
       st_size info = stamp_size st + int (length raw))"
  proof (cases r1)
    case (Inl e)
    then show ?thesis using assms 1 e1 by (auto simp: append_persist_def)
  next
    case (Inr u)
    obtain r2 w2 where 2: "os_fsync w1 = (r2, w2)" by (cases "os_fsync w1")
    note e2 = os_fsync_effect [OF 2]
    show ?thesis
    proof (cases r2)
      case (Inl e)
      then show ?thesis using assms 1 2 e1 e2 Inr by (auto simp: append_persist_def intro: only_io_trans)
    next
      case r2: (Inr v)
      obtain r3 w3 where 3: "ledger_identity w2 = (r3, w3)" by (cases "ledger_identity w2")
      note e3 = ledger_identity_same [OF 3]
      have io: "only_io w w3" "w_content w3 = w_content w @ raw" "w_durable w3 = w_content w @ raw"
        using e1 e2 e3 Inr r2 by (auto simp: same_file_def intro: only_io_trans)
      show ?thesis using assms 1 2 3 Inr r2 io
        by (cases r3) (auto simp: append_persist_def failS_def split: if_splits)
    qed
  qed
  then show "only_io w w'" "\<exists>x. prefix x raw \<and> w_content w' = w_content w @ x"
    "w_durable w' = w_durable w \<or> w_durable w' = w_content w'"
    "r = Inr info \<Longrightarrow> w_content w' = w_content w @ raw \<and> w_durable w' = w_content w @ raw \<and>
       st_size info = stamp_size st + int (length raw)" by auto
qed


section \<open>Append\<close>

text \<open>The numbers of an intent are Python floats.\<close>

definition floats_typed :: "order_intent \<Rightarrow> bool" where
  "floats_typed i \<longleftrightarrow> wf_float (oi_qty i) \<and> wf_float (oi_limit_price i) \<and>
     wf_float (oi_decision_ts_ms i) \<and> wf_float (oi_market_data_ts_ms i)"

lemma agrees_shape:
  assumes "recordable_list sha lid is" "agrees sha lid is l"
  shows "length (l_records l) = length is"
    "k < length is \<Longrightarrow> snd (l_records l ! k) = canonical (intent_to_dict (is ! k)) \<and>
       rc_intent_id (fst (l_records l ! k)) = oi_intent_id (is ! k) \<and> rc_sequence (fst (l_records l ! k)) = int k + 1 \<and>
       rc_ledger_id (fst (l_records l ! k)) = lid"
    "map_of (l_by_id l) x = Some k \<longleftrightarrow> k < length is \<and> oi_intent_id (is ! k) = x"
    "i \<in> set is \<Longrightarrow> wf_intent i"
    "l_tip l = (if is = [] then header_hash sha lid else rc_record_hash (fst (last (l_records l))))"
  using state_of_shape [OF assms(1) assms(2) [unfolded agrees_def, THEN conjunct2, symmetric]] by auto

lemma row_of_agrees:
  assumes "agrees sha lid is l"
  shows "row_of sha lid (state_of sha lid is) i =
    ledger_record sha (l_ledger_id l) (int (length (l_records l)) + 1) (l_tip l) (intent_to_dict i)"
  using assms by (auto simp: agrees_def row_of_def simp flip: assms [unfolded agrees_def, THEN conjunct2])

lemma receipt_post_init_id: "intent_receipt_post_init r = Inr r' \<Longrightarrow> r' = r"
  by (auto simp: intent_receipt_post_init_def err_simps)

lemma append_new_ok:
  assumes ok: "ledger_ok sha lid is (l, w)" and "live l" and rec: "recordable sha lid (state_of sha lid is) i"
    and "append_persist (line_of sha lid (state_of sha lid is) i) st w = (Inr info, w')"
  shows "ledger_ok sha lid (is @ [i]) (l\<lparr>l_by_id := dput (oi_intent_id i) (length (l_records l)) (l_by_id l),
      l_records := l_records l @ [(receipt_of sha lid (state_of sha lid is) i, canonical (intent_to_dict i))],
      l_tip := rc_record_hash (receipt_of sha lid (state_of sha lid is) i), l_stamp := stamp_of info\<rparr>, w')"
proof -
  have a: "agrees sha lid is l" and r: "recordable_list sha lid is" using ok by (auto simp: ledger_ok_def)
  have st: "state_of sha lid is = (length is + 1, l_records l, l_by_id l, l_tip l)"
    using a by (simp add: agrees_def)
  show ?thesis
    using ok assms(2) rec append_persist_effect(4) [OF assms(4), of info] st
    by (auto simp: ledger_ok_def recordable_list_snoc agrees_def file_text_snoc state_of_snoc add_entry_def)
qed

lemma append_failed_ok:
  assumes "ledger_ok sha lid is (l, w)" "live l" "append_persist raw st w = (r, w')"
  shows "ledger_ok sha lid is (l\<lparr>l_poisoned := True\<rparr>, w')"
proof -
  obtain x where x: "w_content w' = file_text sha lid is @ x"
    using append_persist_effect(2) [OF assms(3)] assms(1,2) by (auto simp: ledger_ok_def)
  have "w_durable w' = file_text sha lid is \<or> w_durable w' = w_content w'"
    using append_persist_effect(3) [OF assms(3)] assms(1,2) by (auto simp: ledger_ok_def)
  then show ?thesis using assms(1) x by (auto simp: ledger_ok_def agrees_def live_def)
qed

lemma append_record_cases:
  assumes ok: "ledger_ok sha lid is (l, w)" and live: "live l" and wf: "wf_intent i"
    and None: "map_of (l_by_id l) (oi_intent_id i) = None"
    and app: "append_record sha i (intent_to_dict i) (l, w) = (r, s')"
  shows "(\<exists>e. r = Inl e \<and> ledger_ok sha lid is s' \<and> l_records (fst s') = l_records l) \<or>
    (r = Inr (receipt_of sha lid (state_of sha lid is) i) \<and> ledger_ok sha lid (is @ [i]) s' \<and>
       l_records (fst s') = l_records l @
         [(receipt_of sha lid (state_of sha lid is) i, canonical (intent_to_dict i))] \<and> live (fst s'))"
proof -
  let ?st = "state_of sha lid is"
  let ?raw = "line_of sha lid ?st i"
  have a: "agrees sha lid is l" using ok by (simp add: ledger_ok_def)
  have st: "?st = (length is + 1, l_records l, l_by_id l, l_tip l)" using a by (simp add: agrees_def)
  have raw: "canonical (row_of sha lid ?st i) @ NL = ?raw" by (simp add: line_of_def)
  note mid = app [unfolded append_record_def Let_def fst_conv row_of_agrees [OF a, symmetric] raw snd_conv]
  show ?thesis
  proof (cases "MAX_LINE_BYTES < length ?raw \<or> (\<exists>x. ledger_receipt (row_of sha lid ?st i) = Inl x)")
    case True
    then obtain e where "failS (MAX_LINE_BYTES < length ?raw) (ValueError ''intent record exceeds MAX_LINE_BYTES'') (l, w)
        (checkS (ledger_receipt (row_of sha lid ?st i)) (l, w) k) = (Inl e, (l, w))" for k :: "_ \<Rightarrow> intent_receipt res \<times> lstate"
      by (cases "MAX_LINE_BYTES < length ?raw") auto
    then have "r = Inl e" "s' = (l, w)" using mid by simp_all
    then show ?thesis using ok by auto
  next
    case False
    then obtain receipt where rc: "ledger_receipt (row_of sha lid ?st i) = Inr receipt"
      by (cases "ledger_receipt (row_of sha lid ?st i)") auto
    then have rc2: "intent_receipt_post_init (receipt_of sha lid ?st i) = Inr receipt"
      by (simp add: ledger_receipt_row)
    then have eq: "receipt = receipt_of sha lid ?st i" by (rule receipt_post_init_id)
    have rec: "recordable sha lid ?st i"
      using wf None False rc2 eq by (auto simp: recordable_def st)
    obtain q w2 where q: "append_persist ?raw (l_stamp l) w = (q, w2)" by (cases "append_persist ?raw (l_stamp l) w")
    show ?thesis
    proof (cases q)
      case (Inl x)
      have "append_fail x (l, w2) = (r, s')" using mid False rc q Inl by simp
      then have "s' = (l\<lparr>l_poisoned := True\<rparr>, w2) \<and> (\<exists>e. r = Inl e)"
        by (cases "os_or_ledger_error x") (auto simp: append_fail_def poison_def)
      then show ?thesis using append_failed_ok [OF ok live q] by simp
    next
      case info: (Inr info)
      then show ?thesis using mid False rc q eq live append_new_ok [OF ok live rec q [unfolded info]]
        by (auto simp: live_def)
    qed
  qed
qed

text \<open>Everything \<open>append\<close> can do, as one statement: with a receipt, the intent is one of the recorded
  ones, appended last if it is new; with an exception, the recorded intents are the same.\<close>

lemma append_cases:
  assumes ok: "ledger_ok sha lid is s" and f: "floats_typed i" and app: "ledger_append sha i s = (r, s')"
  shows "(\<exists>e. r = Inl e \<and> ledger_ok sha lid is s' \<and> l_records (fst s') = l_records (fst s)) \<or>
    (\<exists>k. r = Inr (fst (l_records (fst s) ! k)) \<and> k < length is \<and> is ! k = i \<and>
       ledger_ok sha lid is s' \<and> fst s' = fst s \<and> same_file (snd s) (snd s')) \<or>
    (r = Inr (receipt_of sha lid (state_of sha lid is) i) \<and> ledger_ok sha lid (is @ [i]) s' \<and>
       l_records (fst s') = l_records (fst s) @
         [(receipt_of sha lid (state_of sha lid is) i, canonical (intent_to_dict i))] \<and> live (fst s'))"
proof -
  obtain re s1 where e: "entered s = (re, s1)" by (cases "entered s")
  have ok1: "ledger_ok sha lid is s1" using entered_ok [OF ok e] .
  have recs: "l_records (fst s1) = l_records (fst s)"
    using entered_effect(3) [OF e] by (cases s1) (auto simp: poison_def)
  note start = app [unfolded ledger_append_def e]
  show ?thesis
  proof (cases "re = Inr () \<and> (\<exists>payload. intent_payload i = Inr payload)")
    case False
    then show ?thesis using start ok1 recs by (cases re; cases "intent_payload i") auto
  next
    case True
    then obtain payload where p: "intent_payload i = Inr payload" by blast
    have keep: "fst s1 = fst s" "live (fst s)" "same_file (snd s) (snd s1)"
      using entered_effect(1,2) [OF e] True by auto
    obtain l w where s1: "s1 = (l, w)" "fst s = l" using keep by (cases s1) auto
    have "agrees sha lid is l" "recordable_list sha lid is" using ok1 s1 by (auto simp: ledger_ok_def)
    note sh = agrees_shape [OF this(2,1)]
    have wf: "wf_intent i" and pd: "payload = intent_to_dict i"
      using payload_wf [OF p] payload_is_dict [OF p] f by (auto simp: floats_typed_def)
    show ?thesis
    proof (cases "map_of (l_by_id l) (oi_intent_id i)")
      case (Some k)
      then have k: "k < length is" "oi_intent_id (is ! k) = oi_intent_id i" using sh(3) by auto
      obtain rc old where ro: "l_records l ! k = (rc, old)" by (cases "l_records l ! k")
      show ?thesis
      proof (cases "canonical payload = old")
        case True
        then have "canonical (intent_to_dict i) = canonical (intent_to_dict (is ! k))"
          using sh(2) [OF k(1)] pd ro by simp
        then have "is ! k = i" using canonical_intent_inj wf sh(4) k(1) nth_mem by metis
        moreover have "r = Inr rc \<and> s' = s1" using start \<open>re = Inr () \<and> _\<close> p Some s1 True ro by auto
        ultimately show ?thesis using ok1 k(1) keep s1(2) ro by (intro disjI2 disjI1 exI [of _ k]) simp
      qed (use start \<open>re = Inr () \<and> _\<close> p Some ok1 recs s1 ro in auto)
    next
      case None
      then have "append_record sha i (intent_to_dict i) (l, w) = (r, s')"
        using start True p s1 pd by simp
      from append_record_cases [OF ok1 [unfolded s1(1)] keep(2) [unfolded s1(2)] wf None this] s1(2)
      show ?thesis by auto
    qed
  qed
qed

end
