(* ===== verification/IntentLedgerLaws.thy ===== *)
theory IntentLedgerLaws
  imports IntentLedger
begin

text \<open>
  The intent ledger as a durable log: its handle and file interpret \<open>durable_log\<close>, and the
  properties of \<open>create\<close>, \<open>append\<close>, \<open>get_intent\<close>, \<open>open_existing\<close> and of checkpoints that a client
  (the submit path) relies on.
\<close>

section \<open>The durable-log interpretation\<close>

definition handle_receipts :: "lstate \<Rightarrow> intent_receipt list" where
  "handle_receipts s = map fst (l_records (fst s))"

definition reload_receipts :: "hasher \<Rightarrow> string \<Rightarrow> string \<Rightarrow> intent_receipt list res" where
  "reload_receipts sha lid content =
     bindE (ledger_recover sha lid content) (\<lambda>(n, recs, ids, tip). Inr (map fst recs))"

definition handle_ok :: "hasher \<Rightarrow> string \<Rightarrow> lstate \<Rightarrow> bool" where
  "handle_ok sha lid s \<longleftrightarrow> (\<exists>is. ledger_ok sha lid is s)"

lemma append_handle:
  assumes "handle_ok sha lid s" "floats_typed i" "ledger_append sha i s = (r, s')"
  shows "handle_ok sha lid s'" "prefix (handle_receipts s) (handle_receipts s')"
    "r = Inr rc \<Longrightarrow> rc \<in> set (handle_receipts s')" "r = Inl e \<Longrightarrow> handle_receipts s' = handle_receipts s"
proof -
  obtain "is" where ok: "ledger_ok sha lid is s" using assms(1) by (auto simp: handle_ok_def)
  have len: "length (l_records (fst s)) = length is"
    using agrees_shape(1) ok by (auto simp: ledger_ok_def)
  have "handle_ok sha lid s' \<and> prefix (handle_receipts s) (handle_receipts s') \<and>
    (r = Inr rc \<longrightarrow> rc \<in> set (handle_receipts s')) \<and> (r = Inl e \<longrightarrow> handle_receipts s' = handle_receipts s)"
    using append_cases [OF ok assms(2,3)] len
    by (auto simp: handle_ok_def handle_receipts_def)
  then show "handle_ok sha lid s'" "prefix (handle_receipts s) (handle_receipts s')"
    "r = Inr rc \<Longrightarrow> rc \<in> set (handle_receipts s')" "r = Inl e \<Longrightarrow> handle_receipts s' = handle_receipts s"
    by auto
qed

lemma reload_handle:
  assumes "handle_ok sha lid s" "prefix (w_durable (snd s)) c" "reload_receipts sha lid c = Inr rs"
  shows "prefix (handle_receipts s) rs"
proof -
  obtain "is" where ok: "ledger_ok sha lid is s" using assms(1) by (auto simp: handle_ok_def)
  obtain rest where c: "c = file_text sha lid is @ rest"
    using ok assms(2) by (auto simp: ledger_ok_def prefix_def)
  obtain out where out: "ledger_recover sha lid c = Inr out" "rs = map fst (fst (snd out))"
    using assms(3) by (auto simp: reload_receipts_def err_simps)
  have "l_records (fst s) = fst (snd (state_of sha lid is))"
    using ok by (auto simp: ledger_ok_def agrees_def dest: arg_cong [where f = "\<lambda>x. fst (snd x)"])
  then show ?thesis
    using recover_prefix [of sha lid "is" rest out] ok out c
    by (auto simp: ledger_ok_def handle_receipts_def intro: map_mono_prefix)
qed

interpretation led: durable_log "handle_ok sha lid" floats_typed handle_receipts
  "\<lambda>s. w_durable (snd s)" "ledger_append sha" "reload_receipts sha lid" for sha lid
proof
  fix s x r s'
  assume "handle_ok sha lid s" "floats_typed x" "ledger_append sha x s = (Inr r, s')"
  then show "handle_ok sha lid s' \<and> prefix (handle_receipts s) (handle_receipts s') \<and> r \<in> set (handle_receipts s')"
    using append_handle(1-3) by blast
next
  fix s x e s'
  assume "handle_ok sha lid s" "floats_typed x" "ledger_append sha x s = (Inl e, s')"
  then show "handle_ok sha lid s' \<and> handle_receipts s' = handle_receipts s"
    using append_handle(1,4) by blast
next
  fix s c rs
  assume "handle_ok sha lid s" "prefix (w_durable (snd s)) c" "reload_receipts sha lid c = Inr rs"
  then show "prefix (handle_receipts s) rs" by (rule reload_handle)
qed

section \<open>Creating and reopening\<close>

text \<open>What the code relies on in \<open>hashlib.sha256(...).hexdigest()\<close>: 64 lowercase hexadecimal
  digits.\<close>

definition hex_digest :: "hasher \<Rightarrow> bool" where
  "hex_digest sha \<longleftrightarrow> (\<forall>s. length (sha s) = 64 \<and> list_all is_lower_hex (sha s))"

lemma length_esc: "length (esc_char c) \<le> 6"
  by (simp add: esc_char_def hex_digit_def Let_def)

lemma length_quote: "length (quote s) \<le> 6 * length s + 2"
proof -
  have "length (concat (map esc_char s)) \<le> 6 * length s"
    by (induction s) (use length_esc in \<open>auto intro: add_mono\<close>)
  then show ?thesis by (simp add: quote_def)
qed

lemma length_join: "length (join sep xs) \<le> sum_list (map length xs) + length xs * length sep"
  by (induction sep xs rule: join.induct) auto

lemma header_fits:
  assumes "hex_digest sha" "length lid \<le> 256"
  shows "header_ok sha lid"
proof -
  define h where "h = header_hash sha lid"
  define d where "d = [(''schema_version'', JStr HEADER_SCHEMA), (''ledger_id'', JStr lid), (''record_hash'', JStr h)]"
  define size where "size = (\<lambda>(k, v). length (quote k) + 1 + length (dumps v))"
  have h: "length h = 64" using assms(1) by (simp add: h_def header_hash_def ledger_digest_def hex_digest_def)
  have "canonical (ledger_header sha lid) = ''{'' @ join '','' (map (\<lambda>(k, v). quote k @ '':'' @ dumps v) (sort_key fst d)) @ ''}''"
    by (simp add: canonical_def ledger_header_def header_payload_def d_def h_def)
  then have "length (canonical (ledger_header sha lid)) \<le> sum_list (map size (sort_key fst d)) + 5"
    using length_join [of "'',''" "map (\<lambda>(k, v). quote k @ '':'' @ dumps v) (sort_key fst d)"]
    by (simp add: comp_def size_def split_def d_def)
  also have "sum_list (map size (sort_key fst d)) = sum_list (map size d)"
    by (metis mset_map mset_sort sum_mset_sum_list)
  also have "\<dots> \<le> 3000"
    using h assms(2) length_quote [of lid] length_quote [of h] length_quote [of HEADER_SCHEMA]
      length_quote [of "''schema_version''"] length_quote [of "''ledger_id''"] length_quote [of "''record_hash''"]
    by (simp add: d_def size_def HEADER_SCHEMA_def)
  finally show ?thesis by (simp add: header_ok_def header_line_def NL_def MAX_LINE_BYTES_def)
qed


lemma os_open_new: "os_open_file True w = (Inr u, w') \<Longrightarrow> w_content w' = [] \<and> w_durable w' = []"
  by (auto simp: os_open_file_def Let_def split: if_splits)

lemma open_create:
  assumes "open_body sha lid True cp w = (Inr (st, before), w')"
  shows "st = (0, [], [], header_hash sha lid)" "w_content w' = header_line sha lid" "w_durable w' = header_line sha lid"
proof -
  have "st = (0, [], [], header_hash sha lid) \<and> w_content w' = header_line sha lid \<and> w_durable w' = header_line sha lid"
    using assms unfolding open_body_def err_simps Let_def if_True header_line_def [symmetric]
    by (clarsimp simp: err_simps same_file_def
        dest!: ledger_identity_same os_fsync_effect write_all_effect os_open_dir_same os_open_new)
  then show "st = (0, [], [], header_hash sha lid)" "w_content w' = header_line sha lid" "w_durable w' = header_line sha lid"
    by auto
qed

text \<open>What opening an existing file did so far: it wrote nothing, and at most made durable what the
  file holds.\<close>

definition not_written :: "world \<Rightarrow> world \<Rightarrow> bool" where
  "not_written w w' \<longleftrightarrow> w_content w' = w_content w \<and> (w_durable w' = w_durable w \<or> w_durable w' = w_content w)"

lemma not_written_refl [simp]: "not_written w w"
  by (simp add: not_written_def)

lemma not_written_same: "not_written w w1 \<Longrightarrow> same_file w1 w2 \<Longrightarrow> not_written w w2"
  by (auto simp: not_written_def same_file_def)

lemma not_written_stat: "not_written w w1 \<Longrightarrow> ledger_identity w1 = (r, w2) \<Longrightarrow> not_written w w2"
  using ledger_identity_same not_written_same by blast

lemma not_written_sync: "not_written w w1 \<Longrightarrow> os_fsync w1 = (r, w2) \<Longrightarrow> not_written w w2"
  using os_fsync_effect [of w1 r w2] by (auto simp: not_written_def split: if_splits)

lemma not_written_read: "not_written w w1 \<Longrightarrow> os_read w1 = (r, w2) \<Longrightarrow> not_written w w2"
  using os_read_same not_written_same by blast

lemma not_written_dir: "not_written w w1 \<Longrightarrow> os_open_dir w1 = (r, w2) \<Longrightarrow> not_written w w2"
  using os_open_dir_same not_written_same by blast

lemma not_written_file: "not_written w w1 \<Longrightarrow> os_open_file False w1 = (r, w2) \<Longrightarrow> not_written w w2"
  by (auto simp: not_written_def os_open_file_def Let_def split: if_splits)

lemma not_written_close: "not_written w w1 \<Longrightarrow> not_written w (snd (os_close w1))"
  by (simp add: not_written_def os_close_def)

lemma not_written_calls:
  assumes "not_written w w1"
  shows "not_written w (snd (ledger_identity w1))" "not_written w (snd (os_fsync w1))" "not_written w (snd (os_read w1))"
    "not_written w (snd (os_open_dir w1))" "not_written w (snd (os_open_file False w1))" "not_written w (snd (r, w1))"
  using assms not_written_stat not_written_sync not_written_read not_written_dir not_written_file
  by (metis prod.collapse snd_conv)+

lemma not_written_thenS:
  "not_written w (snd m) \<Longrightarrow> (\<And>x w2. not_written w w2 \<Longrightarrow> not_written w (snd (f x w2))) \<Longrightarrow>
     not_written w (snd (thenS m f))"
  by (cases m; cases "fst m") auto

lemma not_written_failS:
  "not_written w w1 \<Longrightarrow> not_written w (snd k) \<Longrightarrow> not_written w (snd (failS b e w1 k))"
  by (simp add: failS_def)

lemma not_written_checkS:
  "not_written w w1 \<Longrightarrow> (\<And>x. not_written w (snd (f x))) \<Longrightarrow> not_written w (snd (checkS r w1 f))"
  by (cases r) simp_all

lemma open_existing_body_keeps: "not_written w (snd (open_body sha lid False cp w))"
  unfolding open_body_def if_False split_def
  by (intro not_written_thenS not_written_failS not_written_checkS not_written_calls; simp)

lemma open_existing_body:
  assumes "open_body sha lid False cp w = (Inr (st, before), w')"
  shows "w_content w' = w_content w" "w_durable w' = w_content w" "ledger_recover sha lid (w_content w) = Inr st"
    "cp = Some c \<Longrightarrow> check_checkpoint sha lid (fst (snd st)) c = Inr ()"
proof -
  have "w_content w' = w_content w \<and> w_durable w' = w_content w' \<and> ledger_recover sha lid (w_content w) = Inr st \<and>
    (cp = Some c \<longrightarrow> check_checkpoint sha lid (fst (snd st)) c = Inr ())"
    using assms unfolding open_body_def err_simps if_False
    by (clarsimp simp: err_simps same_file_def not_written_def
        dest!: ledger_identity_same os_fsync_effect os_open_dir_same os_read_same
          not_written_file [OF not_written_refl])
  then show "w_content w' = w_content w" "w_durable w' = w_content w" "ledger_recover sha lid (w_content w) = Inr st"
    "cp = Some c \<Longrightarrow> check_checkpoint sha lid (fst (snd st)) c = Inr ()" by auto
qed

end
