(* ===== verification/LedgerDemo.thy ===== *)
theory LedgerDemo
  imports IntentLedgerLaws
begin

text \<open>
  One concrete run of the intent ledger, for the witnesses: a hash function of the right shape, an
  intent, and operating-system answers under which the ledger is created, the intent appended and
  the file opened again.
\<close>

definition demo_sha :: hasher where
  "demo_sha s = (if length s < 200 then replicate 64 (CHR ''0'') else replicate 64 (CHR ''1''))"

definition demo_order :: order_intent where
  "demo_order = \<lparr>oi_intent_id = ''i1'', oi_condition_id = ''m'', oi_outcome = ''YES'', oi_side = BUY,
     oi_qty = Fin 4, oi_limit_price = Fin (1 / 2), oi_time_in_force = GTC, oi_decision_ts_ms = Fin 2,
     oi_market_data_ts_ms = Fin 1, oi_strategy_id = ''s'', oi_strategy_version = ''1'',
     oi_risk_policy_version = ''1'', oi_schema_version = ORDER_INTENT_SCHEMA_V1\<rparr>"

definition demo_st :: "int \<Rightarrow> st" where
  "demo_st n = \<lparr>st_dev = 1, st_ino = 2, st_nlink = 1, st_size = n, st_mtime_ns = n, st_ctime_ns = n,
     st_isreg = True\<rparr>"

definition demo_stat :: "int \<Rightarrow> stat_reply" where
  "demo_stat n = Some (demo_st n, demo_st n, demo_st 0, demo_st 0)"

definition demo_world :: "bool \<Rightarrow> string \<Rightarrow> write_reply list \<Rightarrow> int list \<Rightarrow> bool list \<Rightarrow> bool list \<Rightarrow> world" where
  "demo_world ex c ws ns os ss = \<lparr>w_linux = True, w_pid = 7, w_exists = ex, w_locked = False, w_content = c,
     w_durable = c, w_opens = os, w_writes = ws, w_stats = map demo_stat ns, w_syncs = ss,
     w_reads = [True], w_closes = [], w_preads = []\<rparr>"

definition demo_ledger :: "order_intent list \<Rightarrow> int \<Rightarrow> ledger" where
  "demo_ledger is n = fresh_ledger ''L'' (demo_world True [] [] [] [] []) (state_of demo_sha ''L'' is) (stamp_of (demo_st n))"

lemma demo_texts:
  "length (header_line demo_sha ''L'') = 150"
  "length (line_of demo_sha ''L'' (start_state demo_sha ''L'') demo_order) = 593"
  by code_simp+

lemma demo_valid: "valid_intent demo_order" "valid_text ''L''" "ledger_text ''L'' ''ledger_id'' = Inr ''L''"
  by code_simp+

lemma demo_typed: "floats_typed demo_order" "wf_intent demo_order"
proof -
  have "wf_float (Fin (1 / 2))" by code_simp
  then show "floats_typed demo_order" using wf_of_int [of 1] by (simp add: floats_typed_def demo_order_def wf_numeral del: wf_float.simps)
  then show "wf_intent demo_order" using demo_valid(1) by (simp add: floats_typed_def wf_intent_def)
qed

lemma demo_sha_hex: "hex_digest demo_sha"
proof -
  have "list_all is_lower_hex (replicate 64 (CHR ''0''))" "list_all is_lower_hex (replicate 64 (CHR ''1''))" by code_simp+
  then show ?thesis by (simp add: hex_digest_def demo_sha_def)
qed

lemma demo_identity:
  "w_stats w = demo_stat n # ss \<Longrightarrow> ledger_identity w = (Inr (demo_st n), w\<lparr>w_stats := ss\<rparr>)"
  by (simp add: ledger_identity_def os_stat_def pop_def demo_stat_def demo_st_def Let_def)

lemma demo_write:
  "raw \<noteq> [] \<Longrightarrow> w_writes w = Wrote (int (length raw)) # ws \<Longrightarrow>
     write_all raw w = (Inr (), w\<lparr>w_writes := ws, w_content := w_content w @ raw\<rparr>)"
  by (simp add: write_all_step os_write_def pop_def Let_def write_all_end)

definition demo_receipt :: intent_receipt where
  "demo_receipt = receipt_of demo_sha ''L'' (start_state demo_sha ''L'') demo_order"

lemma demo_digest: "200 \<le> length (canonical p) \<Longrightarrow> ledger_digest demo_sha k p = replicate 64 (CHR ''1'')"
  by (simp add: ledger_digest_def demo_sha_def)

lemma demo_header_digest: "header_hash demo_sha ''L'' = replicate 64 (CHR ''0'')"
  by code_simp

lemma demo_receipt_eq: "demo_receipt = \<lparr>rc_ledger_id = ''L'', rc_sequence = 1, rc_intent_id = ''i1'',
    rc_intent_hash = replicate 64 (CHR ''1''), rc_record_hash = replicate 64 (CHR ''1''),
    rc_schema_version = RECEIPT_SCHEMA\<rparr>"
proof -
  have "200 \<le> length (canonical (intent_to_dict demo_order))"
    "200 \<le> length (canonical (JObj (record_payload demo_sha ''L'' 1 (replicate 64 (CHR ''0'')) (intent_to_dict demo_order))))"
    by code_simp+
  then show ?thesis
    by (simp add: demo_receipt_def receipt_of_def start_state_def demo_header_digest record_hash_def demo_digest)
      (simp add: demo_order_def)
qed

lemma demo_receipt_valid: "intent_receipt_post_init demo_receipt = Inr demo_receipt"
  unfolding demo_receipt_eq by code_simp

lemma demo_recordable: "recordable_list demo_sha ''L'' [demo_order]" "recordable_list demo_sha ''L'' []"
proof -
  have "header_ok demo_sha ''L''" by (rule header_fits [OF demo_sha_hex]) simp
  moreover have "593 \<le> MAX_LINE_BYTES" by (simp add: MAX_LINE_BYTES_def)
  ultimately show "recordable_list demo_sha ''L'' [demo_order]" "recordable_list demo_sha ''L'' []"
    using demo_texts(2) demo_typed(2) demo_receipt_valid
    by (simp_all add: recordable_list_def recordable_def demo_receipt_def) (simp add: start_state_def)
qed

lemma demo_state:
  "state_of demo_sha ''L'' [demo_order] =
     (2, [(demo_receipt, canonical (intent_to_dict demo_order))], [(''i1'', 0)], rc_record_hash demo_receipt)"
  "state_of demo_sha ''L'' [] = (1, [], [], header_hash demo_sha ''L'')"
  by (simp_all add: state_of_def start_state_def add_entry_def demo_receipt_def)
    (simp add: demo_order_def)

text \<open>The world a handle on the file of \<open>is\<close> sees, with the answers still to come.\<close>

definition demo_disk :: "order_intent list \<Rightarrow> write_reply list \<Rightarrow> int list \<Rightarrow> world" where
  "demo_disk is ws ns = demo_world True (file_text demo_sha ''L'' is) ws ns [True, True] [True, True]"

lemma demo_create:
  "ledger_create demo_sha ''L'' (demo_world False [] [Wrote 150, Wrote 593] [0, 0, 150, 150, 150, 743]
     [True, True, True, True] [True, True, True, True]) =
     (Inr (demo_ledger [] 150), demo_disk [] [Wrote 593] [150, 743])"
proof -
  have raw: "canonical (ledger_header demo_sha ''L'') @ NL = header_line demo_sha ''L''"
    by (simp add: header_line_def)
  have ne: "header_line demo_sha ''L'' \<noteq> []" by (simp add: header_line_def NL_def)
  show ?thesis
    by (simp add: ledger_create_def ledger_open_def open_body_def raw demo_valid(3) demo_world_def os_open_dir_def
        os_open_file_def demo_identity demo_write ne demo_texts os_fsync_def pop_def Let_def demo_st_def stamp_of_def
        demo_ledger_def demo_disk_def file_text_def state_of_Nil start_state_def fresh_ledger_def cong: eval_cong)
qed


lemma demo_disk_ok:
  assumes "is \<in> {[], [demo_order]}"
  shows "ledger_ok demo_sha ''L'' is (demo_ledger is n, demo_disk is ws ns)"
  using assms demo_recordable demo_state
  by (auto simp: ledger_ok_def agrees_def demo_ledger_def fresh_ledger_def demo_disk_def demo_world_def)

lemma demo_entered:
  "entered (demo_ledger is n, demo_disk is ws (n # ns)) = (Inr (), (demo_ledger is n, demo_disk is ws ns))"
  by (cases "state_of demo_sha ''L'' is")
    (simp add: entered_def ledger_owner_def ledger_guard_def demo_ledger_def fresh_ledger_def demo_disk_def
      demo_world_def demo_identity)

lemma demo_append_cases:
  "ledger_append demo_sha demo_order (demo_ledger [] 150, demo_disk [] ws (150 # ns)) =
     (case append_persist (line_of demo_sha ''L'' (start_state demo_sha ''L'') demo_order) (stamp_of (demo_st 150))
             (demo_disk [] ws ns) of
        (Inl e, w) \<Rightarrow> append_fail e (demo_ledger [] 150, w)
      | (Inr info, w) \<Rightarrow> (Inr demo_receipt, ((demo_ledger [demo_order] 743)\<lparr>l_stamp := stamp_of info\<rparr>, w)))"
proof -
  let ?line = "line_of demo_sha ''L'' (start_state demo_sha ''L'') demo_order"
  have row: "row_of demo_sha ''L'' (start_state demo_sha ''L'') demo_order =
      ledger_record demo_sha ''L'' 1 (header_hash demo_sha ''L'') (intent_to_dict demo_order)"
    by (simp add: row_of_def start_state_def)
  have raw: "canonical (ledger_record demo_sha ''L'' 1 (header_hash demo_sha ''L'') (intent_to_dict demo_order)) @ NL = ?line"
    by (simp add: line_of_def row)
  have rc: "ledger_receipt (ledger_record demo_sha ''L'' 1 (header_hash demo_sha ''L'') (intent_to_dict demo_order)) =
      Inr demo_receipt"
    using ledger_receipt_row [of demo_sha "''L''" "start_state demo_sha ''L''" demo_order] demo_receipt_valid
    by (simp add: row demo_receipt_def)
  have big: "\<not> MAX_LINE_BYTES < length ?line" by (simp add: demo_texts MAX_LINE_BYTES_def)
  have l: "demo_ledger [] 150 = \<lparr>l_fd = True, l_dir_fd = True, l_pid = 7, l_poisoned = False, l_ledger_id = ''L'',
      l_records = [], l_by_id = [], l_tip = header_hash demo_sha ''L'', l_stamp = stamp_of (demo_st 150)\<rparr>"
    by (simp add: demo_ledger_def demo_state fresh_ledger_def demo_world_def)
  have l2: "demo_ledger [demo_order] 743 = \<lparr>l_fd = True, l_dir_fd = True, l_pid = 7, l_poisoned = False,
      l_ledger_id = ''L'', l_records = [(demo_receipt, canonical (intent_to_dict demo_order))], l_by_id = [(''i1'', 0)],
      l_tip = rc_record_hash demo_receipt, l_stamp = stamp_of (demo_st 743)\<rparr>"
    by (simp add: demo_ledger_def demo_state fresh_ledger_def demo_world_def)
  have iid: "oi_intent_id demo_order = ''i1''" by (simp add: demo_order_def)
  note e = demo_entered [of "[]" 150 ws ns, unfolded l]
  show ?thesis
    by (cases "append_persist ?line (stamp_of (demo_st 150)) (demo_disk [] ws ns)";
      cases "fst (append_persist ?line (stamp_of (demo_st 150)) (demo_disk [] ws ns))")
      (simp_all add: ledger_append_def e l l2 valid_payload demo_valid(1) append_record_def raw rc iid Let_def
        big [folded raw, unfolded length_append] cong: eval_cong)
qed

lemma demo_append:
  "ledger_append demo_sha demo_order (demo_ledger [] 150, demo_disk [] [Wrote 593] [150, 743]) =
     (Inr demo_receipt, (demo_ledger [demo_order] 743, (demo_disk [demo_order] [] [])\<lparr>w_syncs := [True]\<rparr>))"
proof -
  let ?line = "line_of demo_sha ''L'' (start_state demo_sha ''L'') demo_order"
  have w: "append_persist ?line (stamp_of (demo_st 150)) (demo_disk [] [Wrote 593] [743]) =
      (Inr (demo_st 743), (demo_disk [demo_order] [] [])\<lparr>w_syncs := [True]\<rparr>)"
    by (simp add: append_persist_def demo_write demo_texts demo_disk_def demo_world_def os_fsync_def pop_def Let_def
        demo_identity file_text_def line_of_nonempty) (simp add: demo_st_def demo_texts)
  have "(demo_ledger [demo_order] 743)\<lparr>l_stamp := stamp_of (demo_st 743)\<rparr> = demo_ledger [demo_order] 743"
    by (simp add: demo_ledger_def demo_state fresh_ledger_def)
  then show ?thesis by (simp add: demo_append_cases w)
qed

definition demo_checkpoint :: ledger_checkpoint where
  "demo_checkpoint = \<lparr>lc_ledger_id = ''L'', lc_sequence = 1, lc_record_hash = rc_record_hash demo_receipt\<rparr>"

lemma demo_checkpoint_valid: "ledger_checkpoint_post_init demo_checkpoint = Inr demo_checkpoint"
  unfolding demo_checkpoint_def demo_receipt_eq by code_simp

lemma demo_reopen:
  assumes "is \<in> {[], [demo_order]}" "cp = None \<or> (cp = Some demo_checkpoint \<and> is \<noteq> [])"
  shows "ledger_open_existing demo_sha ''L'' cp (demo_disk is [] [n, n, n, n]) =
     (Inr (demo_ledger is n), (demo_disk is [] [])\<lparr>w_syncs := [], w_opens := [], w_reads := []\<rparr>)"
proof -
  have r: "ledger_recover demo_sha ''L'' (file_text demo_sha ''L'' is) = Inr (state_of demo_sha ''L'' is)"
    using assms demo_recordable by (intro recover_exact) auto
  have c: "(case cp of None \<Rightarrow> Inr ()
       | Some c \<Rightarrow> check_checkpoint demo_sha ''L'' (fst (snd (state_of demo_sha ''L'' is))) c) = Inr ()"
    "\<not> (case cp of None \<Rightarrow> False | Some c \<Rightarrow> lc_ledger_id c \<noteq> ''L'')"
    using assms by (auto simp: demo_state check_checkpoint_def demo_checkpoint_def)
  show ?thesis
    by (simp add: ledger_open_existing_def ledger_open_def open_body_def demo_valid(3) demo_disk_def demo_world_def
        os_open_dir_def os_open_file_def os_read_def demo_identity os_fsync_def pop_def Let_def demo_ledger_def split_def
        fresh_ledger_def r c cong: eval_cong)
qed

lemma demo_checkpoint_of:
  "ledger_checkpoint_of (demo_ledger [demo_order] n, demo_disk [demo_order] ws (n # ns)) =
     (Inr demo_checkpoint, (demo_ledger [demo_order] n, demo_disk [demo_order] ws ns))"
proof -
  have "\<lparr>lc_ledger_id = l_ledger_id (demo_ledger [demo_order] n), lc_sequence = int (length (l_records (demo_ledger [demo_order] n))),
      lc_record_hash = l_tip (demo_ledger [demo_order] n)\<rparr> = demo_checkpoint"
    by (simp add: demo_ledger_def demo_state fresh_ledger_def demo_checkpoint_def)
  then show ?thesis by (simp add: ledger_checkpoint_of_def demo_entered demo_checkpoint_valid)
qed

lemma demo_get_intent:
  "ledger_get_intent ''i1'' (demo_ledger [demo_order] n, demo_disk [demo_order] ws (n # ns)) =
     (Inr (Some demo_order), (demo_ledger [demo_order] n, demo_disk [demo_order] ws ns))"
proof -
  have t: "ledger_text ''i1'' ''intent_id'' = Inr ''i1''" by code_simp
  obtain d where "loads (canonical (intent_to_dict demo_order)) = Some (JObj d)" "intent_from_dict d = Inr demo_order"
    using intent_text_roundtrip [OF demo_typed(2)] loads_canonical [OF wf_json_intent [OF demo_typed(2)]]
    by (cases "sort_json (intent_to_dict demo_order)") (auto simp: obj_fields_def intent_to_dict_def)
  then show ?thesis
    by (simp add: ledger_get_intent_def demo_entered t) (simp add: demo_ledger_def demo_state fresh_ledger_def)
qed

text \<open>An append whose second write fails after a hundred bytes.\<close>

lemma demo_torn_append:
  "\<exists>s. ledger_append demo_sha demo_order (demo_ledger [] 150, demo_disk [] [Wrote 100, WFail] [150]) =
     (Inl (LedgerUnavailableError ''append not acknowledged; preserve file, close, reopen, reconcile''), s) \<and>
     length (w_content (snd s)) = 250"
proof -
  let ?line = "line_of demo_sha ''L'' (start_state demo_sha ''L'') demo_order"
  have ne: "?line \<noteq> []" "drop 100 ?line \<noteq> []" using demo_texts(2) by (simp_all flip: length_greater_0_conv)
  have w: "append_persist ?line (stamp_of (demo_st 150)) (demo_disk [] [Wrote 100, WFail] []) =
      (Inl OSError, (demo_disk [] [] [])\<lparr>w_content := header_line demo_sha ''L'' @ take 100 ?line\<rparr>)"
    using ne by (simp add: append_persist_def write_all_step os_write_def pop_def Let_def demo_texts demo_disk_def
        demo_world_def file_text_def)
  show ?thesis by (simp add: demo_append_cases w append_fail_def poison_def demo_texts)
qed

end
