(* ===== verification/LedgerProps.thy ===== *)
theory LedgerProps
  imports LedgerDemo
begin

text \<open>
  The properties of the intent ledger, each with its witness on the run of \<open>LedgerDemo\<close>.
\<close>

section \<open>Creation, reopening, poisoning\<close>

lemma ledger_text_Inr: "ledger_text v n = Inr x \<longleftrightarrow> x = v \<and> v \<noteq> [] \<and> v = py_strip v"
  by (auto simp: ledger_text_def err_simps)

lemma create_ok:
  assumes "hex_digest sha" "ledger_create sha lid w0 = (Inr l, w)"
  shows "ledger_ok sha lid [] (l, w)"
proof -
  obtain st before where b: "open_body sha lid True None w0 = (Inr (st, before), w)" "l = fresh_ledger lid w0 st before"
      "length lid \<le> 256"
    using assms(2) by (auto simp: ledger_create_def ledger_open_def err_simps ledger_text_Inr split: sum.splits prod.splits)
  have "header_ok sha lid" using header_fits [OF assms(1) b(3)] .
  then show ?thesis using open_create [OF b(1)] b(2)
    by (simp add: ledger_ok_def recordable_list_def agrees_def fresh_ledger_def state_of_Nil start_state_def file_text_def)
qed

lemma open_existing_loads:
  assumes "ledger_open_existing sha lid cp w = (Inr l, w')"
  shows "\<exists>n. ledger_recover sha lid (w_content w) = Inr (n, l_records l, l_by_id l, l_tip l)"
    "w_content w' = w_content w" "w_durable w' = w_content w" "l_ledger_id l = lid" "live l"
    "cp = Some c \<Longrightarrow> check_checkpoint sha lid (l_records l) c = Inr () \<and> lc_ledger_id c = lid"
proof -
  obtain st before where b: "open_body sha lid False cp w = (Inr (st, before), w')" "l = fresh_ledger lid w st before"
      "cp = Some c \<Longrightarrow> lc_ledger_id c = lid"
    using assms by (auto simp: ledger_open_existing_def ledger_open_def err_simps ledger_text_Inr split: sum.splits prod.splits option.splits)
  note o = open_existing_body [OF b(1)]
  show "\<exists>n. ledger_recover sha lid (w_content w) = Inr (n, l_records l, l_by_id l, l_tip l)"
    "w_content w' = w_content w" "w_durable w' = w_content w" "l_ledger_id l = lid" "live l"
    "cp = Some c \<Longrightarrow> check_checkpoint sha lid (l_records l) c = Inr () \<and> lc_ledger_id c = lid"
    using o(1-3) o(4) [of c] b(2,3) by (cases st; simp add: fresh_ledger_def live_def)+
qed

lemma stopped_enters: "l_poisoned l \<Longrightarrow> \<exists>m. entered (l, w) = (Inl (LedgerUnavailableError m), (l, w))"
  by (cases "w_pid w = l_pid l") (simp_all add: entered_def ledger_owner_def ledger_guard_def)

lemma append_record_poisons:
  assumes "append_record sha i p (l, w) = (Inl e, (l', w'))"
  shows "l_poisoned l' \<or> w_content w' = w_content w"
proof -
  have "post (\<lambda>r s. isl r \<longrightarrow> l_poisoned (fst s) \<or> w_content (snd s) = w_content w) (append_record sha i p (l, w))"
    unfolding append_record_def Let_def
    by (intro post_failS post_checkS) (auto simp: post_def append_fail_def poison_def split: sum.split prod.split)
  from postD [OF this assms] show ?thesis by simp
qed

lemma append_changes_poison:
  assumes "ledger_append sha i (l, w) = (Inl e, (l', w'))" "w_content w' \<noteq> w_content w"
  shows "l_poisoned l'"
proof -
  obtain re s1 where e: "entered (l, w) = (re, s1)" by (cases "entered (l, w)")
  have c: "w_content (snd s1) = w_content w" using entered_effect(1) [OF e] by (simp add: same_file_def)
  note app = assms(1) [unfolded ledger_append_def e]
  obtain l1 w1 where s1: "s1 = (l1, w1)" by (cases s1)
  have "l_poisoned l' \<or> w_content w' = w_content (snd s1)"
    using app s1 append_record_poisons [of sha i _ l1 w1 e l' w']
    by (auto simp: err_simps Let_def split_def split: option.splits)
  then show ?thesis using assms(2) c by simp
qed

lemma append_needs_live:
  assumes "ledger_append sha i (l, w) = (Inr r, s')"
  shows "live l"
proof -
  obtain s1 where "entered (l, w) = (Inr (), s1)" using assms by (auto simp: ledger_append_def err_simps)
  then show ?thesis using entered_effect(2) by fastforce
qed

section \<open>What the tip of the hash chain determines\<close>

text \<open>The byte strings the ledger of \<open>is\<close> hashes: its header and one record payload per intent.\<close>

definition record_text :: "hasher \<Rightarrow> string \<Rightarrow> recovery \<Rightarrow> order_intent \<Rightarrow> string" where
  "record_text sha lid = (\<lambda>(n, recs, ids, tip) i. LEDGER_HASH_DOMAIN @ ''record'' @ NL @
     canonical (JObj (record_payload sha lid (int (length recs) + 1) tip (intent_to_dict i))))"

definition header_text :: "string \<Rightarrow> string" where
  "header_text lid = LEDGER_HASH_DOMAIN @ ''header'' @ NL @ canonical (JObj (header_payload lid))"

fun texts_from :: "hasher \<Rightarrow> string \<Rightarrow> recovery \<Rightarrow> order_intent list \<Rightarrow> string list" where
  "texts_from sha lid st [] = []"
| "texts_from sha lid st (i # is) = record_text sha lid st i # texts_from sha lid (add_entry sha lid st i) is"

definition hashed_texts :: "hasher \<Rightarrow> string \<Rightarrow> order_intent list \<Rightarrow> string list" where
  "hashed_texts sha lid is = header_text lid # texts_from sha lid (start_state sha lid) is"

lemma texts_from_append:
  "texts_from sha lid st (xs @ ys) = texts_from sha lid st xs @ texts_from sha lid (run_intents sha lid st xs) ys"
  by (induction xs arbitrary: st) auto

lemma hashed_texts_snoc:
  "hashed_texts sha lid (is @ [i]) = hashed_texts sha lid is @ [record_text sha lid (state_of sha lid is) i]"
  by (simp add: hashed_texts_def texts_from_append state_of_def)

definition tip_of :: "hasher \<Rightarrow> string \<Rightarrow> order_intent list \<Rightarrow> string" where
  "tip_of sha lid is = snd (snd (snd (state_of sha lid is)))"

lemma tip_of_Nil: "tip_of sha lid [] = sha (header_text lid)"
  by (simp add: tip_of_def state_of_Nil start_state_def header_hash_def ledger_digest_def header_text_def)

lemma tip_of_snoc: "tip_of sha lid (is @ [i]) = sha (record_text sha lid (state_of sha lid is) i)"
  by (cases "state_of sha lid is")
    (simp add: tip_of_def state_of_snoc add_entry_def receipt_of_def record_hash_def ledger_digest_def record_text_def)

lemma text_kinds: "header_text lid \<noteq> record_text sha lid' st i"
  by (cases st) (simp add: header_text_def record_text_def)

lemma record_text_inj:
  assumes "record_text sha lid (n, recs, ids, tip) i = record_text sha lid (n', recs', ids', tip') j"
    and "wf_intent i" "wf_intent j"
  shows "i = j \<and> tip = tip'"
proof -
  let ?p = "\<lambda>r t k. record_payload sha lid (int (length r) + 1) t (intent_to_dict k)"
  have eq: "canonical (JObj (?p recs tip i)) = canonical (JObj (?p recs' tip' j))"
    using assms(1) by (simp add: record_text_def)
  have wf: "wf_json (JObj (?p r t k))" if "wf_intent k" for r t k
    using wf_json_intent [OF that] by (simp add: record_payload_def)
  have s: "sort_json (JObj (?p recs tip i)) = sort_json (JObj (?p recs' tip' j))"
    by (rule canonical_inj [OF wf wf eq]) (rule assms)+
  have m: "map_option sort_json (map_of (?p recs tip i) k) = map_option sort_json (map_of (?p recs' tip' j) k)" for k
    by (rule sort_json_map_of [OF _ _ s]) (simp_all add: record_payload_def)
  have "tip = tip'" using m [of "''previous_hash''"] by (simp add: record_payload_def)
  moreover have "sort_json (intent_to_dict i) = sort_json (intent_to_dict j)"
    using m [of "''intent''"] by (simp add: record_payload_def)
  then have "canonical (intent_to_dict i) = canonical (intent_to_dict j)" by (simp add: canonical_def)
  ultimately show ?thesis using canonical_intent_inj assms by blast
qed

lemma nth_tip:
  assumes "recordable_list sha lid js" "n \<le> length js"
  shows "tip_of sha lid (take n js) = (if n = 0 then header_hash sha lid
    else rc_record_hash (fst (fst (snd (state_of sha lid js)) ! (n - 1))))"
proof -
  have r: "recordable_list sha lid (take n js)"
    using assms(1) recordable_all_append [of sha lid _ "take n js" "drop n js"] by (simp add: recordable_list_def)
  obtain q recs ids tip where st: "state_of sha lid (take n js) = (q, recs, ids, tip)"
    by (cases "state_of sha lid (take n js)") auto
  note sh = state_of_shape [OF r st]
  have "prefix recs (fst (snd (state_of sha lid js)))"
    using state_of_grows [of sha lid "start_state sha lid" "take n js" "drop n js"] st by (simp add: state_of_def)
  then have "n \<noteq> 0 \<Longrightarrow> last recs = fst (snd (state_of sha lid js)) ! (n - 1)"
    using sh assms(2) by (auto simp: prefix_def nth_append last_conv_nth)
  then show ?thesis using sh st assms(2) by (auto simp: tip_of_def)
qed

lemma header_hashed: "header_text lid \<in> set (hashed_texts sha lid is)"
  by (simp add: hashed_texts_def)

lemma tip_determines_history:
  assumes "recordable_list sha lid is" "recordable_list sha lid js" "tip_of sha lid is = tip_of sha lid js"
    and "inj_on sha (set (hashed_texts sha lid is @ hashed_texts sha lid js))"
  shows "is = js"
  using assms
proof (induction "is" arbitrary: js rule: rev_induct)
  case Nil
  show ?case
  proof (cases js rule: rev_cases)
    case (snoc ks k)
    have "header_text lid = record_text sha lid (state_of sha lid ks) k"
      by (rule inj_onD [OF Nil.prems(4)]) (use snoc Nil.prems(3) in \<open>simp_all add: tip_of_Nil tip_of_snoc hashed_texts_snoc header_hashed\<close>)
    then show ?thesis using text_kinds by blast
  qed simp
next
  case (snoc i "is")
  show ?case
  proof (cases js rule: rev_cases)
    case Nil
    have "header_text lid = record_text sha lid (state_of sha lid is) i"
      by (rule inj_onD [OF snoc.prems(4)]) (use Nil snoc.prems(3) in \<open>simp_all add: tip_of_Nil tip_of_snoc hashed_texts_snoc header_hashed\<close>)
    then show ?thesis using text_kinds by blast
  next
    case js: (snoc ks k)
    have eq: "record_text sha lid (state_of sha lid is) i = record_text sha lid (state_of sha lid ks) k"
      by (rule inj_onD [OF snoc.prems(4)]) (use js snoc.prems(3) in \<open>simp_all add: tip_of_snoc hashed_texts_snoc\<close>)
    have w: "wf_intent i" "wf_intent k"
      using snoc.prems(1,2) js by (auto simp: recordable_list_snoc recordable_def)
    obtain n recs ids where 1: "state_of sha lid is = (n, recs, ids, tip_of sha lid is)"
      unfolding tip_of_def by (metis prod.collapse)
    obtain n' recs' ids' where 2: "state_of sha lid ks = (n', recs', ids', tip_of sha lid ks)"
      unfolding tip_of_def by (metis prod.collapse)
    have ik: "i = k \<and> tip_of sha lid is = tip_of sha lid ks"
      by (rule record_text_inj [OF eq [unfolded 1 2] w])
    have "inj_on sha (set (hashed_texts sha lid is @ hashed_texts sha lid ks))"
      using snoc.prems(4) js by (elim inj_on_subset) (auto simp: hashed_texts_snoc)
    then show ?thesis using ik snoc.IH [of ks] snoc.prems(1,2) js by (auto simp: recordable_list_snoc)
  qed
qed

section \<open>Properties\<close>

text \<open>C1. No acknowledged intent is lost: after a ledger is created and any sequence of appends ran
  against any operating-system answers, some of which raised, a process that later opens any file
  that still starts with the bytes made durable finds every receipt an append ever returned.\<close>
theorem acknowledged_intents_survive:
  assumes "hex_digest sha" "ledger_create sha lid w0 = (Inr l, w)" "list_all floats_typed xs"
    and "run_calls (ledger_append sha) xs (l, w) = (rs, (l1, w1))" "Inr r \<in> set rs"
    and "prefix (w_durable w1) (w_content w2)" "ledger_open_existing sha lid cp w2 = (Inr l2, w3)"
  shows "r \<in> fst ` set (l_records l2)"
proof -
  have "handle_ok sha lid (l, w)" using create_ok [OF assms(1,2)] by (auto simp: handle_ok_def)
  moreover have "reload_receipts sha lid (w_content w2) = Inr (map fst (l_records l2))"
    using open_existing_loads(1) [OF assms(7)] by (auto simp: reload_receipts_def)
  ultimately show ?thesis
    using led.acknowledged_survives [OF _ assms(3,4,5), of lid "w_content w2"] assms(6) by auto
qed

theorem acknowledged_intents_survive_witness:
  "demo_receipt \<in> fst ` set (l_records (demo_ledger [demo_order] 743))"
proof -
  have r: "Inr demo_receipt \<in> set [Inr demo_receipt]"
    "run_calls (ledger_append demo_sha) [demo_order] (demo_ledger [] 150, demo_disk [] [Wrote 593] [150, 743]) =
      ([Inr demo_receipt], (demo_ledger [demo_order] 743, (demo_disk [demo_order] [] [])\<lparr>w_syncs := [True]\<rparr>))"
    "prefix (w_durable ((demo_disk [demo_order] [] [])\<lparr>w_syncs := [True]\<rparr>))
      (w_content (demo_disk [demo_order] [] [743, 743, 743, 743]))"
    by (simp_all add: demo_append) (simp add: demo_disk_def demo_world_def)
  show ?thesis
    by (rule acknowledged_intents_survive [OF demo_sha_hex demo_create _ r(2,1,3) demo_reopen [where cp = None]])
      (simp_all add: demo_typed(1))
qed

text \<open>C3. A receipt means durable: when \<open>append\<close> returns, the handle's intents are the old ones, or the
  old ones and the new intent, the intent is the one the receipt numbers, and the durable bytes of
  the file are exactly the lines of those intents.\<close>
theorem append_acknowledges_durable:
  assumes "ledger_ok sha lid is (l, w)" "floats_typed i" "ledger_append sha i (l, w) = (Inr r, (l', w'))"
  shows "\<exists>js k. (js = is \<or> js = is @ [i]) \<and> ledger_ok sha lid js (l', w') \<and> k < length js \<and> js ! k = i \<and>
    r = fst (l_records l' ! k) \<and> rc_sequence r = int k + 1 \<and> rc_intent_id r = oi_intent_id i \<and>
    w_durable w' = file_text sha lid js"
proof -
  note c = append_cases [OF assms(1,2,3)]
  have "agrees sha lid is l" "recordable_list sha lid is" using assms(1) by (auto simp: ledger_ok_def)
  note sh = agrees_shape [OF this(2,1)]
  from c consider (old) k where "r = fst (l_records l ! k)" "k < length is" "is ! k = i"
      "ledger_ok sha lid is (l', w')" "l' = l" "live l" "same_file w w'"
    | (new) "r = receipt_of sha lid (state_of sha lid is) i" "ledger_ok sha lid (is @ [i]) (l', w')"
      "l_records l' = l_records l @ [(r, canonical (intent_to_dict i))]" "live l'"
    using assms(3) by (cases "live l") (auto dest: append_needs_live)
  then show ?thesis
  proof cases
    case old
    then have "w_durable w' = file_text sha lid is" by (simp add: ledger_ok_def)
    then show ?thesis using old sh(2) [OF old(2)] by (intro exI [of _ "is"] exI [of _ k]) auto
  next
    case new
    have "l_records l = fst (snd (state_of sha lid is))" "length (l_records l) = length is"
      using \<open>agrees sha lid is l\<close> sh(1) by (auto simp: agrees_def dest: arg_cong [where f = "\<lambda>x. fst (snd x)"])
    then have "rc_sequence r = int (length is) + 1" "rc_intent_id r = oi_intent_id i"
      using new(1) by (cases "state_of sha lid is"; simp add: receipt_of_def)+
    moreover have "w_durable w' = file_text sha lid (is @ [i])" using new by (simp add: ledger_ok_def)
    ultimately show ?thesis
      using new(2,3) sh(1) by (intro exI [of _ "is @ [i]"] exI [of _ "length is"]) (auto simp: nth_append)
  qed
qed

theorem append_acknowledges_durable_witness:
  "rc_sequence demo_receipt = 1 \<and> w_durable (demo_disk [demo_order] [] []) = file_text demo_sha ''L'' [demo_order]"
proof -
  have ok: "ledger_ok demo_sha ''L'' [] (demo_ledger [] 150, demo_disk [] [Wrote 593] [150, 743])"
    by (simp add: demo_disk_ok)
  show ?thesis using append_acknowledges_durable [OF ok demo_typed(1) demo_append]
    by (auto simp: demo_disk_def demo_world_def)
qed

text \<open>Appending is idempotent and an intent id is bound once: when an intent with the same id is
  already recorded, \<open>append\<close> on a usable handle returns that intent's receipt if the intents are
  equal and raises \<open>IntentConflictError\<close> otherwise; it writes nothing and keeps the handle as it is.\<close>
theorem append_is_idempotent:
  assumes "ledger_ok sha lid is s" "floats_typed i" "valid_intent i" "entered s = (Inr (), s1)"
    and "k < length is" "oi_intent_id (is ! k) = oi_intent_id i"
  shows "ledger_append sha i s =
      (if is ! k = i then Inr (fst (l_records (fst s) ! k)) else Inl IntentConflictError, s1) \<and>
    fst s1 = fst s \<and> same_file (snd s) (snd s1)"
proof -
  note e = entered_effect(1,2) [OF assms(4)]
  have a: "agrees sha lid is (fst s)" "recordable_list sha lid is" using assms(1) by (auto simp: ledger_ok_def)
  note sh = agrees_shape [OF a(2,1)]
  have ix: "map_of (l_by_id (fst s1)) (oi_intent_id i) = Some k" using sh(3) assms(5,6) e(2) by auto
  have "canonical (intent_to_dict i) = canonical (intent_to_dict (is ! k)) \<longleftrightarrow> is ! k = i"
    using canonical_intent_inj [of i "is ! k"] sh(4) [OF nth_mem [OF assms(5)]] assms(2,3)
    by (auto simp: wf_intent_def floats_typed_def)
  then have "snd (l_records (fst s) ! k) = canonical (intent_to_dict i) \<longleftrightarrow> is ! k = i"
    using sh(2) [OF assms(5)] by auto
  then show ?thesis using e assms(4) ix valid_payload [OF assms(3)]
    by (auto simp: ledger_append_def split_def failS_def)
qed

text \<open>A failed append stops the handle: when \<open>append\<close> raises after any byte reached the file, every
  later call of \<open>append\<close>, \<open>receipts\<close>, \<open>get_intent\<close> and \<open>checkpoint\<close> raises
  \<open>LedgerUnavailableError\<close> and touches neither the handle nor the file.\<close>
theorem failed_append_stops_the_ledger:
  assumes "ledger_append sha i (l, w) = (Inl e, s')" "w_content (snd s') \<noteq> w_content w"
  shows "\<exists>m. ledger_append sha j s' = (Inl (LedgerUnavailableError m), s') \<and>
    ledger_receipts s' = (Inl (LedgerUnavailableError m), s') \<and>
    ledger_get_intent x s' = (Inl (LedgerUnavailableError m), s') \<and>
    ledger_checkpoint_of s' = (Inl (LedgerUnavailableError m), s')"
proof -
  have "l_poisoned (fst s')" using append_changes_poison [of sha i l w e "fst s'" "snd s'"] assms by simp
  then obtain m where "entered s' = (Inl (LedgerUnavailableError m), s')"
    using stopped_enters [of "fst s'" "snd s'"] by auto
  then show ?thesis
    by (simp add: ledger_append_def ledger_receipts_def ledger_get_intent_def ledger_checkpoint_of_def)
qed




text \<open>Opening an existing ledger never writes: whatever the operating system answers and whether it
  succeeds or raises, the file's bytes are those it had, and the only change to what survives a crash
  is that the bytes already in the file become durable.\<close>
theorem open_existing_never_writes:
  "w_content (snd (ledger_open_existing sha lid cp w)) = w_content w \<and>
   (w_durable (snd (ledger_open_existing sha lid cp w)) = w_durable w \<or>
    w_durable (snd (ledger_open_existing sha lid cp w)) = w_content w)"
proof -
  have b: "not_written w (snd (open_body sha x False cp w))" for x by (rule open_existing_body_keeps)
  have c: "not_written w (snd (case open_body sha x False cp w of
        (Inl e, w') \<Rightarrow> (Inl e, snd (os_close (snd (os_close w'))))
      | (Inr (st, before), w') \<Rightarrow> (Inr (fresh_ledger x w st before), w')))" for x
    using b [of x] by (auto simp: not_written_close split: sum.splits prod.splits)
  have "not_written w (snd (ledger_open_existing sha lid cp w))"
    unfolding ledger_open_existing_def ledger_open_def by (intro not_written_failS not_written_checkS c not_written_refl)
  then show ?thesis by (simp add: not_written_def)
qed

text \<open>\<open>get_intent\<close> returns what was appended: on a ledger of the intents \<open>is\<close> a call that does not
  raise yields the intent of that id, field for field, or \<open>None\<close> when no such intent is recorded, and
  changes neither the handle nor the file.\<close>
theorem get_intent_finds_recorded:
  assumes "ledger_ok sha lid is s" "ledger_get_intent x s = (Inr y, s')"
  shows "y = find (\<lambda>i. oi_intent_id i = x) is \<and> fst s' = fst s \<and> same_file (snd s) (snd s')"
proof -
  obtain s1 where e: "entered s = (Inr (), s1)" using assms(2) by (auto simp: ledger_get_intent_def err_simps)
  note eff = entered_effect(1,2) [OF e]
  have a: "agrees sha lid is (fst s)" "recordable_list sha lid is" using assms(1) by (auto simp: ledger_ok_def)
  note sh = agrees_shape [OF a(2,1)]
  have g: "ledger_text x ''intent_id'' = Inr x" using assms(2) e by (auto simp: ledger_get_intent_def err_simps ledger_text_Inr)
  show ?thesis
  proof (cases "map_of (l_by_id (fst s)) x")
    case None
    then have "\<forall>k < length is. oi_intent_id (is ! k) \<noteq> x" using sh(3) by (metis option.distinct(1))
    then have "find (\<lambda>i. oi_intent_id i = x) is = None" by (auto simp: find_None_iff in_set_conv_nth)
    then show ?thesis using None assms(2) e eff g by (simp add: ledger_get_intent_def)
  next
    case (Some k)
    then have k: "k < length is" "oi_intent_id (is ! k) = x" using sh(3) by auto
    have uniq: "oi_intent_id (is ! m) \<noteq> x" if "m < k" for m
      using sh(3) [of x m] Some that k(1) by auto
    then have "find (\<lambda>i. oi_intent_id i = x) is = Some (is ! k)"
      using k by (auto simp: find_Some_iff intro!: exI [of _ k])
    moreover obtain j where "loads (canonical (intent_to_dict (is ! k))) = Some j" "intent_from_dict (obj_fields j) = Inr (is ! k)"
      using intent_text_roundtrip [OF sh(4) [OF nth_mem [OF k(1)]]] by blast
    moreover have "snd (l_records (fst s) ! k) = canonical (intent_to_dict (is ! k))" using sh(2) [OF k(1)] by simp
    ultimately show ?thesis using Some assms(2) e eff g
      by (cases j) (auto simp: ledger_get_intent_def err_simps obj_fields_def)
  qed
qed

text \<open>The checkpoint an open handle gives out.\<close>

lemma checkpoint_facts:
  assumes "ledger_ok sha lid is s" "ledger_checkpoint_of s = (Inr c, s')"
  shows "lc_ledger_id c = lid" "lc_sequence c = int (length is)" "lc_record_hash c = tip_of sha lid is" "recordable_list sha lid is"
proof -
  have a: "agrees sha lid is (fst s)" "recordable_list sha lid is" using assms(1) by (auto simp: ledger_ok_def)
  obtain s1 where e: "entered s = (Inr (), s1)" using assms(2) by (auto simp: ledger_checkpoint_of_def err_simps)
  have "c = \<lparr>lc_ledger_id = l_ledger_id (fst s), lc_sequence = int (length (l_records (fst s))), lc_record_hash = l_tip (fst s)\<rparr>"
    using assms(2) e entered_effect(2) [OF e] by (auto simp: ledger_checkpoint_of_def ledger_checkpoint_post_init_def err_simps)
  moreover have "tip_of sha lid is = l_tip (fst s)" "l_ledger_id (fst s) = lid"
    using a(1) by (simp_all add: agrees_def tip_of_def flip: a(1) [unfolded agrees_def, THEN conjunct2])
  ultimately show "lc_ledger_id c = lid" "lc_sequence c = int (length is)" "lc_record_hash c = tip_of sha lid is" "recordable_list sha lid is"
    using agrees_shape(1) [OF a(2,1)] a(2) by simp_all
qed

text \<open>A trusted checkpoint detects a rewritten or shortened history: when a checkpoint taken from a
  ledger of the intents \<open>is\<close> is given to \<open>open_existing\<close> and it accepts a file of the intents
  \<open>js\<close>, then \<open>js\<close> begins with \<open>is\<close>, provided the hash function does not collide on the header and
  record payloads of the two chains.\<close>
theorem checkpoint_detects_rewrite:
  assumes "ledger_ok sha lid is s" "ledger_checkpoint_of s = (Inr c, s')"
    and "recordable_list sha lid js" "w_content w = file_text sha lid js"
    and "ledger_open_existing sha lid (Some c) w = (Inr l, w')"
    and "inj_on sha (set (hashed_texts sha lid is @ hashed_texts sha lid js))"
  shows "prefix is js"
proof -
  note c = checkpoint_facts(2,3) [OF assms(1,2)] and a2 = checkpoint_facts(4) [OF assms(1,2)]
  let ?n = "length is"
  have k: "check_checkpoint sha lid (l_records l) c = Inr ()" using open_existing_loads(6) [OF assms(5)] by simp
  have recs: "l_records l = fst (snd (state_of sha lid js))"
    using open_existing_loads(1) [OF assms(5)] recover_exact [OF assms(3)] assms(4) by auto
  have len: "length (l_records l) = length js" using recs state_of_shape(1) [OF assms(3)] by (metis prod.collapse)
  have le: "?n \<le> length js" using k c(1) len by (auto simp: check_checkpoint_def err_simps)
  have split: "recordable_list sha lid (take ?n js)" 
    using assms(3) recordable_all_append [of sha lid _ "take ?n js" "drop ?n js"] by (simp add: recordable_list_def)
  have index: "nat (int ?n - 1) = ?n - Suc 0" by simp
  have "tip_of sha lid (take ?n js) = lc_record_hash c"
    using k c(1) le nth_tip [OF assms(3) le] index
    by (auto simp: check_checkpoint_def err_simps recs split: if_splits)
  moreover have "inj_on sha (set (hashed_texts sha lid is @ hashed_texts sha lid (take ?n js)))"
    using assms(6) texts_from_append [of sha lid _ "take ?n js" "drop ?n js"]
    by (elim inj_on_subset) (auto simp: hashed_texts_def)
  ultimately have "is = take ?n js" using tip_determines_history [OF a2 split] c(2) by simp
  then show ?thesis by (metis take_is_prefix)
qed

end
