(* ===== verification/Lots.thy ===== *)
theory Lots
  imports PyFloat
begin

text \<open>
  Quantities on a dyadic grid: multiples of \<open>2^-20\<close> (coarser than the tolerance \<open>1e-12\<close>) up to
  \<open>2^32\<close>.  On them the binary64 operations of the simulators are exact and the tolerance only decides
  whether a quantity is zero, so what they compute can be compared with an exact specification.
\<close>

definition lots :: "nat \<Rightarrow> pyfloat" where
  "lots n = Fin (of_nat n / 2 ^ 20)"

definition max_lots :: nat where
  "max_lots = 2 ^ 52"

named_theorems lots_simps \<open>exact arithmetic on the grid\<close>

lemma rnd_lots: "\<bar>n\<bar> \<le> 2 ^ 53 \<Longrightarrow> b64 (of_int n / 2 ^ 20) = Fin (of_int n / 2 ^ 20)"
proof -
  assume n: "\<bar>n\<bar> \<le> 2 ^ 53"
  have r: "rnd (of_int n / 2 ^ 20) = of_int n / 2 ^ 20"
    using rnd_repr [OF n, of "-20"] by (simp add: power_int_minus field_simps)
  have "\<bar>of_int n :: rat\<bar> \<le> 2 ^ 53"
    using n by (metis of_int_abs of_int_le_iff of_int_numeral of_int_power)
  then have "\<bar>of_int n / (2::rat) ^ 20\<bar> < float_limit" by (simp add: abs_divide field_simps float_limit_def)
  then show ?thesis by (simp only: b64_eq r if_True)
qed

lemma lots_b64: "n \<le> max_lots \<Longrightarrow> b64 (of_nat n / 2 ^ 20) = lots n"
  using rnd_lots [of "int n"] by (simp add: max_lots_def lots_def)

lemma lots_wf [simp]: "n \<le> max_lots \<Longrightarrow> wf_float (lots n)"
  using lots_b64 [of n] wf_b64 by metis

lemma lots_finite [simp]: "isfinite (lots n)"
  by (simp add: lots_def)

lemma lots_0 [simp, lots_simps]: "lots 0 = Fin 0"
  by (simp add: lots_def)

lemma lots_inj [simp, lots_simps]: "lots m = lots n \<longleftrightarrow> m = n"
  by (simp add: lots_def)

lemma lots_eq_0 [simp, lots_simps]: "lots n = Fin 0 \<longleftrightarrow> n = 0" "Fin 0 = lots n \<longleftrightarrow> n = 0"
  by (auto simp: lots_def)

lemma flt_lots [lots_simps]: "flt (lots m) (lots n) \<longleftrightarrow> m < n"
  by (simp add: lots_def divide_strict_right_mono)

lemma fle_lots [lots_simps]: "fle (lots m) (lots n) \<longleftrightarrow> m \<le> n"
  by (simp add: lots_def divide_le_cancel)

lemma flt_0_lots [lots_simps]: "flt (Fin 0) (lots n) \<longleftrightarrow> 0 < n" "\<not> flt (lots n) (Fin 0)" "fle (Fin 0) (lots n)"
    "fle (lots n) (Fin 0) \<longleftrightarrow> n = 0"
  by (auto simp: lots_def field_simps)

lemma fadd_lots [lots_simps]: "m + n \<le> max_lots \<Longrightarrow> fadd (lots m) (lots n) = lots (m + n)"
  using lots_b64 [of "m + n"] by (simp add: lots_def add_divide_distrib)

lemma fsub_lots [lots_simps]: "n \<le> m \<Longrightarrow> m \<le> max_lots \<Longrightarrow> fsub (lots m) (lots n) = lots (m - n)"
  using lots_b64 [of "m - n"] by (simp add: lots_def diff_divide_distrib of_nat_diff)

lemma fabs_fsub_lots [lots_simps]:
  assumes "m \<le> max_lots" "n \<le> max_lots"
  shows "fabs (fsub (lots m) (lots n)) = lots (if m \<le> n then n - m else m - n)"
proof (cases "m \<le> n")
  case True
  have "b64 (of_nat m / 2 ^ 20 - of_nat n / 2 ^ 20) = Fin (- (of_nat (n - m) / 2 ^ 20))"
    using rnd_lots [of "int m - int n"] assms True by (simp add: max_lots_def of_nat_diff diff_divide_distrib)
  then show ?thesis using True by (simp add: lots_def)
next
  case False
  then show ?thesis using assms by (simp add: fsub_lots) (simp add: lots_def)
qed

lemma py_min_lots [lots_simps]: "py_min (lots m) (lots n) = lots (min m n)"
  by (simp add: py_min_def flt_lots min_def)

lemma py_max_lots [lots_simps]: "py_max (Fin 0) (lots n) = lots n"
  by (auto simp: py_max_def flt_0_lots)

lemma fabs_lots [lots_simps]: "fabs (lots n) = lots n"
  by (simp add: lots_def)

lemma lots_EPS [lots_simps]: "fle (lots n) EPS \<longleftrightarrow> n = 0" "flt EPS (lots n) \<longleftrightarrow> 0 < n"
proof -
  have "0 < n \<Longrightarrow> (1::rat) / 2 ^ 20 \<le> of_nat n / 2 ^ 20" by (simp add: field_simps)
  then show "fle (lots n) EPS \<longleftrightarrow> n = 0" "flt EPS (lots n) \<longleftrightarrow> 0 < n"
    by (cases "n = 0"; fastforce simp: lots_def EPS_eq)+
qed

text \<open>Adding the tolerance to a quantity does not take it past the next one.\<close>

lemma lots_add_EPS [lots_simps]:
  assumes "m \<le> max_lots" "n \<le> max_lots"
  shows "flt (fadd (lots m) EPS) (lots n) \<longleftrightarrow> m < n"
proof (cases "m < n")
  case False
  then show ?thesis using add_EPS_ge [of "of_nat n / 2 ^ 20" "of_nat m / 2 ^ 20"] lots_wf [OF assms(2)]
    by (simp add: lots_def divide_right_mono)
next
  case True
  define h where "h = (of_int (2 * int m + 1) :: rat) / 2 ^ 21"
  have "\<bar>2 * int m + 1\<bar> \<le> 2 ^ 53" using assms(2) True by (simp add: max_lots_def)
  from rnd_repr [OF this, of "-21"] have h: "rnd h = h" by (simp add: h_def power_int_minus field_simps)
  have "of_nat m / 2 ^ 20 + 4951760157141521 / 4951760157141521099596496896 \<le> h"
    by (simp add: h_def field_simps)
  then have "rnd (of_nat m / 2 ^ 20 + 4951760157141521 / 4951760157141521099596496896) \<le> h"
    using h by (rule b64.le_fix)
  moreover have "h < of_nat n / 2 ^ 20" using True by (simp add: h_def field_simps)
  ultimately have "rnd (of_nat m / 2 ^ 20 + 4951760157141521 / 4951760157141521099596496896) < of_nat n / 2 ^ 20" by linarith
  moreover have "0 \<le> rnd (of_nat m / 2 ^ 20 + 4951760157141521 / (4951760157141521099596496896 :: rat))"
    by (rule b64.nonneg) simp
  moreover have "(of_nat n :: rat) / 2 ^ 20 < float_limit"
    using lots_wf [OF assms(2)] by (simp add: lots_def)
  ultimately show ?thesis using True by (simp add: lots_def EPS_eq b64_eq)
qed

end
