(* ===== verification/FifoQueue.thy ===== *)
theory FifoQueue
  imports Contracts Lots
begin

text \<open>
  \<open>src/std0_quant/execution/queue_model.py\<close>: the conservative price-time-priority queue of one resting
  order.  A method returns its result or exception with the queue it leaves; the constructor and the
  methods normalise within the tolerance as the code does.
\<close>

record queue_fill =
  qf_traded_qty :: pyfloat
  qf_queue_consumed_qty :: pyfloat
  qf_own_fill_qty :: pyfloat
  qf_queue_ahead_after :: pyfloat
  qf_remaining_qty_after :: pyfloat

record fifo =
  q_order_qty :: pyfloat
  q_queue_ahead_qty :: pyfloat
  q_filled_qty :: pyfloat

definition q_nonnegative :: "pyfloat \<Rightarrow> string \<Rightarrow> bool \<Rightarrow> pyfloat res" where
  "q_nonnegative value name strictly_positive =
     raise_if (\<not> isfinite value) (ValueError (name @ '' must be finite'')) (
     if strictly_positive then raise_if (fle value (Fin 0)) (ValueError (name @ '' must be > 0'')) (Inr value)
     else raise_if (flt value (Fin 0)) (ValueError (name @ '' must be >= 0'')) (Inr value))"

definition q_normalize :: "fifo \<Rightarrow> fifo" where
  "q_normalize q =
     (let q1 = (if fle (fabs (q_queue_ahead_qty q)) EPS then q\<lparr>q_queue_ahead_qty := Fin 0\<rparr> else q) in
      if fle (fabs (fsub (q_filled_qty q1) (q_order_qty q1))) EPS
      then q1\<lparr>q_filled_qty := q_order_qty q1\<rparr> else q1)"

definition fifo_post_init :: "fifo \<Rightarrow> fifo res" where
  "fifo_post_init q =
     bindE (q_nonnegative (q_order_qty q) ''order_qty'' True) (\<lambda>oq.
     bindE (q_nonnegative (q_queue_ahead_qty q) ''queue_ahead_qty'' False) (\<lambda>ahead.
     bindE (q_nonnegative (q_filled_qty q) ''filled_qty'' False) (\<lambda>fq.
     raise_if (flt (fadd oq EPS) fq) (ValueError ''filled_qty cannot exceed order_qty'') (
     Inr (q_normalize \<lparr>q_order_qty = oq, q_queue_ahead_qty = ahead, q_filled_qty = fq\<rparr>)))))"

definition q_remaining_qty :: "fifo \<Rightarrow> pyfloat" where
  "q_remaining_qty q = py_max (Fin 0) (fsub (q_order_qty q) (q_filled_qty q))"

definition q_is_filled :: "fifo \<Rightarrow> bool" where
  "q_is_filled q \<longleftrightarrow> fle (q_remaining_qty q) EPS"

definition on_confirmed_trade :: "pyfloat \<Rightarrow> fifo \<Rightarrow> queue_fill res \<times> fifo" where
  "on_confirmed_trade traded_qty q =
     checkS (q_nonnegative traded_qty ''traded_qty'' False) q (\<lambda>traded.
     let before_queue = q_queue_ahead_qty q;
         queue_consumed = py_min before_queue traded;
         q1 = q\<lparr>q_queue_ahead_qty := fsub before_queue queue_consumed\<rparr>;
         residual_trade = fsub traded queue_consumed;
         own_fill = py_min (q_remaining_qty q1) residual_trade;
         q2 = q_normalize (q1\<lparr>q_filled_qty := fadd (q_filled_qty q1) own_fill\<rparr>)
     in (Inr \<lparr>qf_traded_qty = traded, qf_queue_consumed_qty = queue_consumed, qf_own_fill_qty = own_fill,
              qf_queue_ahead_after = q_queue_ahead_qty q2, qf_remaining_qty_after = q_remaining_qty q2\<rparr>, q2))"

definition on_same_price_add :: "pyfloat \<Rightarrow> fifo \<Rightarrow> unit res \<times> fifo" where
  "on_same_price_add added_qty q = checkS (q_nonnegative added_qty ''added_qty'' False) q (\<lambda>_. (Inr (), q))"

definition on_unexplained_size_decrease :: "pyfloat \<Rightarrow> fifo \<Rightarrow> unit res \<times> fifo" where
  "on_unexplained_size_decrease decreased_qty q =
     checkS (q_nonnegative decreased_qty ''decreased_qty'' False) q (\<lambda>_. (Inr (), q))"

definition reset_priority :: "pyfloat \<Rightarrow> fifo \<Rightarrow> unit res \<times> fifo" where
  "reset_priority displayed q =
     failS (q_is_filled q) (ValueError ''cannot reset priority of a fully filled order'') q (
     checkS (q_nonnegative displayed ''displayed_qty_at_new_arrival'' False) q (\<lambda>d.
     (Inr (), q_normalize (q\<lparr>q_queue_ahead_qty := d\<rparr>))))"

section \<open>Calls and the invariant\<close>

datatype fifo_op = ConfirmedTrade pyfloat | SamePriceAdd pyfloat | SizeDecrease pyfloat | ResetPriority pyfloat

fun fifo_exec :: "fifo_op \<Rightarrow> fifo \<Rightarrow> unit res \<times> fifo" where
  "fifo_exec (ConfirmedTrade t) q = (case on_confirmed_trade t q of (Inl e, q') \<Rightarrow> (Inl e, q') | (Inr _, q') \<Rightarrow> (Inr (), q'))"
| "fifo_exec (SamePriceAdd a) q = on_same_price_add a q"
| "fifo_exec (SizeDecrease d) q = on_unexplained_size_decrease d q"
| "fifo_exec (ResetPriority d) q = reset_priority d q"

lemma q_nonnegative_Inr [contract_simps]:
  "q_nonnegative v n b = Inr w \<longleftrightarrow> w = v \<and> isfinite v \<and> (if b then flt (Fin 0) v else fle (Fin 0) v)"
  by (cases v) (auto simp: q_nonnegative_def err_simps)

text \<open>The quantities are floats, the order quantity is positive and finite, nothing is negative, and
  what is ahead is either zero or more than the tolerance.\<close>

definition fifo_inv :: "fifo \<Rightarrow> bool" where
  "fifo_inv q \<longleftrightarrow> isfinite (q_order_qty q) \<and> wf_float (q_order_qty q) \<and> flt (Fin 0) (q_order_qty q) \<and>
     isfinite (q_queue_ahead_qty q) \<and> wf_float (q_queue_ahead_qty q) \<and>
     (q_queue_ahead_qty q = Fin 0 \<or> flt EPS (q_queue_ahead_qty q)) \<and>
     wf_float (q_filled_qty q) \<and> fle (Fin 0) (q_filled_qty q)"

lemma not_fle_EPS: "isfinite x \<Longrightarrow> fle (Fin 0) x \<Longrightarrow> \<not> fle (fabs x) EPS \<Longrightarrow> flt EPS x"
  by (cases x) (auto simp: EPS_eq)

lemma fifo_normalize_inv:
  assumes "isfinite (q_order_qty q)" "wf_float (q_order_qty q)" "flt (Fin 0) (q_order_qty q)"
    "isfinite (q_queue_ahead_qty q)" "wf_float (q_queue_ahead_qty q)" "fle (Fin 0) (q_queue_ahead_qty q)"
    "wf_float (q_filled_qty q)" "fle (Fin 0) (q_filled_qty q)"
  shows "fifo_inv (q_normalize q)"
proof -
  have "fle (Fin 0) (q_order_qty q)" using assms(3) by (simp add: fle_def)
  then show ?thesis using assms not_fle_EPS by (auto simp: fifo_inv_def q_normalize_def Let_def)
qed

text \<open>The amounts a trade moves.\<close>

lemma trade_amounts:
  assumes "fifo_inv q" "isfinite t" "fle (Fin 0) t" "wf_float t"
  defines "c \<equiv> py_min (q_queue_ahead_qty q) t"
  shows "isfinite (fsub (q_queue_ahead_qty q) c)" "fle (Fin 0) (fsub (q_queue_ahead_qty q) c)"
    "fle (fsub (q_queue_ahead_qty q) c) (q_queue_ahead_qty q)"
    "isfinite (fsub t c)" "fle (Fin 0) (fsub t c)" "fle (fsub t c) t"
    "flt (Fin 0) (fsub t c) \<Longrightarrow> fsub (q_queue_ahead_qty q) c = Fin 0"
proof -
  obtain a where a: "q_queue_ahead_qty q = Fin a" "wf_float (Fin a)" "0 \<le> a"
    using assms(1) by (cases "q_queue_ahead_qty q") (auto simp: fifo_inv_def EPS_eq)
  obtain b where b: "t = Fin b" "0 \<le> b" "wf_float (Fin b)" using assms(2-4) by (cases t) auto
  have c: "c = Fin (min a b)" using a b by (simp add: c_def)
  obtain r where r: "b64 (a - min a b) = Fin r" "0 \<le> r" "r \<le> a"
    using b64_between [of a "a - min a b"] a b by (auto simp del: wf_float.simps)
  obtain r' where r': "b64 (b - min a b) = Fin r'" "0 \<le> r'" "r' \<le> b"
    using b64_between [of b "b - min a b"] a b by (auto simp del: wf_float.simps)
  have z: "b64 0 = Fin 0" by (rule b64_repr) simp
  have "0 < r' \<Longrightarrow> a - min a b = 0"
    using r' z by (cases "b \<le> a") (auto simp: min_absorb1 min_absorb2)
  then show "isfinite (fsub (q_queue_ahead_qty q) c)" "fle (Fin 0) (fsub (q_queue_ahead_qty q) c)"
    "fle (fsub (q_queue_ahead_qty q) c) (q_queue_ahead_qty q)"
    "isfinite (fsub t c)" "fle (Fin 0) (fsub t c)" "fle (fsub t c) t"
    "flt (Fin 0) (fsub t c) \<Longrightarrow> fsub (q_queue_ahead_qty q) c = Fin 0"
    using r r' z a b c by auto
qed

lemma remaining_nonneg [simp]: "fle (Fin 0) (q_remaining_qty q)"
  by (cases "fsub (q_order_qty q) (q_filled_qty q)") (auto simp: q_remaining_qty_def py_max_def fle_def)

lemma py_min_le: "fle (Fin 0) x \<Longrightarrow> fle (Fin 0) y \<Longrightarrow> fle (py_min x y) x \<and> fle (py_min x y) y \<and> fle (Fin 0) (py_min x y)"
  by (cases x; cases y) (auto simp: py_min_def)

lemma fadd_grows: "wf_float x \<Longrightarrow> fle (Fin 0) x \<Longrightarrow> fle (Fin 0) y \<Longrightarrow> fle x (fadd x y)"
proof (cases x; cases y)
  fix a b assume "wf_float x" "fle (Fin 0) y" "x = Fin a" "y = Fin b"
  then show ?thesis using b64_ge [of a "a + b"] by simp
qed auto

definition typed_op :: "fifo_op \<Rightarrow> bool" where
  "typed_op x = (case x of ConfirmedTrade t \<Rightarrow> wf_float t | SamePriceAdd t \<Rightarrow> wf_float t
     | SizeDecrease t \<Rightarrow> wf_float t | ResetPriority t \<Rightarrow> wf_float t)"

lemma trade_state:
  assumes "on_confirmed_trade t q = (Inr f, q')"
  shows "qf_queue_consumed_qty f = py_min (q_queue_ahead_qty q) t" "isfinite t" "fle (Fin 0) t"
    "qf_own_fill_qty f = py_min (q_remaining_qty q) (fsub t (py_min (q_queue_ahead_qty q) t))"
    "q' = q_normalize (q\<lparr>q_queue_ahead_qty := fsub (q_queue_ahead_qty q) (qf_queue_consumed_qty f),
       q_filled_qty := fadd (q_filled_qty q) (qf_own_fill_qty f)\<rparr>)"
    "qf_queue_ahead_after f = q_queue_ahead_qty q'" "qf_remaining_qty_after f = q_remaining_qty q'" "qf_traded_qty f = t"
  using assms by (auto simp: on_confirmed_trade_def err_simps contract_simps Let_def q_remaining_qty_def)

lemma fifo_exec_inv:
  assumes "fifo_inv q" "typed_op x" "fifo_exec x q = (r, q')"
  shows "fifo_inv q'"
proof (cases x)
  case (ConfirmedTrade t)
  show ?thesis
  proof (cases "on_confirmed_trade t q")
    case (Pair r1 q1)
    then have q1: "q1 = q'" using assms(3) ConfirmedTrade by (auto split: sum.splits)
    show ?thesis
    proof (cases r1)
      case (Inl e)
      then have "q1 = q" using Pair by (auto simp: on_confirmed_trade_def err_simps Let_def)
      then show ?thesis using q1 assms(1) by simp
    next
      case (Inr f)
      note st = trade_state [OF Pair [unfolded Inr]]
      have t: "wf_float t" using assms(2) ConfirmedTrade by (simp add: typed_op_def)
      note am = trade_amounts [OF assms(1) st(2,3) t]
      have own: "fle (Fin 0) (qf_own_fill_qty f)" "wf_float (qf_own_fill_qty f)"
        using py_min_le [OF remaining_nonneg am(5)] assms(1) t by (auto simp: st(4) fifo_inv_def q_remaining_qty_def)
      have "fifo_inv q1" unfolding st(5)
        by (rule fifo_normalize_inv) (use assms(1) am own t st(1) in \<open>auto simp: fifo_inv_def intro: fadd_nonneg\<close>)
      then show ?thesis using q1 by simp
    qed
  qed
next
  case (ResetPriority d)
  have "fifo_inv (q_normalize (q\<lparr>q_queue_ahead_qty := d\<rparr>))" if "isfinite d" "fle (Fin 0) d"
    by (rule fifo_normalize_inv) (use assms ResetPriority that in \<open>simp_all add: fifo_inv_def typed_op_def\<close>)
  then show ?thesis
    using assms ResetPriority by (cases r) (auto simp: reset_priority_def err_simps contract_simps)
qed (use assms in \<open>auto simp: on_same_price_add_def on_unexplained_size_decrease_def checkS_def split: sum.splits\<close>)


section \<open>On the grid\<close>

text \<open>A queue whose quantities lie on the grid, and one confirmed trade on it.\<close>

definition lot_queue :: "nat \<Rightarrow> nat \<Rightarrow> nat \<Rightarrow> fifo" where
  "lot_queue n a f = \<lparr>q_order_qty = lots n, q_queue_ahead_qty = lots a, q_filled_qty = lots f\<rparr>"

lemma normalize_lots: "n \<le> max_lots \<Longrightarrow> f \<le> n \<Longrightarrow> q_normalize (lot_queue n a f) = lot_queue n a f"
  by (auto simp: q_normalize_def lot_queue_def lots_simps Let_def)

lemma trade_lots:
  assumes "n \<le> max_lots" "a \<le> max_lots" "t \<le> max_lots" "f \<le> n"
  shows "on_confirmed_trade (lots t) (lot_queue n a f) =
    (Inr \<lparr>qf_traded_qty = lots t, qf_queue_consumed_qty = lots (min a t), qf_own_fill_qty = lots (min (n - f) (t - a)),
          qf_queue_ahead_after = lots (a - t), qf_remaining_qty_after = lots (n - (f + min (n - f) (t - a)))\<rparr>,
     lot_queue n (a - t) (f + min (n - f) (t - a)))"
proof -
  have m: "a - min a t = a - t" "t - min a t = t - a" by auto
  have le: "f + min (n - f) (t - a) \<le> n" using assms(4) by simp
  have r: "q_remaining_qty (lot_queue n x f) = lots (n - f)" for x
    using assms by (simp add: q_remaining_qty_def lot_queue_def lots_simps)
  have r2: "q_remaining_qty (lot_queue n x (f + min (n - f) (t - a))) = lots (n - (f + min (n - f) (t - a)))" for x
    using assms le by (simp add: q_remaining_qty_def lot_queue_def lots_simps)
  have "fsub (lots t) (lots (min a t)) = lots (t - a)" "fsub (lots a) (lots (min a t)) = lots (a - t)"
    using assms m by (simp_all add: lots_simps)
  moreover have "fadd (lots f) (lots (min (n - f) (t - a))) = lots (f + min (n - f) (t - a))"
    using assms le by (intro fadd_lots) simp
  ultimately show ?thesis
    using r [of "a - t"] r2 [of "a - t"] normalize_lots [OF assms(1) le, of "a - t"]
    by (simp add: on_confirmed_trade_def q_nonnegative_def lots_simps Let_def) (simp add: lot_queue_def lots_simps)
qed

fun trades_on :: "pyfloat list \<Rightarrow> fifo \<Rightarrow> queue_fill list res \<times> fifo" where
  "trades_on [] q = (Inr [], q)"
| "trades_on (t # ts) q = thenS (on_confirmed_trade t q) (\<lambda>f q1. thenS (trades_on ts q1) (\<lambda>fs q2. (Inr (f # fs), q2)))"

lemma trades_lots:
  assumes "n \<le> max_lots" "a \<le> max_lots" "sum_list ts \<le> max_lots" "f = min n x" "a = 0 \<or> x = 0"
  shows "\<exists>fs. trades_on (map lots ts) (lot_queue n a f) =
    (Inr fs, lot_queue n (a - sum_list ts) (min n (x + (sum_list ts - a))))"
  using assms
proof (induction ts arbitrary: a f x)
  case (Cons t ts)
  have s: "f + min (n - f) (t - a) = min n (x + (t - a))" using Cons.prems(4) by auto
  have "\<exists>fs. trades_on (map lots ts) (lot_queue n (a - t) (min n (x + (t - a)))) =
      (Inr fs, lot_queue n (a - t - sum_list ts) (min n (x + (t - a) + (sum_list ts - (a - t)))))"
    by (rule Cons.IH) (use Cons.prems in auto)
  then obtain fs where fs: "trades_on (map lots ts) (lot_queue n (a - t) (min n (x + (t - a)))) =
      (Inr fs, lot_queue n (a - t - sum_list ts) (min n (x + (t - a) + (sum_list ts - (a - t)))))" by blast
  have e: "x + (t - a) + (sum_list ts - (a - t)) = x + (sum_list (t # ts) - a)" "a - t - sum_list ts = a - sum_list (t # ts)"
    using Cons.prems(5) by auto
  note step = fs [unfolded e]
  have "n \<le> max_lots" "a \<le> max_lots" "t \<le> max_lots" "f \<le> n" using Cons.prems by auto
  note tl = trade_lots [OF this, unfolded s]
  show ?case by (simp only: list.map trades_on.simps tl thenS_simps step) simp
qed simp


lemma flt_EPS_nonneg: "flt EPS x \<Longrightarrow> fle (Fin 0) x"
  by (cases x) (auto simp: EPS_eq)

lemma normalize_order [simp]: "q_order_qty (q_normalize q) = q_order_qty q"
  by (simp add: q_normalize_def Let_def)

lemma trade_error: "on_confirmed_trade t q = (Inl e, q') \<Longrightarrow> q' = q"
  by (auto simp: on_confirmed_trade_def err_simps Let_def)

section \<open>Properties\<close>



text \<open>The queue grants no credit on guesses: additions at the price and unexplained decreases
  change nothing, a rejected call changes nothing, only a confirmed trade or an explicit priority
  reset changes the quantity ahead, only a trade changes the filled quantity, and the invariant is kept.\<close>
theorem fifo_no_credit:
  assumes "fifo_inv q" "typed_op x" "fifo_exec x q = (r, q')"
  shows "fifo_inv q' \<and> (r \<noteq> Inr () \<longrightarrow> q' = q) \<and> q_order_qty q' = q_order_qty q \<and>
    ((\<forall>t. x \<noteq> ConfirmedTrade t) \<and> (\<forall>d. x \<noteq> ResetPriority d) \<longrightarrow> q' = q)"
proof -
  have "(r \<noteq> Inr () \<longrightarrow> q' = q) \<and> q_order_qty q' = q_order_qty q"
  proof (cases x)
    case (ConfirmedTrade t)
    then show ?thesis using assms(3) trade_error trade_state(5)
      by (cases "on_confirmed_trade t q"; cases "fst (on_confirmed_trade t q)") fastforce+
  next
    case (ResetPriority d)
    then show ?thesis using assms(3) by (cases r) (auto simp: reset_priority_def err_simps)
  qed (use assms(3) in \<open>auto simp: on_same_price_add_def on_unexplained_size_decrease_def checkS_def split: sum.splits\<close>)
  moreover have "(\<forall>t. x \<noteq> ConfirmedTrade t) \<and> (\<forall>d. x \<noteq> ResetPriority d) \<Longrightarrow> q' = q"
    using assms(3) by (cases x) (auto simp: on_same_price_add_def on_unexplained_size_decrease_def checkS_def split: sum.splits)
  ultimately show ?thesis using fifo_exec_inv [OF assms] by blast
qed

theorem fifo_no_credit_witness:
  "fifo_inv (lot_queue 5 3 0) \<and> snd (fifo_exec (SizeDecrease (lots 2)) (lot_queue 5 3 0)) = lot_queue 5 3 0"
proof -
  have i: "fifo_inv (lot_queue 5 3 0)" by (auto simp: fifo_inv_def lot_queue_def lots_simps max_lots_def)
  have "typed_op (SizeDecrease (lots 2))" by (simp add: typed_op_def max_lots_def)
  from fifo_no_credit [OF i this surjective_pairing] i show ?thesis by simp
qed

text \<open>Closed form: on the quantity grid, an order of \<open>n\<close> lots behind \<open>a\<close> lots that sees any sequence
  of confirmed trades has, afterwards, exactly what the cumulative traded volume \<open>V\<close> gives it: \<open>a - V\<close>
  ahead and \<open>min n (V - a)\<close> filled (both cut off at zero), however the volume was split into trades.\<close>
theorem fifo_closed_form:
  assumes "0 < n" "n \<le> max_lots" "a \<le> max_lots" "sum_list ts \<le> max_lots"
    and "fifo_post_init \<lparr>q_order_qty = lots n, q_queue_ahead_qty = lots a, q_filled_qty = Fin 0\<rparr> = Inr q"
  shows "\<exists>fs. trades_on (map lots ts) q =
    (Inr fs, \<lparr>q_order_qty = lots n, q_queue_ahead_qty = lots (a - sum_list ts),
       q_filled_qty = lots (min n (sum_list ts - a))\<rparr>)"
proof -
  have "q = lot_queue n a 0"
    using assms(5) normalize_lots [of n 0 a] assms(2)
    by (auto simp: fifo_post_init_def err_simps contract_simps) (simp add: lot_queue_def)
  then show ?thesis
    using trades_lots [of n a ts 0 0] assms by (simp add: lot_queue_def)
qed

end
