(* ===== verification/Fills.thy ===== *)
theory Fills
  imports FifoQueue
begin

text \<open>
  \<open>src/std0_quant/execution/fill_model.py\<close>: passive fills from confirmed trades and the aggressive sweep
  of visible levels.  On the quantity grid the sweep is compared with a greedy allocation in the natural
  numbers, which is shown to be the cheapest one.
\<close>

record fill =
  fl_price :: pyfloat
  fl_qty :: pyfloat
  fl_liquidity :: string

definition fl_notional :: "fill \<Rightarrow> pyfloat" where
  "fl_notional f = fmul (fl_price f) (fl_qty f)"

record fill_result =
  fr_requested_qty :: pyfloat
  fr_filled_qty :: pyfloat
  fr_remaining_qty :: pyfloat
  fr_fills :: "fill list"

definition fr_is_fully_filled :: "fill_result \<Rightarrow> bool" where
  "fr_is_fully_filled r \<longleftrightarrow> fle (fr_remaining_qty r) EPS"

definition fr_average_price :: "fill_result \<Rightarrow> pyfloat option res" where
  "fr_average_price r =
     (if fle (fr_filled_qty r) EPS then Inr None
      else bindE (fdiv (py_sum (map fl_notional (fr_fills r))) (fr_filled_qty r)) (\<lambda>a. Inr (Some a)))"

definition passive_fill_from_confirmed_trade ::
  "pyfloat \<Rightarrow> pyfloat \<Rightarrow> fifo \<Rightarrow> fill_result res \<times> fifo" where
  "passive_fill_from_confirmed_trade order_price traded_qty queue =
     checkS (positive order_price ''order_price'') queue (\<lambda>price.
     checkS (nonnegative traded_qty ''traded_qty'') queue (\<lambda>traded.
     let remaining_before = q_remaining_qty queue in
     thenS (on_confirmed_trade traded queue) (\<lambda>queue_fill queue'.
     let fills = (if flt EPS (qf_own_fill_qty queue_fill)
                  then [\<lparr>fl_price = price, fl_qty = qf_own_fill_qty queue_fill, fl_liquidity = ''maker''\<rparr>] else [])
     in (Inr \<lparr>fr_requested_qty = remaining_before, fr_filled_qty = qf_own_fill_qty queue_fill,
              fr_remaining_qty = q_remaining_qty queue', fr_fills = fills\<rparr>, queue'))))"

section \<open>The aggressive sweep\<close>

type_synonym level = "pyfloat \<times> pyfloat"

definition adjacent :: "('a \<Rightarrow> 'a \<Rightarrow> bool) \<Rightarrow> 'a list \<Rightarrow> bool" where
  "adjacent P xs \<longleftrightarrow> list_ex (\<lambda>(a, b). P a b) (zip xs (tl xs))"

definition validate_best_to_worst :: "string \<Rightarrow> level list \<Rightarrow> unit res" where
  "validate_best_to_worst side levels =
     (let prices = map fst levels in
      if side = ''BUY'' then
        raise_if (adjacent (\<lambda>earlier later. flt (fadd later EPS) earlier) prices)
          (ValueError ''BUY sweep asks must be ordered low-to-high'') (Inr ())
      else
        raise_if (adjacent (\<lambda>earlier later. flt (fadd earlier EPS) later) prices)
          (ValueError ''SELL sweep bids must be ordered high-to-low'') (Inr ()))"

fun check_levels :: "nat \<Rightarrow> level list \<Rightarrow> level list res" where
  "check_levels index [] = Inr []"
| "check_levels index ((p, q) # levels) =
     bindE (positive p (''levels['' @ nat_str index @ ''].price'')) (\<lambda>price.
     bindE (nonnegative q (''levels['' @ nat_str index @ ''].qty'')) (\<lambda>qty.
     bindE (check_levels (index + 1) levels) (\<lambda>checked. Inr ((price, qty) # checked))))"

text \<open>The loop over the levels: the quantity still wanted and the fills made.\<close>

fun sweep_levels :: "pyfloat \<Rightarrow> level list \<Rightarrow> pyfloat \<times> fill list" where
  "sweep_levels remaining [] = (remaining, [])"
| "sweep_levels remaining ((price, available_qty) # levels) =
     (if fle remaining EPS then (remaining, [])
      else if fle available_qty EPS then sweep_levels remaining levels
      else (let qty = py_min remaining available_qty;
                (r, fills) = sweep_levels (fsub remaining qty) levels
            in (r, \<lparr>fl_price = price, fl_qty = qty, fl_liquidity = ''taker''\<rparr> # fills)))"

definition checked_side :: "string \<Rightarrow> string res" where
  "checked_side side = (let s = py_upper side in
     raise_if (s \<noteq> ''BUY'' \<and> s \<noteq> ''SELL'') (ValueError ''side must be BUY or SELL'') (Inr s))"

definition aggressive_sweep :: "string \<Rightarrow> pyfloat \<Rightarrow> level list \<Rightarrow> fill_result res" where
  "aggressive_sweep side order_qty levels =
     bindE (checked_side side) (\<lambda>s.
     bindE (positive order_qty ''order_qty'') (\<lambda>wanted.
     bindE (check_levels 0 levels) (\<lambda>checked.
     bindE (validate_best_to_worst s checked) (\<lambda>_.
     let (r, fills) = sweep_levels wanted checked;
         remaining = (if fle (fabs r) EPS then Fin 0 else r)
     in Inr \<lparr>fr_requested_qty = wanted, fr_filled_qty = fsub wanted remaining, fr_remaining_qty = remaining,
             fr_fills = fills\<rparr>))))"

section \<open>The greedy allocation\<close>

text \<open>The specification on the grid: take from each level in turn what is wanted and available.\<close>

fun greedy :: "nat \<Rightarrow> nat list \<Rightarrow> nat list" where
  "greedy n [] = []"
| "greedy n (a # as) = min n a # greedy (n - a) as"

definition lot_levels :: "(nat \<times> nat) list \<Rightarrow> level list" where
  "lot_levels ls = map (\<lambda>(p, a). (lots p, lots a)) ls"

definition lot_fills :: "(nat \<times> nat) list \<Rightarrow> fill list" where
  "lot_fills pqs = map (\<lambda>(p, q). \<lparr>fl_price = lots p, fl_qty = lots q, fl_liquidity = ''taker''\<rparr>)
     (filter (\<lambda>(p, q). 0 < q) pqs)"

lemma greedy_0: "set (greedy 0 as) \<subseteq> {0}"
  by (induction as) auto

lemma lot_fills_0: "lot_fills (zip ps (greedy 0 as)) = []"
  using greedy_0 [of as] by (auto simp: lot_fills_def filter_empty_conv dest!: set_zip_rightD)

lemma sweep_lots:
  "n \<le> max_lots \<Longrightarrow> sweep_levels (lots n) (lot_levels ls) =
     (lots (n - sum_list (map snd ls)), lot_fills (zip (map fst ls) (greedy n (map snd ls))))"
proof (induction ls arbitrary: n)
  case (Cons l ls)
  obtain p a where l: "l = (p, a)" by (cases l)
  consider "n = 0" | "0 < n" "a = 0" | "0 < n" "0 < a" by auto
  then show ?case
  proof cases
    case 1
    then show ?thesis using lot_fills_0 [of "map fst ls" "map snd ls"]
      by (simp add: l lot_levels_def lots_simps) (simp add: lot_fills_def)
  next
    case 2
    then show ?thesis using Cons.IH [OF Cons.prems] Cons.prems
      by (simp add: l lot_levels_def lots_simps) (simp add: lot_fills_def)
  next
    case 3
    have m: "n - min n a = n - a" by auto
    have "fsub (lots n) (lots (min n a)) = lots (n - a)" using Cons.prems m by (simp add: lots_simps)
    moreover have "\<not> fle (lots n) EPS" "\<not> fle (lots a) EPS" using 3 by (simp_all add: lots_simps)
    ultimately show ?thesis using Cons.IH [of "n - a"] Cons.prems 3
      by (simp add: l lot_levels_def py_min_lots) (simp add: lot_fills_def)
  qed
qed (simp add: lot_levels_def lot_fills_def)

lemma check_lots: "list_all (\<lambda>(p, a). 0 < p) ls \<Longrightarrow> check_levels k (lot_levels ls) = Inr (lot_levels ls)"
  by (induction ls arbitrary: k) (auto simp: lot_levels_def positive_def nonnegative_def lots_simps)

lemma adjacent_Cons: "adjacent P (x # y # xs) \<longleftrightarrow> P x y \<or> adjacent P (y # xs)"
  by (simp add: adjacent_def)

lemma adjacent_single [simp]: "\<not> adjacent P []" "\<not> adjacent P [x]"
  by (simp_all add: adjacent_def)

lemma sorted_ge2: "sorted_wrt (\<ge>) (x # y # zs) \<longleftrightarrow> y \<le> x \<and> sorted_wrt (\<ge>) (y # zs)"
  for x :: nat by auto

lemma adjacent_lots_up:
  "list_all (\<lambda>p. p \<le> max_lots) ps \<Longrightarrow>
     adjacent (\<lambda>earlier later. flt (fadd later EPS) earlier) (map lots ps) \<longleftrightarrow> \<not> sorted ps"
proof (induction ps rule: induct_list012)
  case (3 x y zs)
  have "adjacent (\<lambda>earlier later. flt (fadd later EPS) earlier) (lots y # map lots zs) \<longleftrightarrow> \<not> sorted (y # zs)"
    using 3 by simp
  moreover have "flt (fadd (lots y) EPS) (lots x) \<longleftrightarrow> y < x" using 3(3) by (simp add: lots_add_EPS)
  ultimately show ?case unfolding list.map adjacent_Cons sorted2 by auto
qed simp_all

lemma adjacent_lots_down:
  "list_all (\<lambda>p. p \<le> max_lots) ps \<Longrightarrow>
     adjacent (\<lambda>earlier later. flt (fadd earlier EPS) later) (map lots ps) \<longleftrightarrow> \<not> sorted_wrt (\<ge>) ps"
proof (induction ps rule: induct_list012)
  case (3 x y zs)
  have "adjacent (\<lambda>earlier later. flt (fadd earlier EPS) later) (lots y # map lots zs) \<longleftrightarrow> \<not> sorted_wrt (\<ge>) (y # zs)"
    using 3 by simp
  moreover have "flt (fadd (lots x) EPS) (lots y) \<longleftrightarrow> x < y" using 3(3) by (simp add: lots_add_EPS)
  ultimately show ?case unfolding list.map adjacent_Cons sorted_ge2 by auto
qed simp_all

text \<open>Greedy is the cheapest: any other way to take as much from levels in best-to-worst order costs at
  least as much.\<close>

definition cost :: "nat list \<Rightarrow> nat list \<Rightarrow> nat" where
  "cost ps qs = sum_list (map2 (*) ps qs)"

lemma greedy_sum: "sum_list (greedy n as) = min n (sum_list as)"
  by (induction as arbitrary: n) auto

lemma greedy_exchange:
  "sorted (p0 # ps) \<Longrightarrow> length as = length ps \<Longrightarrow> list_all2 (\<le>) qs as \<Longrightarrow>
     sum_list (greedy n as) \<le> sum_list qs \<Longrightarrow>
     cost ps (greedy n as) + p0 * sum_list qs \<le> cost ps qs + p0 * sum_list (greedy n as)"
proof (induction ps arbitrary: p0 n as qs)
  case (Cons p ps)
  obtain a as' where as: "as = a # as'" using Cons.prems(2) by (cases as) auto
  obtain q qs' where qs: "qs = q # qs'" "q \<le> a" "list_all2 (\<le>) qs' as'"
    using Cons.prems(3) as by (cases qs) auto
  let ?g = "min n a" and ?G = "sum_list (greedy (n - a) as')" and ?Q = "sum_list qs'"
  have le: "?G \<le> ?Q"
    using Cons.prems(4) qs(2) by (cases "n \<le> a") (auto simp: as qs(1) greedy_sum)
  have sum: "?g + ?G \<le> q + ?Q" using Cons.prems(4) by (simp add: as qs(1))
  have "cost ps (greedy (n - a) as') + p * ?Q \<le> cost ps qs' + p * ?G"
    using Cons.IH [of p as' qs' "n - a"] Cons.prems(1,2) qs(3) le as by simp
  moreover obtain d where d: "q + ?Q = ?g + ?G + d" using sum le_Suc_ex by blast
  have "p0 * d \<le> p * d" using Cons.prems(1) by simp
  then have "p0 * (q + ?Q) + p * (?g + ?G) \<le> p * (q + ?Q) + p0 * (?g + ?G)"
    unfolding d by (simp add: algebra_simps)
  ultimately show ?case by (simp add: as qs(1) cost_def algebra_simps)
qed (simp add: cost_def)

lemma aggressive_sweep_lots:
  assumes "0 < n" "n \<le> max_lots" "list_all (\<lambda>(p, a). 0 < p \<and> p \<le> max_lots) ls" "side = ''BUY'' \<or> side = ''SELL''"
  shows "if (if side = ''BUY'' then sorted (map fst ls) else sorted_wrt (\<ge>) (map fst ls))
     then aggressive_sweep side (lots n) (lot_levels ls) =
       Inr \<lparr>fr_requested_qty = lots n, fr_filled_qty = lots (min n (sum_list (map snd ls))),
            fr_remaining_qty = lots (n - sum_list (map snd ls)),
            fr_fills = lot_fills (zip (map fst ls) (greedy n (map snd ls)))\<rparr>
     else \<exists>m. aggressive_sweep side (lots n) (lot_levels ls) = Inl (ValueError m)"
proof -
  have "checked_side ''BUY'' = Inr ''BUY''" "checked_side ''SELL'' = Inr ''SELL''" by code_simp+
  then have side: "checked_side side = Inr side" using assms(4) by auto
  have pos: "list_all (\<lambda>(p, a). 0 < p) ls" "list_all (\<lambda>p. p \<le> max_lots) (map fst ls)"
    using assms(3) by (auto simp: list_all_iff)
  have prices: "map fst (lot_levels ls) = map lots (map fst ls)" by (simp add: lot_levels_def split_def)
  let ?ok = "if side = ''BUY'' then sorted (map fst ls) else sorted_wrt (\<ge>) (map fst ls)"
  have v: "validate_best_to_worst side (lot_levels ls) = Inr ()" if ?ok
    using that by (simp add: validate_best_to_worst_def Let_def prices adjacent_lots_up [OF pos(2)]
        adjacent_lots_down [OF pos(2)] del: list.map_comp map_map split: if_splits)
  have nv: "\<exists>m. validate_best_to_worst side (lot_levels ls) = Inl (ValueError m)" if "\<not> ?ok"
    using that by (simp add: validate_best_to_worst_def Let_def prices adjacent_lots_up [OF pos(2)]
        adjacent_lots_down [OF pos(2)] del: list.map_comp map_map split: if_splits)
  have m: "n - (n - sum_list (map snd ls)) = min n (sum_list (map snd ls))" by simp
  have f: "fsub (lots n) (lots (n - sum_list (map snd ls))) = lots (min n (sum_list (map snd ls)))"
    unfolding m [symmetric] using assms(2) by (intro fsub_lots) simp_all
  have start: "aggressive_sweep side (lots n) (lot_levels ls) =
      bindE (validate_best_to_worst side (lot_levels ls)) (\<lambda>_.
        Inr \<lparr>fr_requested_qty = lots n, fr_filled_qty = lots (min n (sum_list (map snd ls))),
            fr_remaining_qty = lots (n - sum_list (map snd ls)),
            fr_fills = lot_fills (zip (map fst ls) (greedy n (map snd ls)))\<rparr>)"
    using assms(1,2) f by (simp add: aggressive_sweep_def side positive_def check_lots pos(1) sweep_lots lots_simps)
  show ?thesis using v nv start by (cases ?ok) auto
qed

section \<open>Properties\<close>

text \<open>C38. The sweep refines the greedy allocation: on the quantity grid a sweep of valid levels in
  best-to-worst order (ascending for BUY, descending for SELL) never raises and fills, level by level,
  what the greedy allocation in the natural numbers takes (no fill where it takes nothing); the filled
  and remaining quantities are exact, and levels out of order are refused.\<close>
theorem sweep_refines_greedy:
  assumes "0 < n" "n \<le> max_lots" "list_all (\<lambda>(p, a). 0 < p \<and> p \<le> max_lots) ls" "side = ''BUY'' \<or> side = ''SELL''"
  shows "if (if side = ''BUY'' then sorted (map fst ls) else sorted_wrt (\<ge>) (map fst ls))
     then aggressive_sweep side (lots n) (lot_levels ls) =
       Inr \<lparr>fr_requested_qty = lots n, fr_filled_qty = lots (min n (sum_list (map snd ls))),
            fr_remaining_qty = lots (n - sum_list (map snd ls)),
            fr_fills = lot_fills (zip (map fst ls) (greedy n (map snd ls)))\<rparr>
     else \<exists>m. aggressive_sweep side (lots n) (lot_levels ls) = Inl (ValueError m)"
  using aggressive_sweep_lots [OF assms] .

theorem sweep_refines_greedy_witness:
  "\<exists>r. aggressive_sweep ''BUY'' (lots 5) (lot_levels [(1, 3), (2, 0), (3, 4)]) = Inr r \<and> fr_filled_qty r = lots 5 \<and>
     fr_fills r = [\<lparr>fl_price = lots 1, fl_qty = lots 3, fl_liquidity = ''taker''\<rparr>,
                   \<lparr>fl_price = lots 3, fl_qty = lots 2, fl_liquidity = ''taker''\<rparr>]"
  using sweep_refines_greedy [of 5 "[(1, 3), (2, 0), (3, 4)]" "''BUY''"]
  by (simp add: max_lots_def) (simp add: lot_fills_def numeral_2_eq_2)

text \<open>Best execution: on levels in best-to-worst order no other allocation of the levels that buys as
  much costs less than the fills of the sweep (costs in squared grid units).\<close>
theorem sweep_is_cheapest:
  assumes "0 < n" "n \<le> max_lots" "list_all (\<lambda>(p, a). 0 < p \<and> p \<le> max_lots) ls"
    and "aggressive_sweep ''BUY'' (lots n) (lot_levels ls) = Inr r"
    and "list_all2 (\<le>) qs (map snd ls)" "fr_filled_qty r = lots (sum_list qs)"
  shows "\<exists>gs. fr_fills r = lot_fills (zip (map fst ls) gs) \<and> sum_list gs = sum_list qs \<and>
    cost (map fst ls) gs \<le> cost (map fst ls) qs"
proof -
  have s: "sorted (map fst ls)" and r: "fr_fills r = lot_fills (zip (map fst ls) (greedy n (map snd ls)))"
      "fr_filled_qty r = lots (min n (sum_list (map snd ls)))"
    using aggressive_sweep_lots [OF assms(1-3), of "''BUY''"] assms(4) by (auto split: if_splits)
  have eq: "sum_list (greedy n (map snd ls)) = sum_list qs" using r(2) assms(6) by (simp add: greedy_sum)
  show ?thesis
    using greedy_exchange [of 0 "map fst ls" "map snd ls" qs n] s assms(5) eq r(1) by auto
qed

end
