(* ===== verification/Timestamps.thy ===== *)
theory Timestamps
  imports FifoQueue
begin

text \<open>
  \<open>src/std0_quant/execution/execution_timestamps.py\<close> and \<open>latency_model.py\<close>: venue and client
  timestamps with their constructors, the order of a fill and a cancellation, and the deterministic
  latency model.
\<close>

section \<open>\<open>execution_timestamps\<close>\<close>

datatype race_ordering = FILL_BEFORE_CANCEL | CANCEL_BEFORE_FILL | AMBIGUOUS_SAME_TIMESTAMP

definition ts_checked :: "pyfloat list \<Rightarrow> pyfloat list res" where
  "ts_checked values = mapE (\<lambda>v. raise_if (\<not> isfinite v \<or> flt v (Fin 0))
     (ValueError ''timestamps must be finite and >= 0'') (Inr v)) values"

definition ts_monotonic :: "pyfloat list \<Rightarrow> bool" where
  "ts_monotonic values \<longleftrightarrow>
     \<not> list_ex (\<lambda>(earlier, later). flt (fadd later EPS) earlier) (zip values (tl values))"

definition require_monotonic :: "pyfloat list \<Rightarrow> string \<Rightarrow> unit res" where
  "require_monotonic values label =
     raise_if (\<not> ts_monotonic values) (ValueError (label @ '' must be monotonic'')) (Inr ())"

record order_timestamps =
  order_send_ts_ms :: pyfloat
  order_venue_arrival_ts_ms :: pyfloat
  order_venue_accept_ts_ms :: pyfloat
  order_ack_receive_ts_ms :: pyfloat

definition order_timestamps_post_init :: "order_timestamps \<Rightarrow> order_timestamps res" where
  "order_timestamps_post_init t =
     bindE (ts_checked [order_send_ts_ms t, order_venue_arrival_ts_ms t, order_venue_accept_ts_ms t,
                        order_ack_receive_ts_ms t]) (\<lambda>vs.
     bindE (require_monotonic vs ''order timestamps'') (\<lambda>_. Inr t))"

record cancel_timestamps =
  cancel_send_ts_ms :: pyfloat
  cancel_venue_arrival_ts_ms :: pyfloat
  cancel_effective_ts_ms :: pyfloat
  cancel_ack_receive_ts_ms :: pyfloat

definition cancel_timestamps_post_init :: "cancel_timestamps \<Rightarrow> cancel_timestamps res" where
  "cancel_timestamps_post_init t =
     bindE (ts_checked [cancel_send_ts_ms t, cancel_venue_arrival_ts_ms t, cancel_effective_ts_ms t,
                        cancel_ack_receive_ts_ms t]) (\<lambda>vs.
     bindE (require_monotonic vs ''cancel timestamps'') (\<lambda>_. Inr t))"

record fill_timestamps =
  fill_venue_ts_ms :: pyfloat
  fill_receive_ts_ms :: pyfloat

definition fill_timestamps_post_init :: "fill_timestamps \<Rightarrow> fill_timestamps res" where
  "fill_timestamps_post_init t =
     bindE (ts_checked [fill_venue_ts_ms t, fill_receive_ts_ms t]) (\<lambda>vs.
     bindE (require_monotonic vs ''fill timestamps'') (\<lambda>_. Inr t))"

definition compare_fill_vs_cancel :: "pyfloat \<Rightarrow> pyfloat \<Rightarrow> race_ordering res" where
  "compare_fill_vs_cancel fill_venue cancel_effective =
     bindE (ts_checked [fill_venue, cancel_effective]) (\<lambda>_.
     Inr (if fle (fabs (fsub fill_venue cancel_effective)) EPS then AMBIGUOUS_SAME_TIMESTAMP
          else if flt fill_venue cancel_effective then FILL_BEFORE_CANCEL else CANCEL_BEFORE_FILL))"

section \<open>\<open>latency_model\<close>\<close>

record latency_profile =
  market_data_ms :: pyfloat
  feature_compute_ms :: pyfloat
  decision_compute_ms :: pyfloat
  order_send_ms :: pyfloat
  outbound_network_ms :: pyfloat
  venue_processing_ms :: pyfloat
  ack_network_ms :: pyfloat

definition latency_profile_post_init :: "latency_profile \<Rightarrow> latency_profile res" where
  "latency_profile_post_init p =
     bindE (nonnegative (market_data_ms p) ''market_data_ms'') (\<lambda>a.
     bindE (nonnegative (feature_compute_ms p) ''feature_compute_ms'') (\<lambda>b.
     bindE (nonnegative (decision_compute_ms p) ''decision_compute_ms'') (\<lambda>c.
     bindE (nonnegative (order_send_ms p) ''order_send_ms'') (\<lambda>d.
     bindE (nonnegative (outbound_network_ms p) ''outbound_network_ms'') (\<lambda>e.
     bindE (nonnegative (venue_processing_ms p) ''venue_processing_ms'') (\<lambda>f.
     bindE (nonnegative (ack_network_ms p) ''ack_network_ms'') (\<lambda>g.
     Inr \<lparr>market_data_ms = a, feature_compute_ms = b, decision_compute_ms = c, order_send_ms = d,
          outbound_network_ms = e, venue_processing_ms = f, ack_network_ms = g\<rparr>)))))))"

definition lp_event_to_arrival_ms :: "latency_profile \<Rightarrow> pyfloat" where
  "lp_event_to_arrival_ms p =
     fadd (fadd (fadd (fadd (market_data_ms p) (feature_compute_ms p)) (decision_compute_ms p)) (order_send_ms p))
       (outbound_network_ms p)"

definition lp_event_to_ack_ms :: "latency_profile \<Rightarrow> pyfloat" where
  "lp_event_to_ack_ms p = fadd (fadd (lp_event_to_arrival_ms p) (venue_processing_ms p)) (ack_network_ms p)"

record latency_timeline =
  market_event_ts_ms :: pyfloat
  receive_ts_ms :: pyfloat
  feature_ready_ts_ms :: pyfloat
  lt_decision_ts_ms :: pyfloat
  lt_order_send_ts_ms :: pyfloat
  venue_arrival_ts_ms :: pyfloat
  venue_ack_ts_ms :: pyfloat

definition latency_timeline_post_init :: "latency_timeline \<Rightarrow> latency_timeline res" where
  "latency_timeline_post_init t =
     bindE (mapE (\<lambda>v. nonnegative v ''timeline_timestamp'')
       [market_event_ts_ms t, receive_ts_ms t, feature_ready_ts_ms t, lt_decision_ts_ms t, lt_order_send_ts_ms t,
        venue_arrival_ts_ms t, venue_ack_ts_ms t]) (\<lambda>checked.
     raise_if (\<not> ts_monotonic checked) (ValueError ''latency timeline must be monotonic'') (Inr t))"

definition lt_event_to_arrival_ms :: "latency_timeline \<Rightarrow> pyfloat" where
  "lt_event_to_arrival_ms t = fsub (venue_arrival_ts_ms t) (market_event_ts_ms t)"

definition lt_event_to_ack_ms :: "latency_timeline \<Rightarrow> pyfloat" where
  "lt_event_to_ack_ms t = fsub (venue_ack_ts_ms t) (market_event_ts_ms t)"

definition timeline :: "latency_profile \<Rightarrow> pyfloat \<Rightarrow> latency_timeline res" where
  "timeline p market_event =
     bindE (nonnegative market_event ''market_event_ts_ms'') (\<lambda>event.
     let receive = fadd event (market_data_ms p);
         feature_ready = fadd receive (feature_compute_ms p);
         decision = fadd feature_ready (decision_compute_ms p);
         order_send = fadd decision (order_send_ms p);
         venue_arrival = fadd order_send (outbound_network_ms p);
         venue_ack = fadd (fadd venue_arrival (venue_processing_ms p)) (ack_network_ms p)
     in latency_timeline_post_init
          \<lparr>market_event_ts_ms = event, receive_ts_ms = receive, feature_ready_ts_ms = feature_ready,
           lt_decision_ts_ms = decision, lt_order_send_ts_ms = order_send, venue_arrival_ts_ms = venue_arrival,
           venue_ack_ts_ms = venue_ack\<rparr>)"

definition venue_arrival_from_send :: "latency_profile \<Rightarrow> pyfloat \<Rightarrow> pyfloat res" where
  "venue_arrival_from_send p send_ts =
     bindE (nonnegative send_ts ''send_ts_ms'') (\<lambda>send. Inr (fadd send (outbound_network_ms p)))"

definition venue_ack_from_arrival :: "latency_profile \<Rightarrow> pyfloat \<Rightarrow> pyfloat res" where
  "venue_ack_from_arrival p arrival_ts =
     bindE (nonnegative arrival_ts ''arrival_ts_ms'') (\<lambda>arrival.
     Inr (fadd (fadd arrival (venue_processing_ms p)) (ack_network_ms p)))"

section \<open>The timestamps the simulator derives\<close>

text \<open>\<open>order_timestamps_from_latency\<close> and \<open>cancel_timestamps_from_latency\<close> of \<open>simulator.py\<close>.\<close>

definition order_timestamps_from_latency :: "pyfloat \<Rightarrow> latency_profile \<Rightarrow> order_timestamps res" where
  "order_timestamps_from_latency market_event p =
     bindE (timeline p market_event) (\<lambda>t.
     order_timestamps_post_init
       \<lparr>order_send_ts_ms = lt_order_send_ts_ms t, order_venue_arrival_ts_ms = venue_arrival_ts_ms t,
        order_venue_accept_ts_ms = fadd (venue_arrival_ts_ms t) (venue_processing_ms p),
        order_ack_receive_ts_ms = venue_ack_ts_ms t\<rparr>)"

definition cancel_timestamps_from_latency :: "pyfloat \<Rightarrow> latency_profile \<Rightarrow> cancel_timestamps res" where
  "cancel_timestamps_from_latency cancel_send p =
     bindE (nonnegative cancel_send ''cancel_send_ts_ms'') (\<lambda>send.
     bindE (venue_arrival_from_send p send) (\<lambda>arrival.
     bindE (venue_ack_from_arrival p arrival) (\<lambda>ack_receive.
     cancel_timestamps_post_init
       \<lparr>cancel_send_ts_ms = send, cancel_venue_arrival_ts_ms = arrival,
        cancel_effective_ts_ms = fadd arrival (venue_processing_ms p), cancel_ack_receive_ts_ms = ack_receive\<rparr>)))"

section \<open>Sums of latencies never go back in time\<close>

lemma mapE_guard: "mapE (\<lambda>v. raise_if (P v) (e v) (Inr v)) vs = Inr ws \<longleftrightarrow> ws = vs \<and> list_all (\<lambda>v. \<not> P v) vs"
  by (induction vs arbitrary: ws) (auto simp: err_simps)

lemma good_ts: "\<not> (\<not> isfinite v \<or> flt v (Fin 0)) \<longleftrightarrow> isfinite v \<and> fle (Fin 0) v"
  by (cases v) auto

lemma ts_checked_Inr: "ts_checked vs = Inr ws \<longleftrightarrow> ws = vs \<and> list_all (\<lambda>v. isfinite v \<and> fle (Fin 0) v) vs"
  unfolding ts_checked_def mapE_guard good_ts ..

lemma timeline_checked_Inr:
  "mapE (\<lambda>v. nonnegative v n) vs = Inr ws \<longleftrightarrow> ws = vs \<and> list_all (\<lambda>v. isfinite v \<and> fle (Fin 0) v) vs"
proof -
  have "nonnegative v n = raise_if (\<not> isfinite v \<or> flt v (Fin 0)) (ValueError (n @ '' must be finite and >= 0'')) (Inr v)" for v
    by (simp add: nonnegative_def)
  then show ?thesis by (simp only: mapE_guard good_ts)
qed

lemma ts_monotonic_Cons: "ts_monotonic (x # y # zs) \<longleftrightarrow> \<not> flt (fadd y EPS) x \<and> ts_monotonic (y # zs)"
  by (simp add: ts_monotonic_def)

lemma ts_monotonic_single [simp]: "ts_monotonic [x]" "ts_monotonic []"
  by (simp_all add: ts_monotonic_def)

lemma not_earlier: "wf_float x \<Longrightarrow> isfinite x \<Longrightarrow> fle x y \<Longrightarrow> \<not> flt (fadd y EPS) x"
proof (cases x; cases y)
  fix a b assume "wf_float x" "fle x y" "x = Fin a" "y = Fin b"
  then show ?thesis using add_EPS_ge [of a b] by simp
qed (auto simp: EPS_eq)

lemma stage:
  assumes "wf_float x" "fle (Fin 0) x" "wf_float d" "fle (Fin 0) d"
  shows "wf_float (fadd x d)" "fle (Fin 0) (fadd x d)" "fle x (fadd x d)" "isfinite (fadd x d) \<Longrightarrow> isfinite x"
proof -
  have "isfinite (fadd x d) \<Longrightarrow> isfinite x" by (cases x; cases d) auto
  then show "wf_float (fadd x d)" "fle (Fin 0) (fadd x d)" "fle x (fadd x d)" "isfinite (fadd x d) \<Longrightarrow> isfinite x"
    using assms fadd_grows [of x d] fadd_nonneg [of x d] by simp_all
qed

definition typed_profile :: "latency_profile \<Rightarrow> bool" where
  "typed_profile p \<longleftrightarrow> list_all (\<lambda>v. wf_float v \<and> isfinite v \<and> fle (Fin 0) v)
     [market_data_ms p, feature_compute_ms p, decision_compute_ms p, order_send_ms p, outbound_network_ms p,
      venue_processing_ms p, ack_network_ms p]"

text \<open>The seven instants of the chain.\<close>

definition chain :: "latency_profile \<Rightarrow> pyfloat \<Rightarrow> pyfloat list" where
  "chain p m = (let r = fadd m (market_data_ms p); f = fadd r (feature_compute_ms p);
      d = fadd f (decision_compute_ms p); s = fadd d (order_send_ms p); a = fadd s (outbound_network_ms p);
      v = fadd a (venue_processing_ms p) in [m, r, f, d, s, a, v, fadd v (ack_network_ms p)])"

lemma chain_ordered:
  assumes "typed_profile p" "wf_float m" "fle (Fin 0) m" "isfinite (last (chain p m))"
  shows "list_all (\<lambda>v. wf_float v \<and> isfinite v \<and> fle (Fin 0) v) (chain p m)"
    "list_all (\<lambda>(x, y). fle x y) (zip (chain p m) (tl (chain p m)))"
proof -
  define r where "r = fadd m (market_data_ms p)"
  define f where "f = fadd r (feature_compute_ms p)"
  define d where "d = fadd f (decision_compute_ms p)"
  define s where "s = fadd d (order_send_ms p)"
  define a where "a = fadd s (outbound_network_ms p)"
  define v where "v = fadd a (venue_processing_ms p)"
  define k where "k = fadd v (ack_network_ms p)"
  have c: "chain p m = [m, r, f, d, s, a, v, k]"
    by (simp add: chain_def Let_def r_def f_def d_def s_def a_def v_def k_def)
  have t: "wf_float x \<and> isfinite x \<and> fle (Fin 0) x"
    if "x \<in> {market_data_ms p, feature_compute_ms p, decision_compute_ms p, order_send_ms p, outbound_network_ms p,
      venue_processing_ms p, ack_network_ms p}" for x
    using assms(1) that by (auto simp: typed_profile_def)
  note 1 = stage [OF assms(2,3), of "market_data_ms p", folded r_def]
  note 2 = stage [of r "feature_compute_ms p", folded f_def]
  note 3 = stage [of f "decision_compute_ms p", folded d_def]
  note 4 = stage [of d "order_send_ms p", folded s_def]
  note 5 = stage [of s "outbound_network_ms p", folded a_def]
  note 6 = stage [of a "venue_processing_ms p", folded v_def]
  note 7 = stage [of v "ack_network_ms p", folded k_def]
  have "isfinite k" using assms(4) c by simp
  then show "list_all (\<lambda>v. wf_float v \<and> isfinite v \<and> fle (Fin 0) v) (chain p m)"
    "list_all (\<lambda>(x, y). fle x y) (zip (chain p m) (tl (chain p m)))"
    unfolding c using 1 2 3 4 5 6 7 t assms(2,3) by simp_all
qed

text \<open>Latencies never reorder time: for a profile of finite nonnegative stages and a finite nonnegative
  market event, the derived order timestamps exist, and are in order from the event over send, venue
  arrival and venue acceptance to the acknowledgement, unless a sum overflows binary64; in particular
  no "must be monotonic" check of the timeline or the timestamps can fail for any other reason.\<close>
theorem latency_keeps_order:
  assumes "typed_profile p" "wf_float m" "fle (Fin 0) m" "isfinite (last (chain p m))"
  shows "\<exists>t. order_timestamps_from_latency m p = Inr t \<and> fle m (order_send_ts_ms t) \<and>
    fle (order_send_ts_ms t) (order_venue_arrival_ts_ms t) \<and>
    fle (order_venue_arrival_ts_ms t) (order_venue_accept_ts_ms t) \<and>
    fle (order_venue_accept_ts_ms t) (order_ack_receive_ts_ms t)"
proof -
  obtain r f d s a v k where c: "chain p m = [m, r, f, d, s, a, v, k]"
    and e: "r = fadd m (market_data_ms p)" "f = fadd r (feature_compute_ms p)" "d = fadd f (decision_compute_ms p)"
      "s = fadd d (order_send_ms p)" "a = fadd s (outbound_network_ms p)" "v = fadd a (venue_processing_ms p)"
      "k = fadd v (ack_network_ms p)"
    by (simp add: chain_def Let_def)
  note o = chain_ordered [OF assms, unfolded c, simplified]
  have av: "fle a k" using o(2) fle_trans by blast
  have mono: "ts_monotonic [m, r, f, d, s, a, k]" "ts_monotonic [s, a, v, k]"
    using o av not_earlier by (simp_all add: ts_monotonic_Cons)
  have t: "timeline p m = Inr \<lparr>market_event_ts_ms = m, receive_ts_ms = r, feature_ready_ts_ms = f,
      lt_decision_ts_ms = d, lt_order_send_ts_ms = s, venue_arrival_ts_ms = a, venue_ack_ts_ms = k\<rparr>"
    using o mono(1) by (simp add: timeline_def latency_timeline_post_init_def Let_def contract_simps err_simps
        timeline_checked_Inr e [symmetric] nonnegative_Inr)
  have "fle m s" using o(2) fle_trans by blast
  moreover have "order_timestamps_from_latency m p = Inr \<lparr>order_send_ts_ms = s, order_venue_arrival_ts_ms = a,
      order_venue_accept_ts_ms = v, order_ack_receive_ts_ms = k\<rparr>"
    using o mono(2) by (simp add: order_timestamps_from_latency_def t order_timestamps_post_init_def err_simps
        ts_checked_Inr require_monotonic_def e(6) [symmetric])
  ultimately show ?thesis using o by auto
qed

end
