(* ===== verification/CancelRace.thy ===== *)
theory CancelRace
  imports OrderState Timestamps
begin

text \<open>
  \<open>src/std0_quant/execution/cancel_fill_race.py\<close> and \<open>cancel_replace.py\<close>: resolving a fill against a
  cancellation by venue time, and replacing an order once its cancellation is confirmed.  The order
  machine is mutated in place, so the functions return it next to their result or exception.
\<close>

datatype race_outcome = CANCEL_WON | FILL_THEN_CANCEL | FILL_WON_COMPLETE

record race_result =
  rr_outcome :: race_outcome
  rr_fill_qty_applied :: pyfloat
  rr_final_status :: order_status
  rr_filled_qty :: pyfloat
  rr_remaining_qty :: pyfloat

text \<open>A method of the machine as a call on the object: on an exception the object stays.\<close>

definition call_sm :: "(sm_event \<times> osm) res \<Rightarrow> osm \<Rightarrow> sm_event res \<times> osm" where
  "call_sm r s = (case r of Inl e \<Rightarrow> (Inl e, s) | Inr (e, s') \<Rightarrow> (Inr e, s'))"

lemma call_sm_iff [err_simps]:
  "call_sm r s = (Inl e, s') \<longleftrightarrow> r = Inl e \<and> s' = s"
  "call_sm r s = (Inr x, s') \<longleftrightarrow> r = Inr (x, s')"
  by (cases r; auto simp: call_sm_def)+

definition race_report :: "race_outcome \<Rightarrow> pyfloat \<Rightarrow> osm \<Rightarrow> race_result" where
  "race_report outcome applied s =
     \<lparr>rr_outcome = outcome, rr_fill_qty_applied = applied, rr_final_status = sm_status s,
      rr_filled_qty = sm_filled_qty s, rr_remaining_qty = sm_remaining_qty s\<rparr>"

definition resolve_cancel_fill_race ::
  "pyfloat \<Rightarrow> pyfloat \<Rightarrow> pyfloat \<Rightarrow> osm \<Rightarrow> race_result res \<times> osm" where
  "resolve_cancel_fill_race fill_qty fill_venue cancel_effective order =
     failS (sm_status order \<noteq> CANCEL_REQUESTED) (ValueError ''cancel-fill race requires CANCEL_REQUESTED order'') order (
     checkS (positive fill_qty ''fill_qty'') order (\<lambda>qty.
     checkS (nonnegative fill_venue ''fill_venue_ts_ms'') order (\<lambda>fill_ts.
     checkS (nonnegative cancel_effective ''cancel_effective_ts_ms'') order (\<lambda>cancel_ts.
     failS (case sm_last_event_ts_ms order of None \<Rightarrow> False | Some l \<Rightarrow> flt fill_ts l)
       (ValueError ''fill venue timestamp precedes cancel request'') order (
     failS (case sm_last_event_ts_ms order of None \<Rightarrow> False | Some l \<Rightarrow> flt cancel_ts l)
       (ValueError ''cancel effective timestamp precedes cancel request'') order (
     checkS (compare_fill_vs_cancel fill_ts cancel_ts) order (\<lambda>ordering.
     failS (ordering = AMBIGUOUS_SAME_TIMESTAMP)
       (AmbiguousCancelFillRace
         ''fill venue timestamp and cancel effective timestamp are identical; ordering is ambiguous'') order (
     if ordering = CANCEL_BEFORE_FILL then
       thenS (call_sm (acknowledge_cancel order cancel_ts) order) (\<lambda>_ order1.
       (Inr (race_report CANCEL_WON (Fin 0) order1), order1))
     else
       thenS (call_sm (apply_fill order qty fill_ts) order) (\<lambda>_ order1.
       if sm_status order1 = FILLED then (Inr (race_report FILL_WON_COMPLETE qty order1), order1)
       else
         thenS (call_sm (acknowledge_cancel order1 cancel_ts) order1) (\<lambda>_ order2.
         (Inr (race_report FILL_THEN_CANCEL qty order2), order2)))))))))))"

section \<open>Cancel, then replace\<close>

definition cr_request_cancel :: "osm \<Rightarrow> pyfloat \<Rightarrow> (sm_event \<times> osm) res" where
  "cr_request_cancel order t = request_cancel order t"

definition confirm_cancel :: "osm \<Rightarrow> pyfloat \<Rightarrow> (sm_event \<times> osm) res" where
  "confirm_cancel order t = acknowledge_cancel order t"

definition new_order :: "pyfloat \<Rightarrow> osm res" where
  "new_order qty = sm_post_init \<lparr>sm_order_qty = qty, sm_status = NEW, sm_filled_qty = Fin 0, sm_last_event_ts_ms = None\<rparr>"

definition new_queue :: "pyfloat \<Rightarrow> pyfloat \<Rightarrow> fifo res" where
  "new_queue qty ahead = fifo_post_init \<lparr>q_order_qty = qty, q_queue_ahead_qty = ahead, q_filled_qty = Fin 0\<rparr>"

record replacement_order =
  rp_price :: pyfloat
  rp_order :: osm
  rp_queue :: fifo

definition create_replacement_after_cancel ::
  "osm \<Rightarrow> pyfloat \<Rightarrow> pyfloat \<Rightarrow> pyfloat \<Rightarrow> replacement_order res" where
  "create_replacement_after_cancel old_order new_price new_qty displayed =
     raise_if (sm_status old_order \<noteq> CANCELLED) (ValueError ''replacement requires old order to be CANCELLED'') (
     bindE (positive new_price ''new_price'') (\<lambda>price.
     bindE (positive new_qty ''new_qty'') (\<lambda>qty.
     bindE (nonnegative displayed ''displayed_qty_at_arrival'') (\<lambda>queue_ahead.
     bindE (new_order qty) (\<lambda>order.
     bindE (new_queue qty queue_ahead) (\<lambda>queue.
     Inr \<lparr>rp_price = price, rp_order = order, rp_queue = queue\<rparr>))))))"

section \<open>Outcomes\<close>

lemma compare_Inr:
  "compare_fill_vs_cancel f c = Inr x \<longleftrightarrow> isfinite f \<and> fle (Fin 0) f \<and> isfinite c \<and> fle (Fin 0) c \<and>
     x = (if fle (fabs (fsub f c)) EPS then AMBIGUOUS_SAME_TIMESTAMP
          else if flt f c then FILL_BEFORE_CANCEL else CANCEL_BEFORE_FILL)"
  by (auto simp: compare_fill_vs_cancel_def err_simps ts_checked_Inr)

lemma acknowledge_cancel_ok:
  assumes "sm_status s = CANCEL_REQUESTED" "isfinite t" "fle (Fin 0) t"
    and "\<And>l. sm_last_event_ts_ms s = Some l \<Longrightarrow> isfinite l \<and> wf_float l \<and> fle l t"
  shows "\<exists>e. acknowledge_cancel s t = Inr (e, s\<lparr>sm_status := CANCELLED, sm_last_event_ts_ms := Some t\<rparr>)"
  using assms not_earlier
  by (auto simp: acknowledge_cancel_def sm_transition_Inr sm_checked_ts_Inr split: option.splits)

text \<open>A race is decided by venue time alone and never left half way: a call of
  \<open>resolve_cancel_fill_race\<close> either raises and leaves the order as it was, or returns a result that
  reports the order it leaves, which is terminal: when the cancellation was effective first it is
  CANCELLED with the fills it had, when the fill was first it is FILLED or, with the fill applied,
  CANCELLED; equal times (within the tolerance) always raise.\<close>
theorem race_all_or_nothing:
  assumes "wf_float f" "resolve_cancel_fill_race q f c s = (r, s')"
  shows "(isl r \<longrightarrow> s' = s) \<and> (fle (fabs (fsub f c)) EPS \<longrightarrow> isl r) \<and>
    (\<forall>x. r = Inr x \<longrightarrow> sm_is_terminal s' \<and> rr_final_status x = sm_status s' \<and> rr_filled_qty x = sm_filled_qty s' \<and>
       rr_remaining_qty x = sm_remaining_qty s' \<and>
       (if flt f c then rr_fill_qty_applied x = q \<and> (\<exists>e s1. apply_fill s q f = Inr (e, s1) \<and>
            (if rr_outcome x = FILL_WON_COMPLETE then sm_status s' = FILLED \<and> s' = s1
             else rr_outcome x = FILL_THEN_CANCEL \<and> sm_status s' = CANCELLED \<and> sm_filled_qty s' = sm_filled_qty s1))
        else rr_outcome x = CANCEL_WON \<and> rr_fill_qty_applied x = Fin 0 \<and> sm_status s' = CANCELLED \<and>
             sm_filled_qty s' = sm_filled_qty s))"
proof -
  have key: "\<exists>e2. acknowledge_cancel s1 c = Inr (e2, s1\<lparr>sm_status := CANCELLED, sm_last_event_ts_ms := Some c\<rparr>)"
    if st: "sm_status s = CANCEL_REQUESTED" and a: "apply_fill s q f = Inr (e, s1)" "sm_status s1 \<noteq> FILLED"
      and c: "isfinite c" "fle (Fin 0) c" "flt f c" for e s1
  proof (rule acknowledge_cancel_ok)
    note d = apply_fill_InrD [OF a(1)]
    show "sm_status s1 = CANCEL_REQUESTED" using d(9) a(2) st by (auto split: if_splits)
    show "isfinite l \<and> wf_float l \<and> fle l c" if "sm_last_event_ts_ms s1 = Some l" for l
      using that d(3,8) assms(1) c(3) by (auto simp: sm_checked_ts_Inr fle_def)
  qed (use c in auto)
  show ?thesis
  proof (cases r)
    case (Inl e)
    have "s' = s"
      using assms(2) key unfolding Inl resolve_cancel_fill_race_def
      by (auto simp: err_simps contract_simps compare_Inr split: if_splits)
    then show ?thesis using Inl by simp
  next
    case (Inr x)
    have st: "sm_status s = CANCEL_REQUESTED" and c: "isfinite c" "fle (Fin 0) c" "isfinite f"
      and amb: "\<not> fle (fabs (fsub f c)) EPS"
      using assms(2) unfolding Inr resolve_cancel_fill_race_def
      by (auto simp: err_simps contract_simps compare_Inr split: if_splits)
    show ?thesis
    proof (cases "flt f c")
      case True
      obtain e s1 where a: "apply_fill s q f = Inr (e, s1)"
          "if sm_status s1 = FILLED then x = race_report FILL_WON_COMPLETE q s1 \<and> s' = s1
           else \<exists>e2. acknowledge_cancel s1 c = Inr (e2, s') \<and> x = race_report FILL_THEN_CANCEL q s'"
        using assms(2) True amb unfolding Inr resolve_cancel_fill_race_def
        by (auto simp: err_simps contract_simps compare_Inr split: if_splits)
      then show ?thesis
        using key [OF st a(1)] c True amb Inr
        by (auto simp: race_report_def sm_is_terminal_def TERMINAL_STATUSES_def split: if_splits)
    next
      case False
      obtain e where a: "acknowledge_cancel s c = Inr (e, s')" "x = race_report CANCEL_WON (Fin 0) s'"
        using assms(2) False amb unfolding Inr resolve_cancel_fill_race_def
        by (auto simp: err_simps contract_simps compare_Inr split: if_splits)
      then show ?thesis using False amb Inr
        by (auto simp: acknowledge_cancel_def sm_transition_Inr race_report_def sm_is_terminal_def TERMINAL_STATUSES_def)
    qed
  qed
qed

lemma fsub_0_left: "wf_float (Fin q) \<Longrightarrow> fsub (Fin 0) (Fin q) = Fin (- q)"
  using b64_repr [of "- q"] by (simp add: rnd_minus)

lemma new_order_Inr:
  assumes "new_order q = Inr s" "wf_float q" "flt EPS q"
  shows "s = \<lparr>sm_order_qty = q, sm_status = NEW, sm_filled_qty = Fin 0, sm_last_event_ts_ms = None\<rparr>" "sm_inv s"
proof -
  obtain x where x: "q = Fin x" "fin_val EPS < x"
    using assms(1,3) by (cases q) (auto simp: new_order_def sm_post_init_def err_simps contract_simps EPS_eq)
  then have "fabs (fsub (Fin 0) q) = Fin x" using assms(2) fsub_0_left by (simp add: EPS_eq)
  then show "s = \<lparr>sm_order_qty = q, sm_status = NEW, sm_filled_qty = Fin 0, sm_last_event_ts_ms = None\<rparr>"
    using assms(1) x by (auto simp: new_order_def sm_post_init_def err_simps contract_simps sm_normalize_def Let_def EPS_eq)
  show "sm_inv s" using fresh_inv(1) [OF assms(2)] assms(1) by (simp add: new_order_def)
qed

lemma new_queue_Inr:
  assumes "new_queue q d = Inr u" "wf_float q" "flt EPS q" "wf_float d"
  shows "u = \<lparr>q_order_qty = q, q_queue_ahead_qty = (if fle d EPS then Fin 0 else d), q_filled_qty = Fin 0\<rparr>" "fifo_inv u"
proof -
  have d: "isfinite d" "fle (Fin 0) d" "flt (Fin 0) q" "isfinite q"
    and u: "u = q_normalize \<lparr>q_order_qty = q, q_queue_ahead_qty = d, q_filled_qty = Fin 0\<rparr>"
    using assms(1) by (auto simp: new_queue_def fifo_post_init_def err_simps contract_simps)
  obtain x where x: "q = Fin x" "fin_val EPS < x" using d(4) assms(3) by (cases q) (auto simp: EPS_eq)
  have "fabs (fsub (Fin 0) q) = Fin x" using assms(2) fsub_0_left x by (simp add: EPS_eq)
  moreover have "fabs d = d" using d(2) by (cases d) auto
  ultimately show "u = \<lparr>q_order_qty = q, q_queue_ahead_qty = (if fle d EPS then Fin 0 else d), q_filled_qty = Fin 0\<rparr>"
    using x by (auto simp: u q_normalize_def Let_def EPS_eq)
  show "fifo_inv u" unfolding u using d assms(2,4) by (intro fifo_normalize_inv) simp_all
qed

text \<open>A replacement is a fresh order: it is only created for a CANCELLED order, starts NEW with the
  quantity and price given, without fills and without a timestamp, and its queue starts behind the
  whole displayed quantity (up to the tolerance); both satisfy their invariants.\<close>
theorem replacement_is_fresh:
  assumes "create_replacement_after_cancel old p q d = Inr rep" "wf_float q" "flt EPS q" "wf_float d"
  shows "sm_status old = CANCELLED \<and> rp_price rep = p \<and>
    rp_order rep = \<lparr>sm_order_qty = q, sm_status = NEW, sm_filled_qty = Fin 0, sm_last_event_ts_ms = None\<rparr> \<and>
    rp_queue rep = \<lparr>q_order_qty = q, q_queue_ahead_qty = (if fle d EPS then Fin 0 else d), q_filled_qty = Fin 0\<rparr> \<and>
    sm_inv (rp_order rep) \<and> fifo_inv (rp_queue rep)"
proof -
  have r: "sm_status old = CANCELLED" "rp_price rep = p" "new_order q = Inr (rp_order rep)" "new_queue q d = Inr (rp_queue rep)"
    using assms(1) by (auto simp: create_replacement_after_cancel_def err_simps contract_simps)
  show ?thesis using r(1,2) new_order_Inr [OF r(3) assms(2,3)] new_queue_Inr [OF r(4) assms(2-4)] by simp
qed

end
