(* ===== verification/LotOrder.thy ===== *)
theory LotOrder
  imports CancelRace
begin

text \<open>
  The order state machine on the quantity grid: an order of \<open>n\<close> lots of which \<open>f\<close> are filled.  On the grid
  every operation is exact, so the simulators are compared with closed forms in the natural numbers.
\<close>

definition lot_order :: "nat \<Rightarrow> order_status \<Rightarrow> nat \<Rightarrow> pyfloat \<Rightarrow> osm" where
  "lot_order n st f l = \<lparr>sm_order_qty = lots n, sm_status = st, sm_filled_qty = lots f, sm_last_event_ts_ms = Some l\<rparr>"

definition good_time :: "pyfloat \<Rightarrow> bool" where
  "good_time t \<longleftrightarrow> isfinite t \<and> wf_float t \<and> fle (Fin 0) t"

lemma good_time_numeral [simp]: "good_time (Fin 1)" "(numeral k :: int) \<le> 2 ^ 53 \<Longrightarrow> good_time (Fin (numeral k))"
  using wf_of_int [of 1] wf_numeral [of k] by (simp_all add: good_time_def)

definition good_timestamps :: "order_timestamps \<Rightarrow> bool" where
  "good_timestamps ots \<longleftrightarrow> good_time (order_send_ts_ms ots) \<and> good_time (order_venue_accept_ts_ms ots) \<and>
     fle (order_send_ts_ms ots) (order_venue_accept_ts_ms ots)"

lemma checked_ts_lots: "good_time l \<Longrightarrow> good_time t \<Longrightarrow> fle l t \<Longrightarrow> sm_checked_ts (lot_order n st f l) t = Inr t"
  using not_earlier by (simp add: sm_checked_ts_Inr lot_order_def good_time_def)

lemma fill_lots:
  assumes "n \<le> max_lots" "f + k \<le> n" "0 < k" "st \<in> {ACKNOWLEDGED, PARTIALLY_FILLED, CANCEL_REQUESTED}"
    and "good_time l" "good_time t" "fle l t"
  shows "\<exists>e. apply_fill (lot_order n st f l) (lots k) t = Inr (e,
    lot_order n (if f + k = n then FILLED else if st = CANCEL_REQUESTED then CANCEL_REQUESTED else PARTIALLY_FILLED) (f + k) t)"
proof -
  have rem: "sm_remaining_qty (lot_order n st' g l') = lots (n - g)" if "g \<le> n" for st' g l'
    using that assms(1) by (simp add: sm_remaining_qty_def lot_order_def lots_simps)
  have norm: "sm_normalize (lot_order n st (f + k) l) = lot_order n st (f + k) l"
    using assms(1,2) fabs_fsub_lots [of 0 n] by (auto simp: sm_normalize_def lot_order_def lots_simps Let_def)
  have upd: "(lot_order n st f l)\<lparr>sm_filled_qty := fadd (sm_filled_qty (lot_order n st f l)) (lots k)\<rparr> = lot_order n st (f + k) l"
    using assms(1,2) by (simp add: lot_order_def lots_simps)
  have pos: "positive (lots k) nm = Inr (lots k)" for nm
    using assms(3) by (simp add: positive_def lots_simps)
  have room: "\<not> flt (fadd (sm_remaining_qty (lot_order n st f l)) EPS) (lots k)"
    using assms(1,2) by (simp add: rem lots_add_EPS)
  have st: "sm_status (lot_order n st f l) = st" by (simp add: lot_order_def)
  have full: "fle (sm_remaining_qty (lot_order n st (f + k) l)) EPS \<longleftrightarrow> f + k = n"
    using assms(2) rem [OF assms(2)] by (auto simp: lots_simps)
  show ?thesis
    using assms(4) unfolding apply_fill_def pos checked_ts_lots [OF assms(5-7)] bindE_simps upd norm Let_def st full
    by (simp add: room raise_if_def) (auto simp: lot_order_def)
qed

section \<open>The way to acceptance, and expiry\<close>

lemma lots_distance: "n \<le> max_lots \<Longrightarrow> fabs (fsub (Fin 0) (lots n)) = lots n"
  using fabs_fsub_lots [of 0 n] by simp

lemma new_order_lots:
  assumes "0 < n" "n \<le> max_lots"
  shows "new_order (lots n) = Inr \<lparr>sm_order_qty = lots n, sm_status = NEW, sm_filled_qty = Fin 0, sm_last_event_ts_ms = None\<rparr>"
proof -
  have "\<not> flt (fadd (lots n) EPS) (Fin 0)" using lots_add_EPS [of n 0] assms by simp
  then show ?thesis using assms
    by (simp add: new_order_def sm_post_init_def positive_Inr [THEN iffD2] nonnegative_Inr [THEN iffD2] opt_check_def
        sm_normalize_def lots_distance lots_simps)
qed

lemma sent_lots:
  "good_time t \<Longrightarrow> \<exists>e. mark_sent \<lparr>sm_order_qty = lots n, sm_status = NEW, sm_filled_qty = Fin 0, sm_last_event_ts_ms = None\<rparr> t =
     Inr (e, lot_order n SENT 0 t)"
  by (auto simp: mark_sent_def sm_transition_Inr sm_checked_ts_Inr good_time_def lot_order_def)

lemma accepted_lots:
  "good_time l \<Longrightarrow> good_time t \<Longrightarrow> fle l t \<Longrightarrow>
     \<exists>e. acknowledge (lot_order n SENT 0 l) t = Inr (e, lot_order n ACKNOWLEDGED 0 t)"
  using checked_ts_lots [of l t n SENT 0]
  by (auto simp: acknowledge_def sm_transition_Inr) (auto simp: lot_order_def)

lemma expire_lots:
  "good_time l \<Longrightarrow> good_time t \<Longrightarrow> fle l t \<Longrightarrow> st \<in> {ACKNOWLEDGED, PARTIALLY_FILLED} \<Longrightarrow>
     \<exists>e. expire (lot_order n st f l) t = Inr (e, lot_order n EXPIRED f t)"
  using checked_ts_lots [of l t n st f]
  by (auto simp: expire_def sm_transition_Inr) (auto simp: lot_order_def)

lemma lot_order_fields [simp]:
  "sm_order_qty (lot_order n st f l) = lots n" "sm_status (lot_order n st f l) = st"
  "sm_filled_qty (lot_order n st f l) = lots f" "sm_last_event_ts_ms (lot_order n st f l) = Some l"
  by (simp_all add: lot_order_def)

lemma remaining_lots [simp]: "f \<le> n \<Longrightarrow> n \<le> max_lots \<Longrightarrow> sm_remaining_qty (lot_order n st f l) = lots (n - f)"
  by (simp add: sm_remaining_qty_def lots_simps)

end
