(* ===== verification/PassiveSim.thy ===== *)
theory PassiveSim
  imports LotOrder Fills "HOL-Library.Product_Lexorder" "HOL-Library.Multiset"
begin

text \<open>
  \<open>src/std0_quant/execution/simulator.py\<close> and \<open>replacement_simulator.py\<close>: the event-driven simulation of
  one passive order over its confirmed trades and an optional cancellation, and the conservative
  cancel-then-replace simulation built on it.  All objects are local, so an exception leaves no state.
\<close>

record trade_event =
  te_venue_ts_ms :: pyfloat
  te_traded_qty :: pyfloat

definition trade_event_post_init :: "trade_event \<Rightarrow> trade_event res" where
  "trade_event_post_init t =
     bindE (nonnegative (te_venue_ts_ms t) ''venue_ts_ms'') (\<lambda>ts.
     bindE (positive (te_traded_qty t) ''traded_qty'') (\<lambda>q.
     Inr \<lparr>te_venue_ts_ms = ts, te_traded_qty = q\<rparr>))"

record simulation_event =
  sv_event_type :: string
  sv_event_ts_ms :: pyfloat
  sv_status_after :: string
  sv_queue_ahead_after :: pyfloat
  sv_filled_qty_after :: pyfloat

record passive_result =
  ps_final_status :: order_status
  ps_order_qty :: pyfloat
  ps_filled_qty :: pyfloat
  ps_remaining_qty :: pyfloat
  ps_queue_ahead_qty :: pyfloat
  ps_fills :: "fill list"
  ps_events :: "simulation_event list"
  ps_order_timestamps :: order_timestamps
  ps_cancel_timestamps :: "cancel_timestamps option"

definition ps_average_fill_price :: "passive_result \<Rightarrow> pyfloat option res" where
  "ps_average_fill_price r =
     (if ps_fills r = [] then Inr None
      else bindE (fdiv (py_sum (map (\<lambda>f. fmul (fl_price f) (fl_qty f)) (ps_fills r)))
                       (py_sum (map fl_qty (ps_fills r)))) (\<lambda>a. Inr (Some a)))"

definition sim_event :: "string \<Rightarrow> pyfloat \<Rightarrow> osm \<Rightarrow> fifo \<Rightarrow> simulation_event" where
  "sim_event event_type t order queue =
     \<lparr>sv_event_type = event_type, sv_event_ts_ms = t, sv_status_after = status_value (sm_status order),
      sv_queue_ahead_after = q_queue_ahead_qty queue, sv_filled_qty_after = sm_filled_qty order\<rparr>"

section \<open>The timeline\<close>

datatype timeline_kind = Trade trade_event | CancelRequest | CancelEffective

definition kind_rank :: "timeline_kind \<Rightarrow> int" where
  "kind_rank k = (case k of CancelRequest \<Rightarrow> 0 | Trade _ \<Rightarrow> 1 | CancelEffective \<Rightarrow> 2)"

type_synonym timeline_item = "pyfloat \<times> timeline_kind"

definition build_timeline :: "trade_event list \<Rightarrow> cancel_timestamps option \<Rightarrow> timeline_item list" where
  "build_timeline checked_trades cancel =
     sort_key (\<lambda>(t, k). (fin_val t, kind_rank k))
       (map (\<lambda>t. (te_venue_ts_ms t, Trade t)) checked_trades @
        (case cancel of None \<Rightarrow> []
         | Some c \<Rightarrow> [(cancel_send_ts_ms c, CancelRequest), (cancel_effective_ts_ms c, CancelEffective)]))"

text \<open>The checks on trades and cancellation before anything is simulated.\<close>

fun check_trades :: "pyfloat \<Rightarrow> trade_event list \<Rightarrow> unit res" where
  "check_trades accept_ts [] = Inr ()"
| "check_trades accept_ts (t # ts) =
     raise_if (flt (te_venue_ts_ms t) (fsub accept_ts EPS)) (ValueError ''trade precedes order venue acceptance'') (
     raise_if (fle (fabs (fsub (te_venue_ts_ms t) accept_ts)) EPS)
       (ValueError ''trade timestamp equals order venue acceptance; queue ordering is ambiguous'') (
     check_trades accept_ts ts))"

definition check_cancel :: "pyfloat \<Rightarrow> trade_event list \<Rightarrow> cancel_timestamps option \<Rightarrow> unit res" where
  "check_cancel accept_ts ts cancel =
     (case cancel of None \<Rightarrow> Inr ()
      | Some c \<Rightarrow>
          raise_if (flt (cancel_send_ts_ms c) (fsub accept_ts EPS))
            (ValueError ''cancel request precedes order venue acceptance'') (
          raise_if (list_ex (\<lambda>t. fle (fabs (fsub (te_venue_ts_ms t) (cancel_effective_ts_ms c))) EPS) ts)
            (AmbiguousCancelFillRace ''trade timestamp equals cancel effective timestamp'') (Inr ())))"

section \<open>The loop\<close>

record sim_state =
  ss_order :: osm
  ss_queue :: fifo
  ss_fills :: "fill list"
  ss_events :: "simulation_event list"

definition log_event :: "string \<Rightarrow> pyfloat \<Rightarrow> sim_state \<Rightarrow> sim_state" where
  "log_event event_type t s = s\<lparr>ss_events := ss_events s @ [sim_event event_type t (ss_order s) (ss_queue s)]\<rparr>"

definition sim_step :: "pyfloat \<Rightarrow> timeline_item \<Rightarrow> sim_state \<Rightarrow> sim_state res" where
  "sim_step order_price = (\<lambda>(event_ts, k) s.
     case k of
       CancelRequest \<Rightarrow>
         bindE (request_cancel (ss_order s) event_ts) (\<lambda>(_, order').
         Inr (log_event ''CANCEL_REQUESTED'' event_ts (s\<lparr>ss_order := order'\<rparr>)))
     | CancelEffective \<Rightarrow>
         if sm_status (ss_order s) = CANCEL_REQUESTED then
           bindE (acknowledge_cancel (ss_order s) event_ts) (\<lambda>(_, order').
           Inr (log_event ''CANCEL_EFFECTIVE'' event_ts (s\<lparr>ss_order := order'\<rparr>)))
         else Inr s
     | Trade t \<Rightarrow>
         if sm_status (ss_order s) \<notin> {ACKNOWLEDGED, PARTIALLY_FILLED, CANCEL_REQUESTED} then Inr s
         else
           (case passive_fill_from_confirmed_trade order_price (te_traded_qty t) (ss_queue s) of
              (Inl e, _) \<Rightarrow> Inl e
            | (Inr fr, queue') \<Rightarrow>
                let s1 = s\<lparr>ss_queue := queue'\<rparr> in
                bindE (if flt EPS (fr_filled_qty fr)
                       then bindE (apply_fill (ss_order s1) (fr_filled_qty fr) (te_venue_ts_ms t)) (\<lambda>(_, order').
                              Inr (s1\<lparr>ss_order := order', ss_fills := ss_fills s1 @ fr_fills fr\<rparr>))
                       else Inr s1) (\<lambda>s2.
                Inr (log_event ''CONFIRMED_TRADE'' (te_venue_ts_ms t) s2))))"

fun sim_loop :: "pyfloat \<Rightarrow> timeline_item list \<Rightarrow> sim_state \<Rightarrow> sim_state res" where
  "sim_loop order_price [] s = Inr s"
| "sim_loop order_price (x # xs) s =
     (if sm_is_terminal (ss_order s) then Inr s
      else bindE (sim_step order_price x s) (sim_loop order_price xs))"

definition simulate_passive_order ::
  "pyfloat \<Rightarrow> pyfloat \<Rightarrow> pyfloat \<Rightarrow> order_timestamps \<Rightarrow> trade_event list \<Rightarrow> cancel_timestamps option \<Rightarrow>
     passive_result res" where
  "simulate_passive_order order_qty order_price displayed ots trades cancel =
     bindE (positive order_qty ''order_qty'') (\<lambda>qty.
     bindE (positive order_price ''order_price'') (\<lambda>price.
     bindE (nonnegative displayed ''displayed_qty_at_accept'') (\<lambda>ahead.
     let accept_ts = order_venue_accept_ts_ms ots;
         checked_trades = sort_key (\<lambda>t. fin_val (te_venue_ts_ms t)) trades in
     bindE (check_trades accept_ts checked_trades) (\<lambda>_.
     bindE (check_cancel accept_ts checked_trades cancel) (\<lambda>_.
     bindE (new_order qty) (\<lambda>order0.
     bindE (new_queue qty ahead) (\<lambda>queue.
     bindE (mark_sent order0 (order_send_ts_ms ots)) (\<lambda>(_, order1).
     bindE (acknowledge order1 accept_ts) (\<lambda>(_, order2).
     bindE (sim_loop price (build_timeline checked_trades cancel)
       \<lparr>ss_order = order2, ss_queue = queue, ss_fills = [],
        ss_events = [sim_event ''ORDER_SENT'' (order_send_ts_ms ots) order1 queue,
                     sim_event ''ORDER_VENUE_ACCEPTED'' accept_ts order2 queue]\<rparr>) (\<lambda>s.
     Inr \<lparr>ps_final_status = sm_status (ss_order s), ps_order_qty = sm_order_qty (ss_order s),
          ps_filled_qty = sm_filled_qty (ss_order s), ps_remaining_qty = sm_remaining_qty (ss_order s),
          ps_queue_ahead_qty = q_queue_ahead_qty (ss_queue s), ps_fills = ss_fills s, ps_events = ss_events s,
          ps_order_timestamps = ots, ps_cancel_timestamps = cancel\<rparr>))))))))))"

section \<open>Cancel, then replace\<close>

record cancel_replace_result =
  cr_old_order :: passive_result
  cr_replacement_order :: passive_result

definition simulate_cancel_then_replace ::
  "pyfloat \<Rightarrow> pyfloat \<Rightarrow> pyfloat \<Rightarrow> order_timestamps \<Rightarrow> trade_event list \<Rightarrow> cancel_timestamps \<Rightarrow>
   pyfloat \<Rightarrow> pyfloat \<Rightarrow> pyfloat \<Rightarrow> order_timestamps \<Rightarrow> trade_event list \<Rightarrow> cancel_replace_result res" where
  "simulate_cancel_then_replace old_qty old_price old_displayed old_ots old_trades cts
       new_price new_qty new_displayed new_ots new_trades =
     raise_if (flt (fadd (order_send_ts_ms new_ots) EPS) (cancel_ack_receive_ts_ms cts))
       (ValueError ''replacement send precedes client receipt of cancel acknowledgement'') (
     bindE (simulate_passive_order old_qty old_price old_displayed old_ots old_trades (Some cts)) (\<lambda>old_result.
     raise_if (ps_final_status old_result \<noteq> CANCELLED)
       (ValueError ''old order was not cancelled; replacement is not allowed'') (
     bindE (sm_post_init \<lparr>sm_order_qty = ps_order_qty old_result, sm_status = CANCELLED,
        sm_filled_qty = ps_filled_qty old_result, sm_last_event_ts_ms = Some (cancel_effective_ts_ms cts)\<rparr>) (\<lambda>old_terminal.
     bindE (create_replacement_after_cancel old_terminal new_price new_qty new_displayed) (\<lambda>replacement.
     raise_if (sm_status (rp_order replacement) \<noteq> NEW) (AssertionError ''replacement must start NEW'') (
     raise_if (\<not> feq (sm_filled_qty (rp_order replacement)) (Fin 0))
       (AssertionError ''replacement must start with zero fills'') (
     raise_if (flt EPS (fabs (fsub (q_queue_ahead_qty (rp_queue replacement)) new_displayed)))
       (AssertionError ''replacement must receive fresh queue priority'') (
     bindE (simulate_passive_order (sm_order_qty (rp_order replacement)) (rp_price replacement)
        (q_queue_ahead_qty (rp_queue replacement)) new_ots new_trades None) (\<lambda>replacement_result.
     Inr \<lparr>cr_old_order = old_result, cr_replacement_order = replacement_result\<rparr>)))))))))"


section \<open>What every simulation keeps\<close>

text \<open>A confirmed trade on the grid, as the loop handles it.\<close>

definition own :: "nat \<Rightarrow> nat \<Rightarrow> nat \<Rightarrow> nat \<Rightarrow> nat" where
  "own n f a v = min (n - f) (v - a)"

lemma passive_lots:
  assumes "n \<le> max_lots" "a \<le> max_lots" "v \<le> max_lots" "f \<le> n" "isfinite p" "flt (Fin 0) p"
  shows "\<exists>fr. passive_fill_from_confirmed_trade p (lots v) (lot_queue n a f) = (Inr fr, lot_queue n (a - v) (f + own n f a v)) \<and>
    fr_filled_qty fr = lots (own n f a v) \<and>
    fr_fills fr = (if own n f a v = 0 then [] else [\<lparr>fl_price = p, fl_qty = lots (own n f a v), fl_liquidity = ''maker''\<rparr>])"
  using assms trade_lots [OF assms(1-4)]
  by (simp add: passive_fill_from_confirmed_trade_def positive_Inr [THEN iffD2] nonnegative_Inr [THEN iffD2]
      lots_simps own_def Let_def)

definition maker_fills :: "pyfloat \<Rightarrow> nat list \<Rightarrow> fill list" where
  "maker_fills p qs = map (\<lambda>q. \<lparr>fl_price = p, fl_qty = lots q, fl_liquidity = ''maker''\<rparr>) (filter (\<lambda>q. 0 < q) qs)"

lemma maker_fills_simps [simp]:
  "maker_fills p [] = []" "maker_fills p (xs @ ys) = maker_fills p xs @ maker_fills p ys" "maker_fills p [0] = []"
  by (simp_all add: maker_fills_def)

lemma trade_step:
  assumes "n \<le> max_lots" "a \<le> max_lots" "f < n" "isfinite p" "flt (Fin 0) p" "te_traded_qty t = lots v" "v \<le> max_lots"
    and "st \<in> {ACKNOWLEDGED, PARTIALLY_FILLED, CANCEL_REQUESTED}"
    and "good_time l" "good_time (te_venue_ts_ms t)" "fle l (te_venue_ts_ms t)"
    and s: "ss_order s = lot_order n st f l" "ss_queue s = lot_queue n a f"
  shows "\<exists>s'. sim_step p (te_venue_ts_ms t, Trade t) s = Inr s' \<and> ss_queue s' = lot_queue n (a - v) (f + own n f a v) \<and>
    ss_fills s' = ss_fills s @ maker_fills p [own n f a v] \<and>
    ss_order s' = (if own n f a v = 0 then ss_order s
       else lot_order n (if f + own n f a v = n then FILLED else if st = CANCEL_REQUESTED then CANCEL_REQUESTED
                         else PARTIALLY_FILLED) (f + own n f a v) (te_venue_ts_ms t))"
proof -
  obtain fr where fr: "passive_fill_from_confirmed_trade p (lots v) (lot_queue n a f) =
      (Inr fr, lot_queue n (a - v) (f + own n f a v))" "fr_filled_qty fr = lots (own n f a v)"
      "fr_fills fr = maker_fills p [own n f a v]"
    using passive_lots [OF assms(1,2,7) _ assms(4,5), of f] assms(3) by (auto simp: maker_fills_def)
  show ?thesis
  proof (cases "own n f a v = 0")
    case True
    then show ?thesis using fr assms(6,8) s
      by (auto simp: sim_step_def log_event_def lot_order_def Let_def)
  next
    case False
    have "f + own n f a v \<le> n" using assms(3) by (simp add: own_def)
    then obtain e where "apply_fill (lot_order n st f l) (lots (own n f a v)) (te_venue_ts_ms t) = Inr (e,
        lot_order n (if f + own n f a v = n then FILLED else if st = CANCEL_REQUESTED then CANCEL_REQUESTED
                     else PARTIALLY_FILLED) (f + own n f a v) (te_venue_ts_ms t))"
      using fill_lots [OF assms(1) _ _ assms(8-11), of f "own n f a v"] False by auto
    moreover have "sm_status (lot_order n st f l) = st" by (simp add: lot_order_def)
    ultimately show ?thesis using fr assms(6,8) s False
      by (auto simp: sim_step_def log_event_def Let_def lots_EPS)
  qed
qed


section \<open>The loop in closed form\<close>

text \<open>A trade's quantity in lots, the volume a timeline has before the cancellation takes effect, and
  the order of the cancellation's two items.\<close>

definition qty_lots :: "trade_event \<Rightarrow> nat" where
  "qty_lots t = nat \<lfloor>fin_val (te_traded_qty t) * 2 ^ 20\<rfloor>"

fun volume :: "timeline_item list \<Rightarrow> nat" where
  "volume [] = 0"
| "volume ((t, Trade x) # xs) = qty_lots x + volume xs"
| "volume ((t, CancelRequest) # xs) = volume xs"
| "volume ((t, CancelEffective) # xs) = 0"

fun staged :: "bool \<Rightarrow> timeline_item list \<Rightarrow> bool" where
  "staged requested [] \<longleftrightarrow> True"
| "staged requested ((t, Trade x) # xs) \<longleftrightarrow> staged requested xs"
| "staged requested ((t, CancelRequest) # xs) \<longleftrightarrow> \<not> requested \<and> staged True xs"
| "staged requested ((t, CancelEffective) # xs) \<longleftrightarrow> requested"

definition good_item :: "timeline_item \<Rightarrow> bool" where
  "good_item = (\<lambda>(t, k). good_time t \<and> (case k of Trade x \<Rightarrow>
     te_venue_ts_ms x = t \<and> te_traded_qty x = lots (qty_lots x) \<and> qty_lots x \<le> max_lots | _ \<Rightarrow> True))"

text \<open>The status of an order that is not filled after \<open>f\<close> lots.\<close>

definition open_status :: "bool \<Rightarrow> nat \<Rightarrow> order_status" where
  "open_status requested f = (if requested then CANCEL_REQUESTED else if f = 0 then ACKNOWLEDGED else PARTIALLY_FILLED)"

definition final_status :: "nat \<Rightarrow> bool \<Rightarrow> bool \<Rightarrow> nat \<Rightarrow> order_status" where
  "final_status n requested cancelled f = (if f = n then FILLED else if cancelled then CANCELLED else open_status requested f)"

lemma loop_stops: "sm_is_terminal (ss_order s) \<Longrightarrow> sim_loop p xs s = Inr s"
  by (cases xs) simp_all

lemma own_step: "f \<le> n \<Longrightarrow> f + own n f a v + own n (f + own n f a v) (a - v) w = f + own n f a (v + w)"
  by (auto simp: own_def min_def split: nat_diff_split)

text \<open>The lots the order gets from each trade of a timeline, up to the cancellation.\<close>

fun takes :: "nat \<Rightarrow> nat \<Rightarrow> nat \<Rightarrow> timeline_item list \<Rightarrow> nat list" where
  "takes n f a [] = []"
| "takes n f a ((t, Trade x) # xs) = own n f a (qty_lots x) # takes n (f + own n f a (qty_lots x)) (a - qty_lots x) xs"
| "takes n f a ((t, CancelRequest) # xs) = takes n f a xs"
| "takes n f a ((t, CancelEffective) # xs) = []"

lemma takes_sum: "f \<le> n \<Longrightarrow> sum_list (takes n f a xs) = own n f a (volume xs)"
proof (induction n f a xs rule: takes.induct)
  case (2 n f a t x xs)
  have "f + own n f a (qty_lots x) \<le> n" using 2(2) by (simp add: own_def)
  then show ?case using 2(1) own_step [OF 2(2), of a "qty_lots x" "volume xs"] by simp
qed (simp_all add: own_def)

lemma takes_full: "maker_fills p (takes n n a xs) = []"
proof (induction xs arbitrary: a)
  case (Cons x xs)
  obtain t k where x: "x = (t, k)" by (cases x)
  show ?case using Cons by (cases k) (simp_all add: x own_def maker_fills_def)
qed simp

lemma loop_lots:
  assumes "n \<le> max_lots" "isfinite p" "flt (Fin 0) p"
  shows "a \<le> max_lots \<Longrightarrow> f < n \<Longrightarrow> a = 0 \<or> f = 0 \<Longrightarrow> list_all good_item xs \<Longrightarrow> staged req xs \<Longrightarrow>
    good_time l \<Longrightarrow> list_all (\<lambda>(t, k). fle l t) xs \<Longrightarrow> sorted_wrt (\<lambda>x y. fle (fst x) (fst y)) xs \<Longrightarrow>
    ss_order s = lot_order n (open_status req f) f l \<Longrightarrow> ss_queue s = lot_queue n a f \<Longrightarrow>
    \<exists>s' l'. sim_loop p xs s = Inr s' \<and>
      ss_order s' = lot_order n (final_status n (req \<or> CancelRequest \<in> snd ` set xs) (CancelEffective \<in> snd ` set xs)
        (f + own n f a (volume xs))) (f + own n f a (volume xs)) l' \<and>
      ss_queue s' = lot_queue n (a - volume xs) (f + own n f a (volume xs)) \<and>
      ss_fills s' = ss_fills s @ maker_fills p (takes n f a xs)"
proof (induction xs arbitrary: s a f req l)
  case Nil
  then show ?case by (auto simp: own_def final_status_def)
next
  case (Cons x xs)
  obtain t k where x: "x = (t, k)" by (cases x)
  have item: "good_time t" "fle l t" using Cons.prems(4,7) x by (simp_all add: good_item_def)
  have rest: "list_all good_item xs" "list_all (\<lambda>(u, k). fle t u) xs" "sorted_wrt (\<lambda>x y. fle (fst x) (fst y)) xs"
    using Cons.prems(4,8) x by (auto simp: list_all_iff)
  have go: "\<not> sm_is_terminal (ss_order s)"
    using Cons.prems(9) by (simp add: lot_order_def open_status_def sm_is_terminal_def TERMINAL_STATUSES_def)
  show ?case
  proof (cases k)
    case CancelRequest
    then have nr: "\<not> req" "staged True xs" using Cons.prems(5) x by simp_all
    have "request_cancel (ss_order s) t = Inr (\<lparr>se_event_type = ''CANCEL_REQUESTED'', se_event_ts_ms = t,
        se_status_before = open_status req f, se_status_after = CANCEL_REQUESTED, se_fill_qty = Fin 0\<rparr>,
        lot_order n CANCEL_REQUESTED f t)"
      using nr(1) checked_ts_lots [OF Cons.prems(6) item]
      by (auto simp: request_cancel_def sm_transition_Inr Cons.prems(9)) (auto simp: lot_order_def open_status_def split: if_splits)
    then obtain s1 where s1: "sim_step p x s = Inr s1" "ss_order s1 = lot_order n (open_status True f) f t"
        "ss_queue s1 = lot_queue n a f" "ss_fills s1 = ss_fills s"
      using x CancelRequest Cons.prems(10) by (simp add: sim_step_def log_event_def open_status_def)
    show ?thesis
      using Cons.IH [OF Cons.prems(1-3) rest(1) nr(2) item(1) rest(2,3) s1(2,3)] go s1(1,4) x CancelRequest by auto
  next
    case CancelEffective
    then have r: "req" using Cons.prems(5) x by simp
    have "acknowledge_cancel (ss_order s) t = Inr (\<lparr>se_event_type = ''CANCELLED'', se_event_ts_ms = t,
        se_status_before = CANCEL_REQUESTED, se_status_after = CANCELLED, se_fill_qty = Fin 0\<rparr>, lot_order n CANCELLED f t)"
      using r checked_ts_lots [OF Cons.prems(6) item]
      by (auto simp: acknowledge_cancel_def sm_transition_Inr Cons.prems(9)) (auto simp: lot_order_def open_status_def)
    moreover have "sm_status (ss_order s) = CANCEL_REQUESTED" using r Cons.prems(9) by (simp add: lot_order_def open_status_def)
    ultimately obtain s1 where s1: "sim_step p x s = Inr s1" "ss_order s1 = lot_order n CANCELLED f t" "ss_queue s1 = lot_queue n a f"
        "ss_fills s1 = ss_fills s"
      using x CancelEffective Cons.prems(10) by (simp add: sim_step_def log_event_def)
    have "sm_is_terminal (ss_order s1)" by (simp add: s1 lot_order_def sm_is_terminal_def TERMINAL_STATUSES_def)
    then have "sim_loop p (x # xs) s = Inr s1" using go s1(1) loop_stops by simp
    then show ?thesis using s1 x CancelEffective Cons.prems(2)
      by (auto simp: own_def final_status_def)
  next
    case (Trade y)
    let ?v = "qty_lots y" and ?g = "f + own n f a (qty_lots y)"
    have y: "te_venue_ts_ms y = t" "te_traded_qty y = lots ?v" "?v \<le> max_lots" and st: "staged req xs"
      using Cons.prems(4,5) x Trade by (simp_all add: good_item_def)
    have os: "open_status req f \<in> {ACKNOWLEDGED, PARTIALLY_FILLED, CANCEL_REQUESTED}" by (simp add: open_status_def)
    obtain s1 where s1: "sim_step p x s = Inr s1" "ss_queue s1 = lot_queue n (a - ?v) ?g"
        "ss_fills s1 = ss_fills s @ maker_fills p [own n f a ?v]" "ss_order s1 = (if own n f a ?v = 0 then ss_order s
         else lot_order n (if ?g = n then FILLED else if open_status req f = CANCEL_REQUESTED then CANCEL_REQUESTED
                           else PARTIALLY_FILLED) ?g t)"
      using trade_step [OF assms(1) Cons.prems(1,2) assms(2,3) y(2,3) os Cons.prems(6) _ _ Cons.prems(9,10)] item
      unfolding x Trade y(1) by blast
    have loop: "sim_loop p (x # xs) s = sim_loop p xs s1" using go s1(1) by simp
    have vol: "volume (x # xs) = ?v + volume xs" using x Trade by simp
    have kinds: "CancelRequest \<in> snd ` set (x # xs) \<longleftrightarrow> CancelRequest \<in> snd ` set xs"
      "CancelEffective \<in> snd ` set (x # xs) \<longleftrightarrow> CancelEffective \<in> snd ` set xs" using x Trade by auto
    note own_eq = own_step [of f n a ?v "volume xs"]
    show ?thesis
    proof (cases "?g = n")
      case True
      have pos: "own n f a ?v \<noteq> 0" using True Cons.prems(2) by simp
      have over: "sm_is_terminal (ss_order s1)"
        using True pos s1(4) by (simp add: lot_order_def sm_is_terminal_def TERMINAL_STATUSES_def)
      have "a - ?v = 0" "a - (?v + volume xs) = 0" "f + own n f a (?v + volume xs) = n"
        using pos own_eq True by (auto simp: own_def)
      moreover have "maker_fills p (takes n f a (x # xs)) = maker_fills p [own n f a ?v]"
        using takes_full [of p n "a - ?v" xs] True x Trade by (simp add: maker_fills_def)
      ultimately show ?thesis
        unfolding loop vol using loop_stops [OF over] s1 True pos by (auto simp: final_status_def)
    next
      case False
      have lt: "?g < n" using False Cons.prems(2) by (simp add: own_def min_def split: if_splits)
      define l1 where "l1 = (if own n f a ?v = 0 then l else t)"
      have l1: "good_time l1" "list_all (\<lambda>(u, k). fle l1 u) xs"
        using item Cons.prems(6,7) rest(2) by (simp_all add: l1_def)
      have o1: "ss_order s1 = lot_order n (open_status req ?g) ?g l1"
        using s1(4) False Cons.prems(9) by (auto simp: l1_def open_status_def)
      have d: "a - ?v = 0 \<or> ?g = 0" using Cons.prems(3) by (auto simp: own_def)
      have "a - ?v \<le> max_lots" using Cons.prems(1) by simp
      note ih = Cons.IH [OF this lt d rest(1) st l1 rest(3) o1 s1(2)]
      have eq: "f + own n f a ?v + own n ?g (a - ?v) (volume xs) = f + own n f a (?v + volume xs)"
        "a - ?v - volume xs = a - (?v + volume xs)"
        using own_eq Cons.prems(2) by simp_all
      obtain s' l' where r: "sim_loop p xs s1 = Inr s'"
        "ss_order s' = lot_order n (final_status n (req \<or> CancelRequest \<in> snd ` set xs) (CancelEffective \<in> snd ` set xs)
          (f + own n f a (?v + volume xs))) (f + own n f a (?v + volume xs)) l'"
        "ss_queue s' = lot_queue n (a - (?v + volume xs)) (f + own n f a (?v + volume xs))"
        "ss_fills s' = ss_fills s1 @ maker_fills p (takes n ?g (a - ?v) xs)"
        using ih unfolding eq by blast
      have "ss_fills s' = ss_fills s @ maker_fills p (takes n f a (x # xs))"
        using r(4) s1(3) x Trade by (simp add: maker_fills_def)
      then show ?thesis unfolding loop vol kinds using r(1-3) by blast
    qed
  qed
qed

section \<open>The timeline in order\<close>

definition is_trade :: "timeline_item \<Rightarrow> bool" where
  "is_trade x \<longleftrightarrow> (case snd x of Trade _ \<Rightarrow> True | _ \<Rightarrow> False)"

text \<open>The lots traded before a time, or at all.\<close>

definition traded :: "pyfloat option \<Rightarrow> trade_event list \<Rightarrow> nat" where
  "traded until ts = sum_list (map qty_lots (filter (\<lambda>t. case until of None \<Rightarrow> True | Some e \<Rightarrow> flt (te_venue_ts_ms t) e) ts))"

definition trades_of :: "timeline_item list \<Rightarrow> trade_event list" where
  "trades_of xs = concat (map (\<lambda>x. case snd x of Trade t \<Rightarrow> [t] | _ \<Rightarrow> []) xs)"

lemma trades_of_simps [simp]:
  "trades_of [] = []" "trades_of ((t, Trade y) # xs) = y # trades_of xs"
  "trades_of ((t, CancelRequest) # xs) = trades_of xs" "trades_of ((t, CancelEffective) # xs) = trades_of xs"
  by (simp_all add: trades_of_def)

lemma trades_of_set: "y \<in> set (trades_of xs) \<longleftrightarrow> (\<exists>t. (t, Trade y) \<in> set xs)"
  by (force simp: trades_of_def split: timeline_kind.splits)

lemma staged_filter: "staged r (filter (Not \<circ> is_trade) xs) = staged r xs"
  by (induction r xs rule: staged.induct) (simp_all add: is_trade_def)

lemma volume_no_cancel: "CancelEffective \<notin> snd ` set xs \<Longrightarrow> volume xs = traded None (trades_of xs)"
  by (induction xs rule: volume.induct) (force simp: traded_def)+

lemma volume_cancel:
  "sorted_wrt (\<lambda>x y. fle (fst x) (fst y)) xs \<Longrightarrow> (e, CancelEffective) \<in> set xs \<Longrightarrow>
     (\<And>t. (t, CancelEffective) \<in> set xs \<Longrightarrow> t = e) \<Longrightarrow>
     (\<And>t y. (t, Trade y) \<in> set xs \<Longrightarrow> te_venue_ts_ms y = t \<and> t \<noteq> e) \<Longrightarrow> volume xs = traded (Some e) (trades_of xs)"
proof (induction xs rule: volume.induct)
  case (2 t x xs)
  have in_xs: "(e, CancelEffective) \<in> set xs" using 2(3) by simp
  then have "fle t e" using 2(2) by fastforce
  moreover have x: "te_venue_ts_ms x = t" "t \<noteq> e" using 2(5) [of t x] by simp_all
  ultimately have "flt t e" by (cases t; cases e) (auto simp: fle_def)
  moreover have "volume xs = traded (Some e) (trades_of xs)"
  proof (rule 2(1) [OF _ in_xs])
    show "sorted_wrt (\<lambda>x y. fle (fst x) (fst y)) xs" using 2(2) by simp
    show "u = e" if "(u, CancelEffective) \<in> set xs" for u by (rule 2(4)) (simp add: that)
    show "te_venue_ts_ms y = u \<and> u \<noteq> e" if "(u, Trade y) \<in> set xs" for u y by (rule 2(5)) (simp add: that)
  qed
  ultimately show ?case by (simp add: traded_def x)
next
  case (3 t xs)
  have "volume xs = traded (Some e) (trades_of xs)"
  proof (rule 3(1))
    show "sorted_wrt (\<lambda>x y. fle (fst x) (fst y)) xs" "(e, CancelEffective) \<in> set xs" using 3(2,3) by simp_all
    show "u = e" if "(u, CancelEffective) \<in> set xs" for u by (rule 3(4)) (simp add: that)
    show "te_venue_ts_ms y = u \<and> u \<noteq> e" if "(u, Trade y) \<in> set xs" for u y by (rule 3(5)) (simp add: that)
  qed
  then show ?case by simp
next
  case (4 t xs)
  have te: "t = e" by (rule 4(3)) simp
  have late: "\<not> flt (te_venue_ts_ms y) e" if y: "y \<in> set (trades_of xs)" for y
  proof -
    obtain u where u: "(u, Trade y) \<in> set xs" using y unfolding trades_of_set by blast
    then have "fle e u" using 4(1) te by fastforce
    moreover have "te_venue_ts_ms y = u" using 4(4) [of u y] u by simp
    ultimately show ?thesis using flt_fle_trans flt_irrefl by metis
  qed
  then have "filter (\<lambda>y. flt (te_venue_ts_ms y) e) (trades_of xs) = []" by (simp add: filter_empty_conv)
  then show ?case by (simp add: traded_def)
qed simp

lemma traded_mset: "mset ts = mset ts' \<Longrightarrow> traded u ts = traded u ts'"
proof -
  have eq: "traded u ts = sum_mset (image_mset qty_lots (filter_mset (\<lambda>t. case u of None \<Rightarrow> True
      | Some e \<Rightarrow> flt (te_venue_ts_ms t) e) (mset ts)))" for ts
    unfolding traded_def by (simp only: mset_filter [symmetric] mset_map [symmetric] sum_mset_sum_list)
  show "mset ts = mset ts' \<Longrightarrow> traded u ts = traded u ts'" by (simp only: eq)
qed

lemma trades_of_mset: "mset xs = mset ys \<Longrightarrow> mset (trades_of xs) = mset (trades_of ys)"
proof -
  have eq: "mset (trades_of zs) = sum_mset (image_mset (\<lambda>x. mset (case snd x of Trade t \<Rightarrow> [t] | _ \<Rightarrow> [])) (mset zs))" for zs
    unfolding trades_of_def mset_concat map_map comp_def by (simp only: mset_map [symmetric] sum_mset_sum_list)
  show "mset xs = mset ys \<Longrightarrow> mset (trades_of xs) = mset (trades_of ys)" by (simp only: eq)
qed

lemma trades_of_append: "trades_of (xs @ ys) = trades_of xs @ trades_of ys"
  by (simp add: trades_of_def)

lemma trades_of_trades: "trades_of (map (\<lambda>t. (te_venue_ts_ms t, Trade t)) ts) = ts"
  by (induction ts) simp_all

lemma timeline_trades: "mset (trades_of (build_timeline ts c)) = mset ts"
  unfolding build_timeline_def
  by (subst trades_of_mset [OF mset_sort]) (simp add: trades_of_append trades_of_trades split: option.splits)

definition cancel_items :: "cancel_timestamps option \<Rightarrow> timeline_item list" where
  "cancel_items c = (case c of None \<Rightarrow> []
     | Some c \<Rightarrow> [(cancel_send_ts_ms c, CancelRequest), (cancel_effective_ts_ms c, CancelEffective)])"

lemma timeline_set:
  "set (build_timeline ts c) = (\<lambda>t. (te_venue_ts_ms t, Trade t)) ` set ts \<union> set (cancel_items c)"
  by (auto simp: build_timeline_def cancel_items_def split: option.splits)

lemma timeline_sorted:
  assumes "\<And>t k. (t, k) \<in> set (build_timeline ts c) \<Longrightarrow> isfinite t"
  shows "sorted_wrt (\<lambda>x y. fle (fst x) (fst y)) (build_timeline ts c)"
proof -
  let ?key = "\<lambda>(t, k). (fin_val t, kind_rank k)"
  have "sorted (map ?key (build_timeline ts c))" unfolding build_timeline_def by (rule sorted_sort_key)
  then have "sorted_wrt (\<lambda>x y. ?key x \<le> ?key y) (build_timeline ts c)" by (simp add: sorted_wrt_map)
  then show ?thesis
  proof (rule sorted_wrt_mono_rel [rotated])
    fix x y assume m: "x \<in> set (build_timeline ts c)" "y \<in> set (build_timeline ts c)" and le: "?key x \<le> ?key y"
    obtain t k u j where xy: "x = (t, k)" "y = (u, j)" by (cases x; cases y)
    have "isfinite t" "isfinite u" using assms m by (simp_all add: xy)
    then show "fle (fst x) (fst y)" using le by (cases t; cases u) (auto simp: xy)
  qed
qed

lemma timeline_staged:
  assumes "case c of None \<Rightarrow> True | Some u \<Rightarrow> fin_val (cancel_send_ts_ms u) \<le> fin_val (cancel_effective_ts_ms u)"
  shows "staged False (build_timeline ts c)"
proof -
  have "filter (Not \<circ> is_trade) (map (\<lambda>t. (te_venue_ts_ms t, Trade t)) ts) = []"
    by (simp add: filter_empty_conv is_trade_def)
  then have "filter (Not \<circ> is_trade) (build_timeline ts c) = sort_key (\<lambda>(t, k). (fin_val t, kind_rank k)) (cancel_items c)"
    unfolding build_timeline_def filter_sort by (simp add: cancel_items_def is_trade_def split: option.splits)
  also have "\<dots> = cancel_items c" using assms by (auto simp: cancel_items_def kind_rank_def split: option.splits)
  finally show ?thesis using staged_filter [of False "build_timeline ts c"]
    by (simp add: cancel_items_def split: option.splits)
qed

section \<open>The simulation on the grid\<close>

definition trade_ok :: "pyfloat \<Rightarrow> trade_event \<Rightarrow> bool" where
  "trade_ok accept t \<longleftrightarrow> good_time (te_venue_ts_ms t) \<and> te_traded_qty t = lots (qty_lots t) \<and> qty_lots t \<le> max_lots \<and>
     fle accept (te_venue_ts_ms t) \<and> \<not> fle (fabs (fsub (te_venue_ts_ms t) accept)) EPS"

definition cancel_ok :: "pyfloat \<Rightarrow> trade_event list \<Rightarrow> cancel_timestamps option \<Rightarrow> bool" where
  "cancel_ok accept ts c \<longleftrightarrow> (case c of None \<Rightarrow> True
     | Some u \<Rightarrow> good_time (cancel_send_ts_ms u) \<and> good_time (cancel_effective_ts_ms u) \<and> fle accept (cancel_send_ts_ms u) \<and>
         fle (cancel_send_ts_ms u) (cancel_effective_ts_ms u) \<and>
         list_all (\<lambda>t. \<not> fle (fabs (fsub (te_venue_ts_ms t) (cancel_effective_ts_ms u))) EPS) ts)"

lemma sub_EPS_le: "good_time t \<Longrightarrow> fle t v \<Longrightarrow> \<not> flt v (fsub t EPS)"
proof -
  assume t: "good_time t" "fle t v"
  then obtain x where "t = Fin x" by (auto simp: good_time_def isfinite_iff)
  then have "fle (fsub t EPS) t" using t(1) b64_le [of x "x - fin_val EPS"] by (simp add: good_time_def EPS_eq del: wf_float.simps)
  then show ?thesis using t(2) fle_trans fle_flt_trans flt_irrefl by blast
qed

lemma check_trades_ok: "good_time accept \<Longrightarrow> list_all (trade_ok accept) ts \<Longrightarrow> check_trades accept ts = Inr ()"
  by (induction ts) (auto simp: trade_ok_def sub_EPS_le)

lemma check_cancel_ok: "good_time accept \<Longrightarrow> cancel_ok accept ts c \<Longrightarrow> check_cancel accept ts c = Inr ()"
  by (auto simp: check_cancel_def cancel_ok_def sub_EPS_le list_ex_iff list_all_iff split: option.splits)

lemma new_queue_lots: "0 < n \<Longrightarrow> n \<le> max_lots \<Longrightarrow> a \<le> max_lots \<Longrightarrow> new_queue (lots n) (lots a) = Inr (lot_queue n a 0)"
proof -
  assume n: "0 < n" "n \<le> max_lots" "a \<le> max_lots"
  have "\<not> flt (fadd (lots n) EPS) (Fin 0)" using lots_add_EPS [of n 0] n by simp
  moreover have "q_normalize \<lparr>q_order_qty = lots n, q_queue_ahead_qty = lots a, q_filled_qty = Fin 0\<rparr> = lot_queue n a 0"
    using normalize_lots [of n 0 a] n by (simp add: lot_queue_def)
  ultimately show ?thesis using n
    by (simp add: new_queue_def fifo_post_init_def q_nonnegative_def positive_Inr [THEN iffD2] nonnegative_Inr [THEN iffD2] lots_simps)
qed

lemma timeline_good:
  assumes "good_time accept" "list_all (trade_ok accept) ts" "cancel_ok accept ts c"
  shows "list_all good_item (build_timeline ts c)" "list_all (\<lambda>(t, k). fle accept t) (build_timeline ts c)"
    "sorted_wrt (\<lambda>x y. fle (fst x) (fst y)) (build_timeline ts c)" "staged False (build_timeline ts c)"
proof -
  show g: "list_all good_item (build_timeline ts c)"
    using assms(2,3) unfolding list_all_iff timeline_set
    by (auto simp: good_item_def trade_ok_def cancel_ok_def cancel_items_def split: option.splits)
  show "list_all (\<lambda>(t, k). fle accept t) (build_timeline ts c)"
    using assms(2,3) fle_trans unfolding list_all_iff timeline_set
    by (fastforce simp: trade_ok_def cancel_ok_def cancel_items_def split: option.splits)
  show "sorted_wrt (\<lambda>x y. fle (fst x) (fst y)) (build_timeline ts c)"
    by (rule timeline_sorted) (use g in \<open>auto simp: list_all_iff good_item_def good_time_def\<close>)
  have "fin_val x \<le> fin_val y" if "isfinite x" "isfinite y" "fle x y" for x y
    using that by (cases x; cases y) simp_all
  then show "staged False (build_timeline ts c)"
    by (intro timeline_staged) (use assms(3) in \<open>auto simp: cancel_ok_def good_time_def split: option.splits\<close>)
qed

lemma timeline_volume:
  assumes "list_all (trade_ok accept) ts" "cancel_ok accept ts c" "sorted_wrt (\<lambda>x y. fle (fst x) (fst y)) (build_timeline ts c)"
  shows "volume (build_timeline ts c) = traded (map_option cancel_effective_ts_ms c) ts"
proof (cases c)
  case None
  then have "volume (build_timeline ts c) = traded None (trades_of (build_timeline ts c))"
    by (intro volume_no_cancel) (auto simp: timeline_set cancel_items_def)
  then show ?thesis using traded_mset [OF timeline_trades] None by simp
next
  case (Some u)
  let ?e = "cancel_effective_ts_ms u"
  have "volume (build_timeline ts c) = traded (Some ?e) (trades_of (build_timeline ts c))"
  proof (rule volume_cancel [OF assms(3)])
    show "(?e, CancelEffective) \<in> set (build_timeline ts c)" by (simp add: timeline_set cancel_items_def Some)
    show "t = ?e" if "(t, CancelEffective) \<in> set (build_timeline ts c)" for t
      using that by (auto simp: timeline_set cancel_items_def Some)
    show "te_venue_ts_ms y = t \<and> t \<noteq> ?e" if "(t, Trade y) \<in> set (build_timeline ts c)" for t y
    proof -
      have y: "y \<in> set ts" "te_venue_ts_ms y = t" using that by (auto simp: timeline_set cancel_items_def Some)
      then have "\<not> fle (fabs (fsub t ?e)) EPS" "good_time ?e" using assms(2) by (auto simp: cancel_ok_def Some list_all_iff)
      then have "t \<noteq> ?e" by (auto simp: good_time_def isfinite_iff)
      then show ?thesis using y by simp
    qed
  qed
  then show ?thesis using traded_mset [OF timeline_trades] Some by simp
qed

text \<open>What a simulation that filled \<open>f\<close> of \<open>n\<close> lots at the price \<open>p\<close> reports.\<close>

definition passive_outcome :: "nat \<Rightarrow> pyfloat \<Rightarrow> bool \<Rightarrow> nat \<Rightarrow> nat \<Rightarrow> passive_result \<Rightarrow> bool" where
  "passive_outcome n p cancelled ahead f r \<longleftrightarrow>
     ps_order_qty r = lots n \<and> ps_filled_qty r = lots f \<and> ps_remaining_qty r = lots (n - f) \<and> ps_queue_ahead_qty r = lots ahead \<and>
     ps_final_status r = (if f = n then FILLED else if cancelled then CANCELLED
                          else if f = 0 then ACKNOWLEDGED else PARTIALLY_FILLED) \<and>
     (\<exists>qs. ps_fills r = maker_fills p qs \<and> sum_list qs = f)"

lemma simulation_lots:
  assumes n: "0 < n" "n \<le> max_lots" "a \<le> max_lots" and p: "isfinite p" "flt (Fin 0) p"
    and t: "good_timestamps ots" "list_all (trade_ok (order_venue_accept_ts_ms ots)) ts" "cancel_ok (order_venue_accept_ts_ms ots) ts c"
  defines "v \<equiv> traded (map_option cancel_effective_ts_ms c) ts"
  shows "\<exists>r. simulate_passive_order (lots n) p (lots a) ots ts c = Inr r \<and> passive_outcome n p (c \<noteq> None) (a - v) (min n (v - a)) r \<and>
    ps_fills r = maker_fills p (takes n 0 a (build_timeline (sort_key (\<lambda>t. fin_val (te_venue_ts_ms t)) ts) c))"
proof -
  define ss where "ss = sort_key (\<lambda>t. fin_val (te_venue_ts_ms t)) ts"
  define acc where "acc = order_venue_accept_ts_ms ots"
  have times: "good_time (order_send_ts_ms ots)" "good_time acc" "fle (order_send_ts_ms ots) acc"
    using t(1) by (simp_all add: good_timestamps_def acc_def)
  have ok: "list_all (trade_ok acc) ss" "cancel_ok acc ss c"
    using t(2,3) by (auto simp: ss_def acc_def list_all_iff cancel_ok_def split: option.splits)
  note good = timeline_good [OF times(2) ok]
  have vol: "volume (build_timeline ss c) = v"
    using timeline_volume [OF ok good(3)] traded_mset [of ss ts] by (simp add: v_def ss_def)
  have kinds: "CancelEffective \<in> snd ` set (build_timeline ss c) \<longleftrightarrow> c \<noteq> None"
    unfolding timeline_set image_Un image_image by (cases c) (auto simp: cancel_items_def)
  obtain e1 e2 where sent: "mark_sent \<lparr>sm_order_qty = lots n, sm_status = NEW, sm_filled_qty = Fin 0, sm_last_event_ts_ms = None\<rparr>
      (order_send_ts_ms ots) = Inr (e1, lot_order n SENT 0 (order_send_ts_ms ots))"
    and acked: "acknowledge (lot_order n SENT 0 (order_send_ts_ms ots)) acc = Inr (e2, lot_order n ACKNOWLEDGED 0 acc)"
    using sent_lots [OF times(1)] accepted_lots [OF times] by blast
  define s0 where "s0 = \<lparr>ss_order = lot_order n ACKNOWLEDGED 0 acc, ss_queue = lot_queue n a 0, ss_fills = [],
    ss_events = [sim_event ''ORDER_SENT'' (order_send_ts_ms ots) (lot_order n SENT 0 (order_send_ts_ms ots)) (lot_queue n a 0),
                 sim_event ''ORDER_VENUE_ACCEPTED'' acc (lot_order n ACKNOWLEDGED 0 acc) (lot_queue n a 0)]\<rparr>"
  have f: "0 + own n 0 a v = min n (v - a)" by (simp add: own_def)
  obtain s' l' where run: "sim_loop p (build_timeline ss c) s0 = Inr s'"
    "ss_order s' = lot_order n (final_status n (False \<or> CancelRequest \<in> snd ` set (build_timeline ss c)) (c \<noteq> None) (min n (v - a)))
       (min n (v - a)) l'" "ss_queue s' = lot_queue n (a - v) (min n (v - a))"
    "ss_fills s' = maker_fills p (takes n 0 a (build_timeline ss c))"
    using loop_lots [OF n(2) p n(3,1) disjI2 [OF HOL.refl] good(1,4) times(2) good(2,3), of s0] f
    unfolding vol kinds by (auto simp: s0_def open_status_def)
  have req: "CancelRequest \<in> snd ` set (build_timeline ss c) \<longleftrightarrow> c \<noteq> None"
    unfolding timeline_set image_Un image_image by (cases c) (auto simp: cancel_items_def)
  have pos: "positive (lots n) ''order_qty'' = Inr (lots n)" "positive p ''order_price'' = Inr p"
    "nonnegative (lots a) ''displayed_qty_at_accept'' = Inr (lots a)"
    using n p by (simp_all add: positive_Inr [THEN iffD2] nonnegative_Inr [THEN iffD2] lots_simps)
  have "simulate_passive_order (lots n) p (lots a) ots ts c = Inr \<lparr>ps_final_status = sm_status (ss_order s'),
      ps_order_qty = sm_order_qty (ss_order s'), ps_filled_qty = sm_filled_qty (ss_order s'),
      ps_remaining_qty = sm_remaining_qty (ss_order s'), ps_queue_ahead_qty = q_queue_ahead_qty (ss_queue s'),
      ps_fills = ss_fills s', ps_events = ss_events s', ps_order_timestamps = ots, ps_cancel_timestamps = c\<rparr>"
    by (simp add: simulate_passive_order_def pos Let_def ss_def [symmetric] acc_def [symmetric]
        check_trades_ok [OF times(2) ok(1)] check_cancel_ok [OF times(2) ok(2)] new_order_lots [OF n(1,2)]
        new_queue_lots [OF n] sent acked s0_def [symmetric] run(1))
  moreover have "q_queue_ahead_qty (lot_queue n (a - v) (min n (v - a))) = lots (a - v)" by (simp add: lot_queue_def)
  moreover have "sum_list (takes n 0 a (build_timeline ss c)) = min n (v - a)"
    using takes_sum [of 0 n a "build_timeline ss c"] f vol by simp
  ultimately show ?thesis using run(2-4) n req
    by (auto simp: passive_outcome_def final_status_def open_status_def ss_def)
qed

section \<open>Properties\<close>

text \<open>C37. The passive simulation in closed form: on the quantity grid, for trades after the acceptance, a
  cancellation not before it and no ambiguous times, an order of \<open>n\<close> lots behind \<open>a\<close> lots never
  raises; with \<open>v\<close> the lots traded before the cancellation takes effect, in whatever order the trades
  are given, it fills \<open>min n (v - a)\<close> lots, all as maker at the order's price, the queue ahead shrinks
  to \<open>a - v\<close>, and the order ends FILLED when complete, else CANCELLED when a cancellation was sent, else
  resting; so no fill happens before the queue ahead is consumed or after the cancellation.\<close>
theorem passive_closed_form:
  assumes "0 < n" "n \<le> max_lots" "a \<le> max_lots" "isfinite p" "flt (Fin 0) p" "good_timestamps ots"
    and "list_all (trade_ok (order_venue_accept_ts_ms ots)) ts" "cancel_ok (order_venue_accept_ts_ms ots) ts c"
  shows "\<exists>r. simulate_passive_order (lots n) p (lots a) ots ts c = Inr r \<and>
    (let v = traded (map_option cancel_effective_ts_ms c) ts in passive_outcome n p (c \<noteq> None) (a - v) (min n (v - a)) r)"
  using simulation_lots [OF assms] unfolding Let_def by blast

theorem passive_closed_form_witness:
  "\<exists>r. simulate_passive_order (lots 10) (Fin 1) (lots 4) \<lparr>order_send_ts_ms = Fin 1, order_venue_arrival_ts_ms = Fin 2,
      order_venue_accept_ts_ms = Fin 3, order_ack_receive_ts_ms = Fin 4\<rparr>
     [\<lparr>te_venue_ts_ms = Fin 9, te_traded_qty = lots 8\<rparr>, \<lparr>te_venue_ts_ms = Fin 5, te_traded_qty = lots 6\<rparr>]
     (Some \<lparr>cancel_send_ts_ms = Fin 6, cancel_venue_arrival_ts_ms = Fin 7, cancel_effective_ts_ms = Fin 8,
       cancel_ack_receive_ts_ms = Fin 9\<rparr>) = Inr r \<and> ps_filled_qty r = lots 2 \<and> ps_final_status r = CANCELLED"
proof -
  let ?ots = "\<lparr>order_send_ts_ms = Fin 1, order_venue_arrival_ts_ms = Fin 2, order_venue_accept_ts_ms = Fin 3,
      order_ack_receive_ts_ms = Fin 4\<rparr>"
  let ?ts = "[\<lparr>te_venue_ts_ms = Fin 9, te_traded_qty = lots 8\<rparr>, \<lparr>te_venue_ts_ms = Fin 5, te_traded_qty = lots 6\<rparr>]"
  let ?c = "Some \<lparr>cancel_send_ts_ms = Fin 6, cancel_venue_arrival_ts_ms = Fin 7, cancel_effective_ts_ms = Fin 8,
       cancel_ack_receive_ts_ms = Fin 9\<rparr>"
  have q: "qty_lots \<lparr>te_venue_ts_ms = t, te_traded_qty = lots k\<rparr> = k" for t k by (simp add: qty_lots_def lots_def)
  have "good_timestamps ?ots" "list_all (trade_ok (Fin 3)) ?ts" "cancel_ok (Fin 3) ?ts ?c"
    by (simp_all add: good_timestamps_def trade_ok_def cancel_ok_def q max_lots_def EPS_eq)
  then show ?thesis
    using passive_closed_form [of 10 4 "Fin 1" ?ots ?ts ?c]
    by (auto simp: max_lots_def Let_def traded_def q passive_outcome_def)
qed

end
