(* ===== verification/TakerSim.thy ===== *)
theory TakerSim
  imports LotOrder Fills CancelRace
begin

text \<open>
  \<open>src/std0_quant/execution/taker_simulator.py\<close>: the simulation of one aggressive order (IOC or FOK) that
  is matched at venue acceptance against the visible levels.  All objects are local, so an exception
  leaves no state.
\<close>

datatype aggressive_tif = IOC_TAKER | FOK_TAKER

record aggressive_event =
  ae_event_type :: string
  ae_event_ts_ms :: pyfloat
  ae_status_after :: string
  ae_filled_qty_after :: pyfloat

record aggressive_result =
  ag_side :: string
  ag_tif :: aggressive_tif
  ag_final_status :: order_status
  ag_order_qty :: pyfloat
  ag_filled_qty :: pyfloat
  ag_remaining_qty :: pyfloat
  ag_fills :: "fill list"
  ag_events :: "aggressive_event list"
  ag_order_timestamps :: order_timestamps

definition ag_average_fill_price :: "aggressive_result \<Rightarrow> pyfloat option res" where
  "ag_average_fill_price r =
     (if ag_fills r = [] then Inr None
      else bindE (fdiv (py_sum (map (\<lambda>f. fmul (fl_price f) (fl_qty f)) (ag_fills r)))
                       (py_sum (map fl_qty (ag_fills r)))) (\<lambda>a. Inr (Some a)))"

definition aggressive_tif_of :: "string \<Rightarrow> aggressive_tif res" where
  "aggressive_tif_of s =
     (if s = ''IOC'' then Inr IOC_TAKER
      else if s = ''FOK'' then Inr FOK_TAKER
      else Inl (ValueError ''tif must be IOC or FOK''))"

definition taker_event :: "string \<Rightarrow> pyfloat \<Rightarrow> osm \<Rightarrow> aggressive_event" where
  "taker_event event_type t order =
     \<lparr>ae_event_type = event_type, ae_event_ts_ms = t, ae_status_after = status_value (sm_status order),
      ae_filled_qty_after = sm_filled_qty order\<rparr>"

text \<open>The loop over the fills of the preview: the order and the events logged.\<close>

fun taker_fills :: "pyfloat \<Rightarrow> fill list \<Rightarrow> osm \<Rightarrow> (osm \<times> aggressive_event list) res" where
  "taker_fills accept_ts [] order = Inr (order, [])"
| "taker_fills accept_ts (f # fs) order =
     bindE (apply_fill order (fl_qty f) accept_ts) (\<lambda>(_, order1).
     bindE (taker_fills accept_ts fs order1) (\<lambda>(order2, events).
     Inr (order2, taker_event ''TAKER_FILL'' accept_ts order1 # events)))"

definition taker_result ::
  "string \<Rightarrow> aggressive_tif \<Rightarrow> osm \<Rightarrow> fill list \<Rightarrow> aggressive_event list \<Rightarrow> order_timestamps \<Rightarrow> aggressive_result" where
  "taker_result side tif order fills events ots =
     \<lparr>ag_side = side, ag_tif = tif, ag_final_status = sm_status order, ag_order_qty = sm_order_qty order,
      ag_filled_qty = sm_filled_qty order, ag_remaining_qty = sm_remaining_qty order, ag_fills = fills,
      ag_events = events, ag_order_timestamps = ots\<rparr>"

text \<open>The two ends of the simulation: a FOK order the preview does not fill expires untouched; otherwise
  the fills of the preview are applied and an IOC remainder expires.\<close>

definition taker_unfilled ::
  "string \<Rightarrow> aggressive_tif \<Rightarrow> osm \<Rightarrow> aggressive_event list \<Rightarrow> order_timestamps \<Rightarrow> aggressive_result res" where
  "taker_unfilled side tif order events ots =
     (let accept_ts = order_venue_accept_ts_ms ots in
     bindE (expire order accept_ts) (\<lambda>(_, order1).
     Inr (taker_result side tif order1 [] (events @ [taker_event ''FOK_EXPIRED_UNFILLED'' accept_ts order1]) ots)))"

definition taker_execute ::
  "string \<Rightarrow> aggressive_tif \<Rightarrow> fill list \<Rightarrow> osm \<Rightarrow> aggressive_event list \<Rightarrow> order_timestamps \<Rightarrow> aggressive_result res" where
  "taker_execute side tif fills order events ots =
     (let accept_ts = order_venue_accept_ts_ms ots in
     bindE (taker_fills accept_ts fills order) (\<lambda>(order1, filled_events).
     bindE (if sm_status order1 \<noteq> FILLED \<and> tif = IOC_TAKER
            then bindE (expire order1 accept_ts) (\<lambda>(_, order2).
                   Inr (order2, [taker_event ''IOC_REMAINDER_EXPIRED'' accept_ts order2]))
            else Inr (order1, [])) (\<lambda>(order2, expired_events).
     raise_if (tif = FOK_TAKER \<and> sm_status order2 \<noteq> FILLED)
       (AssertionError ''FOK preview promised full fill but execution did not fill'') (
     Inr (taker_result side tif order2 fills (events @ filled_events @ expired_events) ots)))))"

definition simulate_aggressive_order ::
  "string \<Rightarrow> string \<Rightarrow> pyfloat \<Rightarrow> level list \<Rightarrow> order_timestamps \<Rightarrow> aggressive_result res" where
  "simulate_aggressive_order side0 tif0 order_qty levels ots =
     bindE (checked_side side0) (\<lambda>side.
     bindE (aggressive_tif_of tif0) (\<lambda>tif.
     bindE (positive order_qty ''order_qty'') (\<lambda>qty.
     bindE (new_order qty) (\<lambda>order0.
     bindE (mark_sent order0 (order_send_ts_ms ots)) (\<lambda>(_, order1).
     bindE (acknowledge order1 (order_venue_accept_ts_ms ots)) (\<lambda>(_, order2).
     bindE (aggressive_sweep side qty levels) (\<lambda>preview.
     let events = [taker_event ''ORDER_SENT'' (order_send_ts_ms ots) order1,
                   taker_event ''ORDER_VENUE_ACCEPTED'' (order_venue_accept_ts_ms ots) order2] in
     if tif = FOK_TAKER \<and> \<not> fr_is_fully_filled preview then taker_unfilled side tif order2 events ots
     else taker_execute side tif (fr_fills preview) order2 events ots)))))))"

section \<open>On the quantity grid\<close>

lemma no_lot_fills: "sum_list (map snd pqs) = 0 \<Longrightarrow> lot_fills pqs = []"
  by (auto simp: lot_fills_def filter_empty_conv)

lemma lot_fills_Cons:
  "lot_fills ((p, q) # pqs) = (if q = 0 then lot_fills pqs
     else \<lparr>fl_price = lots p, fl_qty = lots q, fl_liquidity = ''taker''\<rparr> # lot_fills pqs)"
  by (simp add: lot_fills_def)

definition taker_status :: "nat \<Rightarrow> order_status \<Rightarrow> nat \<Rightarrow> nat \<Rightarrow> order_status" where
  "taker_status n st f k = (if k = 0 then st else if f + k = n then FILLED else PARTIALLY_FILLED)"

lemma taker_fills_lots:
  assumes "n \<le> max_lots" "good_time t"
  shows "f + sum_list (map snd pqs) \<le> n \<Longrightarrow> st \<in> {ACKNOWLEDGED, PARTIALLY_FILLED} \<Longrightarrow> good_time l \<Longrightarrow> fle l t \<Longrightarrow>
    \<exists>es l'. taker_fills t (lot_fills pqs) (lot_order n st f l) =
      Inr (lot_order n (taker_status n st f (sum_list (map snd pqs))) (f + sum_list (map snd pqs)) l', es) \<and>
      good_time l' \<and> fle l' t"
proof (induction pqs arbitrary: f st l)
  case Nil
  then show ?case by (auto simp: lot_fills_def taker_status_def)
next
  case (Cons x pqs)
  obtain p q where x: "x = (p, q)" by (cases x)
  let ?rest = "sum_list (map snd pqs)"
  show ?case
  proof (cases "q = 0")
    case True
    then show ?thesis using Cons by (simp add: x lot_fills_Cons)
  next
    case False
    have t: "fle t t" using assms(2) by (simp add: good_time_def)
    obtain e where e: "apply_fill (lot_order n st f l) (lots q) t = Inr (e, lot_order n (taker_status n st f q) (f + q) t)"
      using fill_lots [OF assms(1) _ _ _ Cons.prems(3) assms(2) Cons.prems(4), of f q st] Cons.prems(1,2) False
      by (auto simp: x taker_status_def)
    show ?thesis
    proof (cases "f + q = n")
      case True
      then have "?rest = 0" using Cons.prems(1) by (simp add: x del: sum_list_eq_0_iff)
      then show ?thesis using e t assms(2) True False
        by (auto simp: x lot_fills_Cons no_lot_fills taker_status_def)
    next
      case part: False
      have "taker_status n st f q \<in> {ACKNOWLEDGED, PARTIALLY_FILLED}" using False part by (simp add: taker_status_def)
      from Cons.IH [OF _ this assms(2) t, of "f + q"] Cons.prems(1) e False part
      show ?thesis by (fastforce simp: x lot_fills_Cons taker_status_def add.assoc)
    qed
  qed
qed

definition levels_in_order :: "string \<Rightarrow> (nat \<times> nat) list \<Rightarrow> bool" where
  "levels_in_order side ls \<longleftrightarrow> list_all (\<lambda>(p, a). 0 < p \<and> p \<le> max_lots) ls \<and>
     (if side = ''BUY'' then sorted (map fst ls) else sorted_wrt (\<ge>) (map fst ls))"

lemma sum_greedy_zip: "sum_list (map snd (zip (map fst ls) (greedy n (map snd ls)))) = min n (sum_list (map snd ls))"
proof -
  have "length (greedy n as) = length as" for as by (induction as arbitrary: n) simp_all
  then show ?thesis by (simp add: greedy_sum)
qed

text \<open>The result of a simulation that filled \<open>f\<close> of \<open>n\<close> lots with the fills \<open>fs\<close>.\<close>

definition taker_outcome :: "nat \<Rightarrow> nat \<Rightarrow> fill list \<Rightarrow> aggressive_result \<Rightarrow> bool" where
  "taker_outcome n f fs r \<longleftrightarrow> ag_order_qty r = lots n \<and> ag_filled_qty r = lots f \<and> ag_remaining_qty r = lots (n - f) \<and>
     ag_final_status r = (if f = n then FILLED else EXPIRED) \<and> ag_fills r = fs"

lemma taker_execute_lots:
  assumes "0 < n" "n \<le> max_lots" "good_timestamps ots" "sum_list (map snd pqs) \<le> n"
    and "tif = IOC_TAKER \<or> sum_list (map snd pqs) = n"
  shows "\<exists>r. taker_execute side tif (lot_fills pqs) (lot_order n ACKNOWLEDGED 0 (order_venue_accept_ts_ms ots)) events ots = Inr r \<and>
     taker_outcome n (sum_list (map snd pqs)) (lot_fills pqs) r"
proof -
  let ?t = "order_venue_accept_ts_ms ots" and ?f = "sum_list (map snd pqs)"
  have t: "good_time ?t" "fle ?t ?t" using assms(3) by (simp_all add: good_timestamps_def good_time_def)
  obtain es l where f: "taker_fills ?t (lot_fills pqs) (lot_order n ACKNOWLEDGED 0 ?t) =
      Inr (lot_order n (taker_status n ACKNOWLEDGED 0 ?f) ?f l, es)" and l: "good_time l" "fle l ?t"
    using taker_fills_lots [OF assms(2) t(1), of 0 pqs ACKNOWLEDGED ?t] assms(4) t by auto
  show ?thesis
  proof (cases "?f = n")
    case True
    then have "taker_status n ACKNOWLEDGED 0 ?f = FILLED" using assms(1) by (simp add: taker_status_def)
    then show ?thesis using f True assms(2)
      by (simp add: taker_execute_def Let_def taker_result_def taker_outcome_def del: sum_list_eq_0_iff)
  next
    case False
    have st: "taker_status n ACKNOWLEDGED 0 ?f \<in> {ACKNOWLEDGED, PARTIALLY_FILLED}" "taker_status n ACKNOWLEDGED 0 ?f \<noteq> FILLED"
      using False by (simp_all add: taker_status_def)
    obtain e where "expire (lot_order n (taker_status n ACKNOWLEDGED 0 ?f) ?f l) ?t = Inr (e, lot_order n EXPIRED ?f ?t)"
      using expire_lots [OF l(1) t(1) l(2) st(1)] by blast
    then show ?thesis using f False assms(2,4,5) st(2)
      by (simp add: taker_execute_def Let_def taker_result_def taker_outcome_def del: sum_list_eq_0_iff)
  qed
qed

lemma simulate_start:
  assumes "0 < n" "n \<le> max_lots" "good_timestamps ots" "side = ''BUY'' \<or> side = ''SELL''" "aggressive_tif_of tif = Inr k"
  shows "\<exists>events. simulate_aggressive_order side tif (lots n) levels ots =
     bindE (aggressive_sweep side (lots n) levels) (\<lambda>preview.
       let order = lot_order n ACKNOWLEDGED 0 (order_venue_accept_ts_ms ots) in
       if k = FOK_TAKER \<and> \<not> fr_is_fully_filled preview then taker_unfilled side k order events ots
       else taker_execute side k (fr_fills preview) order events ots)"
proof -
  have t: "good_time (order_send_ts_ms ots)" "good_time (order_venue_accept_ts_ms ots)"
    "fle (order_send_ts_ms ots) (order_venue_accept_ts_ms ots)"
    using assms(3) by (simp_all add: good_timestamps_def)
  have "checked_side ''BUY'' = Inr ''BUY''" "checked_side ''SELL'' = Inr ''SELL''" by code_simp+
  then have side: "checked_side side = Inr side" using assms(4) by auto
  have qty: "positive (lots n) ''order_qty'' = Inr (lots n)" using assms(1) by (simp add: positive_def lots_simps)
  obtain e1 where e1: "mark_sent \<lparr>sm_order_qty = lots n, sm_status = NEW, sm_filled_qty = Fin 0, sm_last_event_ts_ms = None\<rparr>
      (order_send_ts_ms ots) = Inr (e1, lot_order n SENT 0 (order_send_ts_ms ots))"
    using sent_lots [OF t(1)] by blast
  obtain e2 where e2: "acknowledge (lot_order n SENT 0 (order_send_ts_ms ots)) (order_venue_accept_ts_ms ots) =
      Inr (e2, lot_order n ACKNOWLEDGED 0 (order_venue_accept_ts_ms ots))"
    using accepted_lots [OF t] by blast
  show ?thesis
    by (rule exI) (simp add: simulate_aggressive_order_def side assms(5) qty new_order_lots [OF assms(1,2)] e1 e2 Let_def)
qed

section \<open>In binary64\<close>

lemma taker_execute_status:
  assumes "taker_execute side tif fills order events ots = Inr r"
  shows "ag_final_status r = FILLED \<or> tif = IOC_TAKER \<and> ag_final_status r = EXPIRED" "ag_fills r = fills"
  using assms by (auto simp: taker_execute_def taker_result_def expire_def sm_transition_Inr err_simps Let_def
      split: prod.splits if_splits; cases tif; simp)+

section \<open>Concrete orders\<close>

text \<open>Orders of a fractional number of shares, as \<open>binary64\<close> has them, all at time 1.\<close>

definition cents :: "int \<Rightarrow> pyfloat" where
  "cents n = b64 (of_int n / 100)"

definition demo_state :: "pyfloat \<Rightarrow> order_status \<Rightarrow> pyfloat \<Rightarrow> osm" where
  "demo_state q st f = \<lparr>sm_order_qty = q, sm_status = st, sm_filled_qty = f, sm_last_event_ts_ms = Some (Fin 1)\<rparr>"

definition demo_times :: order_timestamps where
  "demo_times = \<lparr>order_send_ts_ms = Fin 1, order_venue_arrival_ts_ms = Fin 1, order_venue_accept_ts_ms = Fin 1,
     order_ack_receive_ts_ms = Fin 1\<rparr>"

lemma demo_ts: "sm_checked_ts (demo_state n st f) (Fin 1) = Inr (Fin 1)"
  using not_earlier [of "Fin 1" "Fin 1"] wf_of_int [of 1] by (simp add: sm_checked_ts_Inr demo_state_def)

lemma b64_minus: "b64 (- q) = fneg (b64 q)"
  by (auto simp: b64_eq rnd_minus)

lemma fabs_fsub_swap: "fabs (fsub x y) = fabs (fsub y x)"
proof -
  have "fabs (b64 (a - b)) = fabs (b64 (b - a))" for a b
    using b64_minus [of "b - a"] by (cases "b64 (b - a)") simp_all
  then show ?thesis by (cases x; cases y) (simp_all add: fsub_def)
qed

lemma demo_normalize:
  assumes "\<not> fle f EPS" "fle (Fin 0) f" "fsub n f = r" "\<not> fle r EPS" "fle (Fin 0) r"
  shows "sm_normalize (demo_state n st f) = demo_state n st f"
proof -
  have "fabs f = f" "fabs r = r" using assms(2,5) by (cases f; cases r; auto)+
  then have "fabs (fsub f n) = r" using fabs_fsub_swap [of f n] assms(3) by simp
  then show ?thesis using assms(1,4) \<open>fabs f = f\<close> by (simp add: sm_normalize_def demo_state_def)
qed

lemma demo_remaining: "fsub n f = r \<Longrightarrow> fle (Fin 0) r \<Longrightarrow> sm_remaining_qty (demo_state n st f) = r"
  by (cases r) (auto simp: sm_remaining_qty_def demo_state_def py_max_def)

lemma demo_fill:
  assumes "isfinite q" "flt (Fin 0) q" "\<not> flt (fadd r EPS) q" "fsub n f = r" "fle (Fin 0) r" "fadd f q = f'"
    and "fsub n f' = r'" "\<not> fle r' EPS" "fle (Fin 0) r'" "\<not> fle f' EPS" "fle (Fin 0) f'"
    and "st \<in> {ACKNOWLEDGED, PARTIALLY_FILLED}"
  shows "\<exists>e. apply_fill (demo_state n st f) q (Fin 1) = Inr (e, demo_state n PARTIALLY_FILLED f')"
proof -
  have "sm_normalize ((demo_state n st f)\<lparr>sm_filled_qty := f'\<rparr>) = demo_state n st f'"
    using demo_normalize [OF assms(10,11,7-9), of st] by (simp add: demo_state_def)
  moreover have "sm_remaining_qty (demo_state n st f) = r" "sm_remaining_qty (demo_state n st f') = r'"
    using demo_remaining assms(4,5,7,9) by simp_all
  moreover have "sm_status (demo_state n st f) = st" "sm_filled_qty (demo_state n st f) = f" by (simp_all add: demo_state_def)
  ultimately show ?thesis using assms(1-3,6,8,12) demo_ts [of n st f]
    by (auto simp: apply_fill_def positive_Inr [THEN iffD2] Let_def raise_if_def demo_state_def)
qed

lemma demo_overfill:
  assumes "isfinite q" "flt (Fin 0) q" "flt (fadd r EPS) q" "fsub n f = r" "fle (Fin 0) r"
  shows "apply_fill (demo_state n PARTIALLY_FILLED f) q (Fin 1) = Inl (ValueError ''fill_qty exceeds remaining_qty'')"
  using assms demo_ts [of n PARTIALLY_FILLED f] demo_remaining [OF assms(4,5), of PARTIALLY_FILLED]
  by (simp add: apply_fill_def positive_Inr [THEN iffD2]) (simp add: demo_state_def)

lemma demo_start:
  assumes "checked_side side = Inr side" "aggressive_tif_of tif = Inr k" "isfinite n" "flt (Fin 0) n"
    and "sm_post_init \<lparr>sm_order_qty = n, sm_status = NEW, sm_filled_qty = Fin 0, sm_last_event_ts_ms = None\<rparr> =
      Inr \<lparr>sm_order_qty = n, sm_status = NEW, sm_filled_qty = f, sm_last_event_ts_ms = None\<rparr>"
    and "check_levels 0 levels = Inr levels" "validate_best_to_worst side levels = Inr ()" "sweep_levels n levels = (r, fills)" "fle (fabs r) EPS"
  shows "\<exists>events. simulate_aggressive_order side tif n levels demo_times =
    taker_execute side k fills (demo_state n ACKNOWLEDGED f) events demo_times"
proof -
  have "sm_checked_ts \<lparr>sm_order_qty = n, sm_status = NEW, sm_filled_qty = f, sm_last_event_ts_ms = None\<rparr> (Fin 1) = Inr (Fin 1)"
    by (simp add: sm_checked_ts_Inr)
  then obtain e1 where e1: "mark_sent \<lparr>sm_order_qty = n, sm_status = NEW, sm_filled_qty = f, sm_last_event_ts_ms = None\<rparr>
      (Fin 1) = Inr (e1, demo_state n SENT f)"
    by (auto simp: mark_sent_def sm_transition_Inr demo_state_def)
  obtain e2 where e2: "acknowledge (demo_state n SENT f) (Fin 1) = Inr (e2, demo_state n ACKNOWLEDGED f)"
    using demo_ts [of n SENT f] by (auto simp: acknowledge_def sm_transition_Inr) (auto simp: demo_state_def)
  show ?thesis
    by (rule exI) (simp add: simulate_aggressive_order_def demo_times_def assms positive_Inr [THEN iffD2] new_order_def e1 e2
        aggressive_sweep_def fr_is_fully_filled_def Let_def)
qed

lemma check_levels_valid:
  "list_all (\<lambda>(p, q). isfinite p \<and> flt (Fin 0) p \<and> isfinite q \<and> fle (Fin 0) q) ls \<Longrightarrow> check_levels i ls = Inr ls"
  by (induction ls arbitrary: i) (auto simp: positive_Inr [THEN iffD2] nonnegative_Inr [THEN iffD2])

lemma taker_lots:
  assumes "0 < n" "n \<le> max_lots" "good_timestamps ots" "side = ''BUY'' \<or> side = ''SELL''" "levels_in_order side ls"
    and "tif = ''IOC'' \<or> tif = ''FOK''"
  shows "\<exists>r. simulate_aggressive_order side tif (lots n) (lot_levels ls) ots = Inr r \<and>
    (let visible = sum_list (map snd ls); killed = (tif = ''FOK'' \<and> visible < n) in
     taker_outcome n (if killed then 0 else min n visible)
       (if killed then [] else lot_fills (zip (map fst ls) (greedy n (map snd ls)))) r)"
proof -
  let ?v = "sum_list (map snd ls)" and ?pqs = "zip (map fst ls) (greedy n (map snd ls))"
  let ?o = "lot_order n ACKNOWLEDGED 0 (order_venue_accept_ts_ms ots)"
  define k where "k = (if tif = ''FOK'' then FOK_TAKER else IOC_TAKER)"
  have k: "aggressive_tif_of tif = Inr k" using assms(6) by (auto simp: k_def aggressive_tif_of_def)
  obtain events preview where start: "simulate_aggressive_order side tif (lots n) (lot_levels ls) ots =
      (if k = FOK_TAKER \<and> \<not> fr_is_fully_filled preview then taker_unfilled side k ?o events ots
       else taker_execute side k (fr_fills preview) ?o events ots)"
    and preview: "fr_is_fully_filled preview \<longleftrightarrow> n \<le> ?v" "fr_fills preview = lot_fills ?pqs"
    using simulate_start [OF assms(1-4) k, of "lot_levels ls"] aggressive_sweep_lots [OF assms(1,2) _ assms(4), of ls] assms(5)
    by (force simp: levels_in_order_def Let_def fr_is_fully_filled_def lots_EPS)
  have sum: "sum_list (map snd ?pqs) = min n ?v" by (rule sum_greedy_zip)
  show ?thesis
  proof (cases "k = FOK_TAKER \<and> ?v < n")
    case True
    have t: "good_time (order_venue_accept_ts_ms ots)" using assms(3) by (simp add: good_timestamps_def)
    then obtain e where "expire ?o (order_venue_accept_ts_ms ots) = Inr (e, lot_order n EXPIRED 0 (order_venue_accept_ts_ms ots))"
      using expire_lots [OF t t, of ACKNOWLEDGED n 0] unfolding good_time_def by auto
    then show ?thesis using True start preview(1) assms(1,2)
      by (auto simp: taker_unfilled_def taker_result_def taker_outcome_def Let_def k_def split: if_splits)
  next
    case False
    have full: "k = IOC_TAKER \<or> sum_list (map snd ?pqs) = n" using False sum k_def by auto
    show ?thesis using taker_execute_lots [OF assms(1-3) _ full, of side events] False start preview sum
      by (auto simp: Let_def k_def split: if_splits)
  qed
qed

section \<open>Properties\<close>

text \<open>The aggressive simulation in closed form: on the quantity grid, for levels in best-to-worst order
  and ordered timestamps, an order of \<open>n\<close> lots never raises; an IOC order fills the minimum of \<open>n\<close> and
  the visible quantity and its remainder expires; a FOK order fills completely or, when the visible
  quantity does not suffice, expires with no fill at all; the fills are those of the greedy allocation.\<close>
theorem taker_closed_form:
  assumes "0 < n" "n \<le> max_lots" "good_timestamps ots" "side = ''BUY'' \<or> side = ''SELL''" "levels_in_order side ls"
    and "tif = ''IOC'' \<or> tif = ''FOK''"
  shows "\<exists>r. simulate_aggressive_order side tif (lots n) (lot_levels ls) ots = Inr r \<and>
    (let visible = sum_list (map snd ls); killed = (tif = ''FOK'' \<and> visible < n) in
     taker_outcome n (if killed then 0 else min n visible)
       (if killed then [] else lot_fills (zip (map fst ls) (greedy n (map snd ls)))) r)"
  by (rule taker_lots [OF assms])

definition taken :: "pyfloat \<Rightarrow> pyfloat \<Rightarrow> fill" where
  "taken p q = \<lparr>fl_price = p, fl_qty = q, fl_liquidity = ''taker''\<rparr>"

text \<open>An order of 17879.69 shares and a book of 8323.2, 9544.49 and 12 shares: the quantities \<open>binary64\<close> has
  for the decimals, what is left after the first and after both fills, and the last fill.\<close>

definition qty_b :: pyfloat where
  "qty_b = Fin (4914731764007567 / 274877906944)"

definition fill_b1 :: pyfloat where
  "fill_b1 = Fin (2287863795076301 / 274877906944)"

definition fill_b2 :: pyfloat where
  "fill_b2 = Fin (5247138868095877 / 549755813888)"

definition left_b1 :: pyfloat where
  "left_b1 = Fin (1313433984465633 / 137438953472)"

definition fill_b3 :: pyfloat where
  "fill_b3 = Fin (6597069766655 / 549755813888)"

definition sum_b2 :: pyfloat where
  "sum_b2 = Fin (306964576820265 / 17179869184)"

definition left_b2 :: pyfloat where
  "left_b2 = Fin (3298534883327 / 274877906944)"

lemmas b_defs = qty_b_def fill_b1_def fill_b2_def left_b1_def fill_b3_def sum_b2_def left_b2_def

lemma cents_b: "cents 1787969 = qty_b" "cents 832320 = fill_b1" "cents 954449 = fill_b2"
  by code_simp+

lemma steps_b:
  "fsub qty_b fill_b1 = left_b1" "fadd fill_b1 fill_b2 = sum_b2" "fsub qty_b sum_b2 = left_b2" "fsub left_b1 fill_b2 = fill_b3"
  "flt (fadd left_b2 EPS) fill_b3"
  by code_simp+

lemma wf_b: "wf_float qty_b" "wf_float fill_b1" "wf_float fill_b2" "wf_float left_b1"
  using cents_b steps_b(1) by (metis cents_def wf_b64 wf_fsub)+

lemma sizes_b:
  "\<not> fle qty_b EPS" "\<not> fle fill_b1 EPS" "\<not> fle fill_b2 EPS" "\<not> fle left_b1 EPS" "\<not> fle fill_b3 EPS" "\<not> fle sum_b2 EPS"
  "\<not> fle left_b2 EPS" "flt fill_b1 qty_b" "flt fill_b2 left_b1" "flt fill_b3 (Fin 12)"
  by (simp_all add: b_defs EPS_eq)

lemma pos_b:
  "isfinite qty_b" "isfinite fill_b1" "isfinite fill_b2" "isfinite fill_b3" "flt (Fin 0) qty_b" "flt (Fin 0) fill_b1"
  "flt (Fin 0) fill_b2" "flt (Fin 0) fill_b3" "fle (Fin 0) qty_b" "fle (Fin 0) fill_b1" "fle (Fin 0) sum_b2"
  "fle (Fin 0) left_b1" "fle (Fin 0) left_b2"
  by (simp_all add: b_defs)

lemma room_b: "\<not> flt (fadd qty_b EPS) fill_b1" "\<not> flt (fadd left_b1 EPS) fill_b2"
  by (rule not_earlier; simp add: wf_b pos_b sizes_b fle_def)+

lemma zero_b: "fsub qty_b (Fin 0) = qty_b" "fadd (Fin 0) fill_b1 = fill_b1"
  using wf_b by simp_all

lemma sweep_b:
  "sweep_levels qty_b [(Fin 1, fill_b1), (Fin 2, fill_b2), (Fin 3, Fin 12)] =
     (Fin 0, [taken (Fin 1) fill_b1, taken (Fin 2) fill_b2, taken (Fin 3) fill_b3])"
proof -
  have "fsub fill_b3 fill_b3 = Fin 0" by (simp add: fill_b3_def)
  moreover have "\<not> fle (Fin 12) EPS" "\<not> flt (Fin 12) fill_b3" by (simp_all add: EPS_eq fill_b3_def)
  ultimately show ?thesis using sizes_b by (simp add: py_min_def steps_b taken_def)
qed

text \<open>An aggressive order never rests and a FOK order is never filled in part: in binary64, for any input,
  a simulation that returns ends FILLED or EXPIRED, a FOK order that is not FILLED has no fill, and an
  IOC order that is returned carries the fills of the sweep.\<close>
theorem taker_never_rests:
  assumes "simulate_aggressive_order side tif q levels ots = Inr r"
  shows "ag_final_status r \<in> {FILLED, EXPIRED} \<and> (tif = ''FOK'' \<longrightarrow> ag_final_status r = EXPIRED \<longrightarrow> ag_fills r = []) \<and>
    (tif = ''IOC'' \<longrightarrow> (\<exists>s preview. aggressive_sweep s q levels = Inr preview \<and> ag_fills r = fr_fills preview))"
proof -
  obtain k s preview order events where k: "aggressive_tif_of tif = Inr k" and p: "aggressive_sweep s q levels = Inr preview"
    and r: "(if k = FOK_TAKER \<and> \<not> fr_is_fully_filled preview then taker_unfilled s k order events ots
      else taker_execute s k (fr_fills preview) order events ots) = Inr r"
    using assms by (auto simp: simulate_aggressive_order_def err_simps contract_simps Let_def split: prod.splits)
  have tif: "k = (if tif = ''FOK'' then FOK_TAKER else IOC_TAKER)" "tif = ''FOK'' \<or> tif = ''IOC''"
    using k by (auto simp: aggressive_tif_of_def split: if_splits)
  show ?thesis
  proof (cases "k = FOK_TAKER \<and> \<not> fr_is_fully_filled preview")
    case True
    then show ?thesis using r tif
      by (auto simp: taker_unfilled_def taker_result_def expire_def sm_transition_Inr err_simps Let_def split: prod.splits)
  next
    case False
    then have "taker_execute s k (fr_fills preview) order events ots = Inr r" using r by argo
    from taker_execute_status [OF this] show ?thesis using tif p by auto
  qed
qed

text \<open>An order below the tolerance starts filled: an IOC order of 1e-13 shares against an empty book
  expires with a filled quantity of 1e-13, nothing remaining and no fill, because the constructor of the
  order snaps a filled quantity of zero to such an order quantity; as FOK it trips an assertion.\<close>
theorem dust_order_phantom_fill:
  "\<exists>q r. q = b64 (1 / 10 ^ 13) \<and> simulate_aggressive_order ''BUY'' ''IOC'' q [] demo_times = Inr r \<and>
     ag_final_status r = EXPIRED \<and> ag_filled_qty r = q \<and> ag_fills r = [] \<and>
     simulate_aggressive_order ''BUY'' ''FOK'' q [] demo_times =
       Inl (AssertionError ''FOK preview promised full fill but execution did not fill'')"
proof -
  define q where "q = b64 (1 / 10 ^ 13)"
  have dust: "q = Fin (3961408125713217 / 39614081257132168796771975168)" unfolding q_def by code_simp
  have wf: "wf_float q" by (simp add: q_def)
  have q: "isfinite q" "flt (Fin 0) q" "fle q EPS" "fabs q = q" by (simp_all add: dust EPS_eq)
  have "fabs (fsub (Fin 0) q) = q" using fabs_fsub_swap [of "Fin 0" q] wf q(4) by simp
  moreover have "\<not> flt (fadd q EPS) (Fin 0)" using add_EPS_ge [of 0] by (simp add: dust)
  ultimately have fresh: "sm_post_init \<lparr>sm_order_qty = q, sm_status = NEW, sm_filled_qty = Fin 0, sm_last_event_ts_ms = None\<rparr> =
      Inr \<lparr>sm_order_qty = q, sm_status = NEW, sm_filled_qty = q, sm_last_event_ts_ms = None\<rparr>"
    using q by (simp add: sm_post_init_def positive_Inr [THEN iffD2] nonnegative_Inr [THEN iffD2] opt_check_def sm_normalize_def)
  have buy: "checked_side ''BUY'' = Inr ''BUY''" and ordered: "validate_best_to_worst ''BUY'' [] = Inr ()" by code_simp+
  have x: "expire (demo_state q ACKNOWLEDGED q) (Fin 1) = Inr (\<lparr>se_event_type = ''EXPIRED'', se_event_ts_ms = Fin 1,
      se_status_before = ACKNOWLEDGED, se_status_after = EXPIRED, se_fill_qty = Fin 0\<rparr>, demo_state q EXPIRED q)"
    using demo_ts [of q ACKNOWLEDGED q] by (auto simp: expire_def sm_transition_Inr) (auto simp: demo_state_def)
  have run: "\<exists>events. simulate_aggressive_order ''BUY'' tif q [] demo_times = taker_execute ''BUY'' k [] (demo_state q ACKNOWLEDGED q) events demo_times"
    if "aggressive_tif_of tif = Inr k" for tif k
    by (rule demo_start [OF buy that q(1,2) fresh check_levels.simps(1) ordered sweep_levels.simps(1)]) (simp add: q)
  show ?thesis
    unfolding q_def [symmetric] using run [of "''IOC''"] run [of "''FOK''"] x
    by (auto simp: aggressive_tif_of_def taker_execute_def taker_result_def demo_times_def Let_def demo_state_def)
qed

text \<open>The preview of the sweep and the order disagree on rounding: for an order of 17879.69 shares that
  meets a book of 8323.2, 9544.49 and 12 shares, the sweep promises a full fill, but the order's own
  sum of the first two fills leaves less than the third fill: the simulation raises, for IOC and FOK,
  where it should report a filled order.\<close>
theorem preview_not_executable:
  "\<exists>preview. aggressive_sweep ''BUY'' (cents 1787969) [(Fin 1, cents 832320), (Fin 2, cents 954449), (Fin 3, Fin 12)] = Inr preview \<and>
     fr_is_fully_filled preview \<and> fr_remaining_qty preview = Fin 0 \<and>
     simulate_aggressive_order ''BUY'' ''IOC'' (cents 1787969)
        [(Fin 1, cents 832320), (Fin 2, cents 954449), (Fin 3, Fin 12)] demo_times =
        Inl (ValueError ''fill_qty exceeds remaining_qty'') \<and>
     simulate_aggressive_order ''BUY'' ''FOK'' (cents 1787969)
        [(Fin 1, cents 832320), (Fin 2, cents 954449), (Fin 3, Fin 12)] demo_times =
        Inl (ValueError ''fill_qty exceeds remaining_qty'')"
proof -
  let ?book = "[(Fin 1, fill_b1), (Fin 2, fill_b2), (Fin 3, Fin 12)]"
  let ?fills = "[taken (Fin 1) fill_b1, taken (Fin 2) fill_b2, taken (Fin 3) fill_b3]"
  have checked: "check_levels 0 ?book = Inr ?book" by (rule check_levels_valid) (simp add: b_defs)
  have ordered: "validate_best_to_worst ''BUY'' ?book = Inr ()" by code_simp
  have buy: "checked_side ''BUY'' = Inr ''BUY''" by code_simp
  have fin: "isfinite qty_b" "flt (Fin 0) qty_b" by (simp_all add: b_defs)
  have fresh: "sm_post_init \<lparr>sm_order_qty = qty_b, sm_status = NEW, sm_filled_qty = Fin 0, sm_last_event_ts_ms = None\<rparr> =
      Inr \<lparr>sm_order_qty = qty_b, sm_status = NEW, sm_filled_qty = Fin 0, sm_last_event_ts_ms = None\<rparr>"
    by code_simp
  have f1: "\<exists>e. apply_fill (demo_state qty_b ACKNOWLEDGED (Fin 0)) fill_b1 (Fin 1) = Inr (e, demo_state qty_b PARTIALLY_FILLED fill_b1)"
    by (rule demo_fill [where r = qty_b and r' = left_b1]) (simp_all add: pos_b sizes_b steps_b room_b zero_b)
  have f2: "\<exists>e. apply_fill (demo_state qty_b PARTIALLY_FILLED fill_b1) fill_b2 (Fin 1) = Inr (e, demo_state qty_b PARTIALLY_FILLED sum_b2)"
    by (rule demo_fill [where r = left_b1 and r' = left_b2]) (simp_all add: pos_b sizes_b steps_b room_b)
  have f3: "apply_fill (demo_state qty_b PARTIALLY_FILLED sum_b2) fill_b3 (Fin 1) = Inl (ValueError ''fill_qty exceeds remaining_qty'')"
    by (rule demo_overfill [where r = left_b2]) (simp_all add: pos_b steps_b)
  have run: "taker_fills (Fin 1) ?fills (demo_state qty_b ACKNOWLEDGED (Fin 0)) = Inl (ValueError ''fill_qty exceeds remaining_qty'')"
    using f1 f2 f3 by (auto simp: taken_def)
  have "simulate_aggressive_order ''BUY'' tif qty_b ?book demo_times = Inl (ValueError ''fill_qty exceeds remaining_qty'')"
    if tif: "aggressive_tif_of tif = Inr k" for tif k
    using demo_start [OF buy tif fin fresh checked ordered sweep_b] run
    by (auto simp: taker_execute_def demo_times_def Let_def)
  moreover have "\<exists>preview. aggressive_sweep ''BUY'' qty_b ?book = Inr preview \<and> fr_is_fully_filled preview \<and>
      fr_remaining_qty preview = Fin 0"
    by (simp add: aggressive_sweep_def buy positive_Inr [THEN iffD2] fin checked ordered sweep_b fr_is_fully_filled_def
        Let_def del: check_levels.simps sweep_levels.simps)
  ultimately show ?thesis by (auto simp: cents_b aggressive_tif_of_def)
qed

end
