(* ===== verification/CostPnl.thy ===== *)
theory CostPnl
  imports TakerSim PassiveSim
begin

text \<open>
  \<open>src/std0_quant/execution/cost_pnl.py\<close> and \<open>costed_simulator.py\<close>: fees, rebates, slippage and the
  fill-adjusted profit of a simulated order.
\<close>

definition BPS :: pyfloat where
  "BPS = Fin 10000"

record fee_schedule =
  maker_fee_bps :: pyfloat
  taker_fee_bps :: pyfloat
  maker_rebate_bps :: pyfloat

definition fee_schedule_post_init :: "fee_schedule \<Rightarrow> fee_schedule res" where
  "fee_schedule_post_init f =
     bindE (nonnegative (maker_fee_bps f) ''maker_fee_bps'') (\<lambda>m.
     bindE (nonnegative (taker_fee_bps f) ''taker_fee_bps'') (\<lambda>t.
     bindE (nonnegative (maker_rebate_bps f) ''maker_rebate_bps'') (\<lambda>r.
     Inr \<lparr>maker_fee_bps = m, taker_fee_bps = t, maker_rebate_bps = r\<rparr>)))"

definition no_fees :: fee_schedule where
  "no_fees = \<lparr>maker_fee_bps = Fin 0, taker_fee_bps = Fin 0, maker_rebate_bps = Fin 0\<rparr>"

record cost_summary =
  cs_side :: string
  cs_requested_qty :: pyfloat
  cs_filled_qty :: pyfloat
  cs_unfilled_qty :: pyfloat
  cs_fill_ratio :: pyfloat
  cs_average_fill_price :: "pyfloat option"
  cs_reference_price :: pyfloat
  cs_gross_notional :: pyfloat
  cs_fee_cost :: pyfloat
  cs_rebate_credit :: pyfloat
  cs_net_fee_cost :: pyfloat
  cs_slippage_per_unit :: "pyfloat option"
  cs_slippage_cost :: pyfloat
  cs_total_execution_cost :: pyfloat

record pnl_summary =
  pn_side :: string
  pn_filled_qty :: pyfloat
  pn_average_fill_price :: "pyfloat option"
  pn_mark_price :: pyfloat
  pn_gross_pnl :: pyfloat
  pn_net_fee_cost :: pyfloat
  pn_net_pnl :: pyfloat

text \<open>The running totals of the loop over the fills.\<close>

record totals =
  to_filled :: pyfloat
  to_notional :: pyfloat
  to_fee :: pyfloat
  to_rebate :: pyfloat

definition bps_of :: "pyfloat \<Rightarrow> pyfloat \<Rightarrow> pyfloat res" where
  "bps_of notional bps = fdiv (fmul notional bps) BPS"

definition add_fill :: "fee_schedule \<Rightarrow> pyfloat \<Rightarrow> pyfloat \<Rightarrow> string \<Rightarrow> totals \<Rightarrow> totals res" where
  "add_fill fees price qty liquidity t =
     (let notional = fmul price qty;
          t1 = t\<lparr>to_filled := fadd (to_filled t) qty, to_notional := fadd (to_notional t) notional\<rparr> in
      if liquidity = ''maker'' then
        bindE (bps_of notional (maker_fee_bps fees)) (\<lambda>fee.
        bindE (bps_of notional (maker_rebate_bps fees)) (\<lambda>rebate.
        Inr (t1\<lparr>to_fee := fadd (to_fee t1) fee, to_rebate := fadd (to_rebate t1) rebate\<rparr>)))
      else
        bindE (bps_of notional (taker_fee_bps fees)) (\<lambda>fee.
        Inr (t1\<lparr>to_fee := fadd (to_fee t1) fee\<rparr>)))"

fun sum_fills :: "fee_schedule \<Rightarrow> nat \<Rightarrow> fill list \<Rightarrow> totals \<Rightarrow> totals res" where
  "sum_fills fees index [] t = Inr t"
| "sum_fills fees index (f # fs) t =
     bindE (positive (fl_price f) (''fills['' @ nat_str index @ ''].price'')) (\<lambda>price.
     bindE (positive (fl_qty f) (''fills['' @ nat_str index @ ''].qty'')) (\<lambda>qty.
     raise_if (fl_liquidity f \<noteq> ''maker'' \<and> fl_liquidity f \<noteq> ''taker'')
       (ValueError (''unsupported liquidity type: '' @ fl_liquidity f)) (
     bindE (add_fill fees price qty (fl_liquidity f) t) (\<lambda>t1.
     sum_fills fees (index + 1) fs t1))))"

definition slippage_per_unit :: "string \<Rightarrow> pyfloat \<Rightarrow> pyfloat \<Rightarrow> pyfloat" where
  "slippage_per_unit side average reference =
     (if side = ''BUY'' then fsub average reference else fsub reference average)"

definition summarize_execution ::
  "string \<Rightarrow> pyfloat \<Rightarrow> fill list \<Rightarrow> pyfloat \<Rightarrow> fee_schedule option \<Rightarrow> cost_summary res" where
  "summarize_execution side0 requested0 fills reference0 fee_schedule =
     bindE (checked_side side0) (\<lambda>side.
     bindE (positive requested0 ''requested_qty'') (\<lambda>requested.
     bindE (positive reference0 ''reference_price'') (\<lambda>reference.
     let fees = (case fee_schedule of None \<Rightarrow> no_fees | Some f \<Rightarrow> f) in
     bindE (sum_fills fees 0 fills \<lparr>to_filled = Fin 0, to_notional = Fin 0, to_fee = Fin 0, to_rebate = Fin 0\<rparr>) (\<lambda>t.
     raise_if (flt (fadd requested EPS) (to_filled t)) (ValueError ''filled quantity exceeds requested quantity'') (
     bindE (fdiv (to_filled t) requested) (\<lambda>fill_ratio.
     bindE (if fle (to_filled t) EPS then Inr (None, None, Fin 0)
            else bindE (fdiv (to_notional t) (to_filled t)) (\<lambda>average.
                 let per_unit = slippage_per_unit side average reference
                 in Inr (Some average, Some per_unit, fmul per_unit (to_filled t)))) (\<lambda>(average, per_unit, slippage_cost).
     let net_fee_cost = fsub (to_fee t) (to_rebate t) in
     Inr \<lparr>cs_side = side, cs_requested_qty = requested, cs_filled_qty = to_filled t,
          cs_unfilled_qty = py_max (Fin 0) (fsub requested (to_filled t)), cs_fill_ratio = fill_ratio,
          cs_average_fill_price = average, cs_reference_price = reference, cs_gross_notional = to_notional t,
          cs_fee_cost = to_fee t, cs_rebate_credit = to_rebate t, cs_net_fee_cost = net_fee_cost,
          cs_slippage_per_unit = per_unit, cs_slippage_cost = slippage_cost,
          cs_total_execution_cost = fadd slippage_cost net_fee_cost\<rparr>)))))))"

definition as_float :: "pyfloat option \<Rightarrow> pyfloat res" where
  "as_float x = (case x of None \<Rightarrow> Inl (TypeError ''float() argument must be a string or a real number'') | Some v \<Rightarrow> Inr v)"

definition mark_to_market_pnl :: "cost_summary \<Rightarrow> pyfloat \<Rightarrow> pnl_summary res" where
  "mark_to_market_pnl execution mark_price =
     bindE (nonnegative mark_price ''mark_price'') (\<lambda>mark.
     bindE (if fle (cs_filled_qty execution) EPS then Inr (Fin 0)
            else bindE (as_float (cs_average_fill_price execution)) (\<lambda>average.
                 Inr (fmul (if cs_side execution = ''BUY'' then fsub mark average else fsub average mark)
                           (cs_filled_qty execution)))) (\<lambda>gross_pnl.
     Inr \<lparr>pn_side = cs_side execution, pn_filled_qty = cs_filled_qty execution,
          pn_average_fill_price = cs_average_fill_price execution, pn_mark_price = mark, pn_gross_pnl = gross_pnl,
          pn_net_fee_cost = cs_net_fee_cost execution, pn_net_pnl = fsub gross_pnl (cs_net_fee_cost execution)\<rparr>))"

section \<open>The costed simulators\<close>

record costed_passive =
  cp_simulation :: passive_result
  cp_execution :: cost_summary
  cp_pnl :: pnl_summary

record costed_aggressive =
  ca_simulation :: aggressive_result
  ca_execution :: cost_summary
  ca_pnl :: pnl_summary

definition simulate_passive_with_costs ::
  "string \<Rightarrow> pyfloat \<Rightarrow> pyfloat \<Rightarrow> pyfloat \<Rightarrow> order_timestamps \<Rightarrow> trade_event list \<Rightarrow> pyfloat \<Rightarrow> pyfloat \<Rightarrow>
   fee_schedule option \<Rightarrow> cancel_timestamps option \<Rightarrow> costed_passive res" where
  "simulate_passive_with_costs side qty price displayed ots trades reference mark fees cancel =
     bindE (simulate_passive_order qty price displayed ots trades cancel) (\<lambda>simulation.
     bindE (summarize_execution side qty (ps_fills simulation) reference fees) (\<lambda>execution.
     bindE (mark_to_market_pnl execution mark) (\<lambda>pnl.
     Inr \<lparr>cp_simulation = simulation, cp_execution = execution, cp_pnl = pnl\<rparr>)))"

definition simulate_aggressive_with_costs ::
  "string \<Rightarrow> string \<Rightarrow> pyfloat \<Rightarrow> level list \<Rightarrow> order_timestamps \<Rightarrow> pyfloat \<Rightarrow> pyfloat \<Rightarrow>
   fee_schedule option \<Rightarrow> costed_aggressive res" where
  "simulate_aggressive_with_costs side tif qty levels ots reference mark fees =
     bindE (simulate_aggressive_order side tif qty levels ots) (\<lambda>simulation.
     bindE (summarize_execution side qty (ag_fills simulation) reference fees) (\<lambda>execution.
     bindE (mark_to_market_pnl execution mark) (\<lambda>pnl.
     Inr \<lparr>ca_simulation = simulation, ca_execution = execution, ca_pnl = pnl\<rparr>)))"

section \<open>The totals\<close>

definition qty_of :: "fill list \<Rightarrow> nat list \<Rightarrow> bool" where
  "qty_of fs qs \<longleftrightarrow> list_all2 (\<lambda>f q. fl_qty f = lots q \<and> 0 < q \<and> isfinite (fl_price f) \<and> flt (Fin 0) (fl_price f) \<and>
     (fl_liquidity f = ''maker'' \<or> fl_liquidity f = ''taker'')) fs qs"

lemma bps_total: "\<exists>x. bps_of notional bps = Inr x"
  by (simp add: bps_of_def BPS_def)

lemma add_fill_total: "\<exists>t'. add_fill fees p q l t = Inr t' \<and> to_filled t' = fadd (to_filled t) q"
  using bps_total [of "fmul p q" "maker_fee_bps fees"] bps_total [of "fmul p q" "maker_rebate_bps fees"]
    bps_total [of "fmul p q" "taker_fee_bps fees"]
  by (auto simp: add_fill_def Let_def)

lemma sum_fills_lots:
  "qty_of fs qs \<Longrightarrow> to_filled t = lots k \<Longrightarrow> k + sum_list qs \<le> max_lots \<Longrightarrow>
     \<exists>t'. sum_fills fees i fs t = Inr t' \<and> to_filled t' = lots (k + sum_list qs)"
proof (induction fs arbitrary: qs t k i)
  case Nil
  then show ?case by (simp add: qty_of_def)
next
  case (Cons f fs)
  obtain q qs' where qs: "qs = q # qs'" "qty_of fs qs'" and f: "fl_qty f = lots q" "0 < q" "isfinite (fl_price f)"
    "flt (Fin 0) (fl_price f)" "fl_liquidity f = ''maker'' \<or> fl_liquidity f = ''taker''"
    using Cons.prems(1) by (auto simp: qty_of_def list_all2_Cons1)
  obtain t1 where t1: "add_fill fees (fl_price f) (lots q) (fl_liquidity f) t = Inr t1" "to_filled t1 = lots (k + q)"
    using add_fill_total [of fees "fl_price f" "lots q" "fl_liquidity f" t] Cons.prems(2,3) qs(1) fadd_lots [of k q] by auto
  have "positive (fl_price f) nm = Inr (fl_price f)" "positive (lots q) nm = Inr (lots q)" for nm
    using f by (simp_all add: positive_Inr [THEN iffD2] lots_simps)
  then show ?case using Cons.IH [OF qs(2) t1(2), of "i + 1"] Cons.prems(3) f t1(1)
    by (auto simp: qs(1) raise_if_def add.assoc)
qed

definition quantities :: "cost_summary \<Rightarrow> nat \<Rightarrow> nat \<Rightarrow> bool" where
  "quantities e n f \<longleftrightarrow> cs_requested_qty e = lots n \<and> cs_filled_qty e = lots f \<and> cs_unfilled_qty e = lots (n - f) \<and>
     (f = 0 \<longleftrightarrow> cs_average_fill_price e = None) \<and> (f = 0 \<longrightarrow> cs_slippage_cost e = Fin 0)"

lemma fdiv_lots: "0 < n \<Longrightarrow> \<exists>x. fdiv y (lots n) = Inr x"
  by (simp add: lots_def)

lemma summarize_lots:
  assumes "0 < n" "n \<le> max_lots" "qty_of fs qs" "sum_list qs \<le> n" "isfinite ref" "flt (Fin 0) ref" "checked_side side = Inr s"
  shows "\<exists>e. summarize_execution side (lots n) fs ref fees = Inr e \<and> quantities e n (sum_list qs) \<and> cs_side e = s"
proof -
  define fee where "fee = (case fees of None \<Rightarrow> no_fees | Some f \<Rightarrow> f)"
  let ?t0 = "\<lparr>to_filled = Fin 0, to_notional = Fin 0, to_fee = Fin 0, to_rebate = Fin 0\<rparr>"
  obtain t where t: "sum_fills fee 0 fs ?t0 = Inr t" "to_filled t = lots (sum_list qs)"
    using sum_fills_lots [OF assms(3), of ?t0 0 fee 0] assms(2,4) by auto
  have pos: "positive (lots n) nm = Inr (lots n)" "positive ref nm = Inr ref" for nm
    using assms(1,5,6) by (simp_all add: positive_Inr [THEN iffD2] lots_simps)
  have ok: "\<not> flt (fadd (lots n) EPS) (lots (sum_list qs))" using lots_add_EPS [of n "sum_list qs"] assms(2,4) by simp
  have left: "py_max (Fin 0) (fsub (lots n) (lots (sum_list qs))) = lots (n - sum_list qs)"
    using assms(2,4) by (simp add: lots_simps)
  obtain ratio where ratio: "fdiv (lots (sum_list qs)) (lots n) = Inr ratio" using fdiv_lots [OF assms(1)] by blast
  note step = summarize_execution_def assms(7) pos fee_def [symmetric] t ok ratio left Let_def
  show ?thesis
  proof (cases "sum_list qs = 0")
    case True
    then have "fle (lots (sum_list qs)) EPS" by (simp add: lots_EPS del: sum_list_eq_0_iff)
    then have "\<exists>e. summarize_execution side (lots n) fs ref fees = Inr e \<and> cs_requested_qty e = lots n \<and>
        cs_filled_qty e = lots (sum_list qs) \<and> cs_unfilled_qty e = lots (n - sum_list qs) \<and>
        cs_average_fill_price e = None \<and> cs_slippage_cost e = Fin 0 \<and> cs_side e = s"
      by (simp add: step)
    then show ?thesis using True by (auto simp: quantities_def simp del: sum_list_eq_0_iff)
  next
    case False
    then have "\<not> fle (lots (sum_list qs)) EPS" by (simp add: lots_EPS del: sum_list_eq_0_iff)
    moreover obtain avg where "fdiv (to_notional t) (lots (sum_list qs)) = Inr avg"
      using fdiv_lots [of "sum_list qs"] False by (auto simp del: sum_list_eq_0_iff)
    ultimately show ?thesis using False by (simp add: step quantities_def del: sum_list_eq_0_iff)
  qed
qed

lemma pnl_lots:
  assumes "quantities e n f" "isfinite mark" "fle (Fin 0) mark"
  shows "\<exists>q. mark_to_market_pnl e mark = Inr q \<and> pn_filled_qty q = lots f \<and> (f = 0 \<longrightarrow> pn_gross_pnl q = Fin 0)"
  using assms by (cases "f = 0")
    (auto simp: mark_to_market_pnl_def nonnegative_Inr [THEN iffD2] quantities_def lots_EPS as_float_def split: option.splits)

section \<open>Signs\<close>

lemma fneg_finf: "fneg (finf b) = finf (\<not> b)"
  by (cases b) simp_all

lemma fmul_fneg: "fmul (fneg x) y = fneg (fmul x y)"
proof (cases x; cases y)
  fix a b assume "x = Fin a" "y = Fin b"
  then show ?thesis using b64_minus [of "a * b"] by simp
qed (auto simp: fneg_finf not_less order.order_iff_strict intro!: arg_cong [where f = finf])

lemma fsub_swap: "fsub x y = fneg (fsub y x)"
proof (cases x; cases y)
  fix a b assume "x = Fin a" "y = Fin b"
  then show ?thesis using b64_minus [of "b - a"] by simp
qed (simp_all add: fsub_def)

section \<open>Properties\<close>

text \<open>No profit on what was not filled: on the quantity grid, whenever the passive simulation
  with costs is run within its preconditions it never raises, the execution summary reports
  exactly the simulated filled and unfilled quantities, and an order without fills has no average
  price, no slippage and no gross profit.\<close>
theorem costs_follow_fills:
  assumes "0 < n" "n \<le> max_lots" "a \<le> max_lots" "isfinite p" "flt (Fin 0) p" "good_timestamps ots"
    and "list_all (trade_ok (order_venue_accept_ts_ms ots)) ts" "cancel_ok (order_venue_accept_ts_ms ots) ts c"
    and "side = ''BUY'' \<or> side = ''SELL''" "isfinite ref" "flt (Fin 0) ref" "isfinite mark" "fle (Fin 0) mark"
  shows "\<exists>r f. simulate_passive_with_costs side (lots n) p (lots a) ots ts ref mark fees c = Inr r \<and>
    f = min n (traded (map_option cancel_effective_ts_ms c) ts - a) \<and> ps_filled_qty (cp_simulation r) = lots f \<and>
    cs_filled_qty (cp_execution r) = lots f \<and> cs_unfilled_qty (cp_execution r) = ps_remaining_qty (cp_simulation r) \<and>
    pn_filled_qty (cp_pnl r) = lots f \<and>
    (f = 0 \<longrightarrow> cs_average_fill_price (cp_execution r) = None \<and> cs_slippage_cost (cp_execution r) = Fin 0 \<and>
      pn_gross_pnl (cp_pnl r) = Fin 0)"
proof -
  define f where "f = min n (traded (map_option cancel_effective_ts_ms c) ts - a)"
  obtain sim qs where sim: "simulate_passive_order (lots n) p (lots a) ots ts c = Inr sim" "ps_filled_qty sim = lots f"
    "ps_remaining_qty sim = lots (n - f)" "ps_fills sim = maker_fills p qs" "sum_list qs = f"
    using simulation_lots [OF assms(1-8)] by (auto simp: passive_outcome_def f_def)
  have "checked_side ''BUY'' = Inr ''BUY''" "checked_side ''SELL'' = Inr ''SELL''" by code_simp+
  then have side: "checked_side side = Inr side" using assms(9) by auto
  have "qty_of (maker_fills p qs) (filter (\<lambda>q. 0 < q) qs)"
    using assms(4,5) by (auto simp: qty_of_def maker_fills_def list_all2_map1 intro: list.rel_refl_strong)
  moreover have "sum_list (filter (\<lambda>q. 0 < q) qs) = f" using sim(5) sum_list_map_filter [of qs "\<lambda>q. 0 < q" "\<lambda>q. q"] by simp
  ultimately obtain e where e: "summarize_execution side (lots n) (maker_fills p qs) ref fees = Inr e" "quantities e n f"
    using summarize_lots [OF assms(1,2) _ _ assms(10,11) side, of "maker_fills p qs" "filter (\<lambda>q. 0 < q) qs" fees] f_def
    by auto
  obtain q where q: "mark_to_market_pnl e mark = Inr q" "pn_filled_qty q = lots f" "f = 0 \<longrightarrow> pn_gross_pnl q = Fin 0"
    using pnl_lots [OF e(2) assms(12,13)] by blast
  show ?thesis using sim e q unfolding f_def [symmetric]
    by (auto simp: simulate_passive_with_costs_def quantities_def)
qed

lemma slippage_mirror: "slippage_per_unit ''SELL'' a r = fneg (slippage_per_unit ''BUY'' a r)"
  using fsub_swap [of r a] by (simp add: slippage_per_unit_def)

text \<open>Buying and selling mirror each other: for the same fills and reference price the summary of a
  SELL has the quantities, fees and rebates of the BUY, its slippage cost is exactly the negative one,
  and so is its gross profit at every mark price, in binary64 and for any fees.\<close>
theorem sell_mirrors_buy:
  assumes "summarize_execution ''BUY'' q fs ref fees = Inr b"
  shows "\<exists>s. summarize_execution ''SELL'' q fs ref fees = Inr s \<and> cs_filled_qty s = cs_filled_qty b \<and>
    cs_net_fee_cost s = cs_net_fee_cost b \<and> cs_average_fill_price s = cs_average_fill_price b \<and>
    cs_slippage_cost s = fneg (cs_slippage_cost b) \<and>
    (\<forall>m x. mark_to_market_pnl b m = Inr x \<longrightarrow> (\<exists>y. mark_to_market_pnl s m = Inr y \<and> pn_gross_pnl y = fneg (pn_gross_pnl x)))"
proof -
  have side: "checked_side ''BUY'' = Inr ''BUY''" "checked_side ''SELL'' = Inr ''SELL''" by code_simp+
  have z: "fneg (Fin 0) = Fin 0" by simp
  obtain s where s: "summarize_execution ''SELL'' q fs ref fees = Inr s" "cs_side s = ''SELL''" "cs_side b = ''BUY''"
    "cs_filled_qty s = cs_filled_qty b" "cs_net_fee_cost s = cs_net_fee_cost b"
    "cs_average_fill_price s = cs_average_fill_price b" "cs_slippage_cost s = fneg (cs_slippage_cost b)"
    using assms by (auto simp: summarize_execution_def side err_simps Let_def slippage_mirror fmul_fneg split: if_splits prod.splits)
  have "\<exists>y. mark_to_market_pnl s m = Inr y \<and> pn_gross_pnl y = fneg (pn_gross_pnl x)" if m: "mark_to_market_pnl b m = Inr x" for m x
  proof (cases "fle (cs_filled_qty b) EPS")
    case True
    then show ?thesis using m s by (auto simp: mark_to_market_pnl_def err_simps)
  next
    case False
    then obtain a where a: "cs_average_fill_price b = Some a"
      using m by (auto simp: mark_to_market_pnl_def as_float_def err_simps split: option.splits)
    have mirror: "fsub a m = fneg (fsub m a)" by (rule fsub_swap)
    show ?thesis using m s False a
      by (auto simp: mark_to_market_pnl_def as_float_def err_simps contract_simps mirror fmul_fneg)
  qed
  then show ?thesis using s by blast
qed

end
