(* ===== verification/Pipelines.thy ===== *)
theory Pipelines
  imports CostPnl Risk
begin

text \<open>
  \<open>src/std0_quant/execution/risk_execution_pipeline.py\<close> and \<open>passive_risk_pipeline.py\<close>: an order intent
  goes through the risk gate, capital or inventory is reserved, the order is simulated with costs, the
  actual fills are booked in the portfolio and what is left of the reservation is released.  The
  portfolio is the caller's object: a run returns its result or exception with the portfolio it leaves.
  The order's own reservation is a local variable that the exception handler reads, so it is part of
  the state inside the \<open>try\<close> block.
\<close>

text \<open>\<open>try ... except Exception: handler; raise\<close>: an exception of the handler replaces the first one.\<close>

definition on_exception :: "'b res \<times> 's \<Rightarrow> ('s \<Rightarrow> unit res \<times> 's) \<Rightarrow> 'b res \<times> 's" where
  "on_exception m h = (case m of
     (Inr x, s) \<Rightarrow> (Inr x, s)
   | (Inl e, s) \<Rightarrow> (case h s of (Inl e', s') \<Rightarrow> (Inl e', s') | (Inr _, s') \<Rightarrow> (Inl e, s')))"

text \<open>A method of the portfolio, called with local variables beside it.\<close>

definition on_pf :: "(portfolio \<Rightarrow> 'a res \<times> portfolio) \<Rightarrow> portfolio \<times> 'l \<Rightarrow> 'a res \<times> (portfolio \<times> 'l)" where
  "on_pf m s = (case m (fst s) of (r, p) \<Rightarrow> (r, (p, snd s)))"

section \<open>The aggressive pipeline\<close>

record gated_result =
  ge_risk :: risk_result
  ge_execution :: "costed_aggressive option"
  ge_cash_after :: pyfloat
  ge_reserved_cash_after :: pyfloat
  ge_realized_pnl_after :: pyfloat

definition gated_result_of :: "risk_result \<Rightarrow> costed_aggressive option \<Rightarrow> portfolio \<Rightarrow> gated_result" where
  "gated_result_of risk execution p =
     \<lparr>ge_risk = risk, ge_execution = execution, ge_cash_after = pf_cash p,
      ge_reserved_cash_after = pf_reserved_cash p, ge_realized_pnl_after = pf_realized_pnl p\<rparr>"

definition estimated_fee :: "risk_intent \<Rightarrow> pyfloat \<Rightarrow> pyfloat res" where
  "estimated_fee intent fee_bps =
     (if ri_side intent = ''BUY'' then bps_of (ri_order_notional intent) fee_bps else Inr (Fin 0))"

definition effective_context :: "risk_intent \<Rightarrow> pyfloat \<Rightarrow> risk_context \<Rightarrow> risk_context res" where
  "effective_context intent fee_bps context =
     bindE (estimated_fee intent fee_bps) (\<lambda>fee.
     risk_context_post_init (context\<lparr>estimated_fee_cost := fee\<rparr>))"

definition fees_of_fill :: "fee_schedule \<Rightarrow> fill \<Rightarrow> (pyfloat \<times> pyfloat) res" where
  "fees_of_fill fees f =
     (let notional = fmul (fl_price f) (fl_qty f);
          (fee_bps, rebate_bps) = (if fl_liquidity f = ''maker'' then (maker_fee_bps fees, maker_rebate_bps fees)
                                   else (taker_fee_bps fees, Fin 0)) in
      bindE (bps_of notional fee_bps) (\<lambda>fee. bindE (bps_of notional rebate_bps) (\<lambda>rebate. Inr (fee, rebate))))"

definition net_cash_cost :: "fill \<Rightarrow> pyfloat \<Rightarrow> pyfloat \<Rightarrow> pyfloat" where
  "net_cash_cost f fee rebate = fsub (fadd (fmul (fl_price f) (fl_qty f)) fee) rebate"

text \<open>One BUY fill is booked against the reservation of this order.\<close>

definition book_buy :: "string \<Rightarrow> risk_intent \<Rightarrow> fill \<Rightarrow> pyfloat \<Rightarrow> pyfloat \<Rightarrow> portfolio \<times> pyfloat \<Rightarrow> unit res \<times> (portfolio \<times> pyfloat)" where
  "book_buy message intent f fee rebate s =
     (let cost = net_cash_cost f fee rebate in
      failS (flt (fadd (snd s) EPS) cost) (AssertionError message) s (
      thenS (on_pf (apply_buy_fill (ri_condition_id intent) (ri_outcome intent) (fl_qty f) (fl_price f) fee rebate True) s) (\<lambda>_ s1.
      (Inr (), (fst s1, py_max (Fin 0) (fsub (snd s1) cost))))))"

definition book_sell :: "risk_intent \<Rightarrow> fill \<Rightarrow> pyfloat \<Rightarrow> pyfloat \<Rightarrow> portfolio \<times> 'l \<Rightarrow> unit res \<times> (portfolio \<times> 'l)" where
  "book_sell intent f fee rebate s =
     on_pf (apply_sell_fill (ri_condition_id intent) (ri_outcome intent) (fl_qty f) (fl_price f) fee rebate) s"

fun book_taker_fills :: "risk_intent \<Rightarrow> fee_schedule \<Rightarrow> fill list \<Rightarrow> portfolio \<times> pyfloat \<Rightarrow> unit res \<times> (portfolio \<times> pyfloat)" where
  "book_taker_fills intent fees [] s = (Inr (), s)"
| "book_taker_fills intent fees (f # fs) s =
     checkS (fees_of_fill fees f) s (\<lambda>(fee, rebate).
     thenS (if ri_side intent = ''BUY''
            then book_buy ''actual BUY fill cash cost exceeds this order's reserved capital'' intent f fee rebate s
            else book_sell intent f fee rebate s) (\<lambda>_ s1.
     book_taker_fills intent fees fs s1))"

definition release_cash :: "risk_intent \<Rightarrow> portfolio \<times> pyfloat \<Rightarrow> unit res \<times> (portfolio \<times> pyfloat)" where
  "release_cash intent s =
     (if ri_side intent = ''BUY'' \<and> flt EPS (snd s)
      then thenS (on_pf (release_reserved_cash (snd s)) s) (\<lambda>_ s1. (Inr (), (fst s1, Fin 0)))
      else (Inr (), s))"

definition executable_levels :: "risk_intent \<Rightarrow> level list \<Rightarrow> level list" where
  "executable_levels intent levels =
     (if ri_side intent = ''BUY'' then filter (\<lambda>(price, qty). fle price (fadd (ri_limit_price intent) EPS)) levels
      else filter (\<lambda>(price, qty). fle (ri_limit_price intent) (fadd price EPS)) levels)"

definition run_aggressive ::
  "risk_intent \<Rightarrow> string \<Rightarrow> level list \<Rightarrow> order_timestamps \<Rightarrow> pyfloat \<Rightarrow> pyfloat \<Rightarrow> fee_schedule \<Rightarrow>
   portfolio \<times> pyfloat \<Rightarrow> costed_aggressive res \<times> (portfolio \<times> pyfloat)" where
  "run_aggressive intent tif levels ots reference mark fees s =
     checkS (simulate_aggressive_with_costs (ri_side intent) tif (ri_qty intent) (executable_levels intent levels) ots
       reference mark (Some fees)) s (\<lambda>execution.
     thenS (book_taker_fills intent fees (ag_fills (ca_simulation execution)) s) (\<lambda>_ s1.
     thenS (release_cash intent s1) (\<lambda>_ s2. (Inr execution, s2))))"

definition reserve_for_buy :: "risk_intent \<Rightarrow> risk_result \<Rightarrow> portfolio \<Rightarrow> pyfloat res \<times> portfolio" where
  "reserve_for_buy intent risk p =
     (if ri_side intent = ''BUY'' then thenS (reserve_buy_cash (rr_cash_required risk) p) (\<lambda>_ p1. (Inr (rr_cash_required risk), p1))
      else (Inr (Fin 0), p))"

definition execute_aggressive_with_risk ::
  "risk_intent \<Rightarrow> string \<Rightarrow> level list \<Rightarrow> order_timestamps \<Rightarrow> pyfloat \<Rightarrow> pyfloat \<Rightarrow> risk_limits \<Rightarrow> risk_context \<Rightarrow>
   fee_schedule option \<Rightarrow> portfolio \<Rightarrow> gated_result res \<times> portfolio" where
  "execute_aggressive_with_risk intent tif levels ots reference mark limits context fee_schedule p =
     (let fees = (case fee_schedule of None \<Rightarrow> no_fees | Some f \<Rightarrow> f) in
      checkS (effective_context intent (taker_fee_bps fees) context) p (\<lambda>effective.
      checkS (evaluate_order_risk p intent limits effective) p (\<lambda>risk.
      if \<not> rr_allowed risk then (Inr (gated_result_of risk None p), p)
      else thenS (reserve_for_buy intent risk p) (\<lambda>reservation p1.
        (case on_exception (run_aggressive intent tif levels ots reference mark fees (p1, reservation)) (release_cash intent) of
           (Inl e, s) \<Rightarrow> (Inl e, fst s)
         | (Inr execution, s) \<Rightarrow> (Inr (gated_result_of risk (Some execution) (fst s)), fst s))))))"

section \<open>The passive pipeline\<close>

record gated_passive =
  gp_risk :: risk_result
  gp_execution :: "costed_passive option"
  gp_reservation_active :: bool
  gp_reserved_cash_remaining :: pyfloat
  gp_reserved_position_remaining :: pyfloat
  gp_cash_after :: pyfloat
  gp_reserved_cash_after :: pyfloat
  gp_realized_pnl_after :: pyfloat

text \<open>The local variables: the cash and the position this order still has reserved.\<close>

type_synonym reservations = "pyfloat \<times> pyfloat"

definition gated_passive_of ::
  "risk_result \<Rightarrow> costed_passive option \<Rightarrow> bool \<Rightarrow> portfolio \<times> reservations \<Rightarrow> gated_passive" where
  "gated_passive_of risk execution active s =
     \<lparr>gp_risk = risk, gp_execution = execution, gp_reservation_active = active,
      gp_reserved_cash_remaining = fst (snd s), gp_reserved_position_remaining = snd (snd s),
      gp_cash_after = pf_cash (fst s), gp_reserved_cash_after = pf_reserved_cash (fst s),
      gp_realized_pnl_after = pf_realized_pnl (fst s)\<rparr>"

definition maker_fees :: "fee_schedule \<Rightarrow> fill \<Rightarrow> (pyfloat \<times> pyfloat) res" where
  "maker_fees fees f =
     (let notional = fmul (fl_price f) (fl_qty f) in
      bindE (bps_of notional (maker_fee_bps fees)) (\<lambda>fee.
      bindE (bps_of notional (maker_rebate_bps fees)) (\<lambda>rebate. Inr (fee, rebate))))"

definition book_maker_buy :: "risk_intent \<Rightarrow> fill \<Rightarrow> pyfloat \<Rightarrow> pyfloat \<Rightarrow> portfolio \<times> reservations \<Rightarrow> unit res \<times> (portfolio \<times> reservations)" where
  "book_maker_buy intent f fee rebate s =
     (case book_buy ''maker BUY fill exceeds this order's reserved cash'' intent f fee rebate (fst s, fst (snd s)) of
        (r, (p, cash)) \<Rightarrow> (r, (p, (cash, snd (snd s)))))"

definition book_maker_sell :: "risk_intent \<Rightarrow> fill \<Rightarrow> pyfloat \<Rightarrow> pyfloat \<Rightarrow> portfolio \<times> reservations \<Rightarrow> unit res \<times> (portfolio \<times> reservations)" where
  "book_maker_sell intent f fee rebate s =
     failS (flt (fadd (snd (snd s)) EPS) (fl_qty f))
       (AssertionError ''maker SELL fill exceeds this order's reserved position'') s (
     thenS (on_pf (release_reserved_sell_qty (ri_condition_id intent) (ri_outcome intent) (fl_qty f)) s) (\<lambda>_ s1.
     book_sell intent f fee rebate
       (fst s1, (fst (snd s1), py_max (Fin 0) (fsub (snd (snd s1)) (fl_qty f))))))"

fun book_maker_fills :: "risk_intent \<Rightarrow> fee_schedule \<Rightarrow> fill list \<Rightarrow> portfolio \<times> reservations \<Rightarrow> unit res \<times> (portfolio \<times> reservations)" where
  "book_maker_fills intent fees [] s = (Inr (), s)"
| "book_maker_fills intent fees (f # fs) s =
     failS (fl_liquidity f \<noteq> ''maker'') (AssertionError ''passive pipeline received non-maker fill'') s (
     checkS (maker_fees fees f) s (\<lambda>(fee, rebate).
     thenS (if ri_side intent = ''BUY'' then book_maker_buy intent f fee rebate s
            else book_maker_sell intent f fee rebate s) (\<lambda>_ s1.
     book_maker_fills intent fees fs s1)))"

text \<open>Releasing what is left of the order's reservations, at the end and in the exception handler.\<close>

definition release_rest :: "risk_intent \<Rightarrow> portfolio \<times> reservations \<Rightarrow> unit res \<times> (portfolio \<times> reservations)" where
  "release_rest intent s =
     thenS (if ri_side intent = ''BUY'' \<and> flt EPS (fst (snd s))
            then thenS (on_pf (release_reserved_cash (fst (snd s))) s) (\<lambda>_ s1. (Inr (), (fst s1, (Fin 0, snd (snd s1)))))
            else (Inr (), s)) (\<lambda>_ s1.
     if ri_side intent = ''SELL'' \<and> flt EPS (snd (snd s1))
     then thenS (on_pf (release_reserved_sell_qty (ri_condition_id intent) (ri_outcome intent) (snd (snd s1))) s1)
            (\<lambda>_ s2. (Inr (), (fst s2, (fst (snd s2), Fin 0))))
     else (Inr (), s1))"

definition run_passive ::
  "risk_intent \<Rightarrow> pyfloat \<Rightarrow> order_timestamps \<Rightarrow> trade_event list \<Rightarrow> pyfloat \<Rightarrow> pyfloat \<Rightarrow> fee_schedule \<Rightarrow>
   cancel_timestamps option \<Rightarrow> portfolio \<times> reservations \<Rightarrow> (costed_passive \<times> bool) res \<times> (portfolio \<times> reservations)" where
  "run_passive intent displayed ots trades reference mark fees cancel s =
     checkS (simulate_passive_with_costs (ri_side intent) (ri_qty intent) (ri_limit_price intent) displayed ots trades
       reference mark (Some fees) cancel) s (\<lambda>execution.
     thenS (book_maker_fills intent fees (ps_fills (cp_simulation execution)) s) (\<lambda>_ s1.
     let terminal = ps_final_status (cp_simulation execution) \<in> set TERMINAL_STATUSES in
     thenS (if terminal then release_rest intent s1 else (Inr (), s1)) (\<lambda>_ s2.
     (Inr (execution, \<not> terminal \<and> (flt EPS (fst (snd s2)) \<or> flt EPS (snd (snd s2)))), s2))))"

definition reserve_for_order :: "risk_intent \<Rightarrow> risk_result \<Rightarrow> portfolio \<Rightarrow> reservations res \<times> portfolio" where
  "reserve_for_order intent risk p =
     (if ri_side intent = ''BUY''
      then thenS (reserve_buy_cash (rr_cash_required risk) p) (\<lambda>_ p1. (Inr (rr_cash_required risk, Fin 0), p1))
      else thenS (reserve_sell_qty (ri_condition_id intent) (ri_outcome intent) (ri_qty intent) p) (\<lambda>_ p1.
             (Inr (Fin 0, ri_qty intent), p1)))"

definition execute_passive_with_risk ::
  "risk_intent \<Rightarrow> pyfloat \<Rightarrow> order_timestamps \<Rightarrow> trade_event list \<Rightarrow> pyfloat \<Rightarrow> pyfloat \<Rightarrow> risk_limits \<Rightarrow> risk_context \<Rightarrow>
   fee_schedule option \<Rightarrow> cancel_timestamps option \<Rightarrow> portfolio \<Rightarrow> gated_passive res \<times> portfolio" where
  "execute_passive_with_risk intent displayed ots trades reference mark limits context fee_schedule cancel p =
     (let fees = (case fee_schedule of None \<Rightarrow> no_fees | Some f \<Rightarrow> f) in
      checkS (effective_context intent (maker_fee_bps fees) context) p (\<lambda>effective.
      checkS (evaluate_order_risk p intent limits effective) p (\<lambda>risk.
      if \<not> rr_allowed risk then (Inr (gated_passive_of risk None False (p, (Fin 0, Fin 0))), p)
      else thenS (reserve_for_order intent risk p) (\<lambda>reservations p1.
        (case on_exception (run_passive intent displayed ots trades reference mark fees cancel (p1, reservations)) (release_rest intent) of
           (Inl e, s) \<Rightarrow> (Inl e, fst s)
         | (Inr (execution, active), s) \<Rightarrow> (Inr (gated_passive_of risk (Some execution) active s), fst s))))))"

section \<open>The portfolio invariant\<close>

lemma on_exception_Inr [simp]: "on_exception m h = (Inr x, s) \<longleftrightarrow> m = (Inr x, s)"
  by (auto simp: on_exception_def split: prod.splits sum.splits)

lemma on_pf_Inr: "on_pf m s = (Inr x, s') \<longleftrightarrow> m (fst s) = (Inr x, fst s') \<and> snd s' = snd s"
  by (cases s') (auto simp: on_pf_def split: prod.splits)

lemma method_ok:
  "pf_ok p \<Longrightarrow> reserve_buy_cash a p = (Inr (), p') \<Longrightarrow> pf_ok p'"
  "pf_ok p \<Longrightarrow> release_reserved_cash a p = (Inr (), p') \<Longrightarrow> pf_ok p'"
  "pf_ok p \<Longrightarrow> reserve_sell_qty c u q p = (Inr (), p') \<Longrightarrow> pf_ok p'"
  "pf_ok p \<Longrightarrow> release_reserved_sell_qty c u q p = (Inr (), p') \<Longrightarrow> pf_ok p'"
  "pf_ok p \<Longrightarrow> apply_buy_fill c u q pr f rb b p = (Inr (), p') \<Longrightarrow> pf_ok p'"
  "pf_ok p \<Longrightarrow> apply_sell_fill c u q pr f rb p = (Inr (), p') \<Longrightarrow> pf_ok p'"
  using exec_pf_ok [of p "ReserveCash a" p'] exec_pf_ok [of p "ReleaseCash a" p'] exec_pf_ok [of p "ReserveSell c u q" p']
    exec_pf_ok [of p "ReleaseSell c u q" p'] exec_pf_ok [of p "BuyFill c u q pr f rb b" p']
    exec_pf_ok [of p "SellFill c u q pr f rb" p']
  by simp_all

lemma book_buy_ok: "book_buy msg i f fee rb s = (Inr (), s') \<Longrightarrow> pf_ok (fst s) \<Longrightarrow> pf_ok (fst s')"
  by (auto simp: book_buy_def err_simps on_pf_Inr Let_def dest: method_ok(5))

lemma book_sell_ok: "book_sell i f fee rb s = (Inr (), s') \<Longrightarrow> pf_ok (fst s) \<Longrightarrow> pf_ok (fst s')"
  by (auto simp: book_sell_def on_pf_Inr dest: method_ok(6))

lemma book_taker_fills_ok: "book_taker_fills i fees fs s = (Inr (), s') \<Longrightarrow> pf_ok (fst s) \<Longrightarrow> pf_ok (fst s')"
proof (induction fs arbitrary: s)
  case (Cons f fs)
  obtain fee rb where "fees_of_fill fees f = Inr (fee, rb)" using Cons.prems(1) by (auto simp: err_simps)
  then obtain s1 where s1: "(if ri_side i = ''BUY'' then book_buy ''actual BUY fill cash cost exceeds this order's reserved capital'' i f fee rb s
      else book_sell i f fee rb s) = (Inr (), s1)" "book_taker_fills i fees fs s1 = (Inr (), s')"
    using Cons.prems(1) by (auto simp: err_simps)
  have "pf_ok (fst s1)"
    using s1(1) Cons.prems(2) book_buy_ok book_sell_ok by (cases "ri_side i = ''BUY''") (simp_all, blast+)
  then show ?case using Cons.IH s1(2) by blast
qed simp

lemma release_cash_ok: "release_cash i s = (Inr (), s') \<Longrightarrow> pf_ok (fst s) \<Longrightarrow> pf_ok (fst s')"
  by (auto simp: release_cash_def err_simps on_pf_Inr split: if_splits dest: method_ok(2))

lemma reserve_for_buy_ok: "reserve_for_buy i risk p = (Inr r, p') \<Longrightarrow> pf_ok p \<Longrightarrow> pf_ok p'"
  by (auto simp: reserve_for_buy_def err_simps split: if_splits dest: method_ok(1))

lemma book_maker_fills_ok: "book_maker_fills i fees fs s = (Inr (), s') \<Longrightarrow> pf_ok (fst s) \<Longrightarrow> pf_ok (fst s')"
proof (induction fs arbitrary: s)
  case (Cons f fs)
  obtain fee rb where "maker_fees fees f = Inr (fee, rb)" using Cons.prems(1) by (auto simp: err_simps)
  then obtain s1 where s1: "(if ri_side i = ''BUY'' then book_maker_buy i f fee rb s else book_maker_sell i f fee rb s) = (Inr (), s1)"
    "book_maker_fills i fees fs s1 = (Inr (), s')"
    using Cons.prems(1) by (auto simp: err_simps)
  have "pf_ok (fst s1)"
  proof (cases "ri_side i = ''BUY''")
    case True
    then obtain s2 where "book_buy ''maker BUY fill exceeds this order's reserved cash'' i f fee rb (fst s, fst (snd s)) = (Inr (), s2)"
      "fst s1 = fst s2"
      using s1(1) by (auto simp: book_maker_buy_def split: prod.splits)
    then show ?thesis using book_buy_ok Cons.prems(2) by fastforce
  next
    case False
    then obtain s2 where "release_reserved_sell_qty (ri_condition_id i) (ri_outcome i) (fl_qty f) (fst s) = (Inr (), fst s2)"
      "book_sell i f fee rb s2 = (Inr (), s1)"
      using s1(1) by (auto simp: book_maker_sell_def err_simps on_pf_Inr)
    then show ?thesis using book_sell_ok method_ok(4) Cons.prems(2) by blast
  qed
  then show ?case using Cons.IH s1(2) by blast
qed simp

lemma release_rest_ok: "release_rest i s = (Inr (), s') \<Longrightarrow> pf_ok (fst s) \<Longrightarrow> pf_ok (fst s')"
  by (auto simp: release_rest_def err_simps on_pf_Inr split: if_splits dest: method_ok(2,4))

lemma reserve_for_order_ok: "reserve_for_order i risk p = (Inr r, p') \<Longrightarrow> pf_ok p \<Longrightarrow> pf_ok p'"
  by (auto simp: reserve_for_order_def err_simps split: if_splits dest: method_ok(1,3))

section \<open>The limit price\<close>

lemma sweep_prices: "f \<in> set (snd (sweep_levels n ls)) \<Longrightarrow> fl_price f \<in> fst ` set ls"
proof (induction n ls rule: sweep_levels.induct)
  case (2 n p a ls)
  then show ?case by (cases "fle n EPS"; cases "fle a EPS") (auto simp: Let_def split: prod.splits)
qed simp

lemma check_levels_id: "check_levels i ls = Inr ls' \<Longrightarrow> ls' = ls"
  by (induction i ls arbitrary: ls' rule: check_levels.induct) (auto simp: err_simps contract_simps)

lemma taker_prices:
  assumes "simulate_aggressive_order side tif q ls ots = Inr r" "f \<in> set (ag_fills r)"
  shows "fl_price f \<in> fst ` set ls"
proof -
  obtain k s preview order events where p: "aggressive_sweep s q ls = Inr preview"
    and r: "(if k = FOK_TAKER \<and> \<not> fr_is_fully_filled preview then taker_unfilled s k order events ots
      else taker_execute s k (fr_fills preview) order events ots) = Inr r"
    using assms(1) by (auto simp: simulate_aggressive_order_def err_simps contract_simps Let_def split: prod.splits)
  have "f \<in> set (fr_fills preview)"
  proof (cases "k = FOK_TAKER \<and> \<not> fr_is_fully_filled preview")
    case True
    then show ?thesis using r assms(2)
      by (auto simp: taker_unfilled_def taker_result_def err_simps Let_def split: prod.splits)
  next
    case False
    then have "taker_execute s k (fr_fills preview) order events ots = Inr r" using r by argo
    from taker_execute_status(2) [OF this] show ?thesis using assms(2) by simp
  qed
  moreover obtain ls' where "check_levels 0 ls = Inr ls'" "snd (sweep_levels q ls') = fr_fills preview"
    using p by (auto simp: aggressive_sweep_def err_simps contract_simps Let_def case_prod_beta)
  ultimately show ?thesis using sweep_prices check_levels_id by metis
qed

end
