(* ===== verification/PipelineFacts.thy ===== *)
theory PipelineFacts
  imports Pipelines
begin

text \<open>
  Facts about the risk-gated pipelines: the prices of passive fills, the reservations of a portfolio at
  rest, and the gate's answer to a concrete order.
\<close>

section \<open>The prices of passive fills\<close>

definition maker_at :: "pyfloat \<Rightarrow> fill \<Rightarrow> bool" where
  "maker_at price f \<longleftrightarrow> fl_price f = price \<and> fl_liquidity f = ''maker''"

lemma passive_fill_maker:
  "passive_fill_from_confirmed_trade price q a = (Inr fr, a') \<Longrightarrow> list_all (maker_at price) (fr_fills fr)"
  by (auto simp: passive_fill_from_confirmed_trade_def err_simps contract_simps Let_def maker_at_def split: if_splits prod.splits)

lemma sim_step_maker:
  assumes "sim_step price x s = Inr s1" "list_all (maker_at price) (ss_fills s)"
  shows "list_all (maker_at price) (ss_fills s1)"
proof (cases x)
  case (Pair t k)
  show ?thesis
  proof (cases k)
    case (Trade tr)
    show ?thesis
      using assms passive_fill_maker [of price "te_traded_qty tr" "ss_queue s"]
      unfolding Pair Trade sim_step_def
      by (auto simp: log_event_def err_simps Let_def split: if_splits prod.splits sum.splits)
  qed (use assms in \<open>auto simp: Pair sim_step_def log_event_def err_simps split: if_splits\<close>)
qed

lemma loop_prices:
  "sim_loop price xs s = Inr s' \<Longrightarrow> list_all (maker_at price) (ss_fills s) \<Longrightarrow> list_all (maker_at price) (ss_fills s')"
proof (induction xs arbitrary: s)
  case (Cons x xs)
  show ?case
  proof (cases "sm_is_terminal (ss_order s)")
    case False
    then obtain s1 where "sim_step price x s = Inr s1" "sim_loop price xs s1 = Inr s'"
      using Cons.prems(1) by (auto simp: err_simps)
    then show ?thesis using Cons.IH sim_step_maker Cons.prems(2) by blast
  qed (use Cons.prems in simp)
qed simp

lemma maker_prices:
  assumes "simulate_passive_order q price displayed ots ts c = Inr r"
  shows "list_all (maker_at price) (ps_fills r)"
proof -
  obtain xs s0 s where "sim_loop price xs s0 = Inr s" "ss_fills s0 = []" "ps_fills r = ss_fills s"
    using assms by (auto simp: simulate_passive_order_def err_simps contract_simps Let_def)
  then show ?thesis using loop_prices by (metis list.pred_inject(1))
qed

section \<open>Reservations of a portfolio at rest\<close>

text \<open>No cash is reserved and there is no dust in the cash.\<close>

definition at_rest :: "portfolio \<Rightarrow> bool" where
  "at_rest p \<longleftrightarrow> pf_reserved_cash p = Fin 0 \<and> wf_float (pf_cash p) \<and> isfinite (pf_cash p) \<and>
     (pf_cash p = Fin 0 \<or> flt EPS (pf_cash p))"

lemma add_EPS_nonneg: "fle (Fin 0) x \<Longrightarrow> \<not> flt (fadd x EPS) (Fin 0)"
  using fadd_nonneg [of x EPS] flt_not_fle by auto

lemma at_rest_normalize:
  assumes "at_rest p" "isfinite r" "fle (Fin 0) r" "\<not> flt (fadd (pf_cash p) EPS) r"
  shows "pf_normalize (p\<lparr>pf_reserved_cash := r\<rparr>) = (Inr (), p\<lparr>pf_reserved_cash := (if fle r EPS then Fin 0 else r)\<rparr>)"
proof -
  obtain c where c: "pf_cash p = Fin c" "c = 0 \<or> flt EPS (Fin c)" "wf_float (Fin c)"
    using assms(1) by (auto simp: at_rest_def isfinite_iff)
  obtain x where x: "r = Fin x" "0 \<le> x" using assms(2,3) by (auto simp: isfinite_iff)
  have cash: "(if fle (fabs (pf_cash p)) EPS then Fin 0 else pf_cash p) = pf_cash p"
    using c by (auto simp: EPS_eq)
  have "\<not> flt (fadd (Fin c) EPS) (Fin 0)" using c by (intro add_EPS_nonneg) (auto simp: EPS_eq)
  moreover have "\<not> flt (Fin c) (fneg EPS)" using c by (auto simp: EPS_eq)
  ultimately show ?thesis
    using assms(4) cash x c(1) by (auto simp: pf_normalize_def Let_def)
qed

lemma at_rest_reserve:
  assumes "at_rest p" "wf_float a" "reserve_buy_cash a p = (r, p1)"
  shows "(\<exists>e. r = Inl e \<and> p1 = p) \<or> (r = Inr () \<and> isfinite a \<and> flt (Fin 0) a \<and>
    p1 = p\<lparr>pf_reserved_cash := (if fle a EPS then Fin 0 else a)\<rparr>)"
proof (cases "isfinite a \<and> flt (Fin 0) a \<and> \<not> flt (fadd (available_cash p) EPS) a")
  case True
  have "available_cash p = pf_cash p"
    using assms(1) by (auto simp: at_rest_def available_cash_def isfinite_iff EPS_eq)
  then have "pf_normalize (p\<lparr>pf_reserved_cash := a\<rparr>) = (Inr (), p\<lparr>pf_reserved_cash := (if fle a EPS then Fin 0 else a)\<rparr>)"
    using True at_rest_normalize [OF assms(1)] by (auto simp: fle_def)
  moreover have "fadd (pf_reserved_cash p) a = a" using assms(1,2) by (simp add: at_rest_def)
  ultimately show ?thesis using True assms(3) by (auto simp: reserve_buy_cash_def pf_positive_Inr [THEN iffD2])
next
  case False
  then show ?thesis using assms(3)
    by (cases "pf_positive a ''amount''") (auto simp: reserve_buy_cash_def pf_simps)
qed

lemma at_rest_release:
  assumes "at_rest p" "wf_float a" "isfinite a" "flt EPS a"
  shows "release_reserved_cash a (p\<lparr>pf_reserved_cash := a\<rparr>) = (Inr (), p)"
proof -
  have a: "flt (Fin 0) a" using assms(4) EPS_pos flt_trans by blast
  obtain x where x: "a = Fin x" "0 < x" using a assms(3) by (auto simp: isfinite_iff)
  have "fsub a a = Fin 0" by (simp add: x b64_eq)
  moreover have "\<not> flt (fadd a EPS) a" using add_EPS_ge [of x x] assms(2) x by simp
  moreover have "\<not> flt (fadd (pf_cash p) EPS) (Fin 0)"
    using assms(1) by (intro add_EPS_nonneg) (auto simp: at_rest_def isfinite_iff EPS_eq)
  moreover have "p\<lparr>pf_reserved_cash := Fin 0\<rparr> = p" using assms(1) by (simp add: at_rest_def)
  ultimately show ?thesis
    using a assms(3) at_rest_normalize [OF assms(1), of "Fin 0"]
    by (simp add: release_reserved_cash_def pf_positive_Inr [THEN iffD2])
qed

section \<open>A concrete order\<close>

lemma wf_fadd_any: "wf_float (fadd x y)"
  by (cases x; cases y) auto

lemma wf_cash_required: "evaluate_order_risk p i l c = Inr r \<Longrightarrow> wf_float (rr_cash_required r)"
  by (auto simp: evaluate_order_risk_def err_simps Let_def wf_fadd_any split: prod.splits if_splits)

lemma effective_context_facts:
  "effective_context i bps c = Inr e \<Longrightarrow> kill_switch e = kill_switch c"
  by (auto simp: effective_context_def risk_context_post_init_def err_simps contract_simps)

lemma demo_fee: "effective_context demo_intent (Fin 0) (demo_context\<lparr>kill_switch := b\<rparr>) = Inr (demo_context\<lparr>kill_switch := b\<rparr>)"
  by (simp add: effective_context_def estimated_fee_def demo_intent_def ri_order_notional_def bps_of_def BPS_def demo_context_def
     risk_context_post_init_def nonnegative_Inr [THEN iffD2] cong: eval_cong)

lemma demo_blocked: "\<exists>r. evaluate_order_risk demo_portfolio demo_intent l (demo_context\<lparr>kill_switch := True\<rparr>) = Inr r \<and> \<not> rr_allowed r"
proof -
  have v: "valid_risk_intent demo_intent" by (rule risk_intent_post_init_valid [OF demo_post_init])
  obtain r where r: "evaluate_order_risk demo_portfolio demo_intent l (demo_context\<lparr>kill_switch := True\<rparr>) = Inr r"
    using evaluate_shape [OF v] by metis
  then show ?thesis using evaluate_iff(1) [OF v r] by simp
qed

end
