(* ===== verification/ExactAccounts.thy ===== *)
theory ExactAccounts
  imports PipelineFacts
begin

text \<open>
  The aggressive pipeline in exact arithmetic: prices and quantities in multiples of \<open>1/1024\<close>, no fees.
  The main lemma, \<open>aggressive_buy_ticks\<close>, follows one BUY order through the gate, the reservation, the
  simulation, the booking of its fills and the release of what is left.
\<close>

section \<open>Exact money\<close>

text \<open>
  Prices and quantities that are multiples of \<open>1/1024\<close>, and money in lots (multiples of \<open>2^-20\<close>): a
  notional is then exact.  \<open>account\<close> reads the cash, the reserved cash and one position of a portfolio.
\<close>

lemma fmul_ticks:
  assumes "p * q \<le> max_lots"
  shows "fmul (lots (1024 * p)) (lots (1024 * q)) = lots (p * q)"
proof -
  have "(of_nat (1024 * p) / 2 ^ 20) * (of_nat (1024 * q) / 2 ^ 20) = (of_nat (p * q) / 2 ^ 20 :: rat)" by simp
  then show ?thesis using lots_b64 [OF assms] by (simp only: lots_def fmul.simps)
qed

lemma lots_not_negative [simp]: "\<not> flt (lots n) (fneg EPS)"
  by (auto simp: lots_def EPS_eq)

definition account :: "portfolio \<Rightarrow> pkey \<Rightarrow> nat \<Rightarrow> nat \<Rightarrow> nat \<Rightarrow> nat \<Rightarrow> bool" where
  "account p k c r a g \<longleftrightarrow> pf_cash p = lots c \<and> pf_reserved_cash p = lots r \<and> r \<le> c \<and> c \<le> max_lots \<and>
     po_qty (pos_at p k) = lots a \<and> po_cost_basis (pos_at p k) = lots g \<and> wf_float (pf_realized_pnl p)"

definition only_at :: "pkey \<Rightarrow> portfolio \<Rightarrow> portfolio \<Rightarrow> bool" where
  "only_at k p p' \<longleftrightarrow> pf_reserved_positions p' = pf_reserved_positions p \<and> pf_realized_pnl p' = pf_realized_pnl p \<and>
     (\<forall>k'. k' \<noteq> k \<longrightarrow> map_of (pf_positions p') k' = map_of (pf_positions p) k')"

lemma only_at_refl [simp]: "only_at k p p"
  by (simp add: only_at_def)

lemma only_at_trans: "only_at k p q \<Longrightarrow> only_at k q s \<Longrightarrow> only_at k p s"
  by (simp add: only_at_def)

lemma normalize_account:
  assumes "account p k c r a g"
  shows "pf_normalize p = (Inr (), p)"
proof -
  have "(if fle (fabs (lots c)) EPS then p\<lparr>pf_cash := Fin 0\<rparr> else p) = p"
    "(if fle (fabs (lots r)) EPS then p\<lparr>pf_reserved_cash := Fin 0\<rparr> else p) = p"
    using assms by (auto simp: account_def lots_simps)
  moreover have "\<not> flt (lots c) (fneg EPS)" "\<not> flt (fadd (lots c) EPS) (lots r)"
    using assms lots_add_EPS [of c r] by (simp_all add: account_def)
  ultimately show ?thesis using assms by (simp add: pf_normalize_def account_def Let_def)
qed

lemma settle_account:
  assumes "account p k c r a g" "0 < a"
  shows "settle k p = (Inr (), p)"
proof -
  have "\<not> fle (fabs (lots a)) EPS" "\<not> flt (lots a) (fneg EPS)" "\<not> flt (lots g) (fneg EPS)"
    using assms(2) by (simp_all add: lots_simps)
  then have "pf_normalize_position k p = (Inr (), p)"
    using assms(1) by (simp add: pf_normalize_position_def account_def Let_def)
  then show ?thesis using normalize_account [OF assms(1)] by (simp add: settle_def)
qed

lemma position_of_exists:
  assumes "pf_key c u = Inr k"
  shows "\<exists>p'. position_of c u p = (Inr k, p') \<and> pos_at p' k = pos_at p k"
  using assms position_of_facts(7) [of c u p k] by (auto simp: position_of_def)

lemma buy_account:
  assumes "account p k c r a g" "pf_key cid out = Inr k" "0 < x" "0 < q" "x * q \<le> r" "a + 1024 * q \<le> max_lots" "g + x * q \<le> max_lots"
  shows "\<exists>p'. apply_buy_fill cid out (lots (1024 * q)) (lots (1024 * x)) (Fin 0) (Fin 0) True p = (Inr (), p') \<and>
    account p' k (c - x * q) (r - x * q) (a + 1024 * q) (g + x * q) \<and> only_at k p p'"
proof -
  have le: "r \<le> c" "c \<le> max_lots" "x * q \<le> max_lots" using assms(1,5) by (auto simp: account_def)
  let ?m = "x * q"
  have gross: "fmul (lots (1024 * q)) (lots (1024 * x)) = lots ?m"
    using fmul_ticks [of q x] le(3) by (simp add: mult.commute)
  have z: "fadd (lots ?m) (Fin 0) = lots ?m" "fsub (lots ?m) (Fin 0) = lots ?m" using le by simp_all
  define p2 where "p2 = p\<lparr>pf_reserved_cash := lots (r - ?m), pf_cash := lots (c - ?m)\<rparr>"
  obtain p3 where p3: "position_of cid out p2 = (Inr k, p3)" "pos_at p3 k = pos_at p2 k"
    using position_of_exists [OF assms(2)] by blast
  note same = position_of_facts [OF p3(1)]
  define p5 where "p5 = (put_pos k ((pos_at p3 k)\<lparr>po_qty := lots (a + 1024 * q), po_cost_basis := lots (g + ?m)\<rparr>) p3)
      \<lparr>pf_realized_pnl := pf_realized_pnl p3\<rparr>"
  have p2: "pos_at p2 k = pos_at p k" "pf_realized_pnl p2 = pf_realized_pnl p" by (simp_all add: p2_def pos_at_def)
  have acc: "account p5 k (c - ?m) (r - ?m) (a + 1024 * q) (g + ?m)"
    using assms(1) same(2-4) le by (auto simp: p5_def p2_def account_def pos_at_def put_pos_def)
  have "only_at k p p5"
    using same(4-6) by (auto simp: only_at_def p5_def p2_def put_pos_def)
  moreover have "apply_buy_fill cid out (lots (1024 * q)) (lots (1024 * x)) (Fin 0) (Fin 0) True p = settle k p5"
  proof -
    have v: "pf_positive (lots (1024 * q)) nm = Inr (lots (1024 * q))" "pf_positive (lots (1024 * x)) nm = Inr (lots (1024 * x))"
      "pf_nonnegative (Fin 0) nm = Inr (Fin 0)" for nm
      using assms(3,4) by (simp_all add: pf_positive_Inr [THEN iffD2] pf_nonnegative_Inr [THEN iffD2] lots_simps)
    have guards: "\<not> flt (lots ?m) (fneg EPS)" "\<not> flt (fadd (lots c) EPS) (lots ?m)"
      using lots_add_EPS [of c ?m] le assms(5) by simp_all
    have p: "pf_cash p = lots c" "pf_reserved_cash p = lots r" "po_qty (pos_at p k) = lots a" "po_cost_basis (pos_at p k) = lots g"
      "fadd (fsub (pf_realized_pnl p) (Fin 0)) (Fin 0) = pf_realized_pnl p"
      using assms(1) by (simp_all add: account_def)
    have r: "fsub (lots r) (py_min (lots r) (lots ?m)) = lots (r - ?m)" "fsub (lots c) (lots ?m) = lots (c - ?m)"
      "fadd (lots a) (lots (1024 * q)) = lots (a + 1024 * q)" "fadd (lots g) (lots ?m) = lots (g + ?m)"
      using le assms(5-7) by (simp_all add: lots_simps min_absorb2)
    have "(p\<lparr>pf_reserved_cash := lots (r - ?m)\<rparr>)\<lparr>pf_cash := lots (c - ?m)\<rparr> = p2" by (simp add: p2_def)
    then show ?thesis
      using p3 same(4) unfolding apply_buy_fill_def v checkS_simps Let_def gross z p r
      by (simp add: guards p p2 r settle_def p5_def)
  qed
  ultimately show ?thesis using acc settle_account [OF acc] assms(4) by auto
qed

text \<open>The fills of the sweep, in ticks, and what they cost.\<close>

definition tick_levels :: "(nat \<times> nat) list \<Rightarrow> level list" where
  "tick_levels ls = lot_levels (map (\<lambda>(x, q). (1024 * x, 1024 * q)) ls)"

definition tick_fills :: "(nat \<times> nat) list \<Rightarrow> fill list" where
  "tick_fills fs = lot_fills (map (\<lambda>(x, q). (1024 * x, 1024 * q)) fs)"

definition spent :: "(nat \<times> nat) list \<Rightarrow> nat" where
  "spent fs = sum_list (map (\<lambda>(x, q). x * q) fs)"

lemma tick_fills_simps [simp]:
  "tick_fills [] = []"
  "tick_fills ((x, q) # fs) = (if q = 0 then tick_fills fs
     else \<lparr>fl_price = lots (1024 * x), fl_qty = lots (1024 * q), fl_liquidity = ''taker''\<rparr> # tick_fills fs)"
  by (simp_all add: tick_fills_def lot_fills_def)

lemma spent_simps [simp]: "spent [] = 0" "spent ((x, q) # fs) = x * q + spent fs"
  by (simp_all add: spent_def)

lemma no_fee:
  assumes "x * q \<le> max_lots"
  shows "fees_of_fill no_fees \<lparr>fl_price = lots (1024 * x), fl_qty = lots (1024 * q), fl_liquidity = ''taker''\<rparr> = Inr (Fin 0, Fin 0)"
  using fmul_ticks [OF assms] by (simp add: fees_of_fill_def no_fees_def bps_of_def BPS_def) (simp add: lots_def)

lemma book_taker_account:
  assumes "ri_side i = ''BUY''" "pf_key (ri_condition_id i) (ri_outcome i) = Inr k"
  shows "account p k c (r + v) a g \<Longrightarrow> list_all (\<lambda>(x, q). 0 < x) fs \<Longrightarrow> spent fs \<le> v \<Longrightarrow>
    a + 1024 * sum_list (map snd fs) \<le> max_lots \<Longrightarrow> g + spent fs \<le> max_lots \<Longrightarrow>
    \<exists>p'. book_taker_fills i no_fees (tick_fills fs) (p, lots v) = (Inr (), (p', lots (v - spent fs))) \<and>
      account p' k (c - spent fs) (r + (v - spent fs)) (a + 1024 * sum_list (map snd fs)) (g + spent fs) \<and> only_at k p p'"
proof (induction fs arbitrary: p c v a g)
  case (Cons f fs)
  obtain x q where f: "f = (x, q)" by (cases f)
  show ?case
  proof (cases "q = 0")
    case True
    then show ?thesis using Cons by (simp add: f)
  next
    case False
    have le: "x * q \<le> v" "x * q \<le> r + v" "v \<le> max_lots" "x * q \<le> max_lots" "0 < x" "0 < q"
      using Cons.prems False by (auto simp: f account_def)
    obtain p1 where p1: "apply_buy_fill (ri_condition_id i) (ri_outcome i) (lots (1024 * q)) (lots (1024 * x)) (Fin 0) (Fin 0) True p = (Inr (), p1)"
      "account p1 k (c - x * q) (r + v - x * q) (a + 1024 * q) (g + x * q)" "only_at k p p1"
      using buy_account [OF Cons.prems(1) assms(2) le(5,6,2)] Cons.prems(4,5) by (auto simp: f)
    have m: "r + v - x * q = r + (v - x * q)" using le(1) by simp
    have rest: "list_all (\<lambda>(x, q). 0 < x) fs" "spent fs \<le> v - x * q"
      "a + 1024 * q + 1024 * sum_list (map snd fs) \<le> max_lots" "g + x * q + spent fs \<le> max_lots"
      using Cons.prems(2-5) by (auto simp: f)
    obtain p2 where p2: "book_taker_fills i no_fees (tick_fills fs) (p1, lots (v - x * q)) = (Inr (), (p2, lots (v - x * q - spent fs)))"
      "account p2 k (c - x * q - spent fs) (r + (v - x * q - spent fs)) (a + 1024 * q + 1024 * sum_list (map snd fs)) (g + x * q + spent fs)"
      "only_at k p1 p2"
      using Cons.IH [OF p1(2) [unfolded m] rest] by blast
    have "net_cash_cost \<lparr>fl_price = lots (1024 * x), fl_qty = lots (1024 * q), fl_liquidity = ''taker''\<rparr> (Fin 0) (Fin 0) = lots (x * q)"
      using fmul_ticks [OF le(4)] le(4) by (simp add: net_cash_cost_def)
    moreover have "\<not> flt (fadd (lots v) EPS) (lots (x * q))" using lots_add_EPS [OF le(3,4)] le(1) by simp
    moreover have "py_max (Fin 0) (fsub (lots v) (lots (x * q))) = lots (v - x * q)" using le by (simp add: lots_simps)
    ultimately have "book_taker_fills i no_fees (tick_fills (f # fs)) (p, lots v) =
        book_taker_fills i no_fees (tick_fills fs) (p1, lots (v - x * q))"
      using assms(1) p1(1) False by (simp add: f no_fee [OF le(4)] book_buy_def Let_def on_pf_def)
    then show ?thesis using p2 only_at_trans [OF p1(3)] by (auto simp: f algebra_simps)
  qed
qed simp

section \<open>Reservations in lots\<close>

lemma available_account: "account p k c r a g \<Longrightarrow> available_cash p = lots (c - r)"
  by (simp add: account_def available_cash_def lots_simps)

lemma account_reserved:
  assumes "account p k c r a g" "r' \<le> c"
  shows "account (p\<lparr>pf_reserved_cash := lots r'\<rparr>) k c r' a g" "only_at k p (p\<lparr>pf_reserved_cash := lots r'\<rparr>)"
  using assms by (simp_all add: account_def pos_at_def only_at_def)

lemma reserve_account:
  assumes "account p k c r a g" "0 < v" "r + v \<le> c"
  shows "reserve_buy_cash (lots v) p = (Inr (), p\<lparr>pf_reserved_cash := lots (r + v)\<rparr>)"
proof -
  have c: "c \<le> max_lots" using assms(1) by (simp add: account_def)
  then have "\<not> flt (fadd (available_cash p) EPS) (lots v)"
    using lots_add_EPS [of "c - r" v] assms by (simp add: available_account)
  moreover have "fadd (pf_reserved_cash p) (lots v) = lots (r + v)"
    using assms c by (simp add: account_def lots_simps)
  ultimately show ?thesis
    using normalize_account [OF account_reserved(1) [OF assms(1,3)]] assms(2)
    by (simp add: reserve_buy_cash_def pf_positive_Inr [THEN iffD2] lots_simps)
qed

lemma release_account:
  assumes "account p k c (r + w) a g" "ri_side i = ''BUY''"
  shows "\<exists>s. release_cash i (p, lots w) = (Inr (), (p\<lparr>pf_reserved_cash := lots r\<rparr>, s))"
proof (cases "w = 0")
  case True
  then have "p\<lparr>pf_reserved_cash := lots r\<rparr> = p" using assms(1) by (simp add: account_def)
  then show ?thesis using True by (simp add: release_cash_def)
next
  case False
  have c: "r + w \<le> c" "c \<le> max_lots" using assms(1) by (simp_all add: account_def)
  then have "\<not> flt (fadd (lots (r + w)) EPS) (lots w)" "fsub (lots (r + w)) (lots w) = lots r"
    using lots_add_EPS [of "r + w" w] by (simp_all add: lots_simps)
  moreover have "pf_reserved_cash p = lots (r + w)" using assms(1) by (simp add: account_def)
  ultimately have "release_reserved_cash (lots w) p = (Inr (), p\<lparr>pf_reserved_cash := lots r\<rparr>)"
    using normalize_account [OF account_reserved(1) [OF assms(1), of r]] c False
    by (simp add: release_reserved_cash_def pf_positive_Inr [THEN iffD2] lots_simps)
  then show ?thesis using False assms(2) by (simp add: release_cash_def on_pf_def lots_EPS)
qed

section \<open>The simulation in ticks\<close>

lemma greedy_scale: "greedy (k * n) (map ((*) k) as) = map ((*) k) (greedy n as)"
proof (induction as arbitrary: n)
  case (Cons x as)
  have "min (k * n) (k * x) = k * min n x" by (simp add: min_def)
  then show ?case using Cons.IH [of "n - x"] by (simp add: diff_mult_distrib2)
qed simp

lemma spent_greedy: "list_all (\<lambda>(y, q). y \<le> x) ls \<Longrightarrow> spent (zip (map fst ls) (greedy n (map snd ls))) \<le> x * n"
proof (induction ls arbitrary: n)
  case (Cons l ls)
  obtain y q where l: "l = (y, q)" by (cases l)
  have "spent (zip (map fst ls) (greedy (n - q) (map snd ls))) \<le> x * (n - q)" using Cons by (simp add: l)
  moreover have "y * min n q \<le> x * min n q" using Cons.prems by (simp add: l mult_le_mono1)
  moreover have "x * min n q + x * (n - q) = x * n"
  proof -
    have "min n q + (n - q) = n" by simp
    then show ?thesis by (metis add_mult_distrib2)
  qed
  moreover have "spent (zip (map fst (l # ls)) (greedy n (map snd (l # ls)))) =
      y * min n q + spent (zip (map fst ls) (greedy (n - q) (map snd ls)))" by (simp add: l)
  ultimately show ?case by linarith
qed (simp add: spent_def)

definition tick_book :: "nat \<Rightarrow> (nat \<times> nat) list \<Rightarrow> (nat \<times> nat) list" where
  "tick_book x ls = filter (\<lambda>(y, q). y \<le> x) ls"

text \<open>What an order of \<open>n\<close> at limit \<open>x\<close> takes from the book, price by price.\<close>

definition tick_taken :: "string \<Rightarrow> nat \<Rightarrow> nat \<Rightarrow> (nat \<times> nat) list \<Rightarrow> (nat \<times> nat) list" where
  "tick_taken tif n x ls =
     (if tif = ''FOK'' \<and> sum_list (map snd (tick_book x ls)) < n then []
      else zip (map fst (tick_book x ls)) (greedy n (map snd (tick_book x ls))))"

lemma lots_le_EPS:
  assumes "m \<le> max_lots" "n \<le> max_lots"
  shows "fle (lots m) (fadd (lots n) EPS) \<longleftrightarrow> m \<le> n"
proof (cases "m \<le> n")
  case True
  then have "(of_nat m :: rat) / 2 ^ 20 \<le> of_nat n / 2 ^ 20 + fin_val EPS" by (simp add: EPS_eq field_simps)
  then show ?thesis using True b64_ge [of "of_nat m / 2 ^ 20"] lots_wf [OF assms(1)] by (simp add: lots_def EPS_eq)
next
  case False
  then show ?thesis using lots_add_EPS [OF assms(2,1)] flt_not_fle by auto
qed

lemma executable_ticks:
  assumes "ri_side i = ''BUY''" "ri_limit_price i = lots (1024 * x)" "1024 * x \<le> max_lots"
    and "list_all (\<lambda>(y, q). 1024 * y \<le> max_lots) ls"
  shows "executable_levels i (tick_levels ls) = tick_levels (tick_book x ls)"
  using assms(4)
proof (induction ls)
  case (Cons l ls)
  obtain y q where l: "l = (y, q)" by (cases l)
  have "fle (lots (1024 * y)) (fadd (lots (1024 * x)) EPS) \<longleftrightarrow> y \<le> x"
    using lots_le_EPS [of "1024 * y" "1024 * x"] Cons.prems assms(3) by (simp add: l)
  then show ?case using Cons assms(1,2)
    by (auto simp: l executable_levels_def tick_levels_def lot_levels_def tick_book_def)
qed (simp add: executable_levels_def tick_levels_def lot_levels_def tick_book_def)

definition tick_order :: "risk_intent \<Rightarrow> nat \<Rightarrow> nat \<Rightarrow> bool" where
  "tick_order i n x \<longleftrightarrow> ri_side i = ''BUY'' \<and> ri_qty i = lots (1024 * n) \<and> ri_limit_price i = lots (1024 * x) \<and>
     0 < n \<and> 0 < x \<and> 1024 * n \<le> max_lots \<and> 1024 * x \<le> max_lots \<and> x * n \<le> max_lots"

definition tick_ladder :: "(nat \<times> nat) list \<Rightarrow> bool" where
  "tick_ladder ls \<longleftrightarrow> sorted (map fst ls) \<and> list_all (\<lambda>(y, q). 0 < y \<and> 1024 * y \<le> max_lots) ls"

lemma tick_ladder_mem: "tick_ladder ls \<Longrightarrow> (y, q) \<in> set ls \<Longrightarrow> 0 < y \<and> 1024 * y \<le> max_lots"
  by (auto simp: tick_ladder_def list_all_iff)

lemma tick_taken_pos: "tick_ladder ls \<Longrightarrow> list_all (\<lambda>(y, q). 0 < y) (tick_taken tif n x ls)"
  using tick_ladder_mem by (fastforce simp: tick_taken_def tick_book_def list_all_iff dest!: set_zip_leftD)

lemma tick_book_in_order:
  assumes "tick_ladder ls"
  shows "levels_in_order ''BUY'' (map (\<lambda>(y, q). (1024 * y, 1024 * q)) (tick_book x ls))"
proof -
  have "sorted (map fst (tick_book x ls))"
    using assms sorted_filter [of fst ls] by (simp add: tick_ladder_def tick_book_def)
  then have "sorted (map ((*) 1024) (map fst (tick_book x ls)))"
    by (auto simp: sorted_map intro: sorted_wrt_mono_rel [rotated])
  moreover have "map fst (map (\<lambda>(y, q). (1024 * y, 1024 * q)) (tick_book x ls)) = map ((*) 1024) (map fst (tick_book x ls))"
    by auto
  moreover have "list_all (\<lambda>(p, a). 0 < p \<and> p \<le> max_lots) (map (\<lambda>(y, q). (1024 * y, 1024 * q)) (tick_book x ls))"
    using assms by (auto simp: tick_ladder_def tick_book_def list_all_iff)
  ultimately show ?thesis unfolding levels_in_order_def by (simp del: map_map)
qed

lemma tick_fills_zip:
  "lot_fills (zip (map fst (map (\<lambda>(y, q). (1024 * y, 1024 * q)) b)) (greedy (1024 * n) (map snd (map (\<lambda>(y, q). (1024 * y, 1024 * q)) b)))) =
   tick_fills (zip (map fst b) (greedy n (map snd b)))"
proof -
  have m: "map fst (map (\<lambda>(y, q). (1024 * y, 1024 * q)) b) = map ((*) 1024) (map fst b)"
    "map snd (map (\<lambda>(y, q). (1024 * y, 1024 * q)) b) = map ((*) 1024) (map snd b)" by auto
  show ?thesis unfolding m greedy_scale tick_fills_def zip_map_map by simp
qed

lemma sum_scale: "sum_list (map snd (map (\<lambda>(y, q). (1024 * y, 1024 * q)) b)) = 1024 * sum_list (map snd (b :: (nat \<times> nat) list))"
  by (induction b) auto

lemma simulate_ticks:
  assumes "tick_order i n x" "tick_ladder ls" "good_timestamps ots" "tif = ''IOC'' \<or> tif = ''FOK''"
  shows "\<exists>r. simulate_aggressive_order (ri_side i) tif (ri_qty i) (executable_levels i (tick_levels ls)) ots = Inr r \<and>
    ag_fills r = tick_fills (tick_taken tif n x ls)"
proof -
  let ?b = "map (\<lambda>(y, q). (1024 * y, 1024 * q)) (tick_book x ls)"
  have i: "ri_side i = ''BUY''" "ri_qty i = lots (1024 * n)" "0 < 1024 * n" "1024 * n \<le> max_lots"
    using assms(1) by (simp_all add: tick_order_def)
  have "executable_levels i (tick_levels ls) = lot_levels ?b"
    using assms(1,2) executable_ticks [of i x ls] by (auto simp: tick_order_def tick_ladder_def tick_levels_def list_all_iff)
  then show ?thesis
    using taker_lots [OF i(3,4) assms(3) _ tick_book_in_order [OF assms(2), of x] assms(4)] i(1,2)
    unfolding sum_scale by (auto simp: taker_outcome_def Let_def tick_taken_def tick_fills_zip simp del: map_map split: if_splits)
qed

lemma qty_of_ticks:
  "list_all (\<lambda>(y, q). 0 < y) fs \<Longrightarrow> qty_of (tick_fills fs) (map ((*) 1024) (filter (\<lambda>q. 0 < q) (map snd fs)))"
  by (induction fs) (auto simp: qty_of_def lots_simps)

lemma simulate_costs_ticks:
  assumes "tick_order i n x" "tick_ladder ls" "good_timestamps ots" "tif = ''IOC'' \<or> tif = ''FOK''"
    and "isfinite ref" "flt (Fin 0) ref" "isfinite mark" "fle (Fin 0) mark"
  shows "\<exists>r. simulate_aggressive_with_costs (ri_side i) tif (ri_qty i) (executable_levels i (tick_levels ls)) ots ref mark fees = Inr r \<and>
    ag_fills (ca_simulation r) = tick_fills (tick_taken tif n x ls)"
proof -
  let ?fs = "tick_taken tif n x ls"
  let ?qs = "filter (\<lambda>q. 0 < q) (map snd ?fs)"
  obtain sim where sim: "simulate_aggressive_order (ri_side i) tif (ri_qty i) (executable_levels i (tick_levels ls)) ots = Inr sim"
    "ag_fills sim = tick_fills ?fs" using simulate_ticks [OF assms(1-4)] by blast
  have i: "ri_side i = ''BUY''" "ri_qty i = lots (1024 * n)" "0 < 1024 * n" "1024 * n \<le> max_lots"
    using assms(1) by (simp_all add: tick_order_def)
  have pos: "list_all (\<lambda>(y, q). 0 < y) ?fs" by (rule tick_taken_pos [OF assms(2)])
  have "sum_list (map snd ?fs) \<le> n" by (simp add: tick_taken_def sum_greedy_zip)
  then have sum: "sum_list (map ((*) 1024) ?qs) \<le> 1024 * n"
    using sum_list_map_filter [of "map snd ?fs" "\<lambda>q. 0 < q" "\<lambda>q. q"] by (simp add: sum_list_const_mult)
  have side: "checked_side ''BUY'' = Inr ''BUY''" by code_simp
  obtain e where e: "summarize_execution ''BUY'' (lots (1024 * n)) (tick_fills ?fs) ref fees = Inr e"
    "quantities e (1024 * n) (sum_list (map ((*) 1024) ?qs))"
    using summarize_lots [OF i(3,4) qty_of_ticks [OF pos] sum assms(5,6) side] by blast
  obtain q where "mark_to_market_pnl e mark = Inr q" using pnl_lots [OF e(2) assms(7,8)] by blast
  then show ?thesis using sim e(1) i(1,2) by (simp add: simulate_aggressive_with_costs_def)
qed

section \<open>The pipeline\<close>

lemma no_fee_context:
  assumes "tick_order i n x"
  shows "effective_context i (Fin 0) ctx = risk_context_post_init (ctx\<lparr>estimated_fee_cost := Fin 0\<rparr>)"
proof -
  have "ri_order_notional i = lots (n * x)"
    using assms fmul_ticks [of n x] by (simp add: tick_order_def ri_order_notional_def mult.commute)
  moreover have "bps_of (lots m) (Fin 0) = Inr (Fin 0)" for m by (simp add: bps_of_def BPS_def lots_def)
  ultimately show ?thesis using assms by (simp add: effective_context_def estimated_fee_def tick_order_def)
qed

lemma approved_cash:
  assumes "tick_order i n x" "account p k c r a g" "risk_intent_post_init raw = Inr i"
    and "evaluate_order_risk p i l e = Inr risk" "rr_allowed risk" "estimated_fee_cost e = Fin 0"
  shows "rr_cash_required risk = lots (x * n)" "r + x * n \<le> c"
proof -
  have v: "valid_risk_intent i" by (rule risk_intent_post_init_valid [OF assms(3)])
  note ev = evaluate_iff [OF v assms(4)]
  have m: "x * n \<le> max_lots" "ri_side i = ''BUY''" using assms(1) by (simp_all add: tick_order_def)
  have "fmul (ri_qty i) (ri_limit_price i) = lots (x * n)"
    using assms(1) fmul_ticks [of n x] by (simp add: tick_order_def mult.commute)
  then show cash: "rr_cash_required risk = lots (x * n)" using ev(3) ev(4) [OF m(2)] assms(6) m(1) by simp
  have c: "r \<le> c" "c \<le> max_lots" using assms(2) by (simp_all add: account_def)
  have "fundable p i (lots (x * n))" using ev(1) assms(5) cash by simp
  then have "\<not> flt (fadd (lots (c - r)) EPS) (lots (x * n))"
    using available_account [OF assms(2)] m(2) by (simp add: fundable_def)
  then show "r + x * n \<le> c" using lots_add_EPS [of "c - r" "x * n"] m(1) c by simp
qed

lemma aggressive_buy_ticks:
  assumes order: "tick_order i n x" "risk_intent_post_init raw = Inr i" "pf_key (ri_condition_id i) (ri_outcome i) = Inr k"
    and pf: "account p k c r a g" "a + 1024 * n \<le> max_lots" "g + x * n \<le> max_lots"
    and book: "tick_ladder ls" "good_timestamps ots" "tif = ''IOC'' \<or> tif = ''FOK''"
    and prices: "isfinite ref" "flt (Fin 0) ref" "isfinite mark" "fle (Fin 0) mark"
    and risk: "risk_context_post_init (ctx\<lparr>estimated_fee_cost := Fin 0\<rparr>) = Inr e" "evaluate_order_risk p i l e = Inr risk" "rr_allowed risk"
  shows "\<exists>res p'. execute_aggressive_with_risk i tif (tick_levels ls) ots ref mark l ctx None p = (Inr res, p') \<and>
    account p' k (c - spent (tick_taken tif n x ls)) r (a + 1024 * sum_list (map snd (tick_taken tif n x ls)))
      (g + spent (tick_taken tif n x ls)) \<and>
    only_at k p p' \<and> map_option (ag_fills \<circ> ca_simulation) (ge_execution res) = Some (tick_fills (tick_taken tif n x ls))"
proof -
  let ?fs = "tick_taken tif n x ls"
  have i: "ri_side i = ''BUY''" "0 < x * n" using order(1) by (simp_all add: tick_order_def)
  have fee: "estimated_fee_cost e = Fin 0"
    using risk(1) by (auto simp: risk_context_post_init_def err_simps contract_simps)
  note cash = approved_cash [OF order(1) pf(1) order(2) risk(2,3) fee]
  let ?p1 = "p\<lparr>pf_reserved_cash := lots (r + x * n)\<rparr>"
  have p1: "reserve_buy_cash (lots (x * n)) p = (Inr (), ?p1)" "account ?p1 k c (r + x * n) a g" "only_at k p ?p1"
    using reserve_account [OF pf(1) i(2) cash(2)] account_reserved [OF pf(1) cash(2)] by simp_all
  have fs: "list_all (\<lambda>(y, q). 0 < y) ?fs" by (rule tick_taken_pos [OF book(1)])
  have low: "list_all (\<lambda>(y, q). y \<le> x) (tick_book x ls)" by (auto simp: tick_book_def list_all_iff)
  have sp: "spent ?fs \<le> x * n" using spent_greedy [OF low, of n] by (simp add: tick_taken_def spent_def)
  have n: "sum_list (map snd ?fs) \<le> n" by (simp add: tick_taken_def sum_greedy_zip)
  have room: "a + 1024 * sum_list (map snd ?fs) \<le> max_lots" "g + spent ?fs \<le> max_lots" using pf(2,3) sp n by linarith+
  obtain p2 where p2: "book_taker_fills i no_fees (tick_fills ?fs) (?p1, lots (x * n)) = (Inr (), (p2, lots (x * n - spent ?fs)))"
    "account p2 k (c - spent ?fs) (r + (x * n - spent ?fs)) (a + 1024 * sum_list (map snd ?fs)) (g + spent ?fs)" "only_at k ?p1 p2"
    using book_taker_account [OF i(1) order(3) p1(2) fs sp room] by blast
  let ?p3 = "p2\<lparr>pf_reserved_cash := lots r\<rparr>"
  obtain w where rel: "release_cash i (p2, lots (x * n - spent ?fs)) = (Inr (), (?p3, w))"
    using release_account [OF p2(2) i(1)] by blast
  have p3: "account ?p3 k (c - spent ?fs) r (a + 1024 * sum_list (map snd ?fs)) (g + spent ?fs)" "only_at k p2 ?p3"
    using account_reserved [OF p2(2), of r] p2(2) by (simp_all add: account_def)
  obtain sim where sim: "simulate_aggressive_with_costs (ri_side i) tif (ri_qty i) (executable_levels i (tick_levels ls)) ots ref mark (Some no_fees) = Inr sim"
    "ag_fills (ca_simulation sim) = tick_fills ?fs"
    using simulate_costs_ticks [OF order(1) book prices] by blast
  have "run_aggressive i tif (tick_levels ls) ots ref mark no_fees (?p1, lots (x * n)) = (Inr sim, (?p3, w))"
    by (simp add: run_aggressive_def sim p2(1) rel)
  then have "execute_aggressive_with_risk i tif (tick_levels ls) ots ref mark l ctx None p = (Inr (gated_result_of risk (Some sim) ?p3), ?p3)"
    using no_fee_context [OF order(1), of ctx] risk i(1) p1(1) cash(1)
    by (simp add: execute_aggressive_with_risk_def no_fees_def reserve_for_buy_def on_exception_def)
  moreover have "only_at k p ?p3" using only_at_trans [OF p1(3)] only_at_trans [OF p2(3) p3(2)] by blast
  ultimately show ?thesis using p3(1) sim(2) by (simp add: gated_result_of_def)
qed

end
