(* ===== verification/PipelineProps.thy ===== *)
theory PipelineProps
  imports ExactAccounts
begin

text \<open>
  Properties of the risk-gated pipelines (\<open>risk_execution_pipeline.py\<close>, \<open>passive_risk_pipeline.py\<close>).
\<close>

section \<open>A concrete order\<close>

lemma demo_context_ok:
  "risk_context_post_init (demo_context\<lparr>estimated_fee_cost := Fin 0\<rparr>) = Inr demo_context"
  by (simp add: demo_context_def risk_context_post_init_def nonnegative_Inr [THEN iffD2] cong: eval_cong)

lemma demo_order: "tick_order demo_intent 4096 2048"
  by (simp add: tick_order_def demo_intent_def lots_def max_lots_def)

lemma demo_account: "account demo_portfolio (''m'', ''YES'') 104857600 0 0 0"
  by (simp add: account_def demo_portfolio_def lots_def max_lots_def pos_at_def dget_def empty_position_def)

lemma demo_key: "pf_key (ri_condition_id demo_intent) (ri_outcome demo_intent) = Inr (''m'', ''YES'')"
  by (simp add: demo_intent_def) code_simp

lemma demo_levels: "[(Fin 1, Fin 3), (Fin 4, Fin 1)] = tick_levels [(1024, 3072), (4096, 1024)]"
  by (simp add: tick_levels_def lot_levels_def lots_def)

lemma demo_ladder: "tick_ladder [(1024, 3072), (4096, 1024)]" "good_timestamps demo_times"
  by (simp_all add: tick_ladder_def max_lots_def demo_times_def good_timestamps_def)

text \<open>The order buys 3 shares at 1; the level at 4 is above its limit.\<close>

lemma demo_taken: "tick_taken ''IOC'' 4096 2048 [(1024, 3072), (4096, 1024)] = [(1024, 3072)]"
  by (simp add: tick_taken_def tick_book_def)

lemma demo_run:
  "\<exists>res p' x. execute_aggressive_with_risk demo_intent ''IOC'' [(Fin 1, Fin 3), (Fin 4, Fin 1)] demo_times (Fin 2) (Fin 2)
     (demo_limits 50) demo_context None demo_portfolio = (Inr res, p') \<and> ge_execution res = Some x"
proof -
  obtain risk where risk: "evaluate_order_risk demo_portfolio demo_intent (demo_limits 50) demo_context = Inr risk" "rr_allowed risk"
    using demo_allowed [of 50] by auto
  show ?thesis unfolding demo_levels
    using aggressive_buy_ticks [OF demo_order demo_post_init demo_key demo_account _ _ demo_ladder, of "''IOC''" "Fin 2" "Fin 2",
      OF _ _ _ _ _ _ _ demo_context_ok risk]
    by (auto simp: max_lots_def)
qed

lemma run_aggressive_ok:
  assumes r: "run_aggressive i tif ls ots ref mark fees s = (Inr x, s')" and p: "pf_ok (fst s)"
  shows "pf_ok (fst s')"
proof -
  from r obtain fs s1 where "book_taker_fills i fees fs s = (Inr (), s1)" "release_cash i s1 = (Inr (), s')"
    by (auto simp: run_aggressive_def err_simps)
  then show ?thesis using book_taker_fills_ok release_cash_ok p by blast
qed

lemma run_passive_ok:
  "run_passive i displayed ots ts ref mark fees c s = (Inr x, s') \<Longrightarrow> pf_ok (fst s) \<Longrightarrow> pf_ok (fst s')"
  unfolding run_passive_def Let_def err_simps
  by (auto split: if_splits dest: book_maker_fills_ok release_rest_ok)

text \<open>A run that returns was rejected by the gate, or reserved and ran to its end.\<close>

lemma aggressive_returns:
  assumes "execute_aggressive_with_risk i tif ls ots ref mark l ctx fs p = (Inr r, p')"
  shows "(p' = p \<and> ge_execution r = None \<and> \<not> rr_allowed (ge_risk r)) \<or>
    (\<exists>risk v p1 x w. reserve_for_buy i risk p = (Inr v, p1) \<and> ge_execution r = Some x \<and> rr_allowed (ge_risk r) \<and>
      run_aggressive i tif ls ots ref mark (case fs of None \<Rightarrow> no_fees | Some f \<Rightarrow> f) (p1, v) = (Inr x, (p', w)))"
proof -
  let ?fees = "case fs of None \<Rightarrow> no_fees | Some f \<Rightarrow> f"
  obtain e risk where e: "effective_context i (taker_fee_bps ?fees) ctx = Inr e" "evaluate_order_risk p i l e = Inr risk"
    using assms by (auto simp: execute_aggressive_with_risk_def err_simps Let_def)
  show ?thesis
  proof (cases "rr_allowed risk")
    case False
    then show ?thesis using assms e by (auto simp: execute_aggressive_with_risk_def gated_result_of_def)
  next
    case True
    then obtain v p1 where v: "reserve_for_buy i risk p = (Inr v, p1)"
      using assms e by (auto simp: execute_aggressive_with_risk_def err_simps)
    obtain y q w where y: "on_exception (run_aggressive i tif ls ots ref mark ?fees (p1, v)) (release_cash i) = (y, (q, w))"
      by (metis surj_pair)
    then obtain x where "y = Inr x" "q = p'" "r = gated_result_of risk (Some x) p'"
      using assms e v True by (cases y) (auto simp: execute_aggressive_with_risk_def simp del: on_exception_Inr)
    then show ?thesis using v y True by (auto simp: gated_result_of_def)
  qed
qed

lemma passive_returns:
  assumes "execute_passive_with_risk i displayed ots ts ref mark l ctx fs c p = (Inr r, p')"
  shows "(p' = p \<and> gp_execution r = None \<and> \<not> gp_reservation_active r \<and> \<not> rr_allowed (gp_risk r)) \<or>
    (\<exists>risk v p1 x b w. reserve_for_order i risk p = (Inr v, p1) \<and> gp_execution r = Some x \<and> rr_allowed (gp_risk r) \<and>
      run_passive i displayed ots ts ref mark (case fs of None \<Rightarrow> no_fees | Some f \<Rightarrow> f) c (p1, v) = (Inr (x, b), (p', w)))"
proof -
  let ?fees = "case fs of None \<Rightarrow> no_fees | Some f \<Rightarrow> f"
  obtain e risk where e: "effective_context i (maker_fee_bps ?fees) ctx = Inr e" "evaluate_order_risk p i l e = Inr risk"
    using assms by (auto simp: execute_passive_with_risk_def err_simps Let_def)
  show ?thesis
  proof (cases "rr_allowed risk")
    case False
    then show ?thesis using assms e by (auto simp: execute_passive_with_risk_def gated_passive_of_def)
  next
    case True
    then obtain v p1 where v: "reserve_for_order i risk p = (Inr v, p1)"
      using assms e by (auto simp: execute_passive_with_risk_def err_simps)
    obtain y q w where y: "on_exception (run_passive i displayed ots ts ref mark ?fees c (p1, v)) (release_rest i) = (y, (q, w))"
      by (metis surj_pair)
    then obtain x b where "y = Inr (x, b)" "q = p'" "r = gated_passive_of risk (Some x) b (p', w)"
      using assms e v True by (cases y) (auto simp: execute_passive_with_risk_def simp del: on_exception_Inr)
    then show ?thesis using v y True by (cases v; cases w) (simp add: gated_passive_of_def, blast)
  qed
qed

lemma undo_reservation:
  assumes "at_rest p" "wf_float a" "reserve_buy_cash a p = (Inr u, p1)"
  shows "if flt EPS a then release_reserved_cash a p1 = (Inr (), p) else p1 = p"
proof -
  have a: "isfinite a" "p1 = p\<lparr>pf_reserved_cash := (if fle a EPS then Fin 0 else a)\<rparr>"
    using at_rest_reserve [OF assms] by auto
  have "\<not> flt EPS a \<longleftrightarrow> fle a EPS" using not_flt_fin [of EPS a] a(1) by simp
  moreover have "p\<lparr>pf_reserved_cash := Fin 0\<rparr> = p" using assms(1) by (simp add: at_rest_def)
  ultimately show ?thesis using a at_rest_release [OF assms(1,2)] by auto
qed

lemma on_exception_Inl: "on_exception (Inl e, s) h = (case h s of (Inl e', s') \<Rightarrow> (Inl e', s') | (Inr _, s') \<Rightarrow> (Inl e, s'))"
  by (simp add: on_exception_def)

lemma failed_aggressive:
  assumes "at_rest p" "execute_aggressive_with_risk i tif ls ots ref mark l ctx fs p = (r, p')"
    and "simulate_aggressive_with_costs (ri_side i) tif (ri_qty i) (executable_levels i ls) ots ref mark
      (Some (case fs of None \<Rightarrow> no_fees | Some f \<Rightarrow> f)) = Inl e"
  shows "p' = p"
proof (cases "\<exists>x risk. effective_context i (taker_fee_bps (case fs of None \<Rightarrow> no_fees | Some f \<Rightarrow> f)) ctx = Inr x \<and>
    evaluate_order_risk p i l x = Inr risk \<and> rr_allowed risk")
  case False
  then show ?thesis using assms(2) by (auto simp: execute_aggressive_with_risk_def checkS_def Let_def split: sum.splits if_splits)
next
  case True
  then obtain x risk where risk: "effective_context i (taker_fee_bps (case fs of None \<Rightarrow> no_fees | Some f \<Rightarrow> f)) ctx = Inr x"
    "evaluate_order_risk p i l x = Inr risk" "rr_allowed risk" by blast
  let ?a = "rr_cash_required risk"
  note wf = wf_cash_required [OF risk(2)]
  show ?thesis
  proof (cases "ri_side i = ''BUY''")
    case False
    then show ?thesis using assms(2,3) risk
      by (simp add: execute_aggressive_with_risk_def reserve_for_buy_def run_aggressive_def release_cash_def on_exception_Inl)
  next
    case True
    obtain y p1 where y: "reserve_buy_cash ?a p = (y, p1)" by (cases "reserve_buy_cash ?a p")
    show ?thesis
    proof (cases y)
      case (Inl e1)
      then show ?thesis using assms(2) risk True y at_rest_reserve [OF assms(1) wf y]
        by (simp add: execute_aggressive_with_risk_def reserve_for_buy_def)
    next
      case (Inr u)
      note undo = undo_reservation [OF assms(1) wf y [unfolded Inr]]
      show ?thesis using assms(2,3) risk True y Inr undo
        by (auto simp: execute_aggressive_with_risk_def reserve_for_buy_def run_aggressive_def release_cash_def
            on_exception_Inl on_pf_def split: if_splits)
    qed
  qed
qed

lemma failed_passive:
  assumes "at_rest p" "execute_passive_with_risk i displayed ots ts ref mark l ctx fs c p = (r, p')" "ri_side i = ''BUY''"
    and "simulate_passive_with_costs (ri_side i) (ri_qty i) (ri_limit_price i) displayed ots ts ref mark
      (Some (case fs of None \<Rightarrow> no_fees | Some f \<Rightarrow> f)) c = Inl e"
  shows "p' = p"
proof (cases "\<exists>x risk. effective_context i (maker_fee_bps (case fs of None \<Rightarrow> no_fees | Some f \<Rightarrow> f)) ctx = Inr x \<and>
    evaluate_order_risk p i l x = Inr risk \<and> rr_allowed risk")
  case False
  then show ?thesis using assms(2) by (auto simp: execute_passive_with_risk_def checkS_def Let_def split: sum.splits if_splits)
next
  case True
  then obtain x risk where risk: "effective_context i (maker_fee_bps (case fs of None \<Rightarrow> no_fees | Some f \<Rightarrow> f)) ctx = Inr x"
    "evaluate_order_risk p i l x = Inr risk" "rr_allowed risk" by blast
  let ?a = "rr_cash_required risk"
  note wf = wf_cash_required [OF risk(2)]
  obtain y p1 where y: "reserve_buy_cash ?a p = (y, p1)" by (cases "reserve_buy_cash ?a p")
  show ?thesis
  proof (cases y)
    case (Inl e1)
    then show ?thesis using assms(2,3) risk y at_rest_reserve [OF assms(1) wf y]
      by (simp add: execute_passive_with_risk_def reserve_for_order_def)
  next
    case (Inr u)
    note undo = undo_reservation [OF assms(1) wf y [unfolded Inr]]
    show ?thesis using assms(2-4) risk y Inr undo
      by (auto simp: execute_passive_with_risk_def reserve_for_order_def run_passive_def release_rest_def
          on_exception_Inl on_pf_def split: if_splits)
  qed
qed

section \<open>Properties\<close>



text \<open>An order that the gate rejects changes nothing: in both pipelines a run that returns executed the
  order exactly when the gate allowed it, and a rejected order leaves the portfolio as it was, with no
  reservation.\<close>
theorem rejected_order_changes_nothing:
  "(execute_aggressive_with_risk i tif ls ots ref mark l ctx fs p = (Inr r, p1) \<longrightarrow>
      (ge_execution r = None \<longleftrightarrow> \<not> rr_allowed (ge_risk r)) \<and> (\<not> rr_allowed (ge_risk r) \<longrightarrow> p1 = p)) \<and>
   (execute_passive_with_risk i displayed ots trades ref mark l ctx fs cancel p = (Inr s, p2) \<longrightarrow>
      (gp_execution s = None \<longleftrightarrow> \<not> rr_allowed (gp_risk s)) \<and>
      (\<not> rr_allowed (gp_risk s) \<longrightarrow> p2 = p \<and> \<not> gp_reservation_active s))"
proof (intro conjI impI)
  assume r: "execute_aggressive_with_risk i tif ls ots ref mark l ctx fs p = (Inr r, p1)"
  from aggressive_returns [OF r] show "ge_execution r = None \<longleftrightarrow> \<not> rr_allowed (ge_risk r)" by auto
  show "p1 = p" if "\<not> rr_allowed (ge_risk r)" using aggressive_returns [OF r] that by auto
next
  assume r: "execute_passive_with_risk i displayed ots trades ref mark l ctx fs cancel p = (Inr s, p2)"
  from passive_returns [OF r] show "gp_execution s = None \<longleftrightarrow> \<not> rr_allowed (gp_risk s)" by auto
  show "p2 = p" "\<not> gp_reservation_active s" if "\<not> rr_allowed (gp_risk s)" using passive_returns [OF r] that by auto
qed



text \<open>C28. Limit prices are respected: an aggressive BUY never takes a level above its limit and an aggressive
  SELL none below it (up to the tolerance), and every fill of a passive order is a maker fill at exactly
  its limit price.\<close>
theorem limit_price_respected:
  "(execute_aggressive_with_risk i tif ls ots ref mark l ctx fs p = (Inr r, p1) \<longrightarrow> ge_execution r = Some x \<longrightarrow>
      (\<forall>f \<in> set (ag_fills (ca_simulation x)). if ri_side i = ''BUY'' then fle (fl_price f) (fadd (ri_limit_price i) EPS)
         else fle (ri_limit_price i) (fadd (fl_price f) EPS))) \<and>
   (execute_passive_with_risk i displayed ots trades ref mark l ctx fs cancel p = (Inr s, p2) \<longrightarrow> gp_execution s = Some y \<longrightarrow>
      (\<forall>f \<in> set (ps_fills (cp_simulation y)). fl_price f = ri_limit_price i \<and> fl_liquidity f = ''maker''))"
proof (intro conjI impI ballI)
  fix f
  assume run: "execute_aggressive_with_risk i tif ls ots ref mark l ctx fs p = (Inr r, p1)" "ge_execution r = Some x"
    and f: "f \<in> set (ag_fills (ca_simulation x))"
  from aggressive_returns [OF run(1)] run(2) obtain q fees where
    "simulate_aggressive_order (ri_side i) tif (ri_qty i) (executable_levels i ls) ots = Inr (ca_simulation x)"
    by (auto simp: run_aggressive_def simulate_aggressive_with_costs_def err_simps)
  from taker_prices [OF this f] show "if ri_side i = ''BUY'' then fle (fl_price f) (fadd (ri_limit_price i) EPS)
         else fle (ri_limit_price i) (fadd (fl_price f) EPS)"
    by (auto simp: executable_levels_def)
next
  fix f
  assume run: "execute_passive_with_risk i displayed ots trades ref mark l ctx fs cancel p = (Inr s, p2)" "gp_execution s = Some y"
    and f: "f \<in> set (ps_fills (cp_simulation y))"
  from passive_returns [OF run(1)] run(2) have
    "simulate_passive_order (ri_qty i) (ri_limit_price i) displayed ots trades cancel = Inr (cp_simulation y)"
    by (auto simp: run_passive_def simulate_passive_with_costs_def err_simps Let_def)
  from maker_prices [OF this] f show "fl_price f = ri_limit_price i" "fl_liquidity f = ''maker''"
    by (auto simp: list_all_iff maker_at_def)
qed

theorem limit_price_respected_witness:
  "\<exists>r p' x. execute_aggressive_with_risk demo_intent ''IOC'' [(Fin 1, Fin 3), (Fin 4, Fin 1)] demo_times (Fin 2) (Fin 2)
     (demo_limits 50) demo_context None demo_portfolio = (Inr r, p') \<and> ge_execution r = Some x \<and>
     list_all (\<lambda>f. fle (fl_price f) (fadd (Fin 2) EPS)) (ag_fills (ca_simulation x))"
proof -
  obtain r p' x where r: "execute_aggressive_with_risk demo_intent ''IOC'' [(Fin 1, Fin 3), (Fin 4, Fin 1)] demo_times
      (Fin 2) (Fin 2) (demo_limits 50) demo_context None demo_portfolio = (Inr r, p')" "ge_execution r = Some x"
    using demo_run by blast
  from limit_price_respected [THEN conjunct1, THEN mp, THEN mp, OF r] show ?thesis
    using r by (auto simp: list_all_iff demo_intent_def)
qed

text \<open>C26. A simulation that raises leaves no trace: from a portfolio without reserved cash, when the simulator
  or the cost summary raises, the reservation is undone exactly, binary64 rounding included, and the
  portfolio is the one before the call, for aggressive orders of both sides and for passive BUY orders.\<close>
theorem failed_simulation_leaves_no_trace:
  assumes "at_rest p"
  shows "(simulate_aggressive_with_costs (ri_side i) tif (ri_qty i) (executable_levels i ls) ots ref mark
        (Some (case fs of None \<Rightarrow> no_fees | Some f \<Rightarrow> f)) = Inl e \<longrightarrow>
      snd (execute_aggressive_with_risk i tif ls ots ref mark l ctx fs p) = p) \<and>
    (ri_side i = ''BUY'' \<longrightarrow>
      simulate_passive_with_costs (ri_side i) (ri_qty i) (ri_limit_price i) displayed ots ts ref mark
        (Some (case fs of None \<Rightarrow> no_fees | Some f \<Rightarrow> f)) c = Inl e \<longrightarrow>
      snd (execute_passive_with_risk i displayed ots ts ref mark l ctx fs c p) = p)"
proof (intro conjI impI)
  assume "simulate_aggressive_with_costs (ri_side i) tif (ri_qty i) (executable_levels i ls) ots ref mark
        (Some (case fs of None \<Rightarrow> no_fees | Some f \<Rightarrow> f)) = Inl e"
  then show "snd (execute_aggressive_with_risk i tif ls ots ref mark l ctx fs p) = p"
    by (rule failed_aggressive [OF assms prod.collapse [symmetric]])
next
  assume "ri_side i = ''BUY''" "simulate_passive_with_costs (ri_side i) (ri_qty i) (ri_limit_price i) displayed ots ts ref mark
        (Some (case fs of None \<Rightarrow> no_fees | Some f \<Rightarrow> f)) c = Inl e"
  then show "snd (execute_passive_with_risk i displayed ots ts ref mark l ctx fs c p) = p"
    by (rule failed_passive [OF assms prod.collapse [symmetric]])
qed

theorem failed_simulation_leaves_no_trace_witness:
  "snd (execute_aggressive_with_risk demo_intent ''GTC'' [(Fin 1, Fin 3)] demo_times (Fin 2) (Fin 2)
     (demo_limits 50) demo_context None demo_portfolio) = demo_portfolio"
proof -
  have "at_rest demo_portfolio" using wf_of_int [of 100] by (simp add: at_rest_def demo_portfolio_def del: wf_float.simps)
  moreover have "checked_side ''BUY'' = Inr ''BUY''" "aggressive_tif_of ''GTC'' = Inl (ValueError ''tif must be IOC or FOK'')"
    by code_simp+
  then have "simulate_aggressive_with_costs (ri_side demo_intent) ''GTC'' (ri_qty demo_intent)
      (executable_levels demo_intent [(Fin 1, Fin 3)]) demo_times (Fin 2) (Fin 2)
      (Some (case None of None \<Rightarrow> no_fees | Some f \<Rightarrow> f)) = Inl (ValueError ''tif must be IOC or FOK'')"
    by (simp add: simulate_aggressive_with_costs_def simulate_aggressive_order_def demo_intent_def)
  ultimately show ?thesis using failed_simulation_leaves_no_trace [THEN conjunct1, THEN mp] by blast
qed

end
