(* ===== verification/ReservationGap.thy ===== *)
theory ReservationGap
  imports PipelineFacts
begin

text \<open>
  A reservation that rounding makes too small: a passive BUY of 31293 shares at 0.7, filled completely at
  its own limit price by two trades.  The gate reserves the rounded notional of the order; the rounded
  notionals of the two fills exceed it by more than the tolerance \<open>1e-12\<close> of the check in
  \<open>passive_risk_pipeline.py\<close>, so the second fill raises and is lost.
\<close>

section \<open>The numbers\<close>

text \<open>The floats \<open>0.7\<close>, \<open>31293 * 0.7\<close>, what the first fill leaves of it, and \<open>1293 * 0.7\<close>.\<close>

definition gap_price :: pyfloat where
  "gap_price = Fin (3152519739159347 / 4503599627370496)"

definition gap_reserved :: pyfloat where
  "gap_reserved = Fin (3010614019699507 / 137438953472)"

definition gap_left :: pyfloat where
  "gap_left = Fin (124395996787507 / 137438953472)"

definition gap_cost :: pyfloat where
  "gap_cost = Fin (1990335948600115 / 2199023255552)"

lemmas gap_defs = gap_price_def gap_reserved_def gap_left_def gap_cost_def

lemma gap_price_is: "gap_price = b64 (7 / 10)"
  by code_simp

lemma gap_products:
  "fmul (Fin 31293) gap_price = gap_reserved" "fmul gap_price (Fin 30000) = Fin 21000" "fmul (Fin 30000) gap_price = Fin 21000"
  "fmul gap_price (Fin 1293) = gap_cost"
  by code_simp+

lemma gap_differences:
  "fsub gap_reserved (Fin 21000) = gap_left" "flt (fadd gap_left EPS) gap_cost" "fsub gap_left gap_left = Fin 0"
  by code_simp+

lemma gap_wf: "wf_float gap_reserved" "wf_float gap_left" "wf_float gap_cost"
  by (subst gap_products(1) [symmetric], unfold gap_price_def fmul.simps, rule wf_b64)
    (subst gap_differences(1) [symmetric], unfold gap_reserved_def fsub_Fin, rule wf_b64,
      subst gap_products(4) [symmetric], unfold gap_price_def fmul.simps, rule wf_b64)

lemma gap_room: "\<not> flt (fadd (Fin 50000) EPS) gap_reserved" "\<not> flt (fadd (Fin 40000) EPS) gap_reserved"
  "\<not> flt (fadd gap_reserved EPS) (Fin 21000)" "\<not> flt (fadd gap_left EPS) gap_left" "\<not> flt (fadd (Fin 29000) EPS) gap_left"
  using gap_wf(1) [unfolded gap_reserved_def, THEN add_EPS_ge, of 50000] gap_wf(1) [unfolded gap_reserved_def, THEN add_EPS_ge, of 40000]
    add_EPS_ge [of 21000 "3010614019699507 / 137438953472"] wf_of_int [of 21000]
    gap_wf(2) [unfolded gap_left_def, THEN add_EPS_ge, of "124395996787507 / 137438953472"]
    gap_wf(2) [unfolded gap_left_def, THEN add_EPS_ge, of 29000]
  by (simp_all add: gap_defs del: fadd.simps wf_float.simps)

lemma gap_no_fee: "bps_of gap_reserved (Fin 0) = Inr (Fin 0)" "bps_of gap_cost (Fin 0) = Inr (Fin 0)" "bps_of (Fin 21000) (Fin 0) = Inr (Fin 0)"
  by (simp_all add: gap_defs bps_of_def BPS_def)

section \<open>The order\<close>

definition gap_intent :: risk_intent where
  "gap_intent = \<lparr>ri_condition_id = ''m'', ri_outcome = ''YES'', ri_side = ''BUY'', ri_qty = Fin 31293, ri_limit_price = gap_price\<rparr>"

definition gap_portfolio :: portfolio where
  "gap_portfolio = \<lparr>pf_cash = Fin 50000, pf_reserved_cash = Fin 0, pf_realized_pnl = Fin 0, pf_positions = [], pf_reserved_positions = []\<rparr>"

definition gap_limits :: risk_limits where
  "gap_limits = \<lparr>max_order_notional = Fin 40000, max_market_exposure = Fin 40000, max_gross_exposure = Fin 40000,
     max_daily_loss = Fin 10, max_market_data_age_ms = Fin 1000\<rparr>"

definition gap_trades :: "trade_event list" where
  "gap_trades = [\<lparr>te_venue_ts_ms = Fin 2, te_traded_qty = Fin 30000\<rparr>, \<lparr>te_venue_ts_ms = Fin 3, te_traded_qty = Fin 1293\<rparr>]"

lemma gap_risk:
  "\<exists>r. evaluate_order_risk gap_portfolio gap_intent gap_limits demo_context = Inr r \<and> rr_allowed r \<and> rr_cash_required r = gap_reserved"
  using no_daily_loss
  by (simp add: evaluate_order_risk_def gap_portfolio_def gap_intent_def gap_limits_def demo_context_def
      ri_order_notional_def buy_effect_def market_exposure_def gross_cost_exposure_def available_cash_def
      py_sum_def reason_def rr_allowed_def Let_def gap_products gap_differences gap_room gap_wf)

lemma gap_sim:
  "\<exists>r. simulate_passive_with_costs ''BUY'' (Fin 31293) gap_price (Fin 0) demo_times gap_trades gap_price gap_price (Some no_fees) None = Inr r \<and>
     ps_final_status (cp_simulation r) = FILLED \<and>
     ps_fills (cp_simulation r) = [\<lparr>fl_price = gap_price, fl_qty = Fin 30000, fl_liquidity = ''maker''\<rparr>,
       \<lparr>fl_price = gap_price, fl_qty = Fin 1293, fl_liquidity = ''maker''\<rparr>]"
proof -
  have l: "Fin 31293 = lots (31293 * 2 ^ 20)" "Fin 30000 = lots (30000 * 2 ^ 20)" "Fin 1293 = lots (1293 * 2 ^ 20)"
    by (simp_all add: lots_def)
  let ?ts = "[\<lparr>te_venue_ts_ms = Fin 2, te_traded_qty = lots (30000 * 2 ^ 20)\<rparr>, \<lparr>te_venue_ts_ms = Fin 3, te_traded_qty = lots (1293 * 2 ^ 20)\<rparr>]"
  have q: "qty_lots \<lparr>te_venue_ts_ms = t, te_traded_qty = lots k\<rparr> = k" for t k by (simp add: qty_lots_def lots_def)
  have p: "isfinite gap_price" "flt (Fin 0) gap_price" "fle (Fin 0) gap_price" by (simp_all add: gap_defs)
  have good: "good_timestamps demo_times" "list_all (trade_ok (order_venue_accept_ts_ms demo_times)) ?ts"
    "cancel_ok (order_venue_accept_ts_ms demo_times) ?ts None"
    by (simp_all add: good_timestamps_def demo_times_def trade_ok_def cancel_ok_def q max_lots_def)
  obtain sim where sim: "simulate_passive_order (lots (31293 * 2 ^ 20)) gap_price (lots 0) demo_times ?ts None = Inr sim"
    "passive_outcome (31293 * 2 ^ 20) gap_price False 0 (31293 * 2 ^ 20) sim"
    "ps_fills sim = maker_fills gap_price [30000 * 2 ^ 20, 1293 * 2 ^ 20]"
    using simulation_lots [of "31293 * 2 ^ 20" 0 gap_price, OF _ _ _ p(1,2) good]
    by (auto simp: max_lots_def traded_def q build_timeline_def own_def kind_rank_def insort_key_def less_prod_def)
  have side: "checked_side ''BUY'' = Inr ''BUY''" by code_simp
  let ?n = "31293 * 2 ^ 20 :: nat" and ?qs = "[30000 * 2 ^ 20, 1293 * 2 ^ 20] :: nat list"
  have n: "0 < ?n" "?n \<le> max_lots" "sum_list ?qs = ?n" by (simp_all add: max_lots_def)
  have qs: "qty_of (maker_fills gap_price ?qs) ?qs" using p by (simp add: qty_of_def maker_fills_def)
  obtain e where e: "summarize_execution ''BUY'' (lots ?n) (maker_fills gap_price ?qs) gap_price (Some no_fees) = Inr e" "quantities e ?n ?n"
    using summarize_lots [OF n(1,2) qs eq_refl [OF n(3)] p(1,2) side] unfolding n(3) by blast
  obtain x where "mark_to_market_pnl e gap_price = Inr x" using pnl_lots [OF e(2) p(1,3)] by blast
  then show ?thesis using sim e(1)
    by (simp add: simulate_passive_with_costs_def gap_trades_def l passive_outcome_def) (simp add: maker_fills_def)
qed

section \<open>Booking the fills\<close>

definition gap_holding :: "pyfloat \<Rightarrow> portfolio" where
  "gap_holding r = gap_portfolio\<lparr>pf_cash := Fin 29000, pf_reserved_cash := r,
     pf_positions := [((''m'', ''YES''), \<lparr>po_condition_id = ''m'', po_outcome = ''YES'', po_qty = Fin 30000, po_cost_basis = Fin 21000\<rparr>)]\<rparr>"

lemma gap_size: "flt (Fin 0) gap_left" "flt EPS gap_left" "isfinite gap_left" "\<not> fle (fabs gap_left) EPS" "\<not> fle (fabs gap_reserved) EPS"
  "isfinite gap_reserved" "flt (Fin 0) gap_reserved" "isfinite gap_price" "flt (Fin 0) gap_price"
  "py_min gap_reserved (Fin 21000) = Fin 21000" "py_max (Fin 0) gap_left = gap_left"
  by (simp_all add: gap_defs EPS_eq)

lemma gap_reserve: "reserve_buy_cash gap_reserved gap_portfolio = (Inr (), gap_portfolio\<lparr>pf_reserved_cash := gap_reserved\<rparr>)"
  by (simp add: reserve_buy_cash_def gap_portfolio_def available_cash_def pf_positive_Inr [THEN iffD2] gap_size gap_differences gap_room gap_wf
      pf_normalize_def Let_def)

lemma gap_settle: "settle (''m'', ''YES'') (gap_holding gap_left) = (Inr (), gap_holding gap_left)"
  by (simp add: settle_def pf_normalize_position_def pf_normalize_def gap_holding_def gap_portfolio_def pos_at_def dget_def
      gap_size gap_room Let_def)

lemma gap_first_fill:
  "apply_buy_fill ''m'' ''YES'' (Fin 30000) gap_price (Fin 0) (Fin 0) True (gap_portfolio\<lparr>pf_reserved_cash := gap_reserved\<rparr>) =
     (Inr (), gap_holding gap_left)"
proof -
  have key: "pf_key ''m'' ''YES'' = Inr (''m'', ''YES'')" by code_simp
  have pos: "position_of ''m'' ''YES'' (gap_portfolio\<lparr>pf_cash := Fin 29000, pf_reserved_cash := gap_left\<rparr>) =
      (Inr (''m'', ''YES''), put_pos (''m'', ''YES'') (empty_position (''m'', ''YES'')) (gap_portfolio\<lparr>pf_cash := Fin 29000, pf_reserved_cash := gap_left\<rparr>))"
    by (rule position_of_fresh [OF key]) (simp add: gap_portfolio_def)
  have hold: "(put_pos (''m'', ''YES'') ((empty_position (''m'', ''YES''))\<lparr>po_qty := Fin 30000, po_cost_basis := Fin 21000\<rparr>)
       (put_pos (''m'', ''YES'') (empty_position (''m'', ''YES'')) (gap_portfolio\<lparr>pf_cash := Fin 29000, pf_reserved_cash := gap_left\<rparr>)))
       \<lparr>pf_realized_pnl := Fin 0\<rparr> = gap_holding gap_left"
    by (simp add: put_pos_def gap_holding_def gap_portfolio_def empty_position_def)
  have upd: "gap_portfolio\<lparr>pf_reserved_cash := gap_left, pf_cash := Fin 29000\<rparr> = gap_portfolio\<lparr>pf_cash := Fin 29000, pf_reserved_cash := gap_left\<rparr>"
    by (simp add: gap_portfolio_def)
  have f: "pf_cash gap_portfolio = Fin 50000" "pf_realized_pnl gap_portfolio = Fin 0" by (simp_all add: gap_portfolio_def)
  show ?thesis
    using pos gap_settle hold
    by (simp add: apply_buy_fill_def pf_positive_Inr [THEN iffD2] pf_nonnegative_Inr [THEN iffD2] gap_size gap_products gap_differences
        f upd Let_def settle_def [symmetric] empty_qty cong: eval_cong)
qed

lemma gap_book:
  "book_maker_fills gap_intent no_fees [\<lparr>fl_price = gap_price, fl_qty = Fin 30000, fl_liquidity = ''maker''\<rparr>,
       \<lparr>fl_price = gap_price, fl_qty = Fin 1293, fl_liquidity = ''maker''\<rparr>]
     (gap_portfolio\<lparr>pf_reserved_cash := gap_reserved\<rparr>, (gap_reserved, Fin 0)) =
   (Inl (AssertionError ''maker BUY fill exceeds this order's reserved cash''), (gap_holding gap_left, (gap_left, Fin 0)))"
  by (simp add: maker_fees_def no_fees_def gap_no_fee gap_products gap_differences gap_size gap_room gap_wf gap_intent_def book_maker_buy_def book_buy_def
      net_cash_cost_def on_pf_def gap_first_fill Let_def)

lemma gap_release: "release_reserved_cash gap_left (gap_holding gap_left) = (Inr (), gap_holding (Fin 0))"
  by (simp add: release_reserved_cash_def gap_holding_def gap_portfolio_def pf_positive_Inr [THEN iffD2] gap_size gap_differences gap_room gap_wf
      pf_normalize_def Let_def)

section \<open>Property\<close>

text \<open>C25. A complete fill that the reservation does not cover: for a passive BUY of 31293 shares at 0.7, filled
  by trades of 30000 and 1293 shares, the simulation ends FILLED, but the pipeline raises on the second
  fill, because the two rounded costs exceed the rounded notional that was reserved; the portfolio is
  left with 30000 shares.\<close>
theorem full_maker_fill_raises:
  "gap_price = b64 (7 / 10) \<and>
   (\<exists>sim. simulate_passive_with_costs ''BUY'' (Fin 31293) gap_price (Fin 0) demo_times gap_trades gap_price gap_price (Some no_fees) None = Inr sim \<and>
      ps_final_status (cp_simulation sim) = FILLED) \<and>
   execute_passive_with_risk gap_intent (Fin 0) demo_times gap_trades gap_price gap_price gap_limits demo_context None None gap_portfolio =
     (Inl (AssertionError ''maker BUY fill exceeds this order's reserved cash''), gap_holding (Fin 0)) \<and>
   po_qty (pos_at (gap_holding (Fin 0)) (''m'', ''YES'')) = Fin 30000"
proof -
  obtain sim where sim: "simulate_passive_with_costs ''BUY'' (Fin 31293) gap_price (Fin 0) demo_times gap_trades gap_price gap_price
      (Some no_fees) None = Inr sim" "ps_final_status (cp_simulation sim) = FILLED"
    "ps_fills (cp_simulation sim) = [\<lparr>fl_price = gap_price, fl_qty = Fin 30000, fl_liquidity = ''maker''\<rparr>,
       \<lparr>fl_price = gap_price, fl_qty = Fin 1293, fl_liquidity = ''maker''\<rparr>]" using gap_sim by blast
  obtain risk where risk: "evaluate_order_risk gap_portfolio gap_intent gap_limits demo_context = Inr risk" "rr_allowed risk"
    "rr_cash_required risk = gap_reserved" using gap_risk by blast
  have i: "ri_side gap_intent = ''BUY''" "ri_qty gap_intent = Fin 31293" "ri_limit_price gap_intent = gap_price"
    by (simp_all add: gap_intent_def)
  have "estimated_fee gap_intent (Fin 0) = Inr (Fin 0)"
    by (simp add: estimated_fee_def i ri_order_notional_def gap_products gap_no_fee)
  then have ctx: "effective_context gap_intent (Fin 0) demo_context = Inr demo_context"
    by (simp add: effective_context_def demo_context_def risk_context_post_init_def nonnegative_Inr [THEN iffD2] cong: eval_cong)
  have "run_passive gap_intent (Fin 0) demo_times gap_trades gap_price gap_price no_fees None
      (gap_portfolio\<lparr>pf_reserved_cash := gap_reserved\<rparr>, (gap_reserved, Fin 0)) =
    (Inl (AssertionError ''maker BUY fill exceeds this order's reserved cash''), (gap_holding gap_left, (gap_left, Fin 0)))"
    using sim by (simp add: run_passive_def i gap_book del: book_maker_fills.simps)
  moreover have "release_rest gap_intent (gap_holding gap_left, (gap_left, Fin 0)) = (Inr (), (gap_holding (Fin 0), (Fin 0, Fin 0)))"
    by (simp add: release_rest_def i gap_size on_pf_def gap_release)
  ultimately have "execute_passive_with_risk gap_intent (Fin 0) demo_times gap_trades gap_price gap_price gap_limits demo_context None None
      gap_portfolio = (Inl (AssertionError ''maker BUY fill exceeds this order's reserved cash''), gap_holding (Fin 0))"
    using ctx risk i gap_reserve
    by (simp add: execute_passive_with_risk_def no_fees_def reserve_for_order_def on_exception_def)
  then show ?thesis using sim gap_price_is by (simp add: gap_holding_def pos_at_def dget_def)
qed

end
