(* ===== verification/Reconciliation.thy ===== *)
theory Reconciliation
  imports IntentLedger OrderState
begin

text \<open>
  \<open>src/std0_quant/execution/execution_reconciliation_v1.py\<close>: the offline report over a validated snapshot
  of the intent ledger and a list of supplied execution events.  Quantities are exact rationals read
  from the decimal text of a float; the replay of one intent's events is a loop with early exits,
  modelled as a fold over a sum type; sets of reasons and identifiers are duplicate-free lists, sorted
  where the code sorts them.  The hash function is the argument \<open>sha\<close>.
\<close>

section \<open>Constants and validation\<close>

definition OFFLINE :: string where "OFFLINE = ''OFFLINE''"
definition SCOPE :: string where "SCOPE = ''SUPPLIED_EVENTS_ONLY''"
definition SNAPSHOT_SCHEMA :: string where "SNAPSHOT_SCHEMA = ''execution_ledger_snapshot_v1''"
definition EVENT_SCHEMA :: string where "EVENT_SCHEMA = ''execution_reconciliation_event_v1''"
definition REPORT_SCHEMA :: string where "REPORT_SCHEMA = ''execution_reconciliation_report_v1''"
definition RECONCILER_VERSION :: string where "RECONCILER_VERSION = ''execution_reconciliation_v1''"
definition QUANTITY_RULE :: string where "QUANTITY_RULE = ''exact_normalized_decimal_v1''"
definition OBSERVED_TERMINAL :: string where "OBSERVED_TERMINAL = ''OBSERVED_TERMINAL''"
definition OBSERVATIONS_CONSISTENT :: string where "OBSERVATIONS_CONSISTENT = ''OBSERVATIONS_CONSISTENT''"
definition UNRESOLVED :: string where "UNRESOLVED = ''UNRESOLVED''"
definition CONFLICT :: string where "CONFLICT = ''CONFLICT''"
definition EMPTY_SCOPE :: string where "EMPTY_SCOPE = ''EMPTY_SCOPE''"
definition MAX_INTENTS :: nat where "MAX_INTENTS = 100000"
definition MAX_EVENTS :: nat where "MAX_EVENTS = 500000"
definition REC_HASH_DOMAIN :: string where "REC_HASH_DOMAIN = ''std0-quant/execution-reconciliation/v1/''"

definition rec_text :: "string \<Rightarrow> string \<Rightarrow> string res" where
  "rec_text value name =
     raise_if (value = [] \<or> value \<noteq> py_strip value)
       (ValueError (name @ '' must be nonempty without surrounding whitespace'')) (Inr value)"

definition rec_number :: "pyfloat \<Rightarrow> string \<Rightarrow> pyfloat res" where
  "rec_number value name =
     raise_if (\<not> isfinite value \<or> flt value (Fin 0)) (ValueError (name @ '' must be finite and nonnegative'')) (Inr value)"

definition rec_digest :: "hasher \<Rightarrow> string \<Rightarrow> json \<Rightarrow> string" where
  "rec_digest sha kind value = sha (REC_HASH_DOMAIN @ kind @ NL @ canonical value)"

definition rec_hash_text :: "string \<Rightarrow> string res" where
  "rec_hash_text value = bindE (rec_text value ''hash'') (\<lambda>v.
     raise_if (length v \<noteq> 64 \<or> \<not> list_all is_lower_hex v) (ValueError ''hash must be lowercase SHA256'') (Inr v))"

definition rec_checkpoint :: "ledger_checkpoint \<Rightarrow> ledger_checkpoint res" where
  "rec_checkpoint c = bindE (ledger_checkpoint_post_init c) (\<lambda>r.
     raise_if (256 < length (lc_ledger_id r)) (ValueError ''ledger_id exceeds the ledger v1 limit'') (Inr r))"

definition rec_receipt :: "intent_receipt \<Rightarrow> intent_receipt res" where
  "rec_receipt r = intent_receipt_post_init r"

definition rec_intent :: "hasher \<Rightarrow> order_intent \<Rightarrow> order_intent res" where
  "rec_intent sha i = bindE (order_intent_payload_hash_v1 sha i) (\<lambda>_. intent_from_dict (obj_fields (intent_to_dict i)))"

definition rec_event :: "order_event \<Rightarrow> order_event res" where
  "rec_event e = (let row = event_to_dict e in
     bindE (event_from_dict (obj_fields row)) (\<lambda>normalized.
     raise_if (canonical row \<noteq> canonical (event_to_dict normalized))
       (ReconciliationInputError ''event is not in normalized contract form'') (
     bindE (case oe_venue_order_id normalized of None \<Rightarrow> Inr [] | Some v \<Rightarrow> rec_text v ''venue_order_id'') (\<lambda>_.
     Inr normalized))))"

section \<open>Snapshots\<close>

record rec_entry =
  re_intent :: order_intent
  re_receipt :: intent_receipt

definition rec_entry_post_init :: "hasher \<Rightarrow> rec_entry \<Rightarrow> rec_entry res" where
  "rec_entry_post_init sha e =
     bindE (rec_intent sha (re_intent e)) (\<lambda>i.
     bindE (rec_receipt (re_receipt e)) (\<lambda>r. Inr \<lparr>re_intent = i, re_receipt = r\<rparr>))"

record ledger_snapshot =
  sn_checkpoint :: ledger_checkpoint
  sn_entries :: "rec_entry list"
  sn_schema_version :: string

definition snapshot_post_init :: "hasher \<Rightarrow> ledger_snapshot \<Rightarrow> ledger_snapshot res" where
  "snapshot_post_init sha s =
     bindE (rec_checkpoint (sn_checkpoint s)) (\<lambda>c.
     raise_if (MAX_INTENTS < length (sn_entries s)) (ValueError ''snapshot exceeds MAX_INTENTS'') (
     raise_if (sn_schema_version s \<noteq> SNAPSHOT_SCHEMA) (ValueError ''unsupported snapshot schema'') (
     bindE (mapE (rec_entry_post_init sha) (sn_entries s)) (\<lambda>es.
     Inr (s\<lparr>sn_checkpoint := c, sn_entries := es\<rparr>)))))"

text \<open>The hash chain of the entries, from a sequence number, the previous hash and the ids seen.\<close>

fun validate_entries :: "hasher \<Rightarrow> string \<Rightarrow> int \<Rightarrow> string \<Rightarrow> string list \<Rightarrow> rec_entry list \<Rightarrow> string res" where
  "validate_entries sha lid sequence previous seen [] = Inr previous"
| "validate_entries sha lid sequence previous seen (e # es) =
     (let i = re_intent e in
      bindE (order_intent_payload_hash_v1 sha i) (\<lambda>intent_hash.
      let current = record_hash sha lid sequence previous (intent_to_dict i) in
      bindE (intent_receipt_post_init \<lparr>rc_ledger_id = lid, rc_sequence = sequence, rc_intent_id = oi_intent_id i,
               rc_intent_hash = intent_hash, rc_record_hash = current, rc_schema_version = RECEIPT_SCHEMA\<rparr>) (\<lambda>expected.
      raise_if (re_receipt e \<noteq> expected \<or> oi_intent_id i \<in> set seen)
        (ReconciliationInputError ''receipt identity/sequence/hash chain mismatch'') (
      raise_if (MAX_LINE_BYTES < length (canonical (ledger_record sha lid sequence previous (intent_to_dict i))) + 1)
        (ReconciliationInputError ''snapshot contains an oversized ledger record'') (
      validate_entries sha lid (sequence + 1) current (oi_intent_id i # seen) es)))))"

definition validate_snapshot :: "hasher \<Rightarrow> ledger_snapshot \<Rightarrow> ledger_checkpoint \<Rightarrow> unit res" where
  "validate_snapshot sha snapshot checkpoint =
     raise_if (sn_checkpoint snapshot \<noteq> checkpoint \<or> int (length (sn_entries snapshot)) \<noteq> lc_sequence checkpoint)
       (ReconciliationInputError ''snapshot does not match the exact trusted checkpoint scope'') (
     bindE (validate_entries sha (lc_ledger_id checkpoint) 1 (header_hash sha (lc_ledger_id checkpoint)) [] (sn_entries snapshot)) (\<lambda>previous.
     raise_if (previous \<noteq> lc_record_hash checkpoint)
       (ReconciliationInputError ''reconstructed history does not reach trusted checkpoint'') (Inr ())))"

text \<open>Reading a snapshot off an open ledger handle.\<close>

fun capture_entries :: "hasher \<Rightarrow> intent_receipt list \<Rightarrow> lstate \<Rightarrow> rec_entry list res \<times> lstate" where
  "capture_entries sha [] s = (Inr [], s)"
| "capture_entries sha (r # rs) s =
     thenS (ledger_get_intent (rc_intent_id r) s) (\<lambda>found s1.
     (case found of
        None \<Rightarrow> (Inl (ReconciliationInputError ''ledger intent missing during snapshot''), s1)
      | Some i \<Rightarrow>
          checkS (rec_entry_post_init sha \<lparr>re_intent = i, re_receipt = r\<rparr>) s1 (\<lambda>e.
          thenS (capture_entries sha rs s1) (\<lambda>es s2. (Inr (e # es), s2)))))"

definition capture_snapshot :: "hasher \<Rightarrow> ledger_checkpoint \<Rightarrow> lstate \<Rightarrow> ledger_snapshot res \<times> lstate" where
  "capture_snapshot sha checkpoint s =
     checkS (rec_checkpoint checkpoint) s (\<lambda>anchor.
     thenS (ledger_checkpoint_of s) (\<lambda>before s1.
     failS (lc_ledger_id before \<noteq> lc_ledger_id anchor \<or> lc_sequence before < lc_sequence anchor
            \<or> int MAX_INTENTS < lc_sequence anchor)
       (ReconciliationInputError ''requested checkpoint is outside available history'') s1 (
     thenS (ledger_receipts s1) (\<lambda>receipts s2.
     failS (int (length receipts) \<noteq> lc_sequence before)
       (ReconciliationInputError ''ledger snapshot changed while reading receipts'') s2 (
     thenS (capture_entries sha (take (nat (lc_sequence anchor)) receipts) s2) (\<lambda>entries s3.
     checkS (snapshot_post_init sha \<lparr>sn_checkpoint = anchor, sn_entries = entries, sn_schema_version = SNAPSHOT_SCHEMA\<rparr>) s3 (\<lambda>snapshot.
     checkS (validate_snapshot sha snapshot anchor) s3 (\<lambda>_.
     thenS (ledger_checkpoint_of s3) (\<lambda>after s4.
     failS (after \<noteq> before) (ReconciliationInputError ''ledger changed during snapshot capture; retry explicitly'') s4
       (Inr snapshot, s4))))))))))"

section \<open>Exact quantities\<close>

text \<open>\<open>Fraction(str(value))\<close>: the rational the decimal text of a finite nonnegative float denotes.\<close>

definition rec_quantity :: "pyfloat \<Rightarrow> rat" where
  "rec_quantity v = (case read_unsigned (float_repr v) of Some (_, q) \<Rightarrow> q | None \<Rightarrow> 0)"

text \<open>\<open>while d % p == 0: d //= p; n += 1\<close>.\<close>

fun strip_factor :: "nat \<Rightarrow> nat \<Rightarrow> nat \<times> nat" where
  "strip_factor p d = (if 1 < p \<and> 0 < d \<and> d mod p = 0
     then (case strip_factor p (d div p) of (r, k) \<Rightarrow> (r, Suc k)) else (d, 0))"

declare strip_factor.simps [simp del]

definition rstrip_char :: "char \<Rightarrow> string \<Rightarrow> string" where
  "rstrip_char c s = rev (dropWhile (\<lambda>x. x = c) (rev s))"

definition rjust_zeros :: "nat \<Rightarrow> string \<Rightarrow> string" where
  "rjust_zeros n s = replicate (n - length s) (CHR ''0'') @ s"

definition rec_decimal :: "rat \<Rightarrow> string res" where
  "rec_decimal value =
     (let (numerator, denominator) = quotient_of value;
          (d2, twos) = strip_factor 2 (nat denominator);
          (d5, fives) = strip_factor 5 d2 in
      raise_if (d5 \<noteq> 1 \<or> value < 0) (ReconciliationInputError ''quantity is not a nonnegative finite decimal'') (
      let scale = max twos fives;
          integer = numerator * 2 ^ (scale - twos) * 5 ^ (scale - fives) in
      if scale = 0 then Inr (int_str integer)
      else (let digits = rjust_zeros (scale + 1) (int_str integer) in
            Inr (rstrip_char (CHR ''.'') (rstrip_char (CHR ''0'')
              (take (length digits - scale) digits @ ''.'' @ drop (length digits - scale) digits))))))"

section \<open>Replay of one intent\<close>

record rec_observation =
  ro_receipt :: intent_receipt
  ro_event :: order_event
  ro_mode :: string
  ro_schema_version :: string

definition rec_observation_post_init :: "rec_observation \<Rightarrow> rec_observation res" where
  "rec_observation_post_init o1 =
     bindE (rec_receipt (ro_receipt o1)) (\<lambda>r.
     bindE (rec_event (ro_event o1)) (\<lambda>e.
     raise_if (ro_mode o1 \<noteq> OFFLINE \<or> ro_schema_version o1 \<noteq> EVENT_SCHEMA)
       (ValueError ''only OFFLINE reconciliation event v1 is supported'') (
     Inr (o1\<lparr>ro_receipt := r, ro_event := e\<rparr>))))"

record rec_row =
  rw_sequence :: int
  rw_intent_id :: string
  rw_intent_hash :: string
  rw_record_hash :: string
  rw_status :: string
  rw_reasons :: "string list"
  rw_observed_event_ids :: "string list"
  rw_order_status :: "string option"
  rw_filled_qty_decimal :: "string option"
  rw_remaining_qty_decimal :: "string option"
  rw_venue_order_id :: "string option"

text \<open>The transition table for the events that are not fills.\<close>

fun rec_transitions :: "order_event_type \<Rightarrow> order_status list \<times> order_status" where
  "rec_transitions SUBMITTED = ([NEW], SENT)"
| "rec_transitions VENUE_ACK = ([SENT], ACKNOWLEDGED)"
| "rec_transitions REJECTED_EVENT = ([SENT], REJECTED)"
| "rec_transitions CANCEL_REQUESTED_EVENT = ([ACKNOWLEDGED, PARTIALLY_FILLED], CANCEL_REQUESTED)"
| "rec_transitions CANCELLED_EVENT = ([CANCEL_REQUESTED], CANCELLED)"
| "rec_transitions EXPIRED_EVENT = ([ACKNOWLEDGED, PARTIALLY_FILLED], EXPIRED)"
| "rec_transitions PARTIAL_FILL = ([], PARTIALLY_FILLED)"
| "rec_transitions FILLED_EVENT = ([], FILLED)"

definition FILL_FROM :: "order_status list" where
  "FILL_FROM = [ACKNOWLEDGED, PARTIALLY_FILLED, CANCEL_REQUESTED]"

record replay_state =
  rs_status :: order_status
  rs_filled :: rat
  rs_last_time :: pyfloat
  rs_venue_id :: "string option"

text \<open>An early exit of the loop: the status and the reason of the row.\<close>

type_synonym rec_exit = "string \<times> string"

definition exit_if :: "bool \<Rightarrow> string \<Rightarrow> string \<Rightarrow> rec_exit + 'a \<Rightarrow> rec_exit + 'a" where
  "exit_if b status reason k = (if b then Inl (status, reason) else k)"

definition outside_limit :: "order_intent \<Rightarrow> order_event \<Rightarrow> bool" where
  "outside_limit i e = (case oe_fill_price e of None \<Rightarrow> False | Some p \<Rightarrow>
     (oi_side i = BUY \<and> flt (oi_limit_price i) p) \<or> (oi_side i = SELL \<and> flt p (oi_limit_price i)))"

text \<open>The status after an event, once its quantities agree.\<close>

definition replay_status :: "order_intent \<Rightarrow> order_event \<Rightarrow> rat \<Rightarrow> order_status \<Rightarrow> rec_exit + order_status" where
  "replay_status i e next_filled st =
     (let kind = oe_event_type e; qty = rec_quantity (oi_qty i) in
      if fill_event_type kind then
        exit_if (outside_limit i e) CONFLICT ''FILL_OUTSIDE_LIMIT'' (
        if kind = FILLED_EVENT then
          exit_if (next_filled \<noteq> qty) CONFLICT ''FILLED_WITH_UNFILLED_QUANTITY'' (Inr FILLED)
        else
          exit_if (\<not> (0 < next_filled \<and> next_filled < qty)) CONFLICT ''INVALID_PARTIAL_FILL_QUANTITY''
            (Inr (if st \<noteq> CANCEL_REQUESTED then PARTIALLY_FILLED else st)))
      else Inr (snd (rec_transitions kind)))"

definition replay_step :: "order_intent \<Rightarrow> pyfloat \<Rightarrow> order_event \<Rightarrow> replay_state \<Rightarrow> rec_exit + replay_state" where
  "replay_step i cutoff e s =
     (let kind = oe_event_type e; st = rs_status s; qty = rec_quantity (oi_qty i) in
      exit_if (flt (oe_receive_ts_ms e) (rs_last_time s)) CONFLICT ''NONMONOTONIC_OR_PREDECISION_RECEIVE_TIME'' (
      exit_if (flt cutoff (oe_receive_ts_ms e)) CONFLICT ''EVENT_AFTER_OBSERVATION_CUTOFF'' (
      exit_if (st \<in> set TERMINAL_STATUSES) CONFLICT ''EVENT_AFTER_TERMINAL'' (
      exit_if (st = NEW \<and> kind \<noteq> SUBMITTED) UNRESOLVED ''MISSING_SUBMITTED_EVENT'' (
      exit_if (st = SENT \<and> kind \<in> {PARTIAL_FILL, FILLED_EVENT, CANCEL_REQUESTED_EVENT, CANCELLED_EVENT, EXPIRED_EVENT})
        UNRESOLVED ''MISSING_ACKNOWLEDGEMENT'' (
      exit_if (kind = CANCELLED_EVENT \<and> st \<in> {ACKNOWLEDGED, PARTIALLY_FILLED}) UNRESOLVED ''MISSING_CANCEL_REQUEST'' (
      exit_if (if fill_event_type kind then st \<notin> set FILL_FROM else st \<notin> set (fst (rec_transitions kind)))
        CONFLICT ''INVALID_ORDER_TRANSITION'' (
      exit_if (kind = SUBMITTED \<and> (oe_venue_order_id e \<noteq> None \<or> oe_venue_ts_ms e \<noteq> None))
        CONFLICT ''SUBMITTED_CANNOT_PROVE_VENUE_ACK'' (
      exit_if (kind \<noteq> SUBMITTED \<and> kind \<noteq> REJECTED_EVENT \<and> oe_venue_order_id e = None)
        UNRESOLVED ''MISSING_VENUE_ORDER_ID'' (
      exit_if (oe_venue_order_id e \<noteq> None \<and> rs_venue_id s \<noteq> None \<and> rs_venue_id s \<noteq> oe_venue_order_id e)
        CONFLICT ''VENUE_ORDER_ID_CHANGED'' (
      let venue = (if oe_venue_order_id e \<noteq> None then oe_venue_order_id e else rs_venue_id s);
          next_filled = rs_filled s + (if fill_event_type kind then rec_quantity (oe_fill_qty e) else 0) in
      exit_if (qty < next_filled) CONFLICT ''OVERFILL'' (
      exit_if (rec_quantity (oe_cumulative_filled_qty e) \<noteq> next_filled) CONFLICT ''CUMULATIVE_FILL_MISMATCH'' (
      exit_if (oe_remaining_qty e = None) UNRESOLVED ''MISSING_REMAINING_QUANTITY'' (
      exit_if (rec_quantity (the (oe_remaining_qty e)) \<noteq> qty - next_filled) CONFLICT ''REMAINING_QUANTITY_MISMATCH'' (
      case replay_status i e next_filled st of
        Inl x \<Rightarrow> Inl x
      | Inr st' \<Rightarrow> Inr \<lparr>rs_status = st', rs_filled = next_filled, rs_last_time = oe_receive_ts_ms e, rs_venue_id = venue\<rparr>)))))))))))))))"

fun replay_events :: "order_intent \<Rightarrow> pyfloat \<Rightarrow> order_event list \<Rightarrow> replay_state \<Rightarrow> rec_exit + replay_state" where
  "replay_events i cutoff [] s = Inr s"
| "replay_events i cutoff (e # es) s =
     (case replay_step i cutoff e s of Inl x \<Rightarrow> Inl x | Inr s' \<Rightarrow> replay_events i cutoff es s')"

definition rec_row_of :: "rec_entry \<Rightarrow> string list \<Rightarrow> string \<Rightarrow> string list \<Rightarrow> rec_row" where
  "rec_row_of entry ids status reasons =
     \<lparr>rw_sequence = rc_sequence (re_receipt entry), rw_intent_id = oi_intent_id (re_intent entry),
      rw_intent_hash = rc_intent_hash (re_receipt entry), rw_record_hash = rc_record_hash (re_receipt entry),
      rw_status = status, rw_reasons = reasons, rw_observed_event_ids = ids, rw_order_status = None,
      rw_filled_qty_decimal = None, rw_remaining_qty_decimal = None, rw_venue_order_id = None\<rparr>"

definition replay_start :: "order_intent \<Rightarrow> replay_state" where
  "replay_start i = \<lparr>rs_status = NEW, rs_filled = 0, rs_last_time = oi_decision_ts_ms i, rs_venue_id = None\<rparr>"

definition rec_replay :: "rec_entry \<Rightarrow> rec_observation list \<Rightarrow> pyfloat \<Rightarrow> string list \<Rightarrow> rec_row res" where
  "rec_replay entry observations cutoff inherited =
     (let i = re_intent entry;
          ids = dict_fromkeys (map (\<lambda>x. oe_event_id (ro_event x)) observations) in
      if inherited \<noteq> [] then Inr (rec_row_of entry ids CONFLICT (sort inherited))
      else if flt cutoff (oi_decision_ts_ms i) then Inr (rec_row_of entry ids CONFLICT [''INTENT_AFTER_OBSERVATION_CUTOFF''])
      else if observations = [] then Inr (rec_row_of entry ids UNRESOLVED [''NO_EXECUTION_EVENTS''])
      else
        (case replay_events i cutoff (map ro_event observations) (replay_start i) of
           Inl (status, reason) \<Rightarrow> Inr (rec_row_of entry ids status [reason])
         | Inr s \<Rightarrow>
             (let terminal = rs_status s \<in> set TERMINAL_STATUSES in
              bindE (rec_decimal (rs_filled s)) (\<lambda>filled.
              bindE (rec_decimal (rec_quantity (oi_qty i) - rs_filled s)) (\<lambda>remaining.
              Inr ((rec_row_of entry ids (if terminal then OBSERVED_TERMINAL else UNRESOLVED)
                     (if terminal then [] else [''ORDER_NOT_TERMINAL'']))
                   \<lparr>rw_order_status := Some (status_value (rs_status s)), rw_filled_qty_decimal := Some filled,
                    rw_remaining_qty_decimal := Some remaining, rw_venue_order_id := rs_venue_id s\<rparr>))))))"

section \<open>The report\<close>

record rec_report =
  rp_run_id :: string
  rp_checkpoint :: ledger_checkpoint
  rp_snapshot_hash :: string
  rp_observations_hash :: string
  rp_as_of :: pyfloat
  rp_status :: string
  rp_reasons :: "string list"
  rp_rows :: "rec_row list"
  rp_unresolved :: "string list"
  rp_conflicted :: "string list"
  rp_terminal :: "string list"
  rp_orphans :: "string list"
  rp_conflicting :: "string list"
  rp_input_count :: int
  rp_distinct_count :: int
  rp_duplicate_count :: int
  rp_artifact_hash :: string
  rp_mode :: string
  rp_scope :: string
  rp_quantity_rule :: string
  rp_resume_authorized :: bool
  rp_release_authorized :: bool
  rp_redispatch_authorized :: bool
  rp_version :: string
  rp_schema_version :: string

definition report_post_init :: "rec_report \<Rightarrow> rec_report res" where
  "report_post_init r =
     bindE (rec_text (rp_run_id r) ''reconciliation_run_id'') (\<lambda>_.
     bindE (rec_checkpoint (rp_checkpoint r)) (\<lambda>_.
     bindE (mapE rec_hash_text [rp_snapshot_hash r, rp_observations_hash r, rp_artifact_hash r]) (\<lambda>_.
     bindE (rec_number (rp_as_of r) ''as_of_receive_ts_ms'') (\<lambda>_.
     raise_if (rp_status r \<notin> {OBSERVATIONS_CONSISTENT, UNRESOLVED, CONFLICT, EMPTY_SCOPE})
       (ValueError ''unsupported reconciliation status'') (
     raise_if (rp_mode r \<noteq> OFFLINE \<or> rp_scope r \<noteq> SCOPE \<or> rp_quantity_rule r \<noteq> QUANTITY_RULE
               \<or> rp_version r \<noteq> RECONCILER_VERSION \<or> rp_schema_version r \<noteq> REPORT_SCHEMA)
       (ValueError ''unsupported offline report scope/schema'') (
     raise_if (rp_resume_authorized r \<or> rp_release_authorized r \<or> rp_redispatch_authorized r)
       (ValueError ''a reconciliation report cannot authorize an action'') (
     raise_if (rp_input_count r < 0 \<or> rp_distinct_count r < 0 \<or> rp_duplicate_count r < 0)
       (ValueError ''report counts must be nonnegative integers'') (Inr r))))))))"

text \<open>\<open>asdict\<close> of the dataclasses, as JSON values.\<close>

definition jopt :: "('a \<Rightarrow> json) \<Rightarrow> 'a option \<Rightarrow> json" where
  "jopt f x = (case x of None \<Rightarrow> JNull | Some v \<Rightarrow> f v)"

definition jstrs :: "string list \<Rightarrow> json" where
  "jstrs xs = JList (map JStr xs)"

definition checkpoint_json :: "ledger_checkpoint \<Rightarrow> json" where
  "checkpoint_json c = JObj [(''ledger_id'', JStr (lc_ledger_id c)), (''sequence'', JInt (lc_sequence c)),
     (''record_hash'', JStr (lc_record_hash c))]"

definition receipt_json :: "intent_receipt \<Rightarrow> json" where
  "receipt_json r = JObj [(''ledger_id'', JStr (rc_ledger_id r)), (''sequence'', JInt (rc_sequence r)),
     (''intent_id'', JStr (rc_intent_id r)), (''intent_hash'', JStr (rc_intent_hash r)),
     (''record_hash'', JStr (rc_record_hash r)), (''schema_version'', JStr (rc_schema_version r))]"

definition entry_json :: "rec_entry \<Rightarrow> json" where
  "entry_json e = JObj [(''intent'', intent_to_dict (re_intent e)), (''receipt'', receipt_json (re_receipt e))]"

definition snapshot_json :: "ledger_snapshot \<Rightarrow> json" where
  "snapshot_json s = JObj [(''checkpoint'', checkpoint_json (sn_checkpoint s)),
     (''entries'', JList (map entry_json (sn_entries s))), (''schema_version'', JStr (sn_schema_version s))]"

definition observation_json :: "rec_observation \<Rightarrow> json" where
  "observation_json x = JObj [(''receipt'', receipt_json (ro_receipt x)), (''event'', event_to_dict (ro_event x)),
     (''mode'', JStr (ro_mode x)), (''schema_version'', JStr (ro_schema_version x))]"

definition row_json :: "rec_row \<Rightarrow> json" where
  "row_json r = JObj [(''sequence'', JInt (rw_sequence r)), (''intent_id'', JStr (rw_intent_id r)),
     (''intent_hash'', JStr (rw_intent_hash r)), (''record_hash'', JStr (rw_record_hash r)),
     (''status'', JStr (rw_status r)), (''reasons'', jstrs (rw_reasons r)),
     (''observed_event_ids'', jstrs (rw_observed_event_ids r)), (''order_status'', jopt JStr (rw_order_status r)),
     (''filled_qty_decimal'', jopt JStr (rw_filled_qty_decimal r)),
     (''remaining_qty_decimal'', jopt JStr (rw_remaining_qty_decimal r)),
     (''venue_order_id'', jopt JStr (rw_venue_order_id r))]"

definition report_fields :: "rec_report \<Rightarrow> (string \<times> json) list" where
  "report_fields r =
     [(''reconciliation_run_id'', JStr (rp_run_id r)), (''checkpoint'', checkpoint_json (rp_checkpoint r)),
      (''snapshot_hash'', JStr (rp_snapshot_hash r)), (''observations_hash'', JStr (rp_observations_hash r)),
      (''as_of_receive_ts_ms'', JFloat (rp_as_of r)), (''status'', JStr (rp_status r)),
      (''reasons'', jstrs (rp_reasons r)), (''rows'', JList (map row_json (rp_rows r))),
      (''unresolved_intent_ids'', jstrs (rp_unresolved r)), (''conflicted_intent_ids'', jstrs (rp_conflicted r)),
      (''observed_terminal_intent_ids'', jstrs (rp_terminal r)), (''orphan_event_ids'', jstrs (rp_orphans r)),
      (''conflicting_event_ids'', jstrs (rp_conflicting r)), (''input_event_count'', JInt (rp_input_count r)),
      (''distinct_event_id_count'', JInt (rp_distinct_count r)), (''duplicate_event_count'', JInt (rp_duplicate_count r)),
      (''artifact_hash'', JStr (rp_artifact_hash r)), (''mode'', JStr (rp_mode r)),
      (''observation_scope'', JStr (rp_scope r)), (''quantity_rule'', JStr (rp_quantity_rule r)),
      (''resume_authorized'', JBool (rp_resume_authorized r)),
      (''reservation_release_authorized'', JBool (rp_release_authorized r)),
      (''redispatch_authorized'', JBool (rp_redispatch_authorized r)),
      (''reconciler_version'', JStr (rp_version r)), (''schema_version'', JStr (rp_schema_version r))]"

definition report_json :: "rec_report \<Rightarrow> json" where
  "report_json r = JObj (report_fields r)"

definition report_to_json :: "rec_report \<Rightarrow> string" where
  "report_to_json r = canonical (report_json r)"

definition report_hash :: "hasher \<Rightarrow> rec_report \<Rightarrow> string" where
  "report_hash sha r =
     rec_digest sha ''report'' (JObj (dpop ''artifact_hash'' (dpop ''reconciliation_run_id'' (report_fields r))))"

section \<open>Duplicates and conflicting contents\<close>

record rec_collected =
  cl_variants :: "(string \<times> string list) list"
  cl_distinct :: "rec_observation list"
  cl_duplicates :: nat

definition collect_step :: "rec_observation \<Rightarrow> rec_collected \<Rightarrow> rec_collected" where
  "collect_step item c =
     (let eid = oe_event_id (ro_event item); payload = canonical (observation_json item);
          seen = dget (cl_variants c) eid [] in
      if payload \<in> set seen then c\<lparr>cl_duplicates := cl_duplicates c + 1\<rparr>
      else c\<lparr>cl_variants := dput eid (payload # seen) (cl_variants c), cl_distinct := cl_distinct c @ [item]\<rparr>)"

definition collect :: "rec_observation list \<Rightarrow> rec_collected" where
  "collect observations = fold collect_step observations \<lparr>cl_variants = [], cl_distinct = [], cl_duplicates = 0\<rparr>"

definition conflicting_ids :: "rec_collected \<Rightarrow> string list" where
  "conflicting_ids c = map fst (filter (\<lambda>(eid, payloads). 1 < length payloads) (cl_variants c))"

section \<open>Binding the events to the intents of the snapshot\<close>

record rec_scan =
  sc_reasons :: "(string \<times> string list) list"
  sc_by_id :: "(string \<times> rec_observation list) list"
  sc_global :: "string list"
  sc_orphans :: "string list"
  sc_owners :: "(string \<times> string list) list"

type_synonym rec_entries = "(string \<times> rec_entry) list"

definition entries_by_id :: "rec_entry list \<Rightarrow> rec_entries" where
  "entries_by_id es = fold (\<lambda>e d. dput (oi_intent_id (re_intent e)) e d) es []"

definition scan_start :: "rec_entries \<Rightarrow> rec_scan" where
  "scan_start entries =
     \<lparr>sc_reasons = map (\<lambda>(k, _). (k, [])) entries, sc_by_id = map (\<lambda>(k, _). (k, [])) entries,
      sc_global = [], sc_orphans = [], sc_owners = []\<rparr>"

definition add_reason :: "string \<Rightarrow> string \<Rightarrow> rec_scan \<Rightarrow> rec_scan" where
  "add_reason r key s = s\<lparr>sc_reasons := dput key (List.insert r (dget (sc_reasons s) key [])) (sc_reasons s)\<rparr>"

definition add_global :: "string \<Rightarrow> rec_scan \<Rightarrow> rec_scan" where
  "add_global r s = s\<lparr>sc_global := List.insert r (sc_global s)\<rparr>"

text \<open>The keys of \<open>{identifier, receipt.intent_id} & entries.keys()\<close>.\<close>

definition related_keys :: "rec_entries \<Rightarrow> rec_observation \<Rightarrow> string list" where
  "related_keys entries item =
     filter (\<lambda>k. map_of entries k \<noteq> None) (dict_fromkeys [oe_intent_id (ro_event item), rc_intent_id (ro_receipt item)])"

definition valid_binding :: "rec_entries \<Rightarrow> rec_observation \<Rightarrow> bool" where
  "valid_binding entries item =
     (case map_of entries (oe_intent_id (ro_event item)) of
        None \<Rightarrow> False
      | Some e \<Rightarrow> ro_receipt item = re_receipt e \<and> rc_intent_id (ro_receipt item) = oe_intent_id (ro_event item))"

definition flag :: "bool \<Rightarrow> string \<Rightarrow> string list \<Rightarrow> rec_scan \<Rightarrow> rec_scan" where
  "flag b r keys s = (if b then fold (add_reason r) keys (add_global r s) else s)"

definition scan_step :: "rec_entries \<Rightarrow> string list \<Rightarrow> rec_observation \<Rightarrow> rec_scan \<Rightarrow> rec_scan" where
  "scan_step entries conflicting item s =
     (let eid = oe_event_id (ro_event item); identifier = oe_intent_id (ro_event item);
          related = related_keys entries item;
          s1 = flag (eid \<in> set conflicting) ''EVENT_ID_CONTENT_CONFLICT'' related s;
          s2 = (if map_of entries identifier = None
                then add_global ''EVENT_OUTSIDE_CHECKPOINT_SCOPE'' (s1\<lparr>sc_orphans := List.insert eid (sc_orphans s1)\<rparr>)
                else s1);
          s3 = flag (\<not> valid_binding entries item) ''EVENT_RECEIPT_BINDING_MISMATCH'' related s2;
          s4 = fold (\<lambda>key x. x\<lparr>sc_by_id := dput key (dget (sc_by_id x) key [] @ [item]) (sc_by_id x)\<rparr>) related s3 in
      (case oe_venue_order_id (ro_event item) of
         None \<Rightarrow> s4
       | Some v \<Rightarrow> s4\<lparr>sc_owners := dput v (List.insert identifier (dget (sc_owners s4) v [])) (sc_owners s4)\<rparr>))"

definition scan_owner :: "rec_entries \<Rightarrow> string \<times> string list \<Rightarrow> rec_scan \<Rightarrow> rec_scan" where
  "scan_owner entries vo s =
     flag (1 < length (snd vo)) ''VENUE_ORDER_ID_REUSED'' (filter (\<lambda>k. map_of entries k \<noteq> None) (snd vo)) s"

definition scan_all :: "rec_entries \<Rightarrow> string list \<Rightarrow> rec_observation list \<Rightarrow> rec_scan" where
  "scan_all entries conflicting distinct_items =
     (let s = fold (scan_step entries conflicting) distinct_items (scan_start entries) in
      fold (scan_owner entries) (sc_owners s) s)"

section \<open>Reconciliation and verification\<close>

definition rows_with :: "string \<Rightarrow> rec_row list \<Rightarrow> string list" where
  "rows_with status rows = map rw_intent_id (filter (\<lambda>r. rw_status r = status) rows)"

definition replay_rows :: "pyfloat \<Rightarrow> rec_scan \<Rightarrow> rec_entry list \<Rightarrow> rec_row list res" where
  "replay_rows cutoff s es =
     mapE (\<lambda>e. let k = oi_intent_id (re_intent e) in
             rec_replay e (dget (sc_by_id s) k []) cutoff (dget (sc_reasons s) k [])) es"

definition overall_status :: "string list \<Rightarrow> string list \<Rightarrow> rec_row list \<Rightarrow> string" where
  "overall_status global_reasons unresolved rows =
     (if global_reasons \<noteq> [] then CONFLICT else if unresolved \<noteq> [] then UNRESOLVED
      else if rows = [] then EMPTY_SCOPE else OBSERVATIONS_CONSISTENT)"

definition add_if :: "bool \<Rightarrow> string \<Rightarrow> string list \<Rightarrow> string list" where
  "add_if b x xs = (if b then List.insert x xs else xs)"

text \<open>The report before its own hash is known, from the validated inputs and the rows.\<close>

definition observation_scan :: "ledger_snapshot \<Rightarrow> rec_observation list \<Rightarrow> rec_scan" where
  "observation_scan snapshot observations =
     (let collected = collect observations in
      scan_all (entries_by_id (sn_entries snapshot)) (conflicting_ids collected) (cl_distinct collected))"

definition draft_report ::
  "hasher \<Rightarrow> ledger_snapshot \<Rightarrow> rec_observation list \<Rightarrow> ledger_checkpoint \<Rightarrow> pyfloat \<Rightarrow> string \<Rightarrow> rec_row list \<Rightarrow> rec_report" where
  "draft_report sha snapshot observations anchor cutoff run_id rows =
     (let collected = collect observations;
          scan = observation_scan snapshot observations;
          unresolved = rows_with UNRESOLVED rows;
          conflicted = rows_with CONFLICT rows;
          reasons1 = add_if (conflicted \<noteq> []) ''CONFLICTING_INTENT_HISTORY'' (sc_global scan);
          status = overall_status reasons1 unresolved rows;
          reasons2 = add_if (unresolved \<noteq> []) ''UNRESOLVED_INTENT_HISTORY'' reasons1;
          reasons3 = add_if (rows = []) ''NO_INTENTS_IN_CHECKPOINT_SCOPE'' reasons2 in
       \<lparr>rp_run_id = run_id, rp_checkpoint = anchor,
        rp_snapshot_hash = rec_digest sha ''snapshot'' (snapshot_json snapshot),
        rp_observations_hash = rec_digest sha ''observations'' (JList (map observation_json observations)),
        rp_as_of = cutoff, rp_status = status, rp_reasons = sort reasons3, rp_rows = rows,
        rp_unresolved = unresolved, rp_conflicted = conflicted, rp_terminal = rows_with OBSERVED_TERMINAL rows,
        rp_orphans = sort (sc_orphans scan), rp_conflicting = sort (conflicting_ids collected),
        rp_input_count = int (length observations), rp_distinct_count = int (length (cl_variants collected)),
        rp_duplicate_count = int (cl_duplicates collected), rp_artifact_hash = replicate 64 (CHR ''0''),
        rp_mode = OFFLINE, rp_scope = SCOPE, rp_quantity_rule = QUANTITY_RULE, rp_resume_authorized = False,
        rp_release_authorized = False, rp_redispatch_authorized = False, rp_version = RECONCILER_VERSION,
        rp_schema_version = REPORT_SCHEMA\<rparr>)"

definition reconcile_execution_v1 ::
  "hasher \<Rightarrow> ledger_snapshot \<Rightarrow> rec_observation list \<Rightarrow> ledger_checkpoint \<Rightarrow> pyfloat \<Rightarrow> string \<Rightarrow> rec_report res" where
  "reconcile_execution_v1 sha snapshot0 observations0 checkpoint as_of run_id =
     bindE (rec_text run_id ''reconciliation_run_id'') (\<lambda>_.
     bindE (rec_number as_of ''as_of_receive_ts_ms'') (\<lambda>cutoff.
     bindE (rec_checkpoint checkpoint) (\<lambda>anchor.
     bindE (snapshot_post_init sha snapshot0) (\<lambda>snapshot.
     bindE (validate_snapshot sha snapshot anchor) (\<lambda>_.
     raise_if (MAX_EVENTS < length observations0) (ValueError ''observations exceed MAX_EVENTS'') (
     bindE (mapE rec_observation_post_init observations0) (\<lambda>observations.
     bindE (replay_rows cutoff (observation_scan snapshot observations) (sn_entries snapshot)) (\<lambda>rows.
     bindE (report_post_init (draft_report sha snapshot observations anchor cutoff run_id rows)) (\<lambda>report.
     report_post_init (report\<lparr>rp_artifact_hash := report_hash sha report\<rparr>))))))))))"

definition verify_execution_reconciliation_report_v1 ::
  "hasher \<Rightarrow> rec_report \<Rightarrow> ledger_snapshot \<Rightarrow> rec_observation list \<Rightarrow> ledger_checkpoint \<Rightarrow> pyfloat \<Rightarrow> string list res" where
  "verify_execution_reconciliation_report_v1 sha report snapshot observations checkpoint as_of =
     (let reasons = (if report_hash sha report \<noteq> rp_artifact_hash report
                     then [''EXECUTION_RECONCILIATION_REPORT_V1_HASH_MISMATCH''] else []) in
      bindE (reconcile_execution_v1 sha snapshot observations checkpoint as_of (rp_run_id report)) (\<lambda>expected.
      Inr (reasons @ (if canonical (report_json report) \<noteq> canonical (report_json expected)
                      then [''EXECUTION_RECONCILIATION_REPORT_V1_SEMANTICS_MISMATCH''] else []))))"

end
