(* ===== verification/ExactDecimals.thy ===== *)
theory ExactDecimals
  imports Reconciliation
begin

text \<open>
  The exact quantities of \<open>execution_reconciliation_v1.py\<close>: \<open>_quantity\<close> reads a decimal, sums and
  differences of decimals are decimals, and \<open>_decimal\<close> prints every nonnegative decimal exactly.
\<close>

section \<open>Decimals\<close>

definition decimal :: "rat \<Rightarrow> bool" where
  "decimal q \<longleftrightarrow> (\<exists>m k. q = of_int m / 10 ^ k)"

lemma decimal_0 [simp]: "decimal 0"
  unfolding decimal_def by (rule exI [of _ 0]) simp

lemma decimal_powi: "decimal (of_int m * 10 powi e)"
proof (cases "0 \<le> e")
  case True
  then have "of_int m * (10::rat) powi e = of_int (m * 10 ^ nat e) / 10 ^ 0" by (simp add: power_int_def)
  then show ?thesis unfolding decimal_def by blast
next
  case False
  then have "of_int m * (10::rat) powi e = of_int m / 10 ^ nat (- e)"
    by (simp add: power_int_def field_simps)
  then show ?thesis unfolding decimal_def by blast
qed

lemma decimal_add [simp]:
  assumes "decimal x" "decimal y"
  shows "decimal (x + y)" "decimal (x - y)"
proof -
  obtain m k n l where "x = of_int m / 10 ^ k" "y = of_int n / 10 ^ l" using assms by (auto simp: decimal_def)
  then have "x + y = of_int (m * 10 ^ l + n * 10 ^ k) / 10 ^ (k + l)" "x - y = of_int (m * 10 ^ l - n * 10 ^ k) / 10 ^ (k + l)"
    by (simp_all add: add_frac_eq diff_frac_eq power_add)
  then show "decimal (x + y)" "decimal (x - y)" unfolding decimal_def by blast+
qed

lemma read_unsigned_decimal: "read_unsigned s = Some (b, q) \<Longrightarrow> decimal q \<and> 0 \<le> q"
  using decimal_powi [of "int n" for n]
  by (auto simp: read_unsigned_def Let_def split: if_splits option.splits prod.splits)

lemma quantity_decimal [simp]: "decimal (rec_quantity v)" "0 \<le> rec_quantity v"
  using read_unsigned_decimal by (auto simp: rec_quantity_def split: option.splits)

section \<open>The denominator\<close>

lemma strip_factor_spec:
  assumes "1 < p" "0 < d" "strip_factor p d = (r, k)"
  shows "d = r * p ^ k \<and> 0 < r \<and> \<not> p dvd r"
  using assms
proof (induction p d arbitrary: r k rule: strip_factor.induct)
  case (1 p d)
  show ?case
  proof (cases "d mod p = 0")
    case True
    obtain r' k' where rk: "strip_factor p (d div p) = (r', k')" by (cases "strip_factor p (d div p)")
    define x where "x = d div p"
    have dx: "d = p * x" using True by (auto simp: x_def)
    have x: "0 < x" using dx 1(3) by (cases x) auto
    have "x = r' * p ^ k' \<and> 0 < r' \<and> \<not> p dvd r'"
      using 1(1) [OF conjI [OF 1(2) conjI [OF 1(3) True]] 1(2)] x rk unfolding x_def by blast
    moreover have "r = r'" "k = Suc k'" using 1(4) True 1(2,3) rk by (simp_all add: strip_factor.simps [of p d])
    ultimately show ?thesis unfolding dx by simp
  next
    case False
    then have "r = d" "k = 0" using 1(4) by (simp_all add: strip_factor.simps [of p d])
    then show ?thesis using 1(3) False by (auto simp: dvd_eq_mod_eq_0)
  qed
qed

lemma denominator_dvd:
  assumes "decimal q" "quotient_of q = (a, b)"
  shows "\<exists>k. b dvd 10 ^ k"
proof -
  obtain m k where q: "q = of_int m / 10 ^ k" using assms(1) by (auto simp: decimal_def)
  have ab: "q = of_int a / of_int b" "0 < b" "coprime a b"
    using quotient_of_div [OF assms(2)] quotient_of_denom_pos [OF assms(2)] quotient_of_coprime [OF assms(2)] by simp_all
  have "(of_int a :: rat) * 10 ^ k = of_int m * of_int b" using q ab(1,2) by (simp add: field_simps)
  then have "a * 10 ^ k = m * b" by (metis of_int_eq_iff of_int_mult of_int_numeral of_int_power)
  then have "b dvd a * 10 ^ k" by simp
  then show ?thesis using ab(3) by (metis coprime_commute coprime_dvd_mult_right_iff)
qed

lemma coprime_5: "\<not> 5 dvd d \<Longrightarrow> coprime d (5 :: nat)"
proof -
  assume d: "\<not> 5 dvd d"
  have g: "gcd d 5 dvd 5" "gcd d 5 dvd d" by simp_all
  then have "gcd d 5 \<le> 5" by (meson dvd_imp_le zero_less_numeral)
  then have "gcd d 5 = 0 \<or> gcd d 5 = 1 \<or> gcd d 5 = 2 \<or> gcd d 5 = 3 \<or> gcd d 5 = 4 \<or> gcd d 5 = 5" by arith
  then have "gcd d 5 = 1" using g d by (elim disjE) auto
  then show ?thesis by (simp add: coprime_iff_gcd_eq_1)
qed

lemma strip_denominator:
  assumes "(b::nat) dvd 10 ^ k" "0 < b" "strip_factor 2 b = (c, t)" "strip_factor 5 c = (d, f)"
  shows "d = 1 \<and> b = 2 ^ t * 5 ^ f"
proof -
  have c: "b = c * 2 ^ t" "0 < c" "\<not> 2 dvd c" using strip_factor_spec [OF _ assms(2,3)] by simp_all
  have d: "c = d * 5 ^ f" "0 < d" "\<not> 5 dvd d" using strip_factor_spec [OF _ c(2) assms(4)] by simp_all
  have "\<not> 2 dvd d" using c(3) d(1) by simp
  then have "coprime d 2" by (simp add: coprime_right_2_iff_odd)
  then have "coprime d (2 * 5)" using coprime_5 [OF d(3)] unfolding coprime_mult_right_iff by blast
  then have "coprime d (10 ^ k)" by simp
  moreover have "d dvd 10 ^ k" using assms(1) c(1) d(1) by (metis dvd_mult_left)
  ultimately have "d dvd 1" by (meson coprime_common_divisor dvd_refl)
  then have "d = 1" by simp
  then show ?thesis using c(1) d(1) by simp
qed

section \<open>Printing\<close>

lemma rstrip_none: "s \<noteq> [] \<Longrightarrow> last s \<noteq> c \<Longrightarrow> rstrip_char c s = s"
  by (cases s rule: rev_cases) (simp_all add: rstrip_char_def)

lemma last_digit: "last (nat_str n) = dig (n mod 10)"
  by (subst nat_str.simps) simp

lemma digits_val_rjust: "digits_val (rjust_zeros k s) = digits_val s"
  using digits_val_shift [of "k - length s" s] by (simp add: rjust_zeros_def)

lemma rjust_facts:
  "list_all is_digit s \<Longrightarrow> list_all is_digit (rjust_zeros k s)" "k \<le> length (rjust_zeros k s)"
  "s \<noteq> [] \<Longrightarrow> last (rjust_zeros k s) = last s"
  by (auto simp: rjust_zeros_def is_digit_def list_all_iff)

text \<open>A nonnegative decimal is printed, and the text reads back as exactly its value.\<close>

lemma rec_decimal_exact:
  assumes "decimal q" "0 \<le> q"
  shows "\<exists>s b. rec_decimal q = Inr s \<and> read_unsigned s = Some (b, q)"
proof -
  obtain a b where ab: "quotient_of q = (a, b)" by (cases "quotient_of q")
  have pos: "0 < b" "q = of_int a / of_int b" "coprime a b"
    using quotient_of_denom_pos [OF ab] quotient_of_div [OF ab] quotient_of_coprime [OF ab] by simp_all
  have a: "0 \<le> a" using assms(2) pos by (simp add: zero_le_divide_iff)
  obtain c t where t: "strip_factor 2 (nat b) = (c, t)" by (cases "strip_factor 2 (nat b)")
  obtain d f where f: "strip_factor 5 c = (d, f)" by (cases "strip_factor 5 c")
  obtain k where "b dvd 10 ^ k" using denominator_dvd [OF assms(1) ab] by blast
  then have "nat b dvd 10 ^ k" using pos(1) by (simp add: nat_dvd_iff nat_power_eq)
  then have d: "d = 1" "nat b = 2 ^ t * 5 ^ f" using strip_denominator [OF _ _ t f] pos(1) by simp_all
  define scale where "scale = max t f"
  define n where "n = nat (a * 2 ^ (scale - t) * 5 ^ (scale - f))"
  have b: "b = 2 ^ t * 5 ^ f" using d(2) pos(1) by (metis int_nat_eq of_nat_mult of_nat_numeral of_nat_power order_less_le zero_less_imp_eq_int)
  have ni: "int n = a * 2 ^ (scale - t) * 5 ^ (scale - f)" using a by (simp add: n_def)
  have "(2::rat) ^ (scale - t) * 2 ^ t = 2 ^ scale" "(5::rat) ^ (scale - f) * 5 ^ f = 5 ^ scale"
    by (simp_all add: scale_def flip: power_add)
  then have "(of_nat n :: rat) * (2 ^ t * 5 ^ f) = of_int a * (2 ^ scale * 5 ^ scale)"
    using arg_cong [OF ni, of "of_int :: int \<Rightarrow> rat"] by (simp add: algebra_simps)
  moreover have "(2::rat) ^ scale * 5 ^ scale = 10 ^ scale" by (simp flip: power_mult_distrib)
  ultimately have "of_nat n * (2 ^ t * 5 ^ f) = of_int a * (10::rat) ^ scale" by simp
  moreover have "(2::rat) ^ t * 5 ^ f \<noteq> 0" by simp
  ultimately have "of_int a / ((2::rat) ^ t * 5 ^ f) = of_nat n / 10 ^ scale"
    by (simp add: frac_eq_eq)
  then have val: "q = of_nat n / 10 ^ scale" using pos(2) b by simp
  show ?thesis
  proof (cases "scale = 0")
    case True
    then have "rec_decimal q = Inr (nat_str n)"
      using t f d(1) assms(2) ni ab a by (simp add: rec_decimal_def Let_def scale_def int_str_def n_def)
    then show ?thesis using read_unsigned_int [of "nat_str n"] val True by auto
  next
    case False
    have "n mod 10 \<noteq> 0"
    proof (cases "f \<le> t")
      case True
      then have s: "scale = t" "0 < t" using False by (simp_all add: scale_def)
      then have "2 dvd b" by (simp add: b)
      then have "\<not> 2 dvd a" using pos(3) coprime_common_divisor [of a b 2] by auto
      then have "\<not> 2 dvd int n" by (simp add: ni s)
      then show ?thesis by presburger
    next
      case False
      then have s: "scale = f" "0 < f" by (simp_all add: scale_def)
      then have "5 dvd b" by (simp add: b)
      then have "\<not> 5 dvd nat a" using pos(3) a coprime_common_divisor [of a b 5] by (auto simp: nat_dvd_iff int_dvd_int_iff [symmetric])
      then have "coprime (nat a) 5" by (rule coprime_5)
      moreover have "coprime (2::nat) 5" by (rule coprime_5) simp
      ultimately have "coprime (nat a * 2 ^ (f - t)) 5" by simp
      moreover have "n = nat a * 2 ^ (f - t)" using ni a s by (simp add: n_def nat_mult_distrib nat_power_eq)
      ultimately have "\<not> 5 dvd n" using coprime_common_divisor [of n 5 5] by auto
      then show ?thesis by presburger
    qed
    then have zero: "dig (n mod 10) \<noteq> CHR ''0''"
      using dval_dig [of "n mod 10"] dval_dig [of 0] by (metis digit_0 mod_less_divisor zero_less_numeral)
    have dot: "dig (n mod 10) \<noteq> CHR ''.''" using is_digit_dig [of "n mod 10"] not_digit by (metis mod_less_divisor zero_less_numeral)
    define ds where "ds = rjust_zeros (scale + 1) (nat_str n)"
    have ds: "list_all is_digit ds" "scale + 1 \<le> length ds" "digits_val ds = n" "last ds = dig (n mod 10)"
      by (simp_all add: ds_def rjust_facts digits_val_rjust last_digit)
    let ?ip = "take (length ds - scale) ds" and ?fp = "drop (length ds - scale) ds"
    have fp: "length ?fp = scale" "?fp \<noteq> []" "?ip \<noteq> []" using ds(2) False by auto
    then have last: "last (?ip @ ''.'' @ ?fp) = dig (n mod 10)" using ds(4) by (simp add: last_drop)
    have "rec_decimal q = Inr (rstrip_char (CHR ''.'') (rstrip_char (CHR ''0'') (?ip @ ''.'' @ ?fp)))"
      unfolding rec_decimal_def Let_def ab prod.case t f d(1) scale_def [symmetric] ni [symmetric]
      using assms(2) False by (simp add: int_str_def ds_def)
    also have "\<dots> = Inr (?ip @ CHR ''.'' # ?fp @ [])"
      using last zero dot fp(3) by (simp add: rstrip_none)
    finally have "rec_decimal q = Inr (?ip @ CHR ''.'' # ?fp @ [])" .
    moreover have "read_unsigned (?ip @ CHR ''.'' # ?fp @ []) = Some (False, of_nat (digits_val (?ip @ ?fp)) * 10 powi (0 - int (length ?fp)))"
      by (rule read_unsigned_frac) (use ds(1) list_all_take_drop fp in auto)
    moreover have "of_nat (digits_val (?ip @ ?fp)) * 10 powi (0 - int (length ?fp)) = q"
      using ds(3) fp(1) val by (simp add: power_int_minus field_simps)
    ultimately show ?thesis by auto
  qed
qed

lemma rec_decimal_error:
  assumes "\<not> (decimal q \<and> 0 \<le> q)"
  shows "rec_decimal q = Inl (ReconciliationInputError ''quantity is not a nonnegative finite decimal'')"
proof -
  obtain a b where ab: "quotient_of q = (a, b)" by (cases "quotient_of q")
  have pos: "0 < b" "q = of_int a / of_int b" using quotient_of_denom_pos [OF ab] quotient_of_div [OF ab] by simp_all
  obtain c t where t: "strip_factor 2 (nat b) = (c, t)" by (cases "strip_factor 2 (nat b)")
  obtain d f where f: "strip_factor 5 c = (d, f)" by (cases "strip_factor 5 c")
  have c: "nat b = c * 2 ^ t" "0 < c" using strip_factor_spec [OF _ _ t] pos(1) by simp_all
  have d: "c = d * 5 ^ f" using strip_factor_spec [OF _ c(2) f] by simp
  have "decimal q" if "d = 1"
  proof -
    have "b = 2 ^ t * 5 ^ f" using c(1) d that pos(1)
      by (metis int_nat_eq mult.commute mult_1 of_nat_mult of_nat_numeral of_nat_power order_less_le)
    then have "of_int b * (2::rat) ^ f * 5 ^ t = 10 ^ (t + f)"
      using power_mult_distrib [of "2::rat" 5 "t + f"] by (simp add: power_add ac_simps)
    then have "q = of_int (a * 2 ^ f * 5 ^ t) / 10 ^ (t + f)"
      using pos by (simp add: frac_eq_eq ac_simps flip: \<open>_ = 10 ^ (t + f)\<close>)
    then show ?thesis unfolding decimal_def by blast
  qed
  then have "d \<noteq> 1 \<or> q < 0" using assms by (auto simp: not_le)
  then show ?thesis unfolding rec_decimal_def Let_def ab prod.case t f raise_if_def by simp
qed

end
