(* ===== verification/ReconcileFacts.thy ===== *)
theory ReconcileFacts
  imports ExactDecimals IntentLedgerLaws
begin

text \<open>
  Lemmas about the reconciler: the invariant of the replay, totality of the rows and of the report, the
  closed form of the pass that binds events to intents, and the bookkeeping of duplicates.
\<close>

section \<open>Exits\<close>

lemma exit_if_Inr [err_simps]: "exit_if b st r k = Inr s \<longleftrightarrow> \<not> b \<and> k = Inr s"
  by (simp add: exit_if_def)

lemma exit_if_simps [simp]: "exit_if True st r k = Inl (st, r)" "exit_if False st r k = k"
  by (simp_all add: exit_if_def)

section \<open>The replay\<close>

definition replay_inv :: "order_intent \<Rightarrow> replay_state \<Rightarrow> bool" where
  "replay_inv i s \<longleftrightarrow> decimal (rs_filled s) \<and> 0 \<le> rs_filled s \<and> rs_filled s \<le> rec_quantity (oi_qty i)"

lemma replay_start_inv: "replay_inv i (replay_start i)"
  by (simp add: replay_inv_def replay_start_def)

lemma replay_stepE:
  assumes "replay_step i cutoff e s = Inr s'"
  obtains st where
    "replay_status i e (rs_filled s + (if fill_event_type (oe_event_type e) then rec_quantity (oe_fill_qty e) else 0)) (rs_status s) = Inr st"
    "rs_status s' = st" "rs_last_time s' = oe_receive_ts_ms e"
    "rs_filled s' = rs_filled s + (if fill_event_type (oe_event_type e) then rec_quantity (oe_fill_qty e) else 0)"
    "rs_filled s' \<le> rec_quantity (oi_qty i)"
    "\<not> flt (oe_receive_ts_ms e) (rs_last_time s)" "\<not> flt cutoff (oe_receive_ts_ms e)"
    "rs_status s \<notin> set TERMINAL_STATUSES"
    "if fill_event_type (oe_event_type e) then rs_status s \<in> set FILL_FROM
     else rs_status s \<in> set (fst (rec_transitions (oe_event_type e)))"
proof -
  let ?n = "rs_filled s + (if fill_event_type (oe_event_type e) then rec_quantity (oe_fill_qty e) else 0)"
  let ?v = "if oe_venue_order_id e \<noteq> None then oe_venue_order_id e else rs_venue_id s"
  note h = assms [unfolded replay_step_def Let_def exit_if_Inr]
  obtain st where st: "replay_status i e ?n (rs_status s) = Inr st"
    using h by (cases "replay_status i e ?n (rs_status s)") (elim conjE, simp only: sum.case, blast)+
  have h': "\<not> flt (oe_receive_ts_ms e) (rs_last_time s) \<and> \<not> flt cutoff (oe_receive_ts_ms e) \<and> rs_status s \<notin> set TERMINAL_STATUSES
    \<and> \<not> (if fill_event_type (oe_event_type e) then rs_status s \<notin> set FILL_FROM else rs_status s \<notin> set (fst (rec_transitions (oe_event_type e))))
    \<and> \<not> rec_quantity (oi_qty i) < ?n"
    using h by (elim conjE) (intro conjI; assumption)
  have "Inr \<lparr>rs_status = st, rs_filled = ?n, rs_last_time = oe_receive_ts_ms e, rs_venue_id = ?v\<rparr> = (Inr s' :: rec_exit + replay_state)"
    using h by (elim conjE) (simp only: st sum.case)
  then have "s' = \<lparr>rs_status = st, rs_filled = ?n, rs_last_time = oe_receive_ts_ms e, rs_venue_id = ?v\<rparr>" by simp
  then show thesis by (intro that [OF st]) (use h' in \<open>auto split: if_splits\<close>)
qed

lemma replay_step_inv: "replay_step i cutoff e s = Inr s' \<Longrightarrow> replay_inv i s \<Longrightarrow> replay_inv i s'"
  by (erule replay_stepE) (auto simp: replay_inv_def add_nonneg_nonneg)

lemma replay_events_inv: "replay_events i cutoff es s = Inr s' \<Longrightarrow> replay_inv i s \<Longrightarrow> replay_inv i s'"
  by (induction es arbitrary: s) (auto split: sum.splits dest: replay_step_inv)

lemma rec_decimal_total: "decimal q \<Longrightarrow> 0 \<le> q \<Longrightarrow> \<exists>s. rec_decimal q = Inr s"
  using rec_decimal_exact by blast

lemma rec_replay_total: "\<exists>row. rec_replay entry obs cutoff inherited = Inr row"
proof (cases "replay_events (re_intent entry) cutoff (map ro_event obs) (replay_start (re_intent entry))")
  case (Inl x)
  then show ?thesis by (cases x) (simp add: rec_replay_def Let_def)
next
  case (Inr s)
  then have inv: "replay_inv (re_intent entry) s" using replay_events_inv replay_start_inv by blast
  obtain f r where "rec_decimal (rs_filled s) = Inr f" "rec_decimal (rec_quantity (oi_qty (re_intent entry)) - rs_filled s) = Inr r"
    using rec_decimal_total inv quantity_decimal unfolding replay_inv_def by (metis decimal_add(2) diff_ge_0_iff_ge)
  then show ?thesis using Inr by (simp add: rec_replay_def Let_def)
qed

lemma mapE_total: "(\<And>x. \<exists>y. f x = Inr y) \<Longrightarrow> \<exists>ys. mapE f xs = Inr ys"
proof (induction xs)
  case (Cons x xs)
  obtain y ys where "f x = Inr y" "mapE f xs = Inr ys" using Cons by meson
  then show ?case by simp
qed simp

lemma replay_rows_total: "\<exists>rows. replay_rows cutoff s es = Inr rows"
  unfolding replay_rows_def Let_def by (rule mapE_total) (rule rec_replay_total)

section \<open>The report\<close>

lemma ws_prefix_clean:
  assumes "\<And>t. t \<in> set toks \<Longrightarrow> t \<noteq> [] \<and> hd t \<notin> C" "s = [] \<or> hd s \<in> C"
  shows "ws_prefix toks s = None"
proof -
  have "\<not> (t \<noteq> [] \<and> take (length t) s = t)" if "t \<in> set toks" for t
    using assms(1) [OF that] assms(2) by (cases t; cases s) auto
  then show ?thesis by (simp add: ws_prefix_def find_None_iff)
qed

lemma strip_clean:
  assumes "list_all (\<lambda>t. t \<noteq> [] \<and> hd t \<notin> C \<and> last t \<notin> C) ws_tokens" "set s \<subseteq> C"
  shows "py_strip s = s"
proof -
  have "s = [] \<or> hd s \<in> C" using assms(2) by (cases s) auto
  then have "ws_prefix ws_tokens s = None"
    by (intro ws_prefix_clean [where C = C]) (use assms(1) in \<open>auto simp: list_all_iff\<close>)
  moreover have "ws_prefix (map rev ws_tokens) (rev s) = None"
  proof (rule ws_prefix_clean [where C = C])
    show "rev s = [] \<or> hd (rev s) \<in> C" using assms(2) by (cases s rule: rev_cases) auto
  qed (use assms(1) in \<open>auto simp: list_all_iff hd_rev\<close>)
  ultimately show ?thesis by (simp add: py_strip_def lstrip_by_fix)
qed

lemma strip_hex: "list_all is_lower_hex s \<Longrightarrow> py_strip s = s"
proof (rule strip_clean [where C = "set ''0123456789abcdef''"])
  show "list_all (\<lambda>t. t \<noteq> [] \<and> hd t \<notin> set ''0123456789abcdef'' \<and> last t \<notin> set ''0123456789abcdef'') ws_tokens"
    by code_simp
qed (simp add: list_all_iff is_lower_hex_def subset_iff)

lemma rec_hash_hex: "hex_digest sha \<Longrightarrow> rec_hash_text (sha s) = Inr (sha s)"
  by (cases "sha s") (auto simp: rec_hash_text_def rec_text_def hex_digest_def strip_hex dest: spec [of _ s])

lemma rec_digest_hex: "hex_digest sha \<Longrightarrow> rec_hash_text (rec_digest sha k v) = Inr (rec_digest sha k v)"
  by (simp add: rec_digest_def rec_hash_hex)

lemma report_hash_hex: "hex_digest sha \<Longrightarrow> rec_hash_text (report_hash sha r) = Inr (report_hash sha r)"
  by (simp add: report_hash_def rec_digest_hex)

lemma rec_hash_zeros: "rec_hash_text (replicate 64 (CHR ''0'')) = Inr (replicate 64 (CHR ''0''))"
  by (simp add: rec_hash_text_def rec_text_def strip_hex list_all_iff is_lower_hex_def)

lemma report_post_init_id: "report_post_init r = Inr r' \<Longrightarrow> r' = r"
  unfolding report_post_init_def bindE_Inr_iff raise_if_Inr_iff by (elim exE conjE) simp

lemma report_post_init_ok:
  assumes "\<exists>x. rec_text (rp_run_id r) ''reconciliation_run_id'' = Inr x" "\<exists>c. rec_checkpoint (rp_checkpoint r) = Inr c"
    "\<exists>h. rec_hash_text (rp_snapshot_hash r) = Inr h" "\<exists>h. rec_hash_text (rp_observations_hash r) = Inr h"
    "\<exists>h. rec_hash_text (rp_artifact_hash r) = Inr h" "\<exists>t. rec_number (rp_as_of r) ''as_of_receive_ts_ms'' = Inr t"
    "rp_status r \<in> {OBSERVATIONS_CONSISTENT, UNRESOLVED, CONFLICT, EMPTY_SCOPE}"
    "rp_mode r = OFFLINE" "rp_scope r = SCOPE" "rp_quantity_rule r = QUANTITY_RULE"
    "rp_version r = RECONCILER_VERSION" "rp_schema_version r = REPORT_SCHEMA"
    "\<not> rp_resume_authorized r" "\<not> rp_release_authorized r" "\<not> rp_redispatch_authorized r"
    "0 \<le> rp_input_count r" "0 \<le> rp_distinct_count r" "0 \<le> rp_duplicate_count r"
  shows "report_post_init r = Inr r"
  using assms(1-7) unfolding report_post_init_def
  by (elim exE) (simp add: assms(8-) not_less raise_if_def)

lemma overall_status_cases:
  "overall_status g u rows \<in> {OBSERVATIONS_CONSISTENT, UNRESOLVED, CONFLICT, EMPTY_SCOPE}"
  by (simp add: overall_status_def)

lemma draft_report_fields [simp]:
  "rp_run_id (draft_report sha sn obs c t run rows) = run" "rp_checkpoint (draft_report sha sn obs c t run rows) = c"
  "rp_snapshot_hash (draft_report sha sn obs c t run rows) = rec_digest sha ''snapshot'' (snapshot_json sn)"
  "rp_observations_hash (draft_report sha sn obs c t run rows) = rec_digest sha ''observations'' (JList (map observation_json obs))"
  "rp_as_of (draft_report sha sn obs c t run rows) = t" "rp_rows (draft_report sha sn obs c t run rows) = rows"
  "rp_artifact_hash (draft_report sha sn obs c t run rows) = replicate 64 (CHR ''0'')"
  "rp_mode (draft_report sha sn obs c t run rows) = OFFLINE" "rp_scope (draft_report sha sn obs c t run rows) = SCOPE"
  "rp_quantity_rule (draft_report sha sn obs c t run rows) = QUANTITY_RULE"
  "rp_version (draft_report sha sn obs c t run rows) = RECONCILER_VERSION"
  "rp_schema_version (draft_report sha sn obs c t run rows) = REPORT_SCHEMA"
  "\<not> rp_resume_authorized (draft_report sha sn obs c t run rows)"
  "\<not> rp_release_authorized (draft_report sha sn obs c t run rows)"
  "\<not> rp_redispatch_authorized (draft_report sha sn obs c t run rows)"
  "rp_input_count (draft_report sha sn obs c t run rows) = int (length obs)"
  "rp_distinct_count (draft_report sha sn obs c t run rows) = int (length (cl_variants (collect obs)))"
  "rp_duplicate_count (draft_report sha sn obs c t run rows) = int (cl_duplicates (collect obs))"
  "rp_status (draft_report sha sn obs c t run rows) =
     overall_status (add_if (rows_with CONFLICT rows \<noteq> []) ''CONFLICTING_INTENT_HISTORY'' (sc_global (observation_scan sn obs)))
       (rows_with UNRESOLVED rows) rows"
  by (simp_all add: draft_report_def Let_def)

text \<open>The report of accepted inputs, with its own hash.\<close>

definition final_report ::
  "hasher \<Rightarrow> ledger_snapshot \<Rightarrow> rec_observation list \<Rightarrow> ledger_checkpoint \<Rightarrow> pyfloat \<Rightarrow> string \<Rightarrow> rec_row list \<Rightarrow> rec_report" where
  "final_report sha sn obs c t run rows =
     (let d = draft_report sha sn obs c t run rows in d\<lparr>rp_artifact_hash := report_hash sha d\<rparr>)"

text \<open>The inputs the reconciler accepts, with the normalised forms it goes on with.\<close>

definition accepted ::
  "hasher \<Rightarrow> ledger_snapshot \<Rightarrow> rec_observation list \<Rightarrow> ledger_checkpoint \<Rightarrow> pyfloat \<Rightarrow> string \<Rightarrow>
   ledger_snapshot \<Rightarrow> rec_observation list \<Rightarrow> bool" where
  "accepted sha sn0 obs0 c t run sn obs \<longleftrightarrow>
     rec_text run ''reconciliation_run_id'' = Inr run \<and> rec_number t ''as_of_receive_ts_ms'' = Inr t \<and> rec_checkpoint c = Inr c \<and>
     snapshot_post_init sha sn0 = Inr sn \<and> validate_snapshot sha sn c = Inr () \<and> length obs0 \<le> MAX_EVENTS \<and>
     mapE rec_observation_post_init obs0 = Inr obs"

lemma rec_text_id: "rec_text v n = Inr w \<Longrightarrow> w = v"
  by (auto simp: rec_text_def err_simps)

lemma rec_number_id: "rec_number v n = Inr w \<Longrightarrow> w = v"
  by (auto simp: rec_number_def err_simps)

lemma rec_checkpoint_id: "rec_checkpoint c = Inr d \<Longrightarrow> d = c"
  by (auto simp: rec_checkpoint_def ledger_checkpoint_post_init_def err_simps)

lemma reconcile_accepted:
  assumes "reconcile_execution_v1 sha sn0 obs0 c t run = Inr r"
  obtains sn obs rows where "accepted sha sn0 obs0 c t run sn obs"
    "replay_rows t (observation_scan sn obs) (sn_entries sn) = Inr rows" "r = final_report sha sn obs c t run rows"
proof -
  obtain run' t' c' sn obs rows d where a: "rec_text run ''reconciliation_run_id'' = Inr run'"
    "rec_number t ''as_of_receive_ts_ms'' = Inr t'" "rec_checkpoint c = Inr c'" "snapshot_post_init sha sn0 = Inr sn"
    "validate_snapshot sha sn c' = Inr ()" "\<not> MAX_EVENTS < length obs0" "mapE rec_observation_post_init obs0 = Inr obs"
    "replay_rows t' (observation_scan sn obs) (sn_entries sn) = Inr rows"
    "report_post_init (draft_report sha sn obs c' t' run rows) = Inr d"
    "report_post_init (d\<lparr>rp_artifact_hash := report_hash sha d\<rparr>) = Inr r"
    using assms unfolding reconcile_execution_v1_def bindE_Inr_iff raise_if_Inr_iff by (elim exE conjE) simp
  have i: "run' = run" "t' = t" "c' = c" using rec_text_id [OF a(1)] rec_number_id [OF a(2)] rec_checkpoint_id [OF a(3)] .
  note a = a [unfolded i]
  have "r = final_report sha sn obs c t run rows"
    using report_post_init_id [OF a(9)] report_post_init_id [OF a(10)] by (simp add: final_report_def Let_def)
  moreover have "accepted sha sn0 obs0 c t run sn obs" unfolding accepted_def using a(1-7) by (simp add: not_less)
  ultimately show thesis using that a(8) by blast
qed

lemma reconcile_total:
  assumes "hex_digest sha" "accepted sha sn0 obs0 c t run sn obs"
    "replay_rows t (observation_scan sn obs) (sn_entries sn) = Inr rows"
  shows "reconcile_execution_v1 sha sn0 obs0 c t run = Inr (final_report sha sn obs c t run rows)"
proof -
  let ?d = "draft_report sha sn obs c t run rows"
  have a: "rec_text run ''reconciliation_run_id'' = Inr run" "rec_number t ''as_of_receive_ts_ms'' = Inr t" "rec_checkpoint c = Inr c"
    "snapshot_post_init sha sn0 = Inr sn" "validate_snapshot sha sn c = Inr ()" "\<not> MAX_EVENTS < length obs0"
    "mapE rec_observation_post_init obs0 = Inr obs"
    using assms(2) by (simp_all add: accepted_def)
  have d: "report_post_init ?d = Inr ?d"
    by (rule report_post_init_ok) (use overall_status_cases in \<open>simp_all add: a assms(1) rec_digest_hex rec_hash_zeros\<close>)
  have "report_post_init (?d\<lparr>rp_artifact_hash := report_hash sha ?d\<rparr>) = Inr (?d\<lparr>rp_artifact_hash := report_hash sha ?d\<rparr>)"
    by (rule report_post_init_ok) (use overall_status_cases in \<open>simp_all add: a assms(1) rec_digest_hex report_hash_hex\<close>)
  then show ?thesis using a d assms(3) by (simp add: reconcile_execution_v1_def final_report_def Let_def)
qed

end
