(* ===== verification/ReconcileScan.thy ===== *)
theory ReconcileScan
  imports ReconcileFacts
begin

text \<open>
  The two passes of the reconciler over its observations: collecting exact duplicates and conflicting
  contents, and binding events to the intents of the snapshot.  Each has a closed form.
\<close>

section \<open>Duplicates and conflicting contents\<close>

abbreviation event_id :: "rec_observation \<Rightarrow> string" where
  "event_id x \<equiv> oe_event_id (ro_event x)"

abbreviation intent_of :: "rec_observation \<Rightarrow> string" where
  "intent_of x \<equiv> oe_intent_id (ro_event x)"

abbreviation payload :: "rec_observation \<Rightarrow> string" where
  "payload x \<equiv> canonical (observation_json x)"

definition collect_inv :: "rec_observation list \<Rightarrow> rec_collected \<Rightarrow> bool" where
  "collect_inv xs c \<longleftrightarrow> distinct (map fst (cl_variants c)) \<and>
     (\<forall>k. set (dget (cl_variants c) k []) = payload ` {x \<in> set xs. event_id x = k}) \<and>
     (\<forall>k. distinct (dget (cl_variants c) k [])) \<and>
     set (cl_distinct c) \<subseteq> set xs \<and>
     (\<forall>x \<in> set xs. \<exists>y \<in> set (cl_distinct c). event_id y = event_id x \<and> payload y = payload x)"

lemma collect_step_inv:
  assumes "collect_inv xs c"
  shows "collect_inv (xs @ [x]) (collect_step x c)"
proof -
  let ?seen = "dget (cl_variants c) (event_id x) []"
  have c: "distinct (map fst (cl_variants c))" "\<And>k. set (dget (cl_variants c) k []) = payload ` {y \<in> set xs. event_id y = k}"
    "\<And>k. distinct (dget (cl_variants c) k [])" "set (cl_distinct c) \<subseteq> set xs"
    "\<And>y. y \<in> set xs \<Longrightarrow> \<exists>z \<in> set (cl_distinct c). event_id z = event_id y \<and> payload z = payload y"
    using assms by (simp_all add: collect_inv_def)
  show ?thesis
  proof (cases "payload x \<in> set ?seen")
    case True
    then obtain y where "y \<in> set xs" "event_id y = event_id x" "payload y = payload x" using c(2) by auto
    moreover have "payload ` {y \<in> set (xs @ [x]). event_id y = k} = payload ` {y \<in> set xs. event_id y = k}" for k
      using calculation by (auto simp: image_iff) metis
    ultimately have eq: "payload ` {y \<in> set (xs @ [x]). event_id y = k} = set (dget (cl_variants c) k [])" for k
      by (simp add: c(2))
    have step: "collect_step x c = c\<lparr>cl_duplicates := cl_duplicates c + 1\<rparr>" using True by (simp add: collect_step_def Let_def)
    have "\<exists>z \<in> set (cl_distinct c). event_id z = event_id v \<and> payload z = payload v" if "v \<in> set (xs @ [x])" for v
      using that c(5) \<open>y \<in> set xs\<close> \<open>event_id y = event_id x\<close> \<open>payload y = payload x\<close>
      by (cases "v = x") (metis, auto)
    then show ?thesis using c(1,3,4) eq by (auto simp: collect_inv_def step)
  next
    case False
    have eq: "payload ` {y \<in> set (xs @ [x]). event_id y = k} =
        (if k = event_id x then insert (payload x) (set (dget (cl_variants c) k [])) else set (dget (cl_variants c) k []))" for k
      by (auto simp: c(2))
    have step: "cl_variants (collect_step x c) = dput (event_id x) (payload x # ?seen) (cl_variants c)"
      "cl_distinct (collect_step x c) = cl_distinct c @ [x]" using False by (simp_all add: collect_step_def Let_def)
    have "\<exists>z \<in> set (cl_distinct c @ [x]). event_id z = event_id v \<and> payload z = payload v" if "v \<in> set (xs @ [x])" for v
      using that c(5) by (cases "v = x") auto
    then show ?thesis using c(1,3,4) False unfolding collect_inv_def step eq by auto
  qed
qed

lemma collect_fold_inv: "collect_inv xs c \<Longrightarrow> collect_inv (xs @ ys) (fold collect_step ys c)"
proof (induction ys arbitrary: xs c)
  case (Cons y ys)
  then show ?case using Cons.IH [OF collect_step_inv [OF Cons.prems]] by simp
qed simp

lemma collect_collect_inv: "collect_inv xs (collect xs)"
proof -
  have "collect_inv [] \<lparr>cl_variants = [], cl_distinct = [], cl_duplicates = 0\<rparr>" by (simp add: collect_inv_def dget_def)
  from collect_fold_inv [OF this, of xs] show ?thesis by (simp add: collect_def)
qed

lemma conflicting_iff:
  assumes "collect_inv xs c"
  shows "k \<in> set (conflicting_ids c) \<longleftrightarrow> 1 < length (dget (cl_variants c) k [])"
proof -
  have "(k, p) \<in> set (cl_variants c) \<longleftrightarrow> map_of (cl_variants c) k = Some p" for p
    using assms map_of_eq_Some_iff [of "cl_variants c" k p] by (simp add: collect_inv_def)
  then show ?thesis by (cases "map_of (cl_variants c) k") (auto simp: conflicting_ids_def dget_def image_iff)
qed

lemma no_conflict:
  assumes "x \<in> set xs" "y \<in> set xs" "event_id x = event_id y" "event_id x \<notin> set (conflicting_ids (collect xs))"
  shows "payload x = payload y"
proof -
  have inv: "collect_inv xs (collect xs)" by (rule collect_collect_inv)
  let ?v = "dget (cl_variants (collect xs)) (event_id x) []"
  have "length ?v \<le> 1" using assms(4) conflicting_iff [OF inv] by (simp add: not_less)
  moreover have "payload x \<in> set ?v" "payload y \<in> set ?v" using inv assms(1-3) by (auto simp: collect_inv_def)
  ultimately show ?thesis by (cases ?v) auto
qed

lemma collect_duplicate:
  assumes "x \<in> set xs"
  shows "collect (xs @ [x]) = (collect xs)\<lparr>cl_duplicates := cl_duplicates (collect xs) + 1\<rparr>"
proof -
  have "payload x \<in> set (dget (cl_variants (collect xs)) (event_id x) [])"
    using collect_collect_inv [of xs] assms by (auto simp: collect_inv_def)
  then show ?thesis by (simp add: collect_def collect_step_def Let_def)
qed

section \<open>Binding\<close>

lemma fold_add_reason [simp]:
  "sc_global (fold (add_reason r) ks s) = sc_global s" "sc_by_id (fold (add_reason r) ks s) = sc_by_id s"
  "sc_orphans (fold (add_reason r) ks s) = sc_orphans s" "sc_owners (fold (add_reason r) ks s) = sc_owners s"
  by (induction ks arbitrary: s) (simp_all add: add_reason_def)

lemma flag_fields [simp]:
  "sc_global (flag b r ks s) = (if b then List.insert r (sc_global s) else sc_global s)"
  "sc_by_id (flag b r ks s) = sc_by_id s" "sc_orphans (flag b r ks s) = sc_orphans s" "sc_owners (flag b r ks s) = sc_owners s"
  by (simp_all add: flag_def add_global_def)

lemma flag_False [simp]: "flag False r ks s = s"
  by (simp add: flag_def)

lemma fold_by_id_global [simp]: "sc_global (fold (\<lambda>key x. x\<lparr>sc_by_id := f key x\<rparr>) ks s) = sc_global s"
  by (induction ks arbitrary: s) simp_all

lemma insert_not_Nil [simp]: "List.insert x xs \<noteq> []"
  by (cases xs) (simp_all add: List.insert_def)

definition bound :: "rec_entries \<Rightarrow> string list \<Rightarrow> rec_observation \<Rightarrow> bool" where
  "bound entries conflicting x \<longleftrightarrow> event_id x \<notin> set conflicting \<and> valid_binding entries x"

definition scan_bound :: "rec_observation \<Rightarrow> rec_scan \<Rightarrow> rec_scan" where
  "scan_bound x s =
     (let s' = s\<lparr>sc_by_id := dput (intent_of x) (dget (sc_by_id s) (intent_of x) [] @ [x]) (sc_by_id s)\<rparr> in
      case oe_venue_order_id (ro_event x) of None \<Rightarrow> s'
      | Some v \<Rightarrow> s'\<lparr>sc_owners := dput v (List.insert (intent_of x) (dget (sc_owners s) v [])) (sc_owners s)\<rparr>)"

lemma scan_step_global:
  "sc_global (scan_step entries conflicting x s) = [] \<longleftrightarrow> sc_global s = [] \<and> bound entries conflicting x"
  by (cases "map_of entries (intent_of x)")
    (auto simp: scan_step_def Let_def bound_def valid_binding_def add_global_def split: option.splits)

lemma related_bound: "valid_binding entries x \<Longrightarrow> related_keys entries x = [intent_of x]"
  by (auto simp: valid_binding_def related_keys_def dict_fromkeys_def split: option.splits)

lemma scan_step_bound: "bound entries conflicting x \<Longrightarrow> scan_step entries conflicting x s = scan_bound x s"
  using related_bound [of entries x]
  by (cases "map_of entries (intent_of x)")
    (auto simp: scan_step_def scan_bound_def Let_def bound_def valid_binding_def split: option.splits)

lemma scan_fold_bound:
  "sc_global (fold (scan_step entries conflicting) xs s) = [] \<Longrightarrow>
     sc_global s = [] \<and> list_all (bound entries conflicting) xs \<and>
     fold (scan_step entries conflicting) xs s = fold scan_bound xs s"
proof (induction xs arbitrary: s)
  case (Cons x xs)
  have ih: "sc_global (scan_step entries conflicting x s) = [] \<and> list_all (bound entries conflicting) xs \<and>
      fold (scan_step entries conflicting) xs (scan_step entries conflicting x s) = fold scan_bound xs (scan_step entries conflicting x s)"
    by (rule Cons.IH) (use Cons.prems in simp)
  then have b: "sc_global s = []" "bound entries conflicting x" unfolding scan_step_global by simp_all
  show ?case using ih b scan_step_bound [OF b(2), of s] by simp
qed simp

lemma scan_bound_by_id:
  "dget (sc_by_id (fold scan_bound xs s)) k [] = dget (sc_by_id s) k [] @ filter (\<lambda>x. intent_of x = k) xs"
proof (induction xs arbitrary: s)
  case (Cons x xs)
  show ?case unfolding fold_Cons o_apply Cons.IH by (simp add: scan_bound_def Let_def split: option.splits)
qed simp

lemma scan_bound_reasons: "sc_reasons (fold scan_bound xs s) = sc_reasons s"
  by (induction xs arbitrary: s) (simp_all add: scan_bound_def Let_def split: option.splits)

lemma scan_bound_owners:
  "set (dget (sc_owners (fold scan_bound xs s)) v []) =
     set (dget (sc_owners s) v []) \<union> intent_of ` {x \<in> set xs. oe_venue_order_id (ro_event x) = Some v}"
proof (induction xs arbitrary: s)
  case (Cons x xs)
  show ?case unfolding fold_Cons o_apply Cons.IH by (auto simp: scan_bound_def Let_def split: option.splits)
qed simp

lemma scan_bound_distinct:
  "distinct (map fst (sc_owners s)) \<Longrightarrow> distinct (map fst (sc_owners (fold scan_bound xs s)))"
proof (induction xs arbitrary: s)
  case (Cons x xs)
  show ?case unfolding fold_Cons o_apply
    by (rule Cons.IH) (use Cons.prems in \<open>simp add: scan_bound_def Let_def split: option.splits\<close>)
qed simp

lemma scan_owner_fold:
  "sc_global (fold (scan_owner entries) vos s) = [] \<Longrightarrow>
     sc_global s = [] \<and> list_all (\<lambda>vo. length (snd vo) \<le> 1) vos \<and> fold (scan_owner entries) vos s = s"
proof (induction vos arbitrary: s)
  case (Cons vo vos)
  from Cons.IH [of "scan_owner entries vo s"] Cons.prems show ?case
    by (auto simp: scan_owner_def split: if_splits)
qed simp

text \<open>A scan without a global reason: every item bound, no venue identifier shared by two intents.\<close>

lemma scan_clean:
  assumes "sc_global (scan_all entries conflicting xs) = []"
  shows "list_all (bound entries conflicting) xs"
    "dget (sc_by_id (scan_all entries conflicting xs)) k [] = filter (\<lambda>x. intent_of x = k) xs"
    "x \<in> set xs \<Longrightarrow> y \<in> set xs \<Longrightarrow> oe_venue_order_id (ro_event x) = Some v \<Longrightarrow> oe_venue_order_id (ro_event y) = Some v \<Longrightarrow>
       intent_of x = intent_of y"
proof -
  define s where "s = fold (scan_step entries conflicting) xs (scan_start entries)"
  have all: "scan_all entries conflicting xs = fold (scan_owner entries) (sc_owners s) s" by (simp add: scan_all_def s_def Let_def)
  note o = scan_owner_fold [OF assms [unfolded all]]
  note f = scan_fold_bound [OF conjunct1 [OF o, unfolded s_def], folded s_def]
  have start: "dget (sc_by_id (scan_start entries)) k [] = []" for k
    by (auto simp: scan_start_def dget_def split: option.splits dest!: map_of_SomeD)
  show "list_all (bound entries conflicting) xs" using f by blast
  show "dget (sc_by_id (scan_all entries conflicting xs)) k [] = filter (\<lambda>x. intent_of x = k) xs"
    using o f by (simp add: all scan_bound_by_id start)
  show "intent_of x = intent_of y" if "x \<in> set xs" "y \<in> set xs" "oe_venue_order_id (ro_event x) = Some v"
    "oe_venue_order_id (ro_event y) = Some v"
  proof -
    let ?l = "dget (sc_owners s) v []"
    have "set ?l = intent_of ` {x \<in> set xs. oe_venue_order_id (ro_event x) = Some v}"
      using f scan_bound_owners [of xs "scan_start entries" v] by (simp add: scan_start_def dget_def [of "[]"])
    then have "intent_of x \<in> set ?l" "intent_of y \<in> set ?l" using that by auto
    moreover have "length ?l \<le> 1" using o by (auto simp: dget_def list_all_iff split: option.splits dest!: map_of_SomeD)
    ultimately show ?thesis by (cases ?l) auto
  qed
qed

end
