(* ===== verification/ReconcileRows.thy ===== *)
theory ReconcileRows
  imports ReconcileScan
begin

text \<open>
  Which rows and observations a report rests on: when a row counts as resolved, which entry an
  observation is bound to, and that validated observations are told apart by their texts.
\<close>

section \<open>Rows\<close>

lemma list_all2_mem: "list_all2 P xs ys \<Longrightarrow> x \<in> set xs \<Longrightarrow> \<exists>y \<in> set ys. P x y"
  by (induction rule: list_all2_induct) auto

lemma replay_step_exit: "replay_step i cutoff e s = Inl (st, r) \<Longrightarrow> st = CONFLICT \<or> st = UNRESOLVED"
  unfolding replay_step_def replay_status_def Let_def exit_if_def by (auto split: if_splits sum.splits)

lemma replay_events_exit: "replay_events i cutoff es s = Inl (st, r) \<Longrightarrow> st = CONFLICT \<or> st = UNRESOLVED"
  by (induction es arbitrary: s) (auto split: sum.splits dest: replay_step_exit)

lemmas row_statuses = OBSERVED_TERMINAL_def CONFLICT_def UNRESOLVED_def OBSERVATIONS_CONSISTENT_def EMPTY_SCOPE_def

lemma rec_replay_resolved:
  assumes "rec_replay e obs t inherited = Inr row" "rw_status row \<noteq> CONFLICT" "rw_status row \<noteq> UNRESOLVED"
  obtains s where "replay_events (re_intent e) t (map ro_event obs) (replay_start (re_intent e)) = Inr s"
    "rs_status s \<in> set TERMINAL_STATUSES" "obs \<noteq> []" "inherited = []" "\<not> flt t (oi_decision_ts_ms (re_intent e))"
    "rw_status row = OBSERVED_TERMINAL"
proof -
  let ?run = "replay_events (re_intent e) t (map ro_event obs) (replay_start (re_intent e))"
  have pre: "inherited = []" "\<not> flt t (oi_decision_ts_ms (re_intent e))" "obs \<noteq> []"
    using assms by (auto simp: rec_replay_def Let_def rec_row_of_def split: if_splits)
  have "?run \<noteq> Inl (st, r)" for st r
  proof
    assume x: "?run = Inl (st, r)"
    then have "rw_status row = st" using assms(1) pre by (auto simp: rec_replay_def Let_def rec_row_of_def)
    then show False using replay_events_exit [OF x] assms(2,3) by simp
  qed
  then obtain s where s: "?run = Inr s" by (cases ?run) auto
  then have "rw_status row = (if rs_status s \<in> set TERMINAL_STATUSES then OBSERVED_TERMINAL else UNRESOLVED)"
    using assms(1) pre by (simp add: rec_replay_def Let_def rec_row_of_def bindE_Inr_iff) auto
  then show thesis using that [OF s] pre assms(3) by (simp split: if_splits)
qed

lemma replay_rows_mem:
  assumes "replay_rows t scan es = Inr rows" "e \<in> set es"
  obtains row where "row \<in> set rows"
    "rec_replay e (dget (sc_by_id scan) (oi_intent_id (re_intent e)) []) t (dget (sc_reasons scan) (oi_intent_id (re_intent e)) []) = Inr row"
  using list_all2_mem [OF mapE_Inr_all2 [OF assms(1) [unfolded replay_rows_def Let_def]] assms(2)] by blast

section \<open>The entries of a validated snapshot\<close>

lemma entries_by_id_Some:
  "map_of (fold (\<lambda>e d. dput (oi_intent_id (re_intent e)) e d) es d) k = Some e \<Longrightarrow>
     (e \<in> set es \<and> oi_intent_id (re_intent e) = k) \<or> map_of d k = Some e"
proof (induction es arbitrary: d)
  case (Cons a es)
  then show ?case using Cons.IH [of "dput (oi_intent_id (re_intent a)) a d"] by (auto split: if_splits)
qed simp

lemma bound_entry:
  assumes "bound (entries_by_id es) conflicting x"
  shows "\<exists>e \<in> set es. oi_intent_id (re_intent e) = intent_of x \<and> ro_receipt x = re_receipt e"
proof -
  obtain e where e: "map_of (entries_by_id es) (intent_of x) = Some e" "ro_receipt x = re_receipt e"
    using assms by (cases "map_of (entries_by_id es) (intent_of x)") (simp_all add: bound_def valid_binding_def)
  then show ?thesis using entries_by_id_Some [of es "[]" "intent_of x" e] by (simp add: entries_by_id_def) blast
qed

lemma mapE_append: "mapE f (xs @ ys) = bindE (mapE f xs) (\<lambda>us. bindE (mapE f ys) (\<lambda>vs. Inr (us @ vs)))"
  by (induction xs) (auto simp: bindE_def split: sum.splits)

section \<open>Observations of validated events\<close>

text \<open>An \<open>OrderEvent\<close> is validated when it is built; the reconciler then keeps the observation as it is.\<close>

lemma rec_event_valid: "wf_event e \<Longrightarrow> rec_event e = Inr e' \<Longrightarrow> e' = e"
proof -
  assume wf: "wf_event e" and r: "rec_event e = Inr e'"
  have "known_keys (obj_fields (event_to_dict e)) event_field_names"
    by (simp add: known_keys_def obj_fields_def event_to_dict_def event_field_names_def)
  then have "event_from_dict (obj_fields (event_to_dict e)) = Inr e"
    using event_from_dict_perm [OF HOL.refl, of e] valid_event_post_init [of e] wf by (simp add: wf_event_def)
  then show "e' = e" using r by (auto simp: rec_event_def Let_def err_simps)
qed

lemma observation_valid: "wf_event (ro_event x) \<Longrightarrow> rec_observation_post_init x = Inr y \<Longrightarrow> y = x"
  by (auto simp: rec_observation_post_init_def err_simps rec_receipt_def dest!: rec_event_valid receipt_post_init_id)

lemma observations_valid:
  "list_all (\<lambda>x. wf_event (ro_event x)) obs0 \<Longrightarrow> mapE rec_observation_post_init obs0 = Inr obs \<Longrightarrow> obs = obs0"
  by (induction obs0 arbitrary: obs) (auto simp: err_simps dest: observation_valid)

lemma payload_inj:
  assumes "wf_event (ro_event x)" "wf_event (ro_event y)" "payload x = payload y"
  shows "x = y"
proof -
  let ?d = "\<lambda>x. obj_fields (observation_json x)"
  have j: "observation_json x = JObj (?d x)" for x by (simp add: observation_json_def obj_fields_def)
  have wf: "wf_json (observation_json x)" if "wf_event (ro_event x)" for x
    using wf_json_event [OF that] by (simp add: observation_json_def receipt_json_def)
  have f: "map_option sort_json (map_of (?d x) k) = map_option sort_json (map_of (?d y) k)" for k
    by (rule canonical_obj_fields) (use wf [OF assms(1)] wf [OF assms(2)] assms(3) in \<open>simp_all flip: j\<close>)
  have "sort_json (event_to_dict (ro_event x)) = sort_json (event_to_dict (ro_event y))"
    using f [of "''event''"] by (simp add: observation_json_def obj_fields_def)
  moreover have "event_from_dict (obj_fields (sort_json (event_to_dict (ro_event z)))) = Inr (ro_event z)"
    if "wf_event (ro_event z)" for z
    unfolding event_from_sorted using that by (simp add: wf_event_def valid_event_post_init)
  ultimately have "ro_event x = ro_event y" using assms(1,2) by (metis sum.inject(2))
  moreover have r: "sort_json (receipt_json (ro_receipt x)) = sort_json (receipt_json (ro_receipt y))"
    using f [of "''receipt''"] by (simp add: observation_json_def obj_fields_def)
  have "ro_receipt x = ro_receipt y"
    using r by (simp add: receipt_json_def insort_key.simps)
  moreover have "ro_mode x = ro_mode y" "ro_schema_version x = ro_schema_version y"
    using f [of "''mode''"] f [of "''schema_version''"] by (simp_all add: observation_json_def obj_fields_def)
  ultimately show ?thesis by simp
qed

end
