(* ===== verification/ReconcileDemo.thy ===== *)
theory ReconcileDemo
  imports ReconcileScan LedgerDemo
begin

text \<open>
  The reconciler on the ledger of \<open>LedgerDemo\<close>: one intent, bought at once, with the three events
  that prove it; for the witnesses.
\<close>

section \<open>A demonstration\<close>

definition demo_event :: "string \<Rightarrow> order_event_type \<Rightarrow> pyfloat \<Rightarrow> string option \<Rightarrow> pyfloat \<Rightarrow> pyfloat option \<Rightarrow> pyfloat \<Rightarrow> pyfloat \<Rightarrow> order_event" where
  "demo_event eid kind ts venue qty price cumulative remaining =
     \<lparr>oe_event_id = eid, oe_intent_id = ''i1'', oe_event_type = kind, oe_receive_ts_ms = ts, oe_venue_ts_ms = None,
      oe_venue_order_id = venue, oe_fill_qty = qty, oe_fill_price = price, oe_cumulative_filled_qty = cumulative,
      oe_remaining_qty = Some remaining, oe_reason = None, oe_schema_version = ORDER_EVENT_SCHEMA_V1\<rparr>"

definition demo_events :: "order_event list" where
  "demo_events =
     [demo_event ''e1'' SUBMITTED (Fin 2) None (Fin 0) None (Fin 0) (Fin 4),
      demo_event ''e2'' VENUE_ACK (Fin 3) (Some ''v'') (Fin 0) None (Fin 0) (Fin 4),
      demo_event ''e3'' FILLED_EVENT (Fin 4) (Some ''v'') (Fin 4) (Some (Fin (1 / 2))) (Fin 4) (Fin 0)]"

definition demo_observe :: "order_event \<Rightarrow> rec_observation" where
  "demo_observe e = \<lparr>ro_receipt = demo_receipt, ro_event = e, ro_mode = OFFLINE, ro_schema_version = EVENT_SCHEMA\<rparr>"

definition demo_observations :: "rec_observation list" where
  "demo_observations = map demo_observe demo_events"

definition demo_entry :: rec_entry where
  "demo_entry = \<lparr>re_intent = demo_order, re_receipt = demo_receipt\<rparr>"

definition demo_snapshot :: ledger_snapshot where
  "demo_snapshot = \<lparr>sn_checkpoint = demo_checkpoint, sn_entries = [demo_entry], sn_schema_version = SNAPSHOT_SCHEMA\<rparr>"

lemma demo_events_wf: "list_all wf_event demo_events"
proof -
  have "list_all valid_event demo_events" by code_simp
  moreover have "wf_float (Fin (1 / 2))" by code_simp
  ultimately show ?thesis by (simp add: demo_events_def demo_event_def wf_event_def wf_numeral del: wf_float.simps)
qed

lemma demo_quantities [simp]: "rec_quantity (Fin 4) = 4" "rec_quantity (Fin 0) = 0"
  by code_simp+

lemma demo_observation_ok: "list_all (\<lambda>e. rec_event e = Inr e) demo_events"
  by code_simp

lemma demo_collect: "collect demo_observations = \<lparr>cl_variants = [(''e1'', [payload (demo_observations ! 0)]),
    (''e2'', [payload (demo_observations ! 1)]), (''e3'', [payload (demo_observations ! 2)])],
    cl_distinct = demo_observations, cl_duplicates = 0\<rparr>"
  by (simp add: collect_def collect_step_def Let_def demo_observations_def demo_events_def demo_observe_def demo_event_def dget_def)

lemma demo_replay: "replay_events demo_order (Fin 9) demo_events (replay_start demo_order) =
    Inr \<lparr>rs_status = FILLED, rs_filled = 4, rs_last_time = Fin 4, rs_venue_id = Some ''v''\<rparr>"
  by (simp add: demo_events_def demo_event_def demo_order_def replay_start_def replay_step_def replay_status_def Let_def
      fill_event_type_def outside_limit_def FILL_FROM_def TERMINAL_STATUSES_def)

definition demo_row :: rec_row where
  "demo_row = \<lparr>rw_sequence = 1, rw_intent_id = ''i1'', rw_intent_hash = replicate 64 (CHR ''1''),
     rw_record_hash = replicate 64 (CHR ''1''), rw_status = OBSERVED_TERMINAL, rw_reasons = [],
     rw_observed_event_ids = [''e1'', ''e2'', ''e3''], rw_order_status = Some ''FILLED'',
     rw_filled_qty_decimal = Some ''4'', rw_remaining_qty_decimal = Some ''0'', rw_venue_order_id = Some ''v''\<rparr>"

lemma demo_payload_hash: "order_intent_payload_hash_v1 demo_sha demo_order = Inr (replicate 64 (CHR ''1''))"
  by code_simp

lemma demo_entry_ok: "rec_entry_post_init demo_sha demo_entry = Inr demo_entry"
proof -
  have "intent_from_dict (obj_fields (intent_to_dict demo_order)) = Inr demo_order" by code_simp
  then show ?thesis
    by (simp add: rec_entry_post_init_def demo_entry_def rec_intent_def rec_receipt_def demo_receipt_valid demo_payload_hash)
qed

lemma demo_snapshot_ok: "snapshot_post_init demo_sha demo_snapshot = Inr demo_snapshot"
  by (simp add: snapshot_post_init_def demo_snapshot_def demo_entry_ok rec_checkpoint_def demo_checkpoint_valid MAX_INTENTS_def)
    (simp add: demo_checkpoint_def)

lemma demo_validated: "validate_snapshot demo_sha demo_snapshot demo_checkpoint = Inr ()"
proof -
  have h: "record_hash demo_sha ''L'' 1 (header_hash demo_sha ''L'') (intent_to_dict demo_order) = replicate 64 (CHR ''1'')"
    using demo_receipt_eq by (simp add: demo_receipt_def receipt_of_def start_state_def)
  have t: "length (canonical (ledger_record demo_sha ''L'' 1 (header_hash demo_sha ''L'') (intent_to_dict demo_order))) = 592"
    using demo_texts(2) by (simp add: line_of_def row_of_def start_state_def NL_def)
  have r: "intent_receipt_post_init \<lparr>rc_ledger_id = ''L'', rc_sequence = 1, rc_intent_id = ''i1'', rc_intent_hash = replicate 64 (CHR ''1''),
      rc_record_hash = replicate 64 (CHR ''1''), rc_schema_version = RECEIPT_SCHEMA\<rparr> = Inr demo_receipt"
    using demo_receipt_valid unfolding demo_receipt_eq .
  have i: "oi_intent_id demo_order = ''i1''" by (simp add: demo_order_def)
  show ?thesis
    by (simp add: validate_snapshot_def demo_snapshot_def demo_checkpoint_def demo_entry_def Let_def demo_payload_hash h t i r
        MAX_LINE_BYTES_def demo_receipt_eq cong: eval_cong)
qed

lemma demo_accepted: "accepted demo_sha demo_snapshot demo_observations demo_checkpoint (Fin 9) ''r1'' demo_snapshot demo_observations"
proof -
  have "rec_observation_post_init x = Inr x" if "x \<in> set demo_observations" for x
    using that demo_observation_ok
    by (auto simp: demo_observations_def list_all_iff rec_observation_post_init_def demo_observe_def rec_receipt_def demo_receipt_valid)
  then have "mapE rec_observation_post_init demo_observations = Inr demo_observations" by (rule mapE_id)
  moreover have "rec_text ''r1'' ''reconciliation_run_id'' = Inr ''r1''" by code_simp
  moreover have "rec_checkpoint demo_checkpoint = Inr demo_checkpoint"
    by (simp add: rec_checkpoint_def demo_checkpoint_valid) (simp add: demo_checkpoint_def)
  ultimately show ?thesis
    by (simp add: accepted_def demo_snapshot_ok demo_validated rec_number_def)
      (simp add: demo_observations_def demo_events_def MAX_EVENTS_def)
qed

lemma demo_ids: "rc_intent_id demo_receipt = ''i1''"
  by (simp add: demo_receipt_eq)

lemma demo_bound: "list_all (bound [(''i1'', demo_entry)] []) demo_observations"
  by (simp add: demo_observations_def demo_events_def bound_def valid_binding_def demo_observe_def demo_event_def demo_entry_def demo_ids)

lemma demo_scan: "observation_scan demo_snapshot demo_observations =
    \<lparr>sc_reasons = [(''i1'', [])], sc_by_id = [(''i1'', demo_observations)], sc_global = [], sc_orphans = [],
     sc_owners = [(''v'', [''i1''])]\<rparr>"
proof -
  have en: "entries_by_id (sn_entries demo_snapshot) = [(''i1'', demo_entry)]"
    by (simp add: demo_snapshot_def demo_entry_def entries_by_id_def demo_order_def)
  have "fold (scan_step [(''i1'', demo_entry)] []) demo_observations s = fold scan_bound demo_observations s" for s
    using demo_bound by (intro fold_cong) (auto simp: list_all_iff scan_step_bound)
  then show ?thesis
    by (simp add: observation_scan_def Let_def demo_collect conflicting_ids_def scan_all_def en scan_start_def)
      (simp add: demo_observations_def demo_events_def demo_observe_def demo_event_def scan_bound_def dget_def scan_owner_def List.insert_def)
qed

lemma demo_rows: "replay_rows (Fin 9) (observation_scan demo_snapshot demo_observations) (sn_entries demo_snapshot) = Inr [demo_row]"
proof -
  have d: "rec_decimal 4 = Inr ''4''" "rec_decimal 0 = Inr ''0''" by code_simp+
  have ev: "map ro_event demo_observations = demo_events" by (simp add: demo_observations_def demo_observe_def comp_def)
  have ids: "map (\<lambda>x. oe_event_id (ro_event x)) demo_observations = [''e1'', ''e2'', ''e3'']"
    by (simp add: demo_observations_def demo_observe_def demo_events_def demo_event_def)
  have e: "re_intent demo_entry = demo_order" "re_receipt demo_entry = demo_receipt" "sn_entries demo_snapshot = [demo_entry]"
    by (simp_all add: demo_entry_def demo_snapshot_def)
  have o: "oi_intent_id demo_order = ''i1''" "oi_qty demo_order = Fin 4" "oi_decision_ts_ms demo_order = Fin 2" "demo_observations \<noteq> []"
    by (simp_all add: demo_order_def demo_observations_def demo_events_def)
  show ?thesis
    by (simp add: replay_rows_def Let_def e o demo_scan dget_def rec_replay_def ev demo_replay d ids rec_row_of_def dict_fromkeys_def
        demo_row_def demo_receipt_eq TERMINAL_STATUSES_def)
qed

lemma demo_reconcile:
  "reconcile_execution_v1 demo_sha demo_snapshot demo_observations demo_checkpoint (Fin 9) ''r1'' =
     Inr (final_report demo_sha demo_snapshot demo_observations demo_checkpoint (Fin 9) ''r1'' [demo_row])"
  by (rule reconcile_total [OF demo_sha_hex demo_accepted demo_rows])

end
