(* ===== verification/ReportText.thy ===== *)
theory ReportText
  imports ReconcileFacts
begin

text \<open>
  The canonical text of a report determines the report, so that the comparison of two texts in
  \<open>verify_execution_reconciliation_report_v1\<close> is a comparison of the reports.
\<close>

lemma sort_jopt: "sort_json (jopt JStr x) = sort_json (jopt JStr y) \<longleftrightarrow> x = y"
  by (cases x; cases y) (simp_all add: jopt_def)

lemma sort_jstrs: "sort_json (jstrs xs) = sort_json (jstrs ys) \<longleftrightarrow> xs = ys"
proof -
  have "inj (sort_json \<circ> JStr)" by (simp add: inj_def)
  then show ?thesis unfolding jstrs_def sort_json.simps json.inject map_map by (rule inj_map_eq_map)
qed

lemma fields_eq:
  assumes "sort_json (JObj d) = sort_json (JObj d')" "distinct (map fst d)" "distinct (map fst d')"
  shows "map_option sort_json (map_of d k) = map_option sort_json (map_of d' k)"
  by (rule sort_json_map_of [OF assms(2,3,1)])

lemma row_json_inj:
  assumes "sort_json (row_json a) = sort_json (row_json b)"
  shows "a = b"
proof -
  note f = fields_eq [OF assms [unfolded row_json_def]]
  show ?thesis
  proof (rule rec_row.equality)
    show "rw_sequence a = rw_sequence b" using f [of "''sequence''"] by simp
    show "rw_intent_id a = rw_intent_id b" using f [of "''intent_id''"] by simp
    show "rw_intent_hash a = rw_intent_hash b" using f [of "''intent_hash''"] by simp
    show "rw_record_hash a = rw_record_hash b" using f [of "''record_hash''"] by simp
    show "rw_status a = rw_status b" using f [of "''status''"] by simp
    show "rw_reasons a = rw_reasons b" using f [of "''reasons''"] by (simp add: sort_jstrs)
    show "rw_observed_event_ids a = rw_observed_event_ids b" using f [of "''observed_event_ids''"] by (simp add: sort_jstrs)
    show "rw_order_status a = rw_order_status b" using f [of "''order_status''"] by (simp add: sort_jopt)
    show "rw_filled_qty_decimal a = rw_filled_qty_decimal b" using f [of "''filled_qty_decimal''"] by (simp add: sort_jopt)
    show "rw_remaining_qty_decimal a = rw_remaining_qty_decimal b" using f [of "''remaining_qty_decimal''"] by (simp add: sort_jopt)
    show "rw_venue_order_id a = rw_venue_order_id b" using f [of "''venue_order_id''"] by (simp add: sort_jopt)
  qed simp
qed

lemma sort_rows: "map (sort_json \<circ> row_json) xs = map (sort_json \<circ> row_json) ys \<longleftrightarrow> xs = ys"
  using row_json_inj by (intro inj_map_eq_map) (simp add: inj_def)

lemma checkpoint_json_inj: "sort_json (checkpoint_json a) = sort_json (checkpoint_json b) \<Longrightarrow> a = b"
proof -
  assume "sort_json (checkpoint_json a) = sort_json (checkpoint_json b)"
  note f = fields_eq [OF this [unfolded checkpoint_json_def]]
  show ?thesis
    by (rule ledger_checkpoint.equality)
      (use f [of "''ledger_id''"] f [of "''sequence''"] f [of "''record_hash''"] in simp_all)
qed

lemma report_keys: "distinct (map fst (report_fields r))"
  by (simp add: report_fields_def)

lemma report_json_inj:
  assumes "sort_json (report_json a) = sort_json (report_json b)"
  shows "a = b"
proof -
  note f = fields_eq [OF assms [unfolded report_json_def] report_keys report_keys]
  show ?thesis
  proof (rule rec_report.equality)
    show "rp_run_id a = rp_run_id b" using f [of "''reconciliation_run_id''"] by (simp add: report_fields_def)
    show "rp_checkpoint a = rp_checkpoint b" using f [of "''checkpoint''"] by (simp add: report_fields_def checkpoint_json_inj)
    show "rp_snapshot_hash a = rp_snapshot_hash b" using f [of "''snapshot_hash''"] by (simp add: report_fields_def)
    show "rp_observations_hash a = rp_observations_hash b" using f [of "''observations_hash''"] by (simp add: report_fields_def)
    show "rp_as_of a = rp_as_of b" using f [of "''as_of_receive_ts_ms''"] by (simp add: report_fields_def)
    show "rp_status a = rp_status b" using f [of "''status''"] by (simp add: report_fields_def)
    show "rp_reasons a = rp_reasons b" using f [of "''reasons''"] by (simp add: report_fields_def sort_jstrs)
    show "rp_rows a = rp_rows b" using f [of "''rows''"] by (simp add: report_fields_def sort_rows)
    show "rp_unresolved a = rp_unresolved b" using f [of "''unresolved_intent_ids''"] by (simp add: report_fields_def sort_jstrs)
    show "rp_conflicted a = rp_conflicted b" using f [of "''conflicted_intent_ids''"] by (simp add: report_fields_def sort_jstrs)
    show "rp_terminal a = rp_terminal b" using f [of "''observed_terminal_intent_ids''"] by (simp add: report_fields_def sort_jstrs)
    show "rp_orphans a = rp_orphans b" using f [of "''orphan_event_ids''"] by (simp add: report_fields_def sort_jstrs)
    show "rp_conflicting a = rp_conflicting b" using f [of "''conflicting_event_ids''"] by (simp add: report_fields_def sort_jstrs)
    show "rp_input_count a = rp_input_count b" using f [of "''input_event_count''"] by (simp add: report_fields_def)
    show "rp_distinct_count a = rp_distinct_count b" using f [of "''distinct_event_id_count''"] by (simp add: report_fields_def)
    show "rp_duplicate_count a = rp_duplicate_count b" using f [of "''duplicate_event_count''"] by (simp add: report_fields_def)
    show "rp_artifact_hash a = rp_artifact_hash b" using f [of "''artifact_hash''"] by (simp add: report_fields_def)
    show "rp_mode a = rp_mode b" using f [of "''mode''"] by (simp add: report_fields_def)
    show "rp_scope a = rp_scope b" using f [of "''observation_scope''"] by (simp add: report_fields_def)
    show "rp_quantity_rule a = rp_quantity_rule b" using f [of "''quantity_rule''"] by (simp add: report_fields_def)
    show "rp_resume_authorized a = rp_resume_authorized b" using f [of "''resume_authorized''"] by (simp add: report_fields_def)
    show "rp_release_authorized a = rp_release_authorized b" using f [of "''reservation_release_authorized''"] by (simp add: report_fields_def)
    show "rp_redispatch_authorized a = rp_redispatch_authorized b" using f [of "''redispatch_authorized''"] by (simp add: report_fields_def)
    show "rp_version a = rp_version b" using f [of "''reconciler_version''"] by (simp add: report_fields_def)
    show "rp_schema_version a = rp_schema_version b" using f [of "''schema_version''"] by (simp add: report_fields_def)
  qed simp
qed

lemma report_wf_json: "isfinite (rp_as_of r) \<Longrightarrow> wf_float (rp_as_of r) \<Longrightarrow> wf_json (report_json r)"
  using report_keys [of r]
  by (simp add: report_json_def)
    (simp add: report_fields_def checkpoint_json_def jstrs_def row_json_def jopt_def list_all_iff split: option.splits)

lemma report_text_inj:
  "isfinite (rp_as_of a) \<Longrightarrow> wf_float (rp_as_of a) \<Longrightarrow> isfinite (rp_as_of b) \<Longrightarrow> wf_float (rp_as_of b) \<Longrightarrow>
     canonical (report_json a) = canonical (report_json b) \<longleftrightarrow> a = b"
  using canonical_inj [OF report_wf_json report_wf_json] report_json_inj by metis

lemma report_hash_artifact: "report_hash sha (r\<lparr>rp_artifact_hash := h\<rparr>) = report_hash sha r"
  by (simp add: report_hash_def report_fields_def dpop_def)

lemma reconcile_hash:
  assumes "reconcile_execution_v1 sha sn obs c t run = Inr r"
  shows "report_hash sha r = rp_artifact_hash r"
  using assms by (rule reconcile_accepted) (simp add: final_report_def Let_def report_hash_artifact)

lemma verify_iff:
  assumes "wf_float t" "isfinite (rp_as_of r)" "wf_float (rp_as_of r)"
  shows "verify_execution_reconciliation_report_v1 sha r sn obs c t = Inr [] \<longleftrightarrow>
    reconcile_execution_v1 sha sn obs c t (rp_run_id r) = Inr r"
proof
  assume "verify_execution_reconciliation_report_v1 sha r sn obs c t = Inr []"
  then obtain r' where r': "reconcile_execution_v1 sha sn obs c t (rp_run_id r) = Inr r'" "canonical (report_json r) = canonical (report_json r')"
    by (auto simp: verify_execution_reconciliation_report_v1_def Let_def err_simps split: if_splits)
  have "rp_as_of r' = t" "isfinite t"
    using r'(1) by (auto elim!: reconcile_accepted simp: final_report_def Let_def accepted_def rec_number_def err_simps)
  then have "r' = r" using r'(2) report_text_inj [of r r'] assms by simp
  then show "reconcile_execution_v1 sha sn obs c t (rp_run_id r) = Inr r" using r'(1) by simp
next
  assume r: "reconcile_execution_v1 sha sn obs c t (rp_run_id r) = Inr r"
  then have "report_hash sha r = rp_artifact_hash r" by (rule reconcile_hash)
  then show "verify_execution_reconciliation_report_v1 sha r sn obs c t = Inr []"
    using r by (simp add: verify_execution_reconciliation_report_v1_def Let_def)
qed

end
