(* ===== verification/SnapshotHistory.thy ===== *)
theory SnapshotHistory
  imports ReconcileFacts LedgerProps
begin

text \<open>
  A validated snapshot is a chain of ledger records: what \<open>_validate_snapshot\<close> accepts is exactly what the
  ledger of \<open>IntentLedger\<close> could have recorded, with the same tip hash.
\<close>

lemma intent_from_dict_valid: "intent_from_dict d = Inr i \<Longrightarrow> valid_intent i"
  by (auto simp: intent_from_dict_def err_simps dest: post_init_valid)

lemma rec_entry_valid: "rec_entry_post_init sha e0 = Inr e \<Longrightarrow> valid_intent (re_intent e)"
  by (auto simp: rec_entry_post_init_def rec_intent_def err_simps dest: intent_from_dict_valid)

lemma snapshot_entries_valid:
  assumes "snapshot_post_init sha sn0 = Inr sn" "e \<in> set (sn_entries sn)"
  shows "valid_intent (re_intent e)"
proof -
  have m: "mapE (rec_entry_post_init sha) (sn_entries sn0) = Inr (sn_entries sn)"
    using assms(1) by (auto simp: snapshot_post_init_def err_simps)
  have "list_all2 (\<lambda>x y. rec_entry_post_init sha x = Inr y) (sn_entries sn0) (sn_entries sn)" by (rule mapE_Inr_all2 [OF m])
  then have "list_all (\<lambda>y. valid_intent (re_intent y)) (sn_entries sn)"
    by (induction rule: list_all2_induct) (auto dest: rec_entry_valid)
  then show ?thesis using assms(2) by (simp add: list_all_iff)
qed

lemma validated_entry:
  assumes js: "recordable_list sha lid js" "wf_intent i"
    and step: "order_intent_payload_hash_v1 sha i = Inr h"
      "intent_receipt_post_init \<lparr>rc_ledger_id = lid, rc_sequence = int (length js) + 1, rc_intent_id = oi_intent_id i,
         rc_intent_hash = h, rc_record_hash = record_hash sha lid (int (length js) + 1) (tip_of sha lid js) (intent_to_dict i),
         rc_schema_version = RECEIPT_SCHEMA\<rparr> = Inr r"
      "oi_intent_id i \<notin> oi_intent_id ` set js"
      "length (canonical (ledger_record sha lid (int (length js) + 1) (tip_of sha lid js) (intent_to_dict i))) + 1 \<le> MAX_LINE_BYTES"
  shows "recordable_list sha lid (js @ [i])"
    "tip_of sha lid (js @ [i]) = record_hash sha lid (int (length js) + 1) (tip_of sha lid js) (intent_to_dict i)"
proof -
  obtain n recs ids tip where st: "state_of sha lid js = (n, recs, ids, tip)" by (cases "state_of sha lid js") auto
  note shape = state_of_shape [OF js(1) st]
  have tip: "tip_of sha lid js = tip" by (simp add: tip_of_def st)
  have len: "length recs = length js" using shape by blast
  have "map_of ids (oi_intent_id i) = None"
    using shape step(3) by (metis image_eqI not_Some_eq nth_mem)
  moreover have h: "h = ledger_digest sha ''intent'' (intent_to_dict i)"
    using step(1) js(2) by (simp add: order_intent_payload_hash_v1_def valid_payload wf_intent_def)
  moreover have "receipt_of sha lid (state_of sha lid js) i = r"
    using receipt_post_init_id [OF step(2)] by (simp add: receipt_of_def st len tip h)
  ultimately have "recordable sha lid (state_of sha lid js) i"
    using js(2) step(2,4) by (simp add: recordable_def st line_of_def row_of_def NL_def len tip receipt_of_def)
  then show "recordable_list sha lid (js @ [i])" using js(1) by (simp add: recordable_list_snoc)
  show "tip_of sha lid (js @ [i]) = record_hash sha lid (int (length js) + 1) (tip_of sha lid js) (intent_to_dict i)"
    unfolding tip by (simp add: tip_of_def state_of_snoc st add_entry_def receipt_of_def len)
qed

lemma validate_entries_chain:
  assumes "recordable_list sha lid js" "set seen = oi_intent_id ` set js" "\<forall>e \<in> set es. wf_intent (re_intent e)"
    "validate_entries sha lid (int (length js) + 1) (tip_of sha lid js) seen es = Inr tip"
  shows "recordable_list sha lid (js @ map re_intent es) \<and> tip_of sha lid (js @ map re_intent es) = tip"
  using assms
proof (induction es arbitrary: js seen)
  case (Cons e es)
  let ?i = "re_intent e"
  let ?n = "int (length js) + 1"
  let ?h = "record_hash sha lid ?n (tip_of sha lid js) (intent_to_dict ?i)"
  obtain h r where s: "order_intent_payload_hash_v1 sha ?i = Inr h"
      "intent_receipt_post_init \<lparr>rc_ledger_id = lid, rc_sequence = ?n, rc_intent_id = oi_intent_id ?i,
         rc_intent_hash = h, rc_record_hash = ?h, rc_schema_version = RECEIPT_SCHEMA\<rparr> = Inr r"
      "\<not> (re_receipt e \<noteq> r \<or> oi_intent_id ?i \<in> set seen)"
      "\<not> MAX_LINE_BYTES < length (canonical (ledger_record sha lid ?n (tip_of sha lid js) (intent_to_dict ?i))) + 1"
      "validate_entries sha lid (?n + 1) ?h (oi_intent_id ?i # seen) es = Inr tip"
    using Cons.prems(4) unfolding validate_entries.simps Let_def bindE_Inr_iff raise_if_Inr_iff by blast
  have wf: "wf_intent ?i" using Cons.prems(3) by simp
  have new: "recordable_list sha lid (js @ [?i])" "tip_of sha lid (js @ [?i]) = ?h"
    using validated_entry [OF Cons.prems(1) wf s(1,2)] s(3,4) Cons.prems(2) by simp_all
  show ?case
    using Cons.IH [OF new(1), of "oi_intent_id ?i # seen"] Cons.prems(2,3) s(5) new(2) by (simp add: algebra_simps)
qed simp

lemma validated_snapshot_chain:
  assumes "recordable_list sha lid []" "snapshot_post_init sha sn0 = Inr sn" "validate_snapshot sha sn c = Inr ()" "lc_ledger_id c = lid"
    "list_all (\<lambda>e. floats_typed (re_intent e)) (sn_entries sn)"
  shows "recordable_list sha lid (map re_intent (sn_entries sn))" "tip_of sha lid (map re_intent (sn_entries sn)) = lc_record_hash c"
    "int (length (sn_entries sn)) = lc_sequence c"
proof -
  have wf: "\<forall>e \<in> set (sn_entries sn). wf_intent (re_intent e)"
    using snapshot_entries_valid [OF assms(2)] assms(5) by (auto simp: list_all_iff floats_typed_def wf_intent_def)
  have tip: "tip_of sha lid [] = header_hash sha lid" by (simp add: tip_of_def state_of_Nil start_state_def)
  have v: "validate_entries sha lid 1 (header_hash sha lid) [] (sn_entries sn) = Inr (lc_record_hash c)"
    "int (length (sn_entries sn)) = lc_sequence c"
    using assms(3,4) by (auto simp: validate_snapshot_def err_simps)
  then show "recordable_list sha lid (map re_intent (sn_entries sn))" "tip_of sha lid (map re_intent (sn_entries sn)) = lc_record_hash c"
    "int (length (sn_entries sn)) = lc_sequence c"
    using validate_entries_chain [OF assms(1) _ wf, of "[]"] by (simp_all add: tip)
qed

lemma snapshot_history:
  assumes "ledger_ok sha lid is s" "ledger_checkpoint_of s = (Inr c, s')"
    "snapshot_post_init sha sn0 = Inr sn" "validate_snapshot sha sn c = Inr ()"
    "list_all (\<lambda>e. floats_typed (re_intent e)) (sn_entries sn)"
    "inj_on sha (set (hashed_texts sha lid is @ hashed_texts sha lid (map re_intent (sn_entries sn))))"
  shows "map re_intent (sn_entries sn) = is"
proof -
  note c = checkpoint_facts [OF assms(1,2)]
  have "recordable_list sha lid []" using c(4) by (simp add: recordable_list_def)
  note v = validated_snapshot_chain [OF this assms(3,4) c(1) assms(5)]
  show ?thesis using tip_determines_history [OF c(4) v(1)] v(2) c(3) assms(6) by simp
qed

end
