(* ===== verification/ReplayMachine.thy ===== *)
theory ReplayMachine
  imports ReconcileFacts LotOrder
begin

text \<open>
  The reconciler's replay and the order state machine of \<open>order_state.py\<close>: on whole shares the decimal
  text of a float is exact, and every history the replay accepts is a run of the machine, call by call.
\<close>

section \<open>The decimal of a whole number\<close>

lemma rec_quantity_dec: "0 < x \<Longrightarrow> rec_quantity (Fin x) = dec_val (shortest x)"
  using shortest_nonneg [of x] pos_repr_reads [of "fst (shortest x)" x "snd (shortest x)"]
  by (simp add: rec_quantity_def dec_val_def)

lemma dec_val_whole: "0 \<le> k \<Longrightarrow> dec_val (m, k) = of_int (m * 10 ^ nat k)"
  by (simp add: dec_val_def power_int_def)

lemma rnd_whole_inj:
  assumes "rnd (of_int i) = of_nat n" "n < 2 ^ 53" "0 \<le> i"
  shows "of_int i = (of_nat n :: rat)"
proof (cases "i \<le> 2 ^ 53")
  case True
  then show ?thesis using assms rnd_of_int [of i] by simp
next
  case False
  then have "(of_int (2 ^ 53) :: rat) \<le> of_int i" unfolding of_int_le_iff by simp
  then have "rnd (of_int (2 ^ 53)) \<le> rnd (of_int i)" by (rule rnd_mono)
  then have "(of_int (2 ^ 53) :: rat) \<le> of_int (int n)" using rnd_of_int [of "2 ^ 53"] assms(1) by simp
  then show ?thesis unfolding of_int_le_iff using assms(2) by simp
qed

lemma cand_whole:
  assumes "dec_cand (of_nat n) k = Some m" "0 \<le> k" "0 < n" "n < 2 ^ 53"
  shows "dec_val (m, k) = of_nat n"
proof -
  have "0 \<le> m" using dec_cand_nonneg [OF _ assms(1)] assms(3) by simp
  moreover have "rnd (of_int (m * 10 ^ nat k)) = of_nat n"
    using dec_cand_val [OF assms(1)] unfolding dec_val_whole [OF assms(2)] .
  ultimately show ?thesis using rnd_whole_inj [of "m * 10 ^ nat k" n] assms(4) by (simp only: dec_val_whole [OF assms(2)]) simp
qed

lemma shortest_from_whole:
  assumes "0 \<le> k" "k < int N" "0 < n" "n < 2 ^ 53"
  shows "dec_val (shortest_from N (of_nat n) k) = of_nat n"
  using assms
proof (induction N arbitrary: k)
  case (Suc N)
  show ?case
  proof (cases "dec_cand (of_nat n) k")
    case None
    have "k \<noteq> 0"
    proof
      assume "k = 0"
      moreover have "rne (of_nat n :: rat) = int n" using rne_of_int [of "int n"] by simp
      ultimately show False using None rnd_of_int [of "int n"] Suc.prems(4) by (simp add: dec_cand_def Let_def dec_val_def)
    qed
    then show ?thesis using Suc None by simp
  next
    case (Some m)
    then show ?thesis using cand_whole [OF Some] Suc.prems by simp
  qed
qed simp

definition shares :: "nat \<Rightarrow> pyfloat" where
  "shares n = Fin (of_nat n)"

lemma rec_quantity_shares: "n < 2 ^ 53 \<Longrightarrow> rec_quantity (shares n) = of_nat n"
proof (cases "n = 0")
  case True
  have "rec_quantity (Fin 0) = 0" by code_simp
  then show ?thesis by (simp add: shares_def True)
next
  case False
  assume n: "n < 2 ^ 53"
  have "(2::rat) powi 0 < 2 powi (ilog2 (of_nat n) + 1)"
    using ilog2_bounds(2) [of "of_nat n"] False by (simp add: order.strict_trans1 [of 1 "of_nat n"])
  then have "0 < ilog2 (of_nat n) + 1" by (rule powi_less_cancel)
  then have "0 \<le> (ilog2 (of_nat n) + 1) * 30103 div 100000 + 2" by simp
  then have "dec_val (shortest (of_nat n)) = of_nat n"
    unfolding shortest_def Let_def using False n by (intro shortest_from_whole) simp_all
  then show ?thesis using rec_quantity_dec [of "of_nat n"] False by (simp add: shares_def)
qed

definition max_shares :: nat where
  "max_shares = 2 ^ 32"

lemma shares_lots: "shares n = lots (n * 2 ^ 20)"
  by (simp add: shares_def lots_def)

lemma max_shares_lots: "n \<le> max_shares \<Longrightarrow> n * 2 ^ 20 \<le> max_lots"
  by (simp add: max_shares_def max_lots_def)

section \<open>Events as calls of the machine\<close>

fun event_op :: "order_event \<Rightarrow> osm_op" where
  "event_op e = (case oe_event_type e of
       SUBMITTED \<Rightarrow> MarkSent (oe_receive_ts_ms e)
     | VENUE_ACK \<Rightarrow> Acknowledge (oe_receive_ts_ms e)
     | REJECTED_EVENT \<Rightarrow> Reject (oe_receive_ts_ms e)
     | CANCEL_REQUESTED_EVENT \<Rightarrow> RequestCancel (oe_receive_ts_ms e)
     | CANCELLED_EVENT \<Rightarrow> AcknowledgeCancel (oe_receive_ts_ms e)
     | EXPIRED_EVENT \<Rightarrow> Expire (oe_receive_ts_ms e)
     | PARTIAL_FILL \<Rightarrow> ApplyFill (oe_fill_qty e) (oe_receive_ts_ms e)
     | FILLED_EVENT \<Rightarrow> ApplyFill (oe_fill_qty e) (oe_receive_ts_ms e))"

fun osm_run :: "osm \<Rightarrow> osm_op list \<Rightarrow> osm res" where
  "osm_run m [] = Inr m"
| "osm_run m (x # xs) = bindE (osm_exec m x) (\<lambda>(_, m'). osm_run m' xs)"

text \<open>The machine after the events of a replay state; before the first event it has no last time.\<close>

definition machine :: "nat \<Rightarrow> replay_state \<Rightarrow> nat \<Rightarrow> pyfloat option \<Rightarrow> osm" where
  "machine n s f l = \<lparr>sm_order_qty = shares n, sm_status = rs_status s, sm_filled_qty = shares f, sm_last_event_ts_ms = l\<rparr>"

definition simulated :: "nat \<Rightarrow> replay_state \<Rightarrow> osm \<Rightarrow> bool" where
  "simulated n s m \<longleftrightarrow> (\<exists>f l. m = machine n s f l \<and> f \<le> n \<and> rs_filled s = of_nat f \<and>
     (l = None \<and> rs_status s = NEW \<or> l = Some (rs_last_time s) \<and> good_time (rs_last_time s)))"

lemma event_time: "wf_event e \<Longrightarrow> good_time (oe_receive_ts_ms e)"
  by (simp add: wf_event_def valid_event_def good_time_def)

lemma time_order: "good_time l \<Longrightarrow> good_time t \<Longrightarrow> \<not> flt t l \<Longrightarrow> fle l t"
  by (cases l; cases t) (auto simp: good_time_def fle_def)

lemma machine_checked:
  assumes "l = None \<or> l = Some (rs_last_time s) \<and> good_time (rs_last_time s)" "good_time t" "\<not> flt t (rs_last_time s)"
  shows "sm_checked_ts (machine n s f l) t = Inr t"
  using assms not_earlier time_order [of "rs_last_time s" t]
  by (auto simp: sm_checked_ts_Inr machine_def good_time_def)

lemma transition_simulated:
  assumes "replay_step i cutoff e s = Inr s'" "\<not> fill_event_type (oe_event_type e)" "wf_event e" "simulated n s m"
  shows "\<exists>ev m'. osm_exec m (event_op e) = Inr (ev, m') \<and> simulated n s' m'"
proof -
  obtain f l where m: "m = machine n s f l" "f \<le> n" "rs_filled s = of_nat f"
      "l = None \<and> rs_status s = NEW \<or> l = Some (rs_last_time s) \<and> good_time (rs_last_time s)"
    using assms(4) by (auto simp: simulated_def)
  let ?t = "oe_receive_ts_ms e"
  obtain st where st: "rs_status s' = snd (rec_transitions (oe_event_type e))" "rs_last_time s' = ?t" "rs_filled s' = rs_filled s"
      "\<not> flt ?t (rs_last_time s)" "rs_status s \<in> set (fst (rec_transitions (oe_event_type e)))"
    using replay_stepE [OF assms(1)] assms(2) by (auto simp: replay_status_def Let_def)
  have ts: "sm_checked_ts m ?t = Inr ?t" unfolding m(1)
    by (rule machine_checked [OF _ event_time [OF assms(3)] st(4)]) (use m(4) in blast)
  have good: "good_time ?t" by (rule event_time [OF assms(3)])
  have s': "simulated n s' (m\<lparr>sm_status := snd (rec_transitions (oe_event_type e)), sm_last_event_ts_ms := Some ?t\<rparr>)"
    unfolding simulated_def
    by (rule exI [of _ f], rule exI [of _ "Some ?t"]) (use m st good in \<open>simp add: machine_def\<close>)
  have "sm_status m = rs_status s" by (simp add: m(1) machine_def)
  then show ?thesis using assms(2) st(5) s' ts
    by (cases "oe_event_type e") (auto simp: osm_op_defs sm_transition_Inr fill_event_type_def)
qed

lemma fill_simulated:
  assumes "replay_step i cutoff e s = Inr s'" "fill_event_type (oe_event_type e)" "wf_event e" "simulated n s m"
    "oi_qty i = shares n" "n \<le> max_shares" "oe_fill_qty e = shares k" "k \<le> max_shares"
  shows "\<exists>ev m'. osm_exec m (event_op e) = Inr (ev, m') \<and> simulated n s' m'"
proof -
  let ?t = "oe_receive_ts_ms e"
  obtain f l where m: "m = machine n s f l" "f \<le> n" "rs_filled s = of_nat f"
      "l = None \<and> rs_status s = NEW \<or> l = Some (rs_last_time s) \<and> good_time (rs_last_time s)"
    using assms(4) by (auto simp: simulated_def)
  obtain st where st: "replay_status i e (rs_filled s + rec_quantity (oe_fill_qty e)) (rs_status s) = Inr st" "rs_status s' = st"
      "rs_last_time s' = ?t" "rs_filled s' = rs_filled s + rec_quantity (oe_fill_qty e)" "rs_filled s' \<le> rec_quantity (oi_qty i)"
      "\<not> flt ?t (rs_last_time s)" "rs_status s \<in> set FILL_FROM"
    using replay_stepE [OF assms(1)] assms(2) by auto
  have big: "n < 2 ^ 53" using assms(6) by (simp add: max_shares_def)
  have k0: "0 < k" using assms(2,3,7) by (cases k) (auto simp: wf_event_def valid_event_def shares_def)
  have q: "rec_quantity (oe_fill_qty e) = of_nat k" "rec_quantity (oi_qty i) = of_nat n"
    using rec_quantity_shares [OF big] rec_quantity_shares [of k] assms(5,7,8) by (simp_all add: max_shares_def)
  have room: "f + k \<le> n" using st(4,5) unfolding q m(3) by linarith
  have next': "rs_filled s + rec_quantity (oe_fill_qty e) = of_nat (f + k)" by (simp add: q m(3))
  have status: "st = (if f + k = n then FILLED else if rs_status s = CANCEL_REQUESTED then CANCEL_REQUESTED else PARTIALLY_FILLED)"
    using st(1) assms(2) unfolding next' unfolding replay_status_def Let_def q exit_if_def of_nat_eq_iff of_nat_less_iff
    by (auto simp: fill_event_type_def split: if_splits)
  have from_st: "rs_status s \<in> {ACKNOWLEDGED, PARTIALLY_FILLED, CANCEL_REQUESTED}" using st(7) by (simp add: FILL_FROM_def)
  then have l: "l = Some (rs_last_time s)" "good_time (rs_last_time s)" using m(4) by auto
  have good: "good_time ?t" by (rule event_time [OF assms(3)])
  have lot: "m = lot_order (n * 2 ^ 20) (rs_status s) (f * 2 ^ 20) (rs_last_time s)"
    by (simp add: m(1) l(1) machine_def lot_order_def shares_lots)
  have sum: "f * 2 ^ 20 + k * 2 ^ 20 = (f + k) * 2 ^ 20" by (rule add_mult_distrib [symmetric])
  have room': "f * 2 ^ 20 + k * 2 ^ 20 \<le> n * 2 ^ 20" unfolding sum by (rule mult_le_mono1 [OF room])
  have full: "f * 2 ^ 20 + k * 2 ^ 20 = n * 2 ^ 20 \<longleftrightarrow> f + k = n" unfolding sum mult_cancel2 by simp
  have k1: "0 < k * 2 ^ 20" using k0 by simp
  obtain ev where "apply_fill m (lots (k * 2 ^ 20)) ?t = Inr (ev, lot_order (n * 2 ^ 20)
      (if f * 2 ^ 20 + k * 2 ^ 20 = n * 2 ^ 20 then FILLED else if rs_status s = CANCEL_REQUESTED then CANCEL_REQUESTED else PARTIALLY_FILLED)
      (f * 2 ^ 20 + k * 2 ^ 20) ?t)"
    using fill_lots [OF max_shares_lots [OF assms(6)] room' k1 from_st l(2) good time_order [OF l(2) good st(6)]]
    unfolding lot by blast
  then have ev: "apply_fill m (shares k) ?t = Inr (ev, lot_order (n * 2 ^ 20) st ((f + k) * 2 ^ 20) ?t)"
    unfolding full status shares_lots unfolding sum .
  have "lot_order (n * 2 ^ 20) st ((f + k) * 2 ^ 20) ?t = machine n s' (f + k) (Some ?t)"
    by (simp only: machine_def lot_order_def shares_lots st(2))
  moreover have "simulated n s' (machine n s' (f + k) (Some ?t))"
    unfolding simulated_def using room good st(3,4) next' by (intro exI [of _ "f + k"] exI [of _ "Some ?t"]) (simp only: HOL.simp_thms)
  ultimately show ?thesis
    using ev assms(2,7) by (cases "oe_event_type e") (auto simp: fill_event_type_def)
qed

definition whole_fill :: "order_event \<Rightarrow> bool" where
  "whole_fill e \<longleftrightarrow> (fill_event_type (oe_event_type e) \<longrightarrow> (\<exists>k \<le> max_shares. oe_fill_qty e = shares k))"

lemma step_simulated:
  assumes "replay_step i cutoff e s = Inr s'" "wf_event e" "whole_fill e" "simulated n s m" "oi_qty i = shares n" "n \<le> max_shares"
  shows "\<exists>ev m'. osm_exec m (event_op e) = Inr (ev, m') \<and> simulated n s' m'"
proof (cases "fill_event_type (oe_event_type e)")
  case True
  then obtain k where "oe_fill_qty e = shares k" "k \<le> max_shares" using assms(3) by (auto simp: whole_fill_def)
  then show ?thesis by (rule fill_simulated [OF assms(1) True assms(2,4-6)])
next
  case False
  then show ?thesis by (rule transition_simulated [OF assms(1) _ assms(2,4)])
qed

lemma events_simulated:
  assumes "replay_events i cutoff es s = Inr s'" "list_all wf_event es" "list_all whole_fill es" "simulated n s m"
    "oi_qty i = shares n" "n \<le> max_shares"
  shows "\<exists>m'. osm_run m (map event_op es) = Inr m' \<and> simulated n s' m'"
  using assms(1-4)
proof (induction es arbitrary: s m)
  case (Cons e es)
  obtain s1 where s1: "replay_step i cutoff e s = Inr s1" "replay_events i cutoff es s1 = Inr s'"
    using Cons.prems(1) by (auto split: sum.splits)
  obtain ev m1 where m1: "osm_exec m (event_op e) = Inr (ev, m1)" "simulated n s1 m1"
    using step_simulated [OF s1(1) _ _ Cons.prems(4) assms(5,6)] Cons.prems(2,3) by auto
  then show ?case using Cons.IH [OF s1(2) _ _ m1(2)] Cons.prems(2,3) by (simp del: event_op.simps)
qed simp

lemma start_simulated:
  assumes "oi_qty i = shares n" "0 < n" "n \<le> max_shares"
  shows "\<exists>m. new_order (oi_qty i) = Inr m \<and> simulated n (replay_start i) m"
proof -
  have "new_order (oi_qty i) = Inr (machine n (replay_start i) 0 None)"
    using new_order_lots [OF _ max_shares_lots [OF assms(3)]] assms(1,2)
    by (simp add: machine_def replay_start_def shares_lots)
  moreover have "simulated n (replay_start i) (machine n (replay_start i) 0 None)"
    unfolding simulated_def by (rule exI [of _ 0], rule exI [of _ None]) (simp add: replay_start_def)
  ultimately show ?thesis by blast
qed

end
