(* ===== verification/ReconcileProps.thy ===== *)
theory ReconcileProps
  imports ReconcileRows ReportText SnapshotHistory ReplayMachine ReconcileDemo
begin

text \<open>
  The properties of the reconciler (\<open>execution_reconciliation_v1.py\<close>) and its composition with the intent
  ledger and the order state machine.  \<open>accepted\<close> collects the validations of
  \<open>reconcile_execution_v1\<close> and names the normalised snapshot and observations it goes on with.
\<close>

lemma demo_status: "rp_status (final_report demo_sha demo_snapshot demo_observations demo_checkpoint (Fin 9) ''r1'' [demo_row]) = OBSERVATIONS_CONSISTENT"
  by (simp add: final_report_def Let_def demo_scan rows_with_def demo_row_def row_statuses overall_status_def add_if_def)

lemma demo_wf_observations: "list_all (\<lambda>x. wf_event (ro_event x)) demo_observations"
  using demo_events_wf by (simp add: demo_observations_def demo_observe_def list.pred_map comp_def)

text \<open>C33. Once its inputs are accepted, the reconciler always returns a report, with one row for every intent
  of the snapshot: whatever the events say, no quantity it computes fails to print as a decimal and no
  field of the report is refused by its own validation.\<close>
theorem reconcile_returns:
  assumes "hex_digest sha" "accepted sha sn0 obs0 c t run sn obs"
  shows "\<exists>r. reconcile_execution_v1 sha sn0 obs0 c t run = Inr r \<and> length (rp_rows r) = length (sn_entries sn)"
proof -
  obtain rows where rows: "replay_rows t (observation_scan sn obs) (sn_entries sn) = Inr rows" using replay_rows_total by blast
  then have "length rows = length (sn_entries sn)" unfolding replay_rows_def by (rule mapE_length)
  then show ?thesis using reconcile_total [OF assms rows] by (simp add: final_report_def Let_def)
qed

theorem reconcile_returns_witness:
  "\<exists>r. reconcile_execution_v1 demo_sha demo_snapshot demo_observations demo_checkpoint (Fin 9) ''r1'' = Inr r \<and> length (rp_rows r) = 1"
  using reconcile_returns [OF demo_sha_hex demo_accepted] by (simp add: demo_snapshot_def)

text \<open>C29. What \<open>OBSERVATIONS_CONSISTENT\<close> means: the snapshot is not empty; the distinct events of every
  intent replay to a terminal status; every event carries the receipt of an entry of the snapshot with its
  intent; no event identifier has two contents; and no venue order belongs to two intents.\<close>
theorem consistent_report_sound:
  assumes "reconcile_execution_v1 sha sn0 obs c t run = Inr r" "rp_status r = OBSERVATIONS_CONSISTENT"
    "list_all (\<lambda>x. wf_event (ro_event x)) obs"
  shows "\<exists>sn. accepted sha sn0 obs c t run sn obs \<and> sn_entries sn \<noteq> [] \<and>
     (\<forall>e \<in> set (sn_entries sn). \<exists>s.
        replay_events (re_intent e) t
          (map ro_event (filter (\<lambda>x. intent_of x = oi_intent_id (re_intent e)) (cl_distinct (collect obs)))) (replay_start (re_intent e)) = Inr s \<and>
        rs_status s \<in> set TERMINAL_STATUSES) \<and>
     (\<forall>x \<in> set obs. \<exists>e \<in> set (sn_entries sn). oi_intent_id (re_intent e) = intent_of x \<and> ro_receipt x = re_receipt e) \<and>
     (\<forall>x \<in> set obs. \<forall>y \<in> set obs. event_id x = event_id y \<longrightarrow> x = y) \<and>
     (\<forall>x \<in> set obs. \<forall>y \<in> set obs. oe_venue_order_id (ro_event x) \<noteq> None \<and>
        oe_venue_order_id (ro_event x) = oe_venue_order_id (ro_event y) \<longrightarrow> intent_of x = intent_of y)"
proof -
  obtain sn obs' rows where "accepted sha sn0 obs c t run sn obs'"
      "replay_rows t (observation_scan sn obs') (sn_entries sn) = Inr rows" "r = final_report sha sn obs' c t run rows"
    by (rule reconcile_accepted [OF assms(1)])
  moreover from this have "obs' = obs" using observations_valid [OF assms(3)] by (simp add: accepted_def)
  ultimately have a: "accepted sha sn0 obs c t run sn obs"
      "replay_rows t (observation_scan sn obs) (sn_entries sn) = Inr rows" "r = final_report sha sn obs c t run rows" by simp_all
  let ?c = "collect obs"
  let ?scan = "scan_all (entries_by_id (sn_entries sn)) (conflicting_ids ?c) (cl_distinct ?c)"
  have clean: "sc_global ?scan = []" "rows_with CONFLICT rows = []" "rows_with UNRESOLVED rows = []" "rows \<noteq> []"
    using assms(2) by (auto simp: a(3) final_report_def Let_def overall_status_def add_if_def observation_scan_def row_statuses split: if_splits)
  have inv: "collect_inv obs ?c" by (rule collect_collect_inv)
  note b = scan_clean [OF clean(1)]
  have sub: "set (cl_distinct ?c) = set obs"
  proof
    show "set obs \<subseteq> set (cl_distinct ?c)"
    proof
      fix x assume x: "x \<in> set obs"
      then obtain y where y: "y \<in> set (cl_distinct ?c)" "payload y = payload x" using inv unfolding collect_inv_def by blast
      then have "y \<in> set obs" using inv unfolding collect_inv_def by blast
      then have "y = x" using payload_inj [OF _ _ y(2)] assms(3) x by (simp add: list_all_iff)
      then show "x \<in> set (cl_distinct ?c)" using y(1) by simp
    qed
  qed (use inv in \<open>simp add: collect_inv_def\<close>)
  have "\<exists>s. replay_events (re_intent e) t
      (map ro_event (filter (\<lambda>x. intent_of x = oi_intent_id (re_intent e)) (cl_distinct ?c))) (replay_start (re_intent e)) = Inr s \<and>
      rs_status s \<in> set TERMINAL_STATUSES" if e: "e \<in> set (sn_entries sn)" for e
  proof -
    obtain row where "row \<in> set rows" "rec_replay e (filter (\<lambda>x. intent_of x = oi_intent_id (re_intent e)) (cl_distinct ?c)) t
        (dget (sc_reasons ?scan) (oi_intent_id (re_intent e)) []) = Inr row"
      using replay_rows_mem [OF a(2) e] b(2) by (auto simp: observation_scan_def Let_def)
    moreover from this have "rw_status row \<noteq> CONFLICT" "rw_status row \<noteq> UNRESOLVED"
      using clean(2,3) by (auto simp: rows_with_def filter_empty_conv)
    ultimately show ?thesis by (meson rec_replay_resolved)
  qed
  moreover have "x = y" if "x \<in> set obs" "y \<in> set obs" "event_id x = event_id y" for x y
    using no_conflict [OF that] that(1,2) b(1) assms(3) payload_inj [of x y] by (auto simp: list_all_iff bound_def sub)
  moreover have "\<exists>e \<in> set (sn_entries sn). oi_intent_id (re_intent e) = intent_of x \<and> ro_receipt x = re_receipt e" if "x \<in> set obs" for x
    using bound_entry b(1) that by (auto simp: list_all_iff sub)
  moreover have "intent_of x = intent_of y" if xy: "x \<in> set obs" "y \<in> set obs"
      "oe_venue_order_id (ro_event x) \<noteq> None \<and> oe_venue_order_id (ro_event x) = oe_venue_order_id (ro_event y)" for x y
  proof -
    obtain v where "oe_venue_order_id (ro_event x) = Some v" using xy(3) by blast
    then show ?thesis using b(3) [of x y v] xy by (simp add: sub)
  qed
  moreover note a(1)
  moreover have "sn_entries sn \<noteq> []" using clean(4) a(2) by (auto simp: replay_rows_def)
  ultimately show ?thesis by blast
qed

theorem consistent_report_sound_witness:
  "\<exists>sn. accepted demo_sha demo_snapshot demo_observations demo_checkpoint (Fin 9) ''r1'' sn demo_observations \<and> sn_entries sn \<noteq> []"
  using consistent_report_sound [OF demo_reconcile demo_status demo_wf_observations] by blast

text \<open>Supplying an event twice is harmless: the report of the inputs with a copy of one observation
  appended has the same rows, status, reasons and conflicts, and counts one more duplicate.\<close>
theorem duplicate_changes_no_conclusion:
  assumes "hex_digest sha" "reconcile_execution_v1 sha sn0 obs0 c t run = Inr r" "x \<in> set obs0" "length obs0 < MAX_EVENTS"
  shows "\<exists>r'. reconcile_execution_v1 sha sn0 (obs0 @ [x]) c t run = Inr r' \<and>
     rp_duplicate_count r' = rp_duplicate_count r + 1 \<and> rp_rows r' = rp_rows r \<and> rp_status r' = rp_status r \<and>
     rp_reasons r' = rp_reasons r \<and> rp_distinct_count r' = rp_distinct_count r \<and>
     rp_orphans r' = rp_orphans r \<and> rp_conflicting r' = rp_conflicting r"
proof -
  obtain sn obs rows where a: "accepted sha sn0 obs0 c t run sn obs"
      "replay_rows t (observation_scan sn obs) (sn_entries sn) = Inr rows" "r = final_report sha sn obs c t run rows"
    by (rule reconcile_accepted [OF assms(2)])
  obtain y where y: "rec_observation_post_init x = Inr y" "y \<in> set obs"
    using a(1) list_all2_mem [OF mapE_Inr_all2 assms(3)] unfolding accepted_def by blast
  have "mapE rec_observation_post_init (obs0 @ [x]) = Inr (obs @ [y])"
    using a(1) y(1) by (simp add: accepted_def mapE_append)
  then have acc: "accepted sha sn0 (obs0 @ [x]) c t run sn (obs @ [y])" using a(1) assms(4) by (simp add: accepted_def)
  note dup = collect_duplicate [OF y(2)]
  have scan: "observation_scan sn (obs @ [y]) = observation_scan sn obs"
    by (simp add: observation_scan_def Let_def dup conflicting_ids_def)
  have "reconcile_execution_v1 sha sn0 (obs0 @ [x]) c t run = Inr (final_report sha sn (obs @ [y]) c t run rows)"
    by (rule reconcile_total [OF assms(1) acc]) (simp add: scan a(2))
  then show ?thesis
    by (simp add: a(3) final_report_def draft_report_def Let_def scan dup conflicting_ids_def)
qed

text \<open>C32. Verification of a report is exact: \<open>verify_execution_reconciliation_report_v1\<close> has no objection
  exactly when the report is, field by field, the one the reconciler computes from the same inputs; no
  change of a report survives it, whatever the hash function.\<close>
theorem verification_exact:
  assumes "wf_float t" "isfinite (rp_as_of r)" "wf_float (rp_as_of r)"
  shows "verify_execution_reconciliation_report_v1 sha r sn obs c t = Inr [] \<longleftrightarrow>
    reconcile_execution_v1 sha sn obs c t (rp_run_id r) = Inr r"
  using verify_iff [OF assms] .

theorem verification_exact_witness:
  "verify_execution_reconciliation_report_v1 demo_sha
     (final_report demo_sha demo_snapshot demo_observations demo_checkpoint (Fin 9) ''r1'' [demo_row])
     demo_snapshot demo_observations demo_checkpoint (Fin 9) = Inr []"
proof -
  have "wf_float (Fin 9)" by (rule wf_numeral) simp
  then show ?thesis using verification_exact [of "Fin 9" "final_report demo_sha demo_snapshot demo_observations demo_checkpoint (Fin 9) ''r1'' [demo_row]"]
      demo_reconcile by (simp add: final_report_def Let_def)
qed

text \<open>C31. A snapshot cannot lie about the ledger: when it validates against a checkpoint taken from an open
  ledger of the intents \<open>is\<close>, its intents are exactly \<open>is\<close> in order, provided the hash function does not
  collide on the texts of the two chains.\<close>
theorem snapshot_is_ledger_history:
  assumes "ledger_ok sha lid is s" "ledger_checkpoint_of s = (Inr c, s')"
    "snapshot_post_init sha sn0 = Inr sn" "validate_snapshot sha sn c = Inr ()"
    "list_all (\<lambda>e. floats_typed (re_intent e)) (sn_entries sn)"
    "inj_on sha (set (hashed_texts sha lid is @ hashed_texts sha lid (map re_intent (sn_entries sn))))"
  shows "map re_intent (sn_entries sn) = is"
  by (rule snapshot_history [OF assms])

theorem snapshot_is_ledger_history_witness:
  "map re_intent (sn_entries demo_snapshot) = [demo_order]"
proof -
  have "length (header_text ''L'') < 200" by code_simp
  moreover have "200 \<le> length (record_text demo_sha ''L'' (1, [], [], replicate 64 (CHR ''0'')) demo_order)" by code_simp
  ultimately have "inj_on demo_sha (set (hashed_texts demo_sha ''L'' [demo_order] @ hashed_texts demo_sha ''L'' (map re_intent (sn_entries demo_snapshot))))"
    by (auto simp: hashed_texts_def start_state_def demo_header_digest inj_on_def demo_sha_def demo_snapshot_def demo_entry_def)
  then show ?thesis
    using snapshot_is_ledger_history [OF demo_disk_ok demo_checkpoint_of demo_snapshot_ok demo_validated] demo_typed(1)
    by (simp add: demo_snapshot_def demo_entry_def)
qed




end
