(* ===== verification/EventJournal.thy ===== *)
theory EventJournal
  imports Reconciliation
begin

text \<open>
  \<open>src/std0_quant/execution/durable_execution_event_journal_v1.py\<close>: the append-only journal of captured
  execution events.  It is a second durable log beside the intent ledger, with its own hash chain and with
  a read-back of every write; the handle is the record \<open>journal\<close>, over the same model of the operating
  system.  Exports carry an exact prefix of the journal to the reconciler.
\<close>

section \<open>Constants and validation\<close>

definition J_HEADER_SCHEMA :: string where "J_HEADER_SCHEMA = ''execution_event_journal_header_v1''"
definition J_RECORD_SCHEMA :: string where "J_RECORD_SCHEMA = ''execution_event_journal_record_v1''"
definition J_RECEIPT_SCHEMA :: string where "J_RECEIPT_SCHEMA = ''durable_execution_event_receipt_v1''"
definition J_EXPORT_SCHEMA :: string where "J_EXPORT_SCHEMA = ''execution_event_journal_export_v1''"
definition J_OFFLINE :: string where "J_OFFLINE = ''OFFLINE''"
definition EXPORT_SCOPE :: string where "EXPORT_SCOPE = ''EXACT_JOURNAL_PREFIX''"
definition J_MAX_LINE_BYTES :: nat where "J_MAX_LINE_BYTES = 1024 * 1024"
definition MAX_RECORDS :: nat where "MAX_RECORDS = 500000"
definition MAX_FILE_BYTES :: nat where "MAX_FILE_BYTES = 512 * 1024 * 1024"
definition J_HASH_DOMAIN :: string where "J_HASH_DOMAIN = ''std0-quant/durable-execution-event-journal/v1/''"

definition j_text :: "string \<Rightarrow> string \<Rightarrow> string res" where
  "j_text value name =
     raise_if (value = [] \<or> value \<noteq> py_strip value \<or> 256 < length value)
       (ValueError (name @ '' must be nonempty, unpadded, <= 256 UTF-8 bytes'')) (Inr value)"

definition j_hash_text :: "string \<Rightarrow> string res" where
  "j_hash_text value = bindE (j_text value ''hash'') (\<lambda>v.
     raise_if (length v \<noteq> 64 \<or> \<not> list_all is_lower_hex v) (ValueError ''hash must be lowercase SHA256'') (Inr v))"

definition j_sequence :: "int \<Rightarrow> bool \<Rightarrow> int res" where
  "j_sequence value positive_only =
     raise_if (value < (if positive_only then 1 else 0))
       (ValueError ''sequence must be a nonnegative/positive integer, not bool'') (Inr value)"

definition j_digest :: "hasher \<Rightarrow> string \<Rightarrow> json \<Rightarrow> string" where
  "j_digest sha kind payload = sha (J_HASH_DOMAIN @ kind @ NL @ canonical payload)"

definition j_observation :: "rec_observation \<Rightarrow> rec_observation res" where
  "j_observation value = bindE (rec_observation_post_init value) (\<lambda>result.
     raise_if (canonical (observation_json result) \<noteq> canonical (observation_json value))
       (ValueError ''observation is not normalized'') (Inr result))"

text \<open>\<open>DurableIntentReceiptV1(**row)\<close>.\<close>

definition receipt_field_names :: "string list" where
  "receipt_field_names = [''ledger_id'', ''sequence'', ''intent_id'', ''intent_hash'', ''record_hash'', ''schema_version'']"

definition intent_receipt_from_dict :: "(string \<times> json) list \<Rightarrow> intent_receipt res" where
  "intent_receipt_from_dict d =
     raise_if (\<not> known_keys d receipt_field_names) (TypeError ''unexpected keyword argument'') (
     bindE (get_str d ''ledger_id'') (\<lambda>lid.
     bindE (get_int d ''sequence'') (\<lambda>seq.
     bindE (get_str d ''intent_id'') (\<lambda>iid.
     bindE (get_str d ''intent_hash'') (\<lambda>ih.
     bindE (get_str d ''record_hash'') (\<lambda>rh.
     bindE (get_str_default d ''schema_version'' RECEIPT_SCHEMA) (\<lambda>ver.
     intent_receipt_post_init \<lparr>rc_ledger_id = lid, rc_sequence = seq, rc_intent_id = iid,
       rc_intent_hash = ih, rc_record_hash = rh, rc_schema_version = ver\<rparr>)))))))"

definition observation_from_dict :: "json option \<Rightarrow> rec_observation res" where
  "observation_from_dict row =
     (case row of
        Some (JObj d) \<Rightarrow>
          raise_if (set (map fst d) \<noteq> {''receipt'', ''event'', ''mode'', ''schema_version''}) (ValueError ''observation fields mismatch'') (
          bindE (get_obj d ''receipt'') (\<lambda>rd.
          bindE (intent_receipt_from_dict rd) (\<lambda>r.
          bindE (get_obj d ''event'') (\<lambda>ed.
          bindE (event_from_dict ed) (\<lambda>e.
          bindE (get_str d ''mode'') (\<lambda>mode.
          bindE (get_str d ''schema_version'') (\<lambda>ver.
          bindE (rec_observation_post_init \<lparr>ro_receipt = r, ro_event = e, ro_mode = mode, ro_schema_version = ver\<rparr>) (\<lambda>result.
          raise_if (canonical (observation_json result) \<noteq> canonical (JObj d))
            (ValueError ''persisted observation is not normalized or has missing fields'') (Inr result)))))))))
      | _ \<Rightarrow> Inl (ValueError ''observation fields mismatch''))"

section \<open>Checkpoints, receipts, entries, exports\<close>

record j_checkpoint =
  jc_journal_id :: string
  jc_ledger_id :: string
  jc_sequence :: int
  jc_record_hash :: string

definition j_checkpoint_post_init :: "j_checkpoint \<Rightarrow> j_checkpoint res" where
  "j_checkpoint_post_init c =
     bindE (j_text (jc_journal_id c) ''journal_id'') (\<lambda>_.
     bindE (j_text (jc_ledger_id c) ''ledger_id'') (\<lambda>_.
     bindE (j_sequence (jc_sequence c) False) (\<lambda>_.
     bindE (j_hash_text (jc_record_hash c)) (\<lambda>_. Inr c))))"

record event_receipt =
  er_journal_id :: string
  er_ledger_id :: string
  er_sequence :: int
  er_capture_id :: string
  er_observation_hash :: string
  er_record_hash :: string
  er_schema_version :: string

definition event_receipt_post_init :: "event_receipt \<Rightarrow> event_receipt res" where
  "event_receipt_post_init r =
     bindE (j_text (er_journal_id r) ''journal_id'') (\<lambda>_.
     bindE (j_text (er_ledger_id r) ''ledger_id'') (\<lambda>_.
     bindE (j_text (er_capture_id r) ''capture_id'') (\<lambda>_.
     bindE (j_sequence (er_sequence r) True) (\<lambda>_.
     bindE (j_hash_text (er_observation_hash r)) (\<lambda>_.
     bindE (j_hash_text (er_record_hash r)) (\<lambda>_.
     raise_if (er_schema_version r \<noteq> J_RECEIPT_SCHEMA) (ValueError ''unsupported event receipt schema'') (Inr r)))))))"

record j_entry =
  je_receipt :: event_receipt
  je_observation :: rec_observation

definition j_entry_post_init :: "j_entry \<Rightarrow> j_entry res" where
  "j_entry_post_init e =
     bindE (event_receipt_post_init (je_receipt e)) (\<lambda>r.
     bindE (j_observation (je_observation e)) (\<lambda>x. Inr \<lparr>je_receipt = r, je_observation = x\<rparr>))"

record j_export =
  jx_checkpoint :: j_checkpoint
  jx_entries :: "j_entry list"
  jx_artifact_hash :: string
  jx_mode :: string
  jx_scope :: string
  jx_schema_version :: string

definition j_export_post_init :: "j_export \<Rightarrow> j_export res" where
  "j_export_post_init x =
     bindE (j_checkpoint_post_init (jx_checkpoint x)) (\<lambda>c.
     raise_if (MAX_RECORDS < length (jx_entries x)) (ValueError ''export entries must be a tuple within MAX_RECORDS'') (
     bindE (mapE j_entry_post_init (jx_entries x)) (\<lambda>es.
     bindE (j_hash_text (jx_artifact_hash x)) (\<lambda>_.
     raise_if (jx_mode x \<noteq> J_OFFLINE \<or> jx_scope x \<noteq> EXPORT_SCOPE \<or> jx_schema_version x \<noteq> J_EXPORT_SCHEMA)
       (ValueError ''unsupported event export scope/schema'') (
     Inr (x\<lparr>jx_checkpoint := c, jx_entries := es\<rparr>))))))"

definition j_checkpoint_json :: "j_checkpoint \<Rightarrow> json" where
  "j_checkpoint_json c = JObj [(''journal_id'', JStr (jc_journal_id c)), (''ledger_id'', JStr (jc_ledger_id c)),
     (''sequence'', JInt (jc_sequence c)), (''record_hash'', JStr (jc_record_hash c))]"

definition event_receipt_json :: "event_receipt \<Rightarrow> json" where
  "event_receipt_json r = JObj [(''journal_id'', JStr (er_journal_id r)), (''ledger_id'', JStr (er_ledger_id r)),
     (''sequence'', JInt (er_sequence r)), (''capture_id'', JStr (er_capture_id r)),
     (''observation_hash'', JStr (er_observation_hash r)), (''record_hash'', JStr (er_record_hash r)),
     (''schema_version'', JStr (er_schema_version r))]"

definition j_entry_json :: "j_entry \<Rightarrow> json" where
  "j_entry_json e = JObj [(''receipt'', event_receipt_json (je_receipt e)), (''observation'', observation_json (je_observation e))]"

definition j_export_fields :: "j_export \<Rightarrow> (string \<times> json) list" where
  "j_export_fields x = [(''checkpoint'', j_checkpoint_json (jx_checkpoint x)), (''entries'', JList (map j_entry_json (jx_entries x))),
     (''artifact_hash'', JStr (jx_artifact_hash x)), (''mode'', JStr (jx_mode x)), (''scope'', JStr (jx_scope x)),
     (''schema_version'', JStr (jx_schema_version x))]"

definition j_export_json :: "j_export \<Rightarrow> json" where
  "j_export_json x = JObj (j_export_fields x)"

definition j_export_to_json :: "j_export \<Rightarrow> string" where
  "j_export_to_json x = canonical (j_export_json x)"

definition j_export_hash :: "hasher \<Rightarrow> j_export \<Rightarrow> string" where
  "j_export_hash sha x = j_digest sha ''export'' (JObj (dpop ''artifact_hash'' (j_export_fields x)))"

section \<open>Rows\<close>

definition j_header_payload :: "string \<Rightarrow> string \<Rightarrow> (string \<times> json) list" where
  "j_header_payload jid lid = [(''schema_version'', JStr J_HEADER_SCHEMA), (''mode'', JStr J_OFFLINE),
     (''journal_id'', JStr jid), (''ledger_id'', JStr lid)]"

definition j_header_hash :: "hasher \<Rightarrow> string \<Rightarrow> string \<Rightarrow> string" where
  "j_header_hash sha jid lid = j_digest sha ''header'' (JObj (j_header_payload jid lid))"

definition j_header :: "hasher \<Rightarrow> string \<Rightarrow> string \<Rightarrow> json" where
  "j_header sha jid lid = JObj (j_header_payload jid lid @ [(''record_hash'', JStr (j_header_hash sha jid lid))])"

definition j_record_payload :: "hasher \<Rightarrow> string \<Rightarrow> string \<Rightarrow> int \<Rightarrow> string \<Rightarrow> string \<Rightarrow> json \<Rightarrow> (string \<times> json) list" where
  "j_record_payload sha jid lid seq previous capture_id observation =
     [(''schema_version'', JStr J_RECORD_SCHEMA), (''journal_id'', JStr jid), (''ledger_id'', JStr lid), (''sequence'', JInt seq),
      (''previous_hash'', JStr previous), (''capture_id'', JStr capture_id), (''observation'', observation),
      (''observation_hash'', JStr (j_digest sha ''observation'' observation))]"

definition j_record_hash :: "hasher \<Rightarrow> string \<Rightarrow> string \<Rightarrow> int \<Rightarrow> string \<Rightarrow> string \<Rightarrow> json \<Rightarrow> string" where
  "j_record_hash sha jid lid seq previous capture_id observation =
     j_digest sha ''record'' (JObj (j_record_payload sha jid lid seq previous capture_id observation))"

definition j_record :: "hasher \<Rightarrow> string \<Rightarrow> string \<Rightarrow> int \<Rightarrow> string \<Rightarrow> string \<Rightarrow> json \<Rightarrow> json" where
  "j_record sha jid lid seq previous capture_id observation =
     JObj (j_record_payload sha jid lid seq previous capture_id observation
       @ [(''record_hash'', JStr (j_record_hash sha jid lid seq previous capture_id observation))])"

text \<open>\<open>_receipt(row)\<close> and \<open>_entry(raw)\<close>.\<close>

definition j_receipt :: "(string \<times> json) list \<Rightarrow> event_receipt res" where
  "j_receipt d =
     bindE (get_str d ''journal_id'') (\<lambda>jid.
     bindE (get_str d ''ledger_id'') (\<lambda>lid.
     bindE (get_int d ''sequence'') (\<lambda>seq.
     bindE (get_str d ''capture_id'') (\<lambda>cid.
     bindE (get_str d ''observation_hash'') (\<lambda>oh.
     bindE (get_str d ''record_hash'') (\<lambda>rh.
     event_receipt_post_init \<lparr>er_journal_id = jid, er_ledger_id = lid, er_sequence = seq, er_capture_id = cid,
       er_observation_hash = oh, er_record_hash = rh, er_schema_version = J_RECEIPT_SCHEMA\<rparr>))))))"

definition row_fields :: "string \<Rightarrow> (string \<times> json) list res" where
  "row_fields raw = (case loads (butlast raw) of Some (JObj d) \<Rightarrow> Inr d | _ \<Rightarrow> Inl (ValueError ''invalid JSON''))"

definition j_entry_of :: "string \<Rightarrow> j_entry res" where
  "j_entry_of raw =
     bindE (row_fields raw) (\<lambda>d.
     bindE (j_receipt d) (\<lambda>r.
     bindE (observation_from_dict (map_of d ''observation'')) (\<lambda>x.
     j_entry_post_init \<lparr>je_receipt = r, je_observation = x\<rparr>)))"

section \<open>Verification of an export\<close>

fun verify_entries :: "hasher \<Rightarrow> string \<Rightarrow> string \<Rightarrow> int \<Rightarrow> string \<Rightarrow> nat \<Rightarrow> string list \<Rightarrow> j_entry list \<Rightarrow> string res" where
  "verify_entries sha jid lid sequence previous bytes captures [] = Inr previous"
| "verify_entries sha jid lid sequence previous bytes captures (e # es) =
     (let receipt = je_receipt e; observation = je_observation e in
      raise_if (er_capture_id receipt \<in> set captures \<or> rc_ledger_id (ro_receipt observation) \<noteq> lid)
        (ValueError ''capture duplication or different intent ledger'') (
      let row = j_record sha jid lid sequence previous (er_capture_id receipt) (observation_json observation);
          len = length (canonical row) + 1 in
      bindE (j_receipt (obj_fields row)) (\<lambda>expected.
      raise_if (receipt \<noteq> expected \<or> J_MAX_LINE_BYTES < len \<or> MAX_FILE_BYTES < bytes + len)
        (ValueError ''entry receipt/hash/sequence/size mismatch'') (
      verify_entries sha jid lid (sequence + 1) (er_record_hash expected) (bytes + len) (er_capture_id receipt # captures) es))))"

text \<open>The \<open>try\<close> block, and the exceptions its \<open>except\<close> clause names.\<close>

definition verify_prefix :: "hasher \<Rightarrow> j_export \<Rightarrow> j_checkpoint \<Rightarrow> unit res" where
  "verify_prefix sha export anchor =
     bindE (j_export_post_init export) (\<lambda>clean.
     raise_if (jx_checkpoint clean \<noteq> anchor \<or> int (length (jx_entries clean)) \<noteq> jc_sequence anchor)
       (ValueError ''exact checkpoint prefix mismatch'') (
     bindE (verify_entries sha (jc_journal_id anchor) (jc_ledger_id anchor) 1 (j_header_hash sha (jc_journal_id anchor) (jc_ledger_id anchor))
              (length (canonical (j_header sha (jc_journal_id anchor) (jc_ledger_id anchor))) + 1) [] (jx_entries clean)) (\<lambda>previous.
     raise_if (previous \<noteq> jc_record_hash anchor \<or> canonical (j_export_json clean) \<noteq> canonical (j_export_json export))
       (ValueError ''history does not reach the trusted checkpoint'') (Inr ()))))"

fun validation_error :: "pyerr \<Rightarrow> bool" where
  "validation_error (ValueError _) = True"
| "validation_error (ReconciliationInputError _) = True"
| "validation_error (TypeError _) = True"
| "validation_error KeyError = True"
| "validation_error OverflowError = True"
| "validation_error _ = False"

definition verify_execution_event_journal_export_v1 :: "hasher \<Rightarrow> j_export \<Rightarrow> j_checkpoint \<Rightarrow> string list res" where
  "verify_execution_event_journal_export_v1 sha export checkpoint =
     bindE (j_checkpoint_post_init checkpoint) (\<lambda>anchor.
     let reasons = (if j_export_hash sha export \<noteq> jx_artifact_hash export then [''EVENT_JOURNAL_EXPORT_V1_HASH_MISMATCH''] else []) in
     case verify_prefix sha export anchor of
       Inr _ \<Rightarrow> Inr reasons
     | Inl e \<Rightarrow> if validation_error e then Inr (reasons @ [''EVENT_JOURNAL_EXPORT_V1_PREFIX_MISMATCH'']) else Inl e)"

definition execution_events_from_journal_export_v1 :: "hasher \<Rightarrow> j_export \<Rightarrow> j_checkpoint \<Rightarrow> rec_observation list res" where
  "execution_events_from_journal_export_v1 sha export checkpoint =
     bindE (j_export_post_init export) (\<lambda>selected.
     bindE (verify_execution_event_journal_export_v1 sha selected checkpoint) (\<lambda>reasons.
     raise_if (reasons \<noteq> []) (EventJournalCorruptionError (join ''; '' reasons)) (
     mapE (\<lambda>entry. j_observation (je_observation entry)) (jx_entries selected))))"

section \<open>Recovery\<close>

definition j_decode_line :: "string \<Rightarrow> (string \<times> json) list res" where
  "j_decode_line raw =
     raise_if (J_MAX_LINE_BYTES < length raw \<or> raw = [] \<or> last raw \<noteq> CHR 0x0A)
       (ValueError ''oversized or incomplete event journal line'') (
     case loads (butlast raw) of
       Some (JObj d) \<Rightarrow> raise_if (canonical (JObj d) @ NL \<noteq> raw) (ValueError ''noncanonical event journal line'') (Inr d)
     | _ \<Rightarrow> Inl (ValueError ''noncanonical event journal line''))"

text \<open>What recovery keeps: lines and bytes read, the raw records, the capture index, the tip.\<close>

record j_recovery =
  jv_lines :: nat
  jv_total :: nat
  jv_records :: "string list"
  jv_by_capture :: "(string \<times> nat) list"
  jv_tip :: string

definition j_recover_record ::
  "hasher \<Rightarrow> string \<Rightarrow> string \<Rightarrow> string \<Rightarrow> (string \<times> json) list \<Rightarrow> j_recovery \<Rightarrow> j_recovery res" where
  "j_recover_record sha jid lid raw d v =
     raise_if (MAX_RECORDS \<le> length (jv_records v)) (ValueError ''journal exceeds MAX_RECORDS'') (
     bindE (get_str d ''capture_id'') (\<lambda>c.
     bindE (j_text c ''capture_id'') (\<lambda>capture_id.
     raise_if (map_of (jv_by_capture v) capture_id \<noteq> None) (ValueError ''duplicate persisted capture_id'') (
     bindE (observation_from_dict (map_of d ''observation'')) (\<lambda>observation.
     raise_if (rc_ledger_id (ro_receipt observation) \<noteq> lid) (ValueError ''observation from another intent ledger'') (
     bindE (get_int d ''sequence'') (\<lambda>q.
     bindE (j_sequence q True) (\<lambda>_.
     let expected = j_record sha jid lid (int (length (jv_records v)) + 1) (jv_tip v) capture_id (observation_json observation) in
     raise_if (canonical (JObj d) \<noteq> canonical expected) (ValueError ''record/schema/sequence/hash chain mismatch'') (
     bindE (get_str d ''record_hash'') (\<lambda>tip.
     Inr (v\<lparr>jv_by_capture := dput capture_id (length (jv_records v)) (jv_by_capture v),
            jv_records := jv_records v @ [raw], jv_tip := tip\<rparr>)))))))))))"

definition j_recover_line :: "hasher \<Rightarrow> string \<Rightarrow> string \<Rightarrow> string \<Rightarrow> j_recovery \<Rightarrow> j_recovery res" where
  "j_recover_line sha jid lid raw v0 =
     (let v = v0\<lparr>jv_total := jv_total v0 + length raw, jv_lines := jv_lines v0 + 1\<rparr> in
      raise_if (MAX_FILE_BYTES < jv_total v) (ValueError ''journal exceeds MAX_FILE_BYTES'') (
      bindE (j_decode_line raw) (\<lambda>d.
      if jv_lines v = 1 then
        raise_if (\<not> same_fields d (j_header sha jid lid)) (ValueError ''header/schema/identity/hash mismatch'') (Inr v)
      else j_recover_record sha jid lid raw d v)))"

definition j_corruption :: "string \<Rightarrow> pyerr \<Rightarrow> pyerr" where
  "j_corruption m e = (if validation_error e then EventJournalCorruptionError m else e)"

function j_recover_lines :: "hasher \<Rightarrow> string \<Rightarrow> string \<Rightarrow> string \<Rightarrow> j_recovery \<Rightarrow> j_recovery res" where
  "j_recover_lines sha jid lid s v =
     (if s = [] then Inr v else
      let raw = readline (J_MAX_LINE_BYTES + 1) s in
      (case map_error (j_corruption (''invalid event journal line '' @ nat_str (jv_lines v + 1))) (j_recover_line sha jid lid raw v) of
         Inl e \<Rightarrow> Inl e
       | Inr v' \<Rightarrow> j_recover_lines sha jid lid (drop (length raw) s) v'))"
  by pat_completeness auto
termination
proof (relation "measure (\<lambda>(sha, jid, lid, s, v). length s)")
  fix sha jid lid s v x y
  assume "s \<noteq> ([] :: string)" "x = readline (J_MAX_LINE_BYTES + 1) s"
  then show "((sha, jid, lid, drop (length x) s, y), (sha, jid, lid, s, v)) \<in> measure (\<lambda>(sha, jid, lid, s, v). length s)"
    using readline_shorter [of "J_MAX_LINE_BYTES + 1" s] by simp
qed simp

declare j_recover_lines.simps [simp del]

definition j_recovery_start :: "hasher \<Rightarrow> string \<Rightarrow> string \<Rightarrow> j_recovery" where
  "j_recovery_start sha jid lid =
     \<lparr>jv_lines = 0, jv_total = 0, jv_records = [], jv_by_capture = [], jv_tip = j_header_hash sha jid lid\<rparr>"

definition j_recover :: "hasher \<Rightarrow> string \<Rightarrow> string \<Rightarrow> string \<Rightarrow> j_recovery res" where
  "j_recover sha jid lid content =
     bindE (j_recover_lines sha jid lid content (j_recovery_start sha jid lid)) (\<lambda>v.
     raise_if (jv_lines v = 0) (EventJournalCorruptionError ''empty journal; header is required'') (Inr v))"

definition j_check_checkpoint ::
  "hasher \<Rightarrow> string \<Rightarrow> string \<Rightarrow> string list \<Rightarrow> j_checkpoint \<Rightarrow> unit res" where
  "j_check_checkpoint sha jid lid records c =
     raise_if ((jc_journal_id c, jc_ledger_id c) \<noteq> (jid, lid) \<or> int (length records) < jc_sequence c)
       (EventJournalCorruptionError ''checkpoint outside this journal history'') (
     bindE (if jc_sequence c = 0 then Inr (j_header_hash sha jid lid)
            else bindE (row_fields (records ! nat (jc_sequence c - 1))) (\<lambda>d. get_str d ''record_hash'')) (\<lambda>actual.
     raise_if (actual \<noteq> jc_record_hash c) (EventJournalCorruptionError ''trusted journal checkpoint hash mismatch'') (Inr ())))"

section \<open>Opening\<close>

record journal =
  j_fd :: bool
  j_dir_fd :: bool
  j_pid :: int
  j_poisoned :: bool
  j_journal_id :: string
  j_ledger_id :: string
  j_records :: "string list"
  j_by_capture :: "(string \<times> nat) list"
  j_tip :: string
  j_stamp :: stamp

text \<open>The exceptions of \<open>except (OSError, EventJournalError)\<close>.\<close>

fun os_or_journal_error :: "pyerr \<Rightarrow> bool" where
  "os_or_journal_error OSError = True"
| "os_or_journal_error InterruptedError = True"
| "os_or_journal_error TimeoutError = True"
| "os_or_journal_error (EventJournalUnavailableError m) = True"
| "os_or_journal_error EventJournalBusyError = True"
| "os_or_journal_error (EventJournalCorruptionError m) = True"
| "os_or_journal_error CaptureConflictError = True"
| "os_or_journal_error _ = False"

definition j_identity :: "world \<Rightarrow> st res \<times> world" where
  "j_identity w = thenS (os_stat w) (\<lambda>(info, named, parent, pinned) w'.
     failS (\<not> st_isreg info \<or> st_nlink info \<noteq> 1 \<or> \<not> st_isreg named
            \<or> (st_dev info, st_ino info) \<noteq> (st_dev named, st_ino named)
            \<or> (st_dev parent, st_ino parent) \<noteq> (st_dev pinned, st_ino pinned))
       (EventJournalUnavailableError ''journal path/inode/link identity changed'') w' (Inr info, w'))"

definition j_fresh :: "string \<Rightarrow> string \<Rightarrow> world \<Rightarrow> j_recovery \<Rightarrow> stamp \<Rightarrow> journal" where
  "j_fresh jid lid w v before =
     \<lparr>j_fd = True, j_dir_fd = True, j_pid = w_pid w, j_poisoned = False, j_journal_id = jid, j_ledger_id = lid,
      j_records = jv_records v, j_by_capture = jv_by_capture v, j_tip = jv_tip v, j_stamp = before\<rparr>"

text \<open>Creation writes the header and reads it back; opening recovers the whole file.  Both end with the
  stamp of the file as it was validated.\<close>

definition j_create_header :: "hasher \<Rightarrow> string \<Rightarrow> string \<Rightarrow> world \<Rightarrow> (j_recovery \<times> stamp) res \<times> world" where
  "j_create_header sha jid lid w =
     (let raw = canonical (j_header sha jid lid) @ NL in
      thenS (write_all raw w) (\<lambda>_ w1.
      thenS (j_identity w1) (\<lambda>info w2.
      failS (st_size info \<noteq> int (length raw)) (EventJournalCorruptionError ''header write verification failed'') w2 (
      thenS (read_exact (length raw) 0 w2) (\<lambda>back w3.
      failS (back \<noteq> raw) (EventJournalCorruptionError ''header write verification failed'') w3
        (Inr (j_recovery_start sha jid lid, stamp_of info), w3))))))"

definition j_load :: "hasher \<Rightarrow> string \<Rightarrow> string \<Rightarrow> j_checkpoint option \<Rightarrow> st \<Rightarrow> world \<Rightarrow> (j_recovery \<times> stamp) res \<times> world" where
  "j_load sha jid lid anchor info w =
     thenS (os_read w) (\<lambda>content w1.
     checkS (j_recover sha jid lid content) w1 (\<lambda>v.
     checkS (case anchor of None \<Rightarrow> Inr () | Some c \<Rightarrow> j_check_checkpoint sha jid lid (jv_records v) c) w1 (\<lambda>_.
     (Inr (v, stamp_of info), w1))))"

definition j_open_body ::
  "hasher \<Rightarrow> string \<Rightarrow> string \<Rightarrow> bool \<Rightarrow> j_checkpoint option \<Rightarrow> world \<Rightarrow> (j_recovery \<times> stamp) res \<times> world" where
  "j_open_body sha jid lid create anchor w0 =
     thenS (os_open_dir w0) (\<lambda>_ w1.
     thenS (os_open_file create w1) (\<lambda>_ w2.
     thenS (j_identity w2) (\<lambda>_ w3.
     failS (w_locked w3) EventJournalBusyError w3 (
     thenS (j_identity w3) (\<lambda>info w4.
     failS (int MAX_FILE_BYTES < st_size info) (EventJournalCorruptionError ''journal exceeds MAX_FILE_BYTES'') w4 (
     thenS (if create then j_create_header sha jid lid w4 else j_load sha jid lid anchor info w4) (\<lambda>(v, before) w5.
     thenS (j_identity w5) (\<lambda>info1 w6.
     failS (stamp_of info1 \<noteq> before) (EventJournalCorruptionError ''journal changed during initialization validation'') w6 (
     thenS (os_fsync w6) (\<lambda>_ w7.
     thenS (os_fsync w7) (\<lambda>_ w8.
     thenS (j_identity w8) (\<lambda>info2 w9.
     failS (stamp_of info2 \<noteq> before) (EventJournalCorruptionError ''journal changed during initialization sync'') w9
       (Inr (v, before), w9)))))))))))))"

definition j_open ::
  "hasher \<Rightarrow> string \<Rightarrow> string \<Rightarrow> bool \<Rightarrow> j_checkpoint option \<Rightarrow> world \<Rightarrow> journal res \<times> world" where
  "j_open sha journal_id ledger_id create checkpoint w =
     failS (\<not> w_linux w) (EventJournalUnavailableError ''Linux local storage only'') w (
     checkS (j_text journal_id ''journal_id'') w (\<lambda>jid.
     checkS (j_text ledger_id ''ledger_id'') w (\<lambda>lid.
     checkS (case checkpoint of None \<Rightarrow> Inr None | Some c \<Rightarrow> bindE (j_checkpoint_post_init c) (\<lambda>a. Inr (Some a))) w (\<lambda>anchor.
     failS (case anchor of None \<Rightarrow> False | Some c \<Rightarrow> (jc_journal_id c, jc_ledger_id c) \<noteq> (jid, lid))
       (EventJournalCorruptionError ''checkpoint journal/ledger identity mismatch'') w (
     (case j_open_body sha jid lid create anchor w of
        (Inl e, w') \<Rightarrow> (Inl e, snd (os_close (snd (os_close w'))))
      | (Inr (v, before), w') \<Rightarrow> (Inr (j_fresh jid lid w v before), w')))))))"

definition j_create :: "hasher \<Rightarrow> string \<Rightarrow> string \<Rightarrow> world \<Rightarrow> journal res \<times> world" where
  "j_create sha journal_id ledger_id w = j_open sha journal_id ledger_id True None w"

definition j_open_existing :: "hasher \<Rightarrow> string \<Rightarrow> string \<Rightarrow> j_checkpoint option \<Rightarrow> world \<Rightarrow> journal res \<times> world" where
  "j_open_existing sha journal_id ledger_id checkpoint w = j_open sha journal_id ledger_id False checkpoint w"

section \<open>The methods of an open handle\<close>

type_synonym jstate = "journal \<times> world"

definition j_poison :: "jstate \<Rightarrow> jstate" where
  "j_poison s = ((fst s)\<lparr>j_poisoned := True\<rparr>, snd s)"

definition j_owner :: "jstate \<Rightarrow> unit res \<times> jstate" where
  "j_owner s = failS (w_pid (snd s) \<noteq> j_pid (fst s))
     (EventJournalUnavailableError ''fork-inherited handle; close and reopen'') s (Inr (), s)"

definition j_guard_fail :: "pyerr \<Rightarrow> jstate \<Rightarrow> 'a res \<times> jstate" where
  "j_guard_fail e s = (if os_or_journal_error e
     then (Inl (EventJournalUnavailableError ''journal identity/content changed; stop''), j_poison s) else (Inl e, s))"

definition j_guard :: "jstate \<Rightarrow> unit res \<times> jstate" where
  "j_guard s = (let (l, w) = s in
     failS (\<not> j_fd l \<or> j_poisoned l)
       (EventJournalUnavailableError ''closed or poisoned journal; preserve file and reopen explicitly'') s (
     (case j_identity w of
        (Inl e, w') \<Rightarrow> j_guard_fail e (l, w')
      | (Inr info, w') \<Rightarrow>
          if stamp_of info \<noteq> j_stamp l
          then j_guard_fail (EventJournalUnavailableError ''journal changed outside this handle'') (l, w')
          else (Inr (), (l, w')))))"

definition j_entered :: "jstate \<Rightarrow> unit res \<times> jstate" where
  "j_entered s = thenS (j_owner s) (\<lambda>_. j_guard)"

text \<open>The \<open>try\<close> block of \<open>append\<close>: write, read back, sync, and check the file in between.\<close>

definition j_persist :: "string \<Rightarrow> stamp \<Rightarrow> world \<Rightarrow> st res \<times> world" where
  "j_persist raw old w =
     thenS (write_all raw w) (\<lambda>_ w1.
     thenS (j_identity w1) (\<lambda>info w2.
     failS (st_size info \<noteq> stamp_size old + int (length raw)) (EventJournalUnavailableError ''append write verification failed'') w2 (
     thenS (read_exact (length raw) (nat (stamp_size old)) w2) (\<lambda>back w3.
     failS (back \<noteq> raw) (EventJournalUnavailableError ''append write verification failed'') w3 (
     thenS (j_identity w3) (\<lambda>info1 w4.
     failS (stamp_of info1 \<noteq> stamp_of info) (EventJournalUnavailableError ''append write verification failed'') w4 (
     thenS (os_fsync w4) (\<lambda>_ w5.
     thenS (j_identity w5) (\<lambda>info2 w6.
     failS (stamp_of info2 \<noteq> stamp_of info) (EventJournalUnavailableError ''journal changed during append sync'') w6
       (Inr info, w6))))))))))"

definition j_append_fail :: "pyerr \<Rightarrow> jstate \<Rightarrow> 'a res \<times> jstate" where
  "j_append_fail e s = (if os_or_journal_error e
     then (Inl (EventJournalUnavailableError ''append not acknowledged; preserve journal, close, reopen, inspect''), j_poison s)
     else (Inl e, j_poison s))"

definition j_append_new :: "hasher \<Rightarrow> string \<Rightarrow> json \<Rightarrow> jstate \<Rightarrow> event_receipt res \<times> jstate" where
  "j_append_new sha capture_id payload s0 =
     (let l0 = fst s0;
          row = j_record sha (j_journal_id l0) (j_ledger_id l0) (int (length (j_records l0)) + 1) (j_tip l0) capture_id payload;
          raw = canonical row @ NL in
      failS (J_MAX_LINE_BYTES < length raw \<or> MAX_RECORDS \<le> length (j_records l0))
        (ValueError ''journal MAX_LINE_BYTES/MAX_RECORDS exceeded'') s0 (
      failS (int MAX_FILE_BYTES < stamp_size (j_stamp l0) + int (length raw)) (ValueError ''journal MAX_FILE_BYTES exceeded'') s0 (
      checkS (j_receipt (obj_fields row)) s0 (\<lambda>receipt.
      thenS (j_guard s0) (\<lambda>_ s1.
      (case j_persist raw (j_stamp (fst s1)) (snd s1) of
         (Inl e, w) \<Rightarrow> j_append_fail e (fst s1, w)
       | (Inr validated, w) \<Rightarrow>
           (Inr receipt,
            ((fst s1)\<lparr>j_by_capture := dput capture_id (length (j_records (fst s1))) (j_by_capture (fst s1)),
               j_records := j_records (fst s1) @ [raw],
               j_tip := er_record_hash receipt, j_stamp := stamp_of validated\<rparr>, w))))))))"

definition j_append :: "hasher \<Rightarrow> string \<Rightarrow> rec_observation \<Rightarrow> jstate \<Rightarrow> event_receipt res \<times> jstate" where
  "j_append sha capture observation s =
     thenS (j_entered s) (\<lambda>_ s1.
     checkS (j_text capture ''capture_id'') s1 (\<lambda>capture_id.
     checkS (j_observation observation) s1 (\<lambda>value.
     failS (rc_ledger_id (ro_receipt value) \<noteq> j_ledger_id (fst s1)) (ValueError ''observation belongs to another intent ledger'') s1 (
     case map_of (j_by_capture (fst s1)) capture_id of
       Some index \<Rightarrow>
         checkS (row_fields (j_records (fst s1) ! index)) s1 (\<lambda>previous.
         failS (map_option canonical (map_of previous ''observation'') \<noteq> Some (canonical (observation_json value))) CaptureConflictError s1 (
         checkS (j_receipt previous) s1 (\<lambda>receipt. (Inr receipt, s1))))
     | None \<Rightarrow> j_append_new sha capture_id (observation_json value) s1))))"

definition j_checkpoint_of :: "jstate \<Rightarrow> j_checkpoint res \<times> jstate" where
  "j_checkpoint_of s = thenS (j_entered s) (\<lambda>_ s1.
     checkS (j_checkpoint_post_init \<lparr>jc_journal_id = j_journal_id (fst s1), jc_ledger_id = j_ledger_id (fst s1),
        jc_sequence = int (length (j_records (fst s1))), jc_record_hash = j_tip (fst s1)\<rparr>) s1 (\<lambda>c. (Inr c, s1)))"

definition j_get_capture :: "string \<Rightarrow> jstate \<Rightarrow> j_entry option res \<times> jstate" where
  "j_get_capture capture s =
     thenS (j_entered s) (\<lambda>_ s1.
     checkS (j_text capture ''capture_id'') s1 (\<lambda>capture_id.
     checkS (case map_of (j_by_capture (fst s1)) capture_id of
               None \<Rightarrow> Inr None
             | Some index \<Rightarrow> bindE (j_entry_of (j_records (fst s1) ! index)) (\<lambda>e. Inr (Some e))) s1 (\<lambda>result.
     thenS (j_guard s1) (\<lambda>_ s2. (Inr result, s2)))))"

definition j_build_export :: "hasher \<Rightarrow> j_checkpoint \<Rightarrow> string list \<Rightarrow> j_export res" where
  "j_build_export sha anchor records =
     bindE (mapE j_entry_of (take (nat (jc_sequence anchor)) records)) (\<lambda>entries.
     bindE (j_export_post_init \<lparr>jx_checkpoint = anchor, jx_entries = entries, jx_artifact_hash = replicate 64 (CHR ''0''),
        jx_mode = J_OFFLINE, jx_scope = EXPORT_SCOPE, jx_schema_version = J_EXPORT_SCHEMA\<rparr>) (\<lambda>x.
     j_export_post_init (x\<lparr>jx_artifact_hash := j_export_hash sha x\<rparr>)))"

definition j_export_of :: "hasher \<Rightarrow> j_checkpoint \<Rightarrow> jstate \<Rightarrow> j_export res \<times> jstate" where
  "j_export_of sha checkpoint s =
     thenS (j_entered s) (\<lambda>_ s1.
     checkS (j_checkpoint_post_init checkpoint) s1 (\<lambda>anchor.
     checkS (j_check_checkpoint sha (j_journal_id (fst s1)) (j_ledger_id (fst s1)) (j_records (fst s1)) anchor) s1 (\<lambda>_.
     checkS (j_build_export sha anchor (j_records (fst s1))) s1 (\<lambda>result.
     checkS (verify_execution_event_journal_export_v1 sha result anchor) s1 (\<lambda>reasons.
     if reasons \<noteq> [] then (Inl (EventJournalCorruptionError (join ''; '' reasons)), j_poison s1)
     else thenS (j_guard s1) (\<lambda>_ s2. (Inr result, s2)))))))"

definition j_release :: "jstate \<Rightarrow> bool \<times> jstate" where
  "j_release s = (let (l, w) = s;
       (ok1, w1) = (if j_fd l then os_close w else (True, w));
       (ok2, w2) = (if j_dir_fd l then os_close w1 else (True, w1)) in
     (ok1 \<and> ok2, (l\<lparr>j_fd := False, j_dir_fd := False\<rparr>, w2)))"

definition j_close :: "jstate \<Rightarrow> unit res \<times> jstate" where
  "j_close s = (case j_release s of (ok, s') \<Rightarrow>
     if ok then (Inr (), s') else (Inl (EventJournalUnavailableError ''descriptor close failed; handle unusable''), s'))"

end
