(* ===== verification/EventJournalLaws.thy ===== *)
theory EventJournalLaws
  imports EventJournal ReconcileRows IntentLedgerLaws
begin

text \<open>
  The event journal as a durable log.  A file of the journal is its header line followed by the lines of
  its captures; reading such a file back gives exactly those captures, whatever follows them is read from
  where they end, and every operation of an open handle keeps the handle, the file and what is durable in
  step.  The journal interprets \<open>durable_log\<close>, the contract it shares with the intent ledger.
\<close>

section \<open>Steps of the recovery\<close>

lemma j_recover_lines_Nil [simp]: "j_recover_lines sha jid lid [] v = Inr v"
  by (subst j_recover_lines.simps) simp

lemma j_recover_lines_step:
  "s \<noteq> [] \<Longrightarrow> j_recover_lines sha jid lid s v =
     (case map_error (j_corruption (''invalid event journal line '' @ nat_str (jv_lines v + 1)))
        (j_recover_line sha jid lid (readline (J_MAX_LINE_BYTES + 1) s) v) of
       Inl e \<Rightarrow> Inl e
     | Inr v' \<Rightarrow> j_recover_lines sha jid lid (drop (length (readline (J_MAX_LINE_BYTES + 1) s)) s) v')"
  by (subst j_recover_lines.simps) (simp only: Let_def if_False)

lemma j_recover_line_grows:
  "j_recover_line sha jid lid raw v = Inr v' \<Longrightarrow> jv_lines v' = jv_lines v + 1 \<and> prefix (jv_records v) (jv_records v')"
  by (auto simp: j_recover_line_def j_recover_record_def Let_def err_simps split: if_splits)

lemma j_recover_lines_grow:
  "j_recover_lines sha jid lid s v = Inr v' \<Longrightarrow> jv_lines v \<le> jv_lines v' \<and> prefix (jv_records v) (jv_records v')"
proof (induction sha jid lid s v rule: j_recover_lines.induct)
  case (1 sha jid lid s v)
  show ?case
  proof (cases "s = []")
    case False
    then obtain v1 where l: "j_recover_line sha jid lid (readline (J_MAX_LINE_BYTES + 1) s) v = Inr v1"
      "j_recover_lines sha jid lid (drop (length (readline (J_MAX_LINE_BYTES + 1) s)) s) v1 = Inr v'"
      using 1(2) by (auto simp: j_recover_lines_step map_error_def split: sum.splits)
    have "jv_lines v1 \<le> jv_lines v' \<and> prefix (jv_records v1) (jv_records v')"
      by (rule 1(1) [OF False HOL.refl _ l(2)]) (simp only: map_error_Inr l)
    then show ?thesis using j_recover_line_grows [OF l(1)] prefix_order.order_trans by fastforce
  qed (use 1 in simp)
qed

section \<open>The line of a capture\<close>

definition j_line :: "hasher \<Rightarrow> string \<Rightarrow> string \<Rightarrow> j_recovery \<Rightarrow> string \<Rightarrow> rec_observation \<Rightarrow> string" where
  "j_line sha jid lid v c x =
     canonical (j_record sha jid lid (int (length (jv_records v)) + 1) (jv_tip v) c (observation_json x)) @ NL"

definition j_add :: "hasher \<Rightarrow> string \<Rightarrow> string \<Rightarrow> j_recovery \<Rightarrow> string \<times> rec_observation \<Rightarrow> j_recovery" where
  "j_add sha jid lid v = (\<lambda>(c, x).
     \<lparr>jv_lines = jv_lines v + 1, jv_total = jv_total v + length (j_line sha jid lid v c x),
      jv_records = jv_records v @ [j_line sha jid lid v c x],
      jv_by_capture = dput c (length (jv_records v)) (jv_by_capture v),
      jv_tip = j_record_hash sha jid lid (int (length (jv_records v)) + 1) (jv_tip v) c (observation_json x)\<rparr>)"

text \<open>A validated observation, and a capture the journal can hold next.\<close>

definition valid_observation :: "rec_observation \<Rightarrow> bool" where
  "valid_observation x \<longleftrightarrow> wf_event (ro_event x) \<and> rec_observation_post_init x = Inr x"

definition j_fits :: "hasher \<Rightarrow> string \<Rightarrow> string \<Rightarrow> j_recovery \<Rightarrow> string \<times> rec_observation \<Rightarrow> bool" where
  "j_fits sha jid lid v = (\<lambda>(c, x). valid_observation x \<and> rc_ledger_id (ro_receipt x) = lid \<and>
     j_text c ''capture_id'' = Inr c \<and> map_of (jv_by_capture v) c = None \<and> length (jv_records v) < MAX_RECORDS \<and>
     length (j_line sha jid lid v c x) \<le> J_MAX_LINE_BYTES)"

lemma observation_wf_json: "wf_event (ro_event x) \<Longrightarrow> wf_json (observation_json x)"
  using wf_json_event [of "ro_event x"] by (simp add: observation_json_def receipt_json_def)

lemma j_record_wf: "wf_json ob \<Longrightarrow> wf_json (j_record sha jid lid q tip c ob)"
  by (simp add: j_record_def j_record_payload_def)

lemma sorted_receipt:
  "intent_receipt_from_dict (obj_fields (sort_json (receipt_json r))) = intent_receipt_post_init r"
  by (cases r) (simp add: intent_receipt_from_dict_def receipt_json_def obj_fields_def known_keys_def receipt_field_names_def getters)

lemma observation_read_back:
  assumes "valid_observation x"
  shows "observation_from_dict (Some (sort_json (observation_json x))) = Inr x"
proof -
  have e: "event_from_dict (obj_fields (sort_json (event_to_dict (ro_event x)))) = Inr (ro_event x)"
    unfolding event_from_sorted using assms by (simp add: valid_observation_def wf_event_def valid_event_post_init)
  have r: "intent_receipt_from_dict (obj_fields (sort_json (receipt_json (ro_receipt x)))) = Inr (ro_receipt x)"
    using assms by (auto simp: sorted_receipt valid_observation_def rec_observation_post_init_def rec_receipt_def err_simps dest: receipt_post_init_id)
  define d where "d = [(''receipt'', receipt_json (ro_receipt x)), (''event'', event_to_dict (ro_event x)),
     (''mode'', JStr (ro_mode x)), (''schema_version'', JStr (ro_schema_version x))]"
  have o: "observation_json x = JObj d" by (simp add: observation_json_def d_def)
  define p where "p = obj_fields (sort_json (JObj d))"
  have p: "sort_json (observation_json x) = JObj p" by (simp add: o p_def obj_fields_def)
  have m: "map_of p k = map_option sort_json (map_of d k)" for k
    unfolding p_def by (rule sort_json_fields) (simp add: d_def)
  have "set (map fst p) = {k. map_of p k \<noteq> None}" by (force simp: map_of_eq_None_iff)
  also have "\<dots> = {''receipt'', ''event'', ''mode'', ''schema_version''}" unfolding m by (auto simp: d_def split: if_splits)
  finally have keys: "set (map fst p) = {''receipt'', ''event'', ''mode'', ''schema_version''}" .
  have g: "get_obj p ''receipt'' = Inr (obj_fields (sort_json (receipt_json (ro_receipt x))))"
    "get_obj p ''event'' = Inr (obj_fields (sort_json (event_to_dict (ro_event x))))"
    "get_str p ''mode'' = Inr (ro_mode x)" "get_str p ''schema_version'' = Inr (ro_schema_version x)"
    by (simp_all add: getters m d_def obj_fields_def receipt_json_def event_to_dict_def)
  have c: "canonical (JObj p) = canonical (observation_json x)" using canonical_sort_json [of "observation_json x"] p by simp
  have x: "\<lparr>ro_receipt = ro_receipt x, ro_event = ro_event x, ro_mode = ro_mode x, ro_schema_version = ro_schema_version x\<rparr> = x" by simp
  have "rec_observation_post_init x = Inr x" using assms by (simp add: valid_observation_def)
  then show ?thesis
    unfolding p observation_from_dict_def option.case json.case keys g bindE_simps r e x by (simp add: c)
qed

lemma record_row:
  fixes sha jid lid q tip c ob
  defines "d \<equiv> obj_fields (sort_json (j_record sha jid lid q tip c ob))"
  shows "map_of d ''capture_id'' = Some (JStr c)" "map_of d ''observation'' = Some (sort_json ob)" "map_of d ''sequence'' = Some (JInt q)"
    "map_of d ''record_hash'' = Some (JStr (j_record_hash sha jid lid q tip c ob))" "map_of d ''journal_id'' = Some (JStr jid)"
    "map_of d ''ledger_id'' = Some (JStr lid)" "map_of d ''observation_hash'' = Some (JStr (j_digest sha ''observation'' ob))"
    "canonical (JObj d) = canonical (j_record sha jid lid q tip c ob)"
proof -
  let ?p = "j_record_payload sha jid lid q tip c ob @ [(''record_hash'', JStr (j_record_hash sha jid lid q tip c ob))]"
  have dp: "distinct (map fst ?p)" by (simp add: j_record_payload_def)
  have get: "map_of d k = map_option sort_json (map_of ?p k)" for k
    unfolding d_def j_record_def by (rule sort_json_fields [OF dp])
  show "map_of d ''capture_id'' = Some (JStr c)" "map_of d ''observation'' = Some (sort_json ob)" "map_of d ''sequence'' = Some (JInt q)"
    "map_of d ''record_hash'' = Some (JStr (j_record_hash sha jid lid q tip c ob))" "map_of d ''journal_id'' = Some (JStr jid)"
    "map_of d ''ledger_id'' = Some (JStr lid)" "map_of d ''observation_hash'' = Some (JStr (j_digest sha ''observation'' ob))"
    unfolding get by (simp_all add: j_record_payload_def)
  have "JObj d = sort_json (j_record sha jid lid q tip c ob)" by (simp add: d_def j_record_def obj_fields_def)
  then show "canonical (JObj d) = canonical (j_record sha jid lid q tip c ob)" by simp
qed

lemma j_decode_canonical:
  assumes "wf_json (JObj d)" "length (canonical (JObj d) @ NL) \<le> J_MAX_LINE_BYTES"
  shows "j_decode_line (canonical (JObj d) @ NL) = Inr (obj_fields (sort_json (JObj d)))"
proof -
  obtain d' where d': "sort_json (JObj d) = JObj d'" by simp
  have "loads (canonical (JObj d)) = Some (JObj d')" using loads_canonical [OF assms(1)] d' by simp
  moreover have "canonical (JObj d') = canonical (JObj d)" using canonical_sort_json [of "JObj d"] d' by simp
  ultimately show ?thesis using assms(2) d' by (simp add: j_decode_line_def NL_def obj_fields_def raise_if_def)
qed

lemma j_line_recovers:
  assumes "j_fits sha jid lid v (c, x)" "0 < jv_lines v"
  shows "j_recover_line sha jid lid (j_line sha jid lid v c x) v =
    raise_if (MAX_FILE_BYTES < jv_total v + length (j_line sha jid lid v c x)) (ValueError ''journal exceeds MAX_FILE_BYTES'')
      (Inr (j_add sha jid lid v (c, x)))"
proof -
  have f: "valid_observation x" "rc_ledger_id (ro_receipt x) = lid" "j_text c ''capture_id'' = Inr c" "map_of (jv_by_capture v) c = None"
    "length (jv_records v) < MAX_RECORDS" "length (j_line sha jid lid v c x) \<le> J_MAX_LINE_BYTES" using assms(1) by (simp_all add: j_fits_def)
  let ?q = "int (length (jv_records v)) + 1"
  let ?row = "j_record sha jid lid ?q (jv_tip v) c (observation_json x)"
  obtain r where r: "?row = JObj r" by (simp add: j_record_def)
  have wf: "wf_json (JObj r)"
    using j_record_wf [OF observation_wf_json] f(1) r by (metis valid_observation_def)
  have dec: "j_decode_line (j_line sha jid lid v c x) = Inr (obj_fields (sort_json ?row))"
    using j_decode_canonical [OF wf] f(6) by (simp add: j_line_def r)
  note row = record_row [of sha jid lid ?q "jv_tip v" c "observation_json x"]
  show ?thesis
    unfolding j_recover_line_def Let_def dec
    using assms(2) f(2-5)
    by (simp add: j_recover_record_def getters row observation_read_back [OF f(1)] j_sequence_def f(3) j_add_def Let_def raise_if_def)
qed

lemma j_readline_row:
  assumes "j_fits sha jid lid v (c, x)"
  shows "readline (J_MAX_LINE_BYTES + 1) (j_line sha jid lid v c x @ rest) = j_line sha jid lid v c x"
proof -
  let ?row = "j_record sha jid lid (int (length (jv_records v)) + 1) (jv_tip v) c (observation_json x)"
  have "wf_json ?row" using assms by (intro j_record_wf observation_wf_json) (simp add: j_fits_def valid_observation_def)
  then have "CHR 0x0A \<notin> set (canonical ?row)" by (rule canonical_no_newline)
  moreover have "length (canonical ?row) < J_MAX_LINE_BYTES + 1" using assms by (simp add: j_fits_def j_line_def)
  ultimately show ?thesis using readline_line by (simp add: j_line_def NL_def)
qed


section \<open>The file of a list of captures\<close>

definition j_header_line :: "hasher \<Rightarrow> string \<Rightarrow> string \<Rightarrow> string" where
  "j_header_line sha jid lid = canonical (j_header sha jid lid) @ NL"

definition j_start :: "hasher \<Rightarrow> string \<Rightarrow> string \<Rightarrow> j_recovery" where
  "j_start sha jid lid = (j_recovery_start sha jid lid)\<lparr>jv_lines := 1, jv_total := length (j_header_line sha jid lid)\<rparr>"

definition j_run :: "hasher \<Rightarrow> string \<Rightarrow> string \<Rightarrow> (string \<times> rec_observation) list \<Rightarrow> j_recovery" where
  "j_run sha jid lid hs = foldl (j_add sha jid lid) (j_start sha jid lid) hs"

fun j_body :: "hasher \<Rightarrow> string \<Rightarrow> string \<Rightarrow> j_recovery \<Rightarrow> (string \<times> rec_observation) list \<Rightarrow> string" where
  "j_body sha jid lid v [] = []"
| "j_body sha jid lid v (h # hs) = j_line sha jid lid v (fst h) (snd h) @ j_body sha jid lid (j_add sha jid lid v h) hs"

definition j_file :: "hasher \<Rightarrow> string \<Rightarrow> string \<Rightarrow> (string \<times> rec_observation) list \<Rightarrow> string" where
  "j_file sha jid lid hs = j_header_line sha jid lid @ j_body sha jid lid (j_start sha jid lid) hs"

fun j_fits_all :: "hasher \<Rightarrow> string \<Rightarrow> string \<Rightarrow> j_recovery \<Rightarrow> (string \<times> rec_observation) list \<Rightarrow> bool" where
  "j_fits_all sha jid lid v [] \<longleftrightarrow> True"
| "j_fits_all sha jid lid v (h # hs) \<longleftrightarrow> j_fits sha jid lid v h \<and> j_fits_all sha jid lid (j_add sha jid lid v h) hs"

text \<open>A journal of the captures \<open>hs\<close>: normalised names, and every capture fits where it stands.\<close>

definition j_named :: "string \<Rightarrow> string \<Rightarrow> bool" where
  "j_named jid lid \<longleftrightarrow> j_text jid ''journal_id'' = Inr jid \<and> j_text lid ''ledger_id'' = Inr lid"

definition j_hist :: "hasher \<Rightarrow> string \<Rightarrow> string \<Rightarrow> (string \<times> rec_observation) list \<Rightarrow> bool" where
  "j_hist sha jid lid hs \<longleftrightarrow> j_named jid lid \<and> j_fits_all sha jid lid (j_start sha jid lid) hs"

lemma j_add_simps [simp]:
  "jv_lines (j_add sha jid lid v h) = jv_lines v + 1"
  "jv_total (j_add sha jid lid v h) = jv_total v + length (j_line sha jid lid v (fst h) (snd h))"
  "jv_records (j_add sha jid lid v h) = jv_records v @ [j_line sha jid lid v (fst h) (snd h)]"
  "jv_by_capture (j_add sha jid lid v h) = dput (fst h) (length (jv_records v)) (jv_by_capture v)"
  "jv_tip (j_add sha jid lid v h) =
     j_record_hash sha jid lid (int (length (jv_records v)) + 1) (jv_tip v) (fst h) (observation_json (snd h))"
  by (simp_all add: j_add_def split_def)

lemma j_line_nonempty [simp]: "j_line sha jid lid v c x \<noteq> []"
  by (simp add: j_line_def NL_def)

lemma j_body_append:
  "j_body sha jid lid v (xs @ ys) = j_body sha jid lid v xs @ j_body sha jid lid (foldl (j_add sha jid lid) v xs) ys"
  by (induction xs arbitrary: v) auto

lemma j_fits_all_append:
  "j_fits_all sha jid lid v (xs @ ys) \<longleftrightarrow>
     j_fits_all sha jid lid v xs \<and> j_fits_all sha jid lid (foldl (j_add sha jid lid) v xs) ys"
  by (induction xs arbitrary: v) auto

lemma j_run_Nil [simp]: "j_run sha jid lid [] = j_start sha jid lid"
  by (simp add: j_run_def)

lemma j_run_snoc: "j_run sha jid lid (hs @ [h]) = j_add sha jid lid (j_run sha jid lid hs) h"
  by (simp add: j_run_def)

lemma j_file_snoc:
  "j_file sha jid lid (hs @ [h]) = j_file sha jid lid hs @ j_line sha jid lid (j_run sha jid lid hs) (fst h) (snd h)"
  by (simp add: j_file_def j_body_append j_run_def)

lemma j_hist_snoc: "j_hist sha jid lid (hs @ [h]) \<longleftrightarrow> j_hist sha jid lid hs \<and> j_fits sha jid lid (j_run sha jid lid hs) h"
  by (auto simp: j_hist_def j_fits_all_append j_run_def)

lemma j_body_total: "jv_total (foldl (j_add sha jid lid) v hs) = jv_total v + length (j_body sha jid lid v hs)"
  by (induction hs arbitrary: v) auto

lemma j_recover_one:
  assumes "j_fits sha jid lid v h" "0 < jv_lines v"
  shows "j_recover_lines sha jid lid (j_line sha jid lid v (fst h) (snd h) @ rest) v =
    (if MAX_FILE_BYTES < jv_total v + length (j_line sha jid lid v (fst h) (snd h))
     then Inl (EventJournalCorruptionError (''invalid event journal line '' @ nat_str (jv_lines v + 1)))
     else j_recover_lines sha jid lid rest (j_add sha jid lid v h))"
  using j_readline_row [of sha jid lid v "fst h" "snd h" rest] j_line_recovers [of sha jid lid v "fst h" "snd h"] assms
  by (simp add: j_recover_lines_step map_error_def raise_if_def j_corruption_def)

text \<open>The lines of the captures are read back as those captures, whatever follows them.\<close>

lemma j_recover_body:
  "j_fits_all sha jid lid v hs \<Longrightarrow> 0 < jv_lines v \<Longrightarrow> jv_total v + length (j_body sha jid lid v hs) \<le> MAX_FILE_BYTES \<Longrightarrow>
     j_recover_lines sha jid lid (j_body sha jid lid v hs @ rest) v = j_recover_lines sha jid lid rest (foldl (j_add sha jid lid) v hs)"
  by (induction hs arbitrary: v) (auto simp: j_recover_one)

lemma j_recover_body_Inr:
  "j_fits_all sha jid lid v hs \<Longrightarrow> 0 < jv_lines v \<Longrightarrow> j_recover_lines sha jid lid (j_body sha jid lid v hs @ rest) v = Inr v' \<Longrightarrow>
     j_recover_lines sha jid lid rest (foldl (j_add sha jid lid) v hs) = Inr v'"
  by (induction hs arbitrary: v) (auto simp: j_recover_one split: if_splits)

section \<open>The header line\<close>

lemma j_text_Inr: "j_text v n = Inr x \<longleftrightarrow> x = v \<and> v \<noteq> [] \<and> py_strip v = v \<and> length v \<le> 256"
  by (auto simp: j_text_def err_simps)

lemma j_header_wf: "wf_json (j_header sha jid lid)"
  by (simp add: j_header_def j_header_payload_def)

lemma j_header_length:
  assumes "hex_digest sha" "j_named jid lid"
  shows "length (j_header_line sha jid lid) \<le> 5000"
proof -
  define h where "h = j_header_hash sha jid lid"
  define d where "d = [(''schema_version'', JStr J_HEADER_SCHEMA), (''mode'', JStr J_OFFLINE), (''journal_id'', JStr jid),
    (''ledger_id'', JStr lid), (''record_hash'', JStr h)]"
  define sz where "sz = (\<lambda>(k, v). length (quote k) + 1 + length (dumps v))"
  have h: "length h = 64" using assms(1) by (simp add: h_def j_header_hash_def j_digest_def hex_digest_def)
  have n: "length jid \<le> 256" "length lid \<le> 256" using assms(2) by (simp_all add: j_named_def j_text_Inr)
  have "canonical (j_header sha jid lid) = ''{'' @ join '','' (map (\<lambda>(k, v). quote k @ '':'' @ dumps v) (sort_key fst d)) @ ''}''"
    by (simp add: canonical_def j_header_def j_header_payload_def d_def h_def)
  then have "length (canonical (j_header sha jid lid)) \<le> sum_list (map sz (sort_key fst d)) + 7"
    using length_join [of "'',''" "map (\<lambda>(k, v). quote k @ '':'' @ dumps v) (sort_key fst d)"]
    by (simp add: comp_def sz_def split_def d_def)
  also have "sum_list (map sz (sort_key fst d)) = sum_list (map sz d)"
    by (metis mset_map mset_sort sum_mset_sum_list)
  also have "\<dots> \<le> 4900"
    using h n length_quote [of lid] length_quote [of jid] length_quote [of h] length_quote [of J_HEADER_SCHEMA] length_quote [of J_OFFLINE]
      length_quote [of "''schema_version''"] length_quote [of "''ledger_id''"] length_quote [of "''journal_id''"]
      length_quote [of "''mode''"] length_quote [of "''record_hash''"]
    by (simp add: d_def sz_def J_HEADER_SCHEMA_def J_OFFLINE_def)
  finally show ?thesis by (simp add: j_header_line_def NL_def)
qed

lemma j_recover_header:
  assumes "hex_digest sha" "j_named jid lid"
  shows "j_recover_lines sha jid lid (j_header_line sha jid lid @ rest) (j_recovery_start sha jid lid) =
    j_recover_lines sha jid lid rest (j_start sha jid lid)"
proof -
  obtain d where d: "j_header sha jid lid = JObj d" "distinct (map fst d)" "\<forall>(k, v) \<in> set d. sort_json v = v"
    by (simp add: j_header_def j_header_payload_def)
  have len: "length (j_header_line sha jid lid) \<le> J_MAX_LINE_BYTES" "length (j_header_line sha jid lid) \<le> MAX_FILE_BYTES"
    using j_header_length [OF assms] by (simp_all add: J_MAX_LINE_BYTES_def MAX_FILE_BYTES_def)
  have nl: "CHR 0x0A \<notin> set (canonical (j_header sha jid lid))" by (rule canonical_no_newline [OF j_header_wf])
  have rl: "readline (J_MAX_LINE_BYTES + 1) (j_header_line sha jid lid @ rest) = j_header_line sha jid lid"
    using readline_line [OF nl] len by (simp add: j_header_line_def NL_def)
  have "j_decode_line (j_header_line sha jid lid) = Inr (obj_fields (sort_json (JObj d)))"
    using j_decode_canonical [of d] j_header_wf [of sha jid lid] len d(1) by (simp add: j_header_line_def)
  moreover have "set (obj_fields (sort_json (JObj d))) = set d" using d(3) by (force simp: obj_fields_def)
  ultimately have "j_recover_line sha jid lid (j_header_line sha jid lid) (j_recovery_start sha jid lid) = Inr (j_start sha jid lid)"
    using len(2) by (simp add: j_recover_line_def same_fields_def d(1) obj_fields_def j_start_def j_recovery_start_def Let_def raise_if_def)
  moreover have "j_header_line sha jid lid \<noteq> []" by (simp add: j_header_line_def NL_def)
  ultimately show ?thesis using rl by (simp add: j_recover_lines_step map_error_def)
qed

lemma j_start_lines [simp]: "jv_lines (j_start sha jid lid) = 1" "jv_records (j_start sha jid lid) = []"
    "jv_by_capture (j_start sha jid lid) = []" "jv_total (j_start sha jid lid) = length (j_header_line sha jid lid)"
    "jv_tip (j_start sha jid lid) = j_header_hash sha jid lid"
  by (simp_all add: j_start_def j_recovery_start_def)

lemma j_run_lines: "jv_lines (j_run sha jid lid hs) = length hs + 1" "length (jv_records (j_run sha jid lid hs)) = length hs"
    "jv_total (j_run sha jid lid hs) = length (j_file sha jid lid hs)"
  by (induction hs rule: rev_induct) (simp_all add: j_run_snoc j_file_def j_body_append j_run_def)

lemma j_recover_exact:
  assumes "hex_digest sha" "j_hist sha jid lid hs" "length (j_file sha jid lid hs) \<le> MAX_FILE_BYTES"
  shows "j_recover sha jid lid (j_file sha jid lid hs) = Inr (j_run sha jid lid hs)"
proof -
  have h: "j_named jid lid" "j_fits_all sha jid lid (j_start sha jid lid) hs" using assms(2) by (simp_all add: j_hist_def)
  have "j_recover_lines sha jid lid (j_file sha jid lid hs) (j_recovery_start sha jid lid) = Inr (j_run sha jid lid hs)"
    using j_recover_header [OF assms(1) h(1)] j_recover_body [OF h(2), where rest = "[]"] assms(3) by (simp add: j_file_def j_run_def)
  then show ?thesis by (simp add: j_recover_def j_run_lines)
qed

lemma j_recover_prefix:
  assumes "hex_digest sha" "j_hist sha jid lid hs" "j_recover sha jid lid (j_file sha jid lid hs @ rest) = Inr v"
  shows "prefix (jv_records (j_run sha jid lid hs)) (jv_records v)"
proof -
  have h: "j_named jid lid" "j_fits_all sha jid lid (j_start sha jid lid) hs" using assms(2) by (simp_all add: j_hist_def)
  have "j_recover_lines sha jid lid (j_file sha jid lid hs @ rest) (j_recovery_start sha jid lid) = Inr v"
    using assms(3) by (simp add: j_recover_def err_simps)
  then have "j_recover_lines sha jid lid rest (j_run sha jid lid hs) = Inr v"
    using j_recover_header [OF assms(1) h(1)] j_recover_body_Inr [OF h(2)] by (simp add: j_file_def j_run_def)
  then show ?thesis using j_recover_lines_grow by blast
qed

text \<open>What the records of a history hold: one raw line per capture, found by its capture id.\<close>

lemma j_run_shape:
  assumes "j_hist sha jid lid hs"
  shows "k < length hs \<Longrightarrow> jv_records (j_run sha jid lid hs) ! k =
      j_line sha jid lid (j_run sha jid lid (take k hs)) (fst (hs ! k)) (snd (hs ! k))"
    "map_of (jv_by_capture (j_run sha jid lid hs)) c = Some k \<longleftrightarrow> k < length hs \<and> fst (hs ! k) = c"
proof -
  have "(\<forall>k < length hs. jv_records (j_run sha jid lid hs) ! k =
      j_line sha jid lid (j_run sha jid lid (take k hs)) (fst (hs ! k)) (snd (hs ! k))) \<and>
    (\<forall>c k. map_of (jv_by_capture (j_run sha jid lid hs)) c = Some k \<longleftrightarrow> k < length hs \<and> fst (hs ! k) = c)"
    using assms
  proof (induction hs rule: rev_induct)
    case (snoc h hs)
    then have IH: "\<forall>k < length hs. jv_records (j_run sha jid lid hs) ! k =
        j_line sha jid lid (j_run sha jid lid (take k hs)) (fst (hs ! k)) (snd (hs ! k))"
      "\<And>c k. map_of (jv_by_capture (j_run sha jid lid hs)) c = Some k \<longleftrightarrow> k < length hs \<and> fst (hs ! k) = c"
      by (auto simp: j_hist_snoc)
    have new: "map_of (jv_by_capture (j_run sha jid lid hs)) (fst h) = None"
      using snoc.prems by (cases h) (auto simp: j_hist_snoc j_fits_def)
    have "k < length hs \<Longrightarrow> fst (hs ! k) \<noteq> fst h" for k using IH(2) [of "fst h" k] new by auto
    then show ?case using IH by (auto simp: j_run_snoc j_run_lines nth_append less_Suc_eq)
  qed simp
  then show "k < length hs \<Longrightarrow> jv_records (j_run sha jid lid hs) ! k =
      j_line sha jid lid (j_run sha jid lid (take k hs)) (fst (hs ! k)) (snd (hs ! k))"
    "map_of (jv_by_capture (j_run sha jid lid hs)) c = Some k \<longleftrightarrow> k < length hs \<and> fst (hs ! k) = c" by auto
qed

lemma j_hist_take: "j_hist sha jid lid hs \<Longrightarrow> j_hist sha jid lid (take k hs)"
  using j_fits_all_append [of sha jid lid _ "take k hs" "drop k hs"] by (auto simp: j_hist_def)

lemma j_hist_nth: "j_hist sha jid lid hs \<Longrightarrow> k < length hs \<Longrightarrow> j_fits sha jid lid (j_run sha jid lid (take k hs)) (hs ! k)"
  using j_fits_all_append [of sha jid lid "j_start sha jid lid" "take k hs" "hs ! k # drop (Suc k) hs"] id_take_nth_drop [of k hs]
  by (simp add: j_hist_def j_run_def)

text \<open>Every line of a history reads back as the receipt and the observation of its capture.\<close>

definition j_receipt_of :: "hasher \<Rightarrow> string \<Rightarrow> string \<Rightarrow> j_recovery \<Rightarrow> string \<times> rec_observation \<Rightarrow> event_receipt" where
  "j_receipt_of sha jid lid v = (\<lambda>(c, x). \<lparr>er_journal_id = jid, er_ledger_id = lid, er_sequence = int (length (jv_records v)) + 1,
     er_capture_id = c, er_observation_hash = j_digest sha ''observation'' (observation_json x),
     er_record_hash = j_record_hash sha jid lid (int (length (jv_records v)) + 1) (jv_tip v) c (observation_json x),
     er_schema_version = J_RECEIPT_SCHEMA\<rparr>)"

lemma hash_ok: "hex_digest sha \<Longrightarrow> j_hash_text (sha s) = Inr (sha s)"
proof -
  assume "hex_digest sha"
  then have h: "length (sha s) = 64" "list_all is_lower_hex (sha s)" by (simp_all add: hex_digest_def)
  then have "sha s \<noteq> []" by auto
  then show ?thesis using h by (simp add: j_hash_text_def j_text_def raise_if_def strip_hex)
qed

lemma receipt_of_ok:
  assumes "hex_digest sha" "j_named jid lid" "j_text c ''capture_id'' = Inr c"
  shows "event_receipt_post_init (j_receipt_of sha jid lid v (c, x)) = Inr (j_receipt_of sha jid lid v (c, x))"
  using assms by (simp add: event_receipt_post_init_def j_receipt_of_def j_named_def j_sequence_def hash_ok j_digest_def j_record_hash_def)

lemma receipt_of_row:
  fixes sha jid lid v c x
  defines "row \<equiv> j_record sha jid lid (int (length (jv_records v)) + 1) (jv_tip v) c (observation_json x)"
  shows "j_receipt (obj_fields row) = event_receipt_post_init (j_receipt_of sha jid lid v (c, x))"
    "j_receipt (obj_fields (sort_json row)) = event_receipt_post_init (j_receipt_of sha jid lid v (c, x))"
  unfolding row_def
  by (simp add: j_receipt_def getters j_record_def j_record_payload_def obj_fields_def j_receipt_of_def j_record_hash_def)
    (simp add: j_receipt_def getters record_row j_receipt_of_def)

lemma j_line_fields:
  assumes "wf_event (ro_event x)"
  shows "row_fields (j_line sha jid lid v c x) =
    Inr (obj_fields (sort_json (j_record sha jid lid (int (length (jv_records v)) + 1) (jv_tip v) c (observation_json x))))"
proof -
  let ?row = "j_record sha jid lid (int (length (jv_records v)) + 1) (jv_tip v) c (observation_json x)"
  obtain r where r: "?row = JObj r" by (simp add: j_record_def)
  obtain r' where r': "sort_json ?row = JObj r'" using r by simp
  have "loads (canonical ?row) = Some (sort_json ?row)"
    using loads_canonical [OF j_record_wf [OF observation_wf_json [OF assms]]] by simp
  then show ?thesis by (simp add: row_fields_def j_line_def NL_def r' obj_fields_def)
qed

lemma observation_kept: "valid_observation x \<Longrightarrow> j_observation x = Inr x"
  by (simp add: j_observation_def valid_observation_def)

lemma j_line_entry:
  assumes "hex_digest sha" "j_named jid lid" "j_fits sha jid lid v (c, x)"
  shows "j_entry_of (j_line sha jid lid v c x) = Inr \<lparr>je_receipt = j_receipt_of sha jid lid v (c, x), je_observation = x\<rparr>"
proof -
  have f: "valid_observation x" "j_text c ''capture_id'' = Inr c" using assms(3) by (simp_all add: j_fits_def)
  have wf: "wf_event (ro_event x)" using f(1) by (simp add: valid_observation_def)
  show ?thesis
    by (simp add: j_entry_of_def j_line_fields [OF wf] receipt_of_row receipt_of_ok [OF assms(1,2) f(2)] record_row
        observation_read_back [OF f(1)] j_entry_post_init_def observation_kept [OF f(1)])
qed

text \<open>The receipts the raw lines of a journal stand for.\<close>

definition raw_receipt :: "string \<Rightarrow> event_receipt list" where
  "raw_receipt raw = (case bindE (row_fields raw) j_receipt of Inr r \<Rightarrow> [r] | Inl _ \<Rightarrow> [])"

definition raw_receipts :: "string list \<Rightarrow> event_receipt list" where
  "raw_receipts raws = concat (map raw_receipt raws)"

lemma raw_receipts_prefix: "prefix xs ys \<Longrightarrow> prefix (raw_receipts xs) (raw_receipts ys)"
  by (auto simp: raw_receipts_def prefix_def)

lemma raw_receipt_line:
  assumes "hex_digest sha" "j_named jid lid" "j_fits sha jid lid v (c, x)"
  shows "raw_receipt (j_line sha jid lid v c x) = [j_receipt_of sha jid lid v (c, x)]"
proof -
  have "wf_event (ro_event x)" "j_text c ''capture_id'' = Inr c" using assms(3) by (simp_all add: j_fits_def valid_observation_def)
  then show ?thesis using receipt_of_ok [OF assms(1,2), of c v x] by (simp add: raw_receipt_def j_line_fields receipt_of_row)
qed

end
