(* ===== verification/JournalHandle.thy ===== *)
theory JournalHandle
  imports EventJournalLaws DurableLog
begin

text \<open>
  An open handle of the event journal: its invariant, what each operation does to the handle, the file and
  the durable bytes, and the interpretation of the durable-log contract it shares with the intent ledger.
\<close>

section \<open>The invariant\<close>

definition j_live :: "journal \<Rightarrow> bool" where
  "j_live l \<longleftrightarrow> j_fd l \<and> \<not> j_poisoned l"

text \<open>The handle holds exactly the captures \<open>hs\<close>; while it is usable its file holds exactly their lines, all
  durable; after a failure their lines are still a durable prefix of the file.\<close>

definition j_ok :: "hasher \<Rightarrow> string \<Rightarrow> string \<Rightarrow> (string \<times> rec_observation) list \<Rightarrow> jstate \<Rightarrow> bool" where
  "j_ok sha jid lid hs s \<longleftrightarrow> hex_digest sha \<and> j_hist sha jid lid hs \<and>
     j_journal_id (fst s) = jid \<and> j_ledger_id (fst s) = lid \<and>
     j_records (fst s) = jv_records (j_run sha jid lid hs) \<and> j_by_capture (fst s) = jv_by_capture (j_run sha jid lid hs) \<and>
     j_tip (fst s) = jv_tip (j_run sha jid lid hs) \<and> prefix (j_file sha jid lid hs) (w_durable (snd s)) \<and>
     (j_live (fst s) \<longrightarrow> w_content (snd s) = j_file sha jid lid hs \<and> w_durable (snd s) = j_file sha jid lid hs)"

lemma j_ok_poison: "j_ok sha jid lid hs s \<Longrightarrow> j_ok sha jid lid hs (j_poison s)"
  by (cases s) (auto simp: j_ok_def j_poison_def j_live_def)

lemma j_ok_same_file: "same_file w w' \<Longrightarrow> j_ok sha jid lid hs (l, w') = j_ok sha jid lid hs (l, w)"
  by (simp add: j_ok_def same_file_def)

section \<open>Identity, guard\<close>

lemma j_identity_same: "j_identity w = (r, w') \<Longrightarrow> same_file w w'"
  by (cases "os_stat w"; cases "fst (os_stat w)")
    (auto simp: j_identity_def failS_def dest!: os_stat_same split: prod.splits if_splits)

lemma j_guard_effect:
  assumes "j_guard s = (r, s')"
  shows "same_file (snd s) (snd s')" "r = Inr () \<Longrightarrow> fst s' = fst s \<and> j_live (fst s)"
    "fst s' = fst s \<or> s' = j_poison (fst s, snd s')"
proof -
  obtain l w where s: "s = (l, w)" by (cases s)
  obtain q w1 where q: "j_identity w = (q, w1)" by (cases "j_identity w")
  note same = j_identity_same [OF q]
  have "same_file (snd s) (snd s') \<and> (r = Inr () \<longrightarrow> fst s' = fst s \<and> j_live (fst s)) \<and>
    (fst s' = fst s \<or> s' = j_poison (fst s, snd s'))"
  proof (cases "\<not> j_fd l \<or> j_poisoned l")
    case True
    then show ?thesis using assms s by (auto simp: j_guard_def)
  next
    case False
    then show ?thesis using assms s q same
      by (cases q) (auto simp: j_guard_def failS_def j_live_def j_guard_fail_def j_poison_def split: if_splits)
  qed
  then show "same_file (snd s) (snd s')" "r = Inr () \<Longrightarrow> fst s' = fst s \<and> j_live (fst s)"
    "fst s' = fst s \<or> s' = j_poison (fst s, snd s')" by auto
qed

lemma j_entered_effect:
  assumes "j_entered s = (r, s')"
  shows "same_file (snd s) (snd s')" "r = Inr () \<Longrightarrow> fst s' = fst s \<and> j_live (fst s)"
    "fst s' = fst s \<or> s' = j_poison (fst s, snd s')"
proof -
  have "same_file (snd s) (snd s') \<and> (r = Inr () \<longrightarrow> fst s' = fst s \<and> j_live (fst s)) \<and>
    (fst s' = fst s \<or> s' = j_poison (fst s, snd s'))"
  proof (cases "w_pid (snd s) \<noteq> j_pid (fst s)")
    case True
    then show ?thesis using assms by (auto simp: j_entered_def j_owner_def)
  next
    case False
    then have "j_guard s = (r, s')" using assms by (simp add: j_entered_def j_owner_def)
    from j_guard_effect [OF this] show ?thesis by blast
  qed
  then show "same_file (snd s) (snd s')" "r = Inr () \<Longrightarrow> fst s' = fst s \<and> j_live (fst s)"
    "fst s' = fst s \<or> s' = j_poison (fst s, snd s')" by auto
qed

lemma j_ok_step:
  assumes "j_ok sha jid lid hs s" "same_file (snd s) (snd s')" "fst s' = fst s \<or> s' = j_poison (fst s, snd s')"
  shows "j_ok sha jid lid hs s' \<and> j_records (fst s') = j_records (fst s)"
  using assms j_ok_same_file [of "snd s" "snd s'" sha jid lid hs "fst s"] j_ok_poison [of sha jid lid hs "(fst s, snd s')"]
  by (cases s'; cases s) (auto simp: j_poison_def)

lemma j_guard_ok: "j_ok sha jid lid hs s \<Longrightarrow> j_guard s = (r, s') \<Longrightarrow> j_ok sha jid lid hs s' \<and> j_records (fst s') = j_records (fst s)"
  using j_guard_effect [of s r s'] j_ok_step by blast

lemma j_entered_ok: "j_ok sha jid lid hs s \<Longrightarrow> j_entered s = (r, s') \<Longrightarrow> j_ok sha jid lid hs s' \<and> j_records (fst s') = j_records (fst s)"
  using j_entered_effect [of s r s'] j_ok_step by blast

section \<open>Append\<close>

text \<open>What \<open>append\<close> may have done to the file: added some prefix of the line, and possibly made it durable.\<close>

definition appended :: "string \<Rightarrow> world \<Rightarrow> world \<Rightarrow> bool" where
  "appended raw w w' \<longleftrightarrow> (\<exists>x. prefix x raw \<and> w_content w' = w_content w @ x) \<and>
     (w_durable w' = w_durable w \<or> w_durable w' = w_content w')"

lemma appended_same: "appended raw w w1 \<Longrightarrow> same_file w1 w2 \<Longrightarrow> appended raw w w2"
  by (simp add: appended_def same_file_def)

lemma appended_calls:
  assumes "appended raw w w1"
  shows "appended raw w (snd (j_identity w1))" "appended raw w (snd (read_exact n k w1))" "appended raw w (snd (os_fsync w1))"
proof -
  show "appended raw w (snd (j_identity w1))"
    using assms j_identity_same appended_same by (metis prod.collapse)
  show "appended raw w (snd (read_exact n k w1))"
    using assms read_exact_effect appended_same by (metis prod.collapse)
  show "appended raw w (snd (os_fsync w1))"
    using assms os_fsync_effect [of w1 "fst (os_fsync w1)" "snd (os_fsync w1)"] by (auto simp: appended_def split: if_splits)
qed

lemma appended_write: "appended raw w (snd (write_all raw w))"
  using write_all_effect [of raw w "fst (write_all raw w)" "snd (write_all raw w)"] by (auto simp: appended_def)

lemma appended_thenS:
  "appended raw w (snd m) \<Longrightarrow> (\<And>x w2. appended raw w w2 \<Longrightarrow> appended raw w (snd (f x w2))) \<Longrightarrow> appended raw w (snd (thenS m f))"
  by (cases m; cases "fst m") auto

lemma appended_failS: "appended raw w w1 \<Longrightarrow> appended raw w (snd k) \<Longrightarrow> appended raw w (snd (failS b e w1 k))"
  by (simp add: failS_def)

lemma j_persist_appends: "appended raw w (snd (j_persist raw old w))"
  unfolding j_persist_def
  by (intro appended_thenS appended_failS appended_calls appended_write; simp)

lemma j_persist_done:
  assumes "j_persist raw old w = (Inr info, w')"
  shows "w_content w' = w_content w @ raw \<and> w_durable w' = w_content w @ raw"
proof -
  obtain i1 i2 i3 got w1 w2 w3 w4 w5 where steps: "write_all raw w = (Inr (), w1)" "j_identity w1 = (Inr i1, w2)"
      "read_exact (length raw) (nat (stamp_size old)) w2 = (Inr got, w3)" "j_identity w3 = (Inr i2, w4)"
      "os_fsync w4 = (Inr (), w5)" "j_identity w5 = (Inr i3, w')"
    using assms by (fastforce simp: j_persist_def err_simps)
  then show ?thesis
    using write_all_effect [OF steps(1)] j_identity_same [OF steps(2)] read_exact_effect [OF steps(3)]
      j_identity_same [OF steps(4)] os_fsync_effect [OF steps(5)] j_identity_same [OF steps(6)]
    by (auto simp: same_file_def)
qed

lemma j_append_failed_ok:
  assumes "j_ok sha jid lid hs (l, w)" "j_live l"
  shows "j_ok sha jid lid hs (l\<lparr>j_poisoned := True\<rparr>, snd (j_persist raw old w))"
proof -
  let ?w = "snd (j_persist raw old w)"
  have f: "w_content w = j_file sha jid lid hs" "w_durable w = j_file sha jid lid hs" using assms by (simp_all add: j_ok_def)
  have "prefix (j_file sha jid lid hs) (w_durable ?w)" using j_persist_appends [of raw w old] f by (auto simp: appended_def)
  then show ?thesis using assms(1) by (simp add: j_ok_def j_live_def)
qed

text \<open>A new capture: with a receipt the history has grown by it, with an exception it is as it was.\<close>

lemma j_append_new_cases:
  assumes ok: "j_ok sha jid lid hs (l, w)" and x: "valid_observation x" "rc_ledger_id (ro_receipt x) = lid"
    and c: "j_text c ''capture_id'' = Inr c" "map_of (j_by_capture l) c = None"
    and app: "j_append_new sha c (observation_json x) (l, w) = (r, s')"
  shows "(\<exists>e. r = Inl e \<and> j_ok sha jid lid hs s' \<and> j_records (fst s') = j_records l) \<or>
    (r = Inr (j_receipt_of sha jid lid (j_run sha jid lid hs) (c, x)) \<and> j_ok sha jid lid (hs @ [(c, x)]) s' \<and> j_live (fst s'))"
proof -
  let ?v = "j_run sha jid lid hs"
  let ?raw = "j_line sha jid lid ?v c x"
  let ?row = "j_record sha jid lid (int (length (jv_records ?v)) + 1) (jv_tip ?v) c (observation_json x)"
  have st: "j_records l = jv_records ?v" "j_tip l = jv_tip ?v" "j_journal_id l = jid" "j_ledger_id l = lid"
      "j_by_capture l = jv_by_capture ?v" and hex: "hex_digest sha" and hist: "j_hist sha jid lid hs"
    using ok by (simp_all add: j_ok_def)
  have raw: "canonical ?row @ NL = ?raw" by (simp add: j_line_def)
  have named: "j_named jid lid" using hist by (simp add: j_hist_def)
  have rc: "j_receipt (obj_fields ?row) = Inr (j_receipt_of sha jid lid ?v (c, x))"
    using receipt_of_row(1) receipt_of_ok [OF hex named c(1)] by simp
  note mid = app [unfolded j_append_new_def Let_def fst_conv st raw rc checkS_simps]
  show ?thesis
  proof (cases "J_MAX_LINE_BYTES < length ?raw \<or> MAX_RECORDS \<le> length (jv_records ?v) \<or>
      int MAX_FILE_BYTES < stamp_size (j_stamp l) + int (length ?raw)")
    case True
    then show ?thesis using mid ok by (auto simp: failS_def split: if_splits)
  next
    case fits: False
    obtain rg s1 where g: "j_guard (l, w) = (rg, s1)" by (cases "j_guard (l, w)")
    note g1 = j_guard_ok [OF ok g]
    show ?thesis
    proof (cases rg)
      case (Inl e)
      then show ?thesis using mid fits g g1 by (auto simp: failS_def)
    next
      case (Inr u)
      then have keep: "fst s1 = l" "j_live l" using j_guard_effect(2) [OF g] by auto
      then obtain w1 where s1: "s1 = (l, w1)" by (cases s1) auto
      have ok1: "j_ok sha jid lid hs (l, w1)" using g1 s1 by simp
      obtain q w2 where q: "j_persist ?raw (j_stamp l) w1 = (q, w2)" by (cases "j_persist ?raw (j_stamp l) w1")
      have rest: "(case (q, w2) of (Inl e, w) \<Rightarrow> j_append_fail e (l, w)
          | (Inr validated, w) \<Rightarrow> (Inr (j_receipt_of sha jid lid ?v (c, x)),
             (l\<lparr>j_by_capture := dput c (length (jv_records ?v)) (jv_by_capture ?v), j_records := jv_records ?v @ [?raw],
                j_tip := er_record_hash (j_receipt_of sha jid lid ?v (c, x)), j_stamp := stamp_of validated\<rparr>, w))) = (r, s')"
        using mid fits g Inr s1 q st by (cases q) (simp_all add: failS_def)
      show ?thesis
      proof (cases q)
        case (Inl e)
        have "j_ok sha jid lid hs (l\<lparr>j_poisoned := True\<rparr>, w2)" using j_append_failed_ok [OF ok1 keep(2)] q by (metis snd_conv)
        then show ?thesis using rest Inl by (auto simp: j_append_fail_def j_poison_def split: if_splits)
      next
        case info: (Inr info)
        have fit: "j_fits sha jid lid ?v (c, x)" using x c fits st by (simp add: j_fits_def)
        have "w_content w2 = j_file sha jid lid (hs @ [(c, x)])" "w_durable w2 = j_file sha jid lid (hs @ [(c, x)])"
          using j_persist_done [of ?raw "j_stamp l" w1] q info ok1 keep(2) by (simp_all add: j_ok_def j_file_snoc)
        then show ?thesis using rest info ok1 fit keep(2)
          by (auto simp: j_ok_def j_hist_snoc j_run_snoc j_receipt_of_def j_live_def)
      qed
    qed
  qed
qed

text \<open>Everything \<open>append\<close> can do: raise and keep the history, return the receipt of a capture it already has,
  or add the capture.\<close>

lemma append_validates:
  assumes "wf_event (ro_event x)" "j_observation x = Inr y"
  shows "y = x" "valid_observation x"
proof -
  have p: "rec_observation_post_init x = Inr y" using assms(2) by (auto simp: j_observation_def err_simps)
  show "y = x" using observation_valid [OF assms(1) p] .
  then show "valid_observation x" using p assms(1) by (simp add: valid_observation_def)
qed

lemma j_append_known:
  assumes ok: "j_ok sha jid lid hs s1" and wf: "wf_event (ro_event x)"
    and k: "map_of (j_by_capture (fst s1)) c = Some k"
    and app: "checkS (row_fields (j_records (fst s1) ! k)) s1 (\<lambda>previous.
      failS (map_option canonical (map_of previous ''observation'') \<noteq> Some (canonical (observation_json x))) CaptureConflictError s1 (
      checkS (j_receipt previous) s1 (\<lambda>receipt. (Inr receipt, s1)))) = (r, s')"
  shows "s' = s1 \<and> k < length hs \<and> fst (hs ! k) = c \<and>
    (if snd (hs ! k) = x then r = Inr (j_receipt_of sha jid lid (j_run sha jid lid (take k hs)) (c, x)) else r = Inl CaptureConflictError)"
proof -
  have h: "hex_digest sha" "j_hist sha jid lid hs" "j_records (fst s1) = jv_records (j_run sha jid lid hs)"
      "j_by_capture (fst s1) = jv_by_capture (j_run sha jid lid hs)" using ok by (simp_all add: j_ok_def)
  have named: "j_named jid lid" using h(2) by (simp add: j_hist_def)
  have kk: "k < length hs" "fst (hs ! k) = c" using j_run_shape(2) [OF h(2)] k h(4) by auto
  obtain x' where x': "hs ! k = (c, x')" using kk(2) by (cases "hs ! k") auto
  let ?v = "j_run sha jid lid (take k hs)"
  have fit: "j_fits sha jid lid ?v (c, x')" using j_hist_nth [OF h(2) kk(1)] x' by simp
  then have wf': "wf_event (ro_event x')" and c: "j_text c ''capture_id'' = Inr c"
    by (simp_all add: j_fits_def valid_observation_def)
  have raw: "j_records (fst s1) ! k = j_line sha jid lid ?v c x'" using j_run_shape(1) [OF h(2) kk(1)] x' h(3) by simp
  have rc: "j_receipt (obj_fields (sort_json (j_record sha jid lid (int (length (jv_records ?v)) + 1) (jv_tip ?v) c (observation_json x')))) =
      Inr (j_receipt_of sha jid lid ?v (c, x'))"
    using receipt_of_row(2) receipt_of_ok [OF h(1) named c] by simp
  have eq: "canonical (observation_json x') = canonical (observation_json x) \<longleftrightarrow> x' = x"
    using payload_inj [OF wf' wf] by auto
  have "failS (x' \<noteq> x) CaptureConflictError s1 (Inr (j_receipt_of sha jid lid ?v (c, x')), s1) = (r, s')"
    using app by (simp add: raw j_line_fields [OF wf'] record_row rc eq)
  then show ?thesis using kk x' by (auto simp: failS_def split: if_splits)
qed

lemma j_append_cases:
  assumes ok: "j_ok sha jid lid hs s" and wf: "wf_event (ro_event x)" and app: "j_append sha c x s = (r, s')"
  shows "(\<exists>e. r = Inl e \<and> j_ok sha jid lid hs s' \<and> j_records (fst s') = j_records (fst s)) \<or>
    (\<exists>k. k < length hs \<and> hs ! k = (c, x) \<and> r = Inr (j_receipt_of sha jid lid (j_run sha jid lid (take k hs)) (c, x)) \<and>
       j_ok sha jid lid hs s' \<and> fst s' = fst s) \<or>
    (r = Inr (j_receipt_of sha jid lid (j_run sha jid lid hs) (c, x)) \<and> j_ok sha jid lid (hs @ [(c, x)]) s')"
proof -
  obtain re s1 where e: "j_entered s = (re, s1)" by (cases "j_entered s")
  note s1 = j_entered_ok [OF ok e]
  show ?thesis
  proof (cases "\<exists>u c' y. re = Inr u \<and> j_text c ''capture_id'' = Inr c' \<and> j_observation x = Inr y \<and> rc_ledger_id (ro_receipt y) = j_ledger_id (fst s1)")
    case False
    then show ?thesis using app s1
      by (cases re; cases "j_text c ''capture_id''"; cases "j_observation x") (auto simp: j_append_def e failS_def)
  next
    case True
    then have re: "re = Inr ()" and c: "j_text c ''capture_id'' = Inr c" and y: "j_observation x = Inr x" "valid_observation x"
      and led: "rc_ledger_id (ro_receipt x) = j_ledger_id (fst s1)"
      using append_validates [OF wf] by (auto simp: j_text_Inr)
    have keep: "fst s1 = fst s" using j_entered_effect(2) [OF e] re by simp
    have lid: "j_ledger_id (fst s1) = lid" using s1 by (simp add: j_ok_def)
    note run = app [unfolded j_append_def e re thenS_simps c y(1) checkS_simps led simp_thms failS_simps]
    show ?thesis
    proof (cases "map_of (j_by_capture (fst s1)) c")
      case None
      then have new: "j_append_new sha c (observation_json x) (fst s1, snd s1) = (r, s')" using run by simp
      show ?thesis
        using j_append_new_cases [of sha jid lid hs "fst s1" "snd s1" x c r s'] s1 y(2) led lid c None new by auto
    next
      case (Some k)
      note known = j_append_known [OF conjunct1 [OF s1] wf Some run [unfolded Some option.case]]
      show ?thesis
      proof (cases "snd (hs ! k) = x")
        case True
        then have "hs ! k = (c, x)" using known by (cases "hs ! k") auto
        then show ?thesis using known s1 keep True by (intro disjI2 disjI1 exI [of _ k]) simp
      qed (use known s1 in simp)
    qed
  qed
qed

section \<open>The durable-log contract\<close>

definition j_receipts :: "jstate \<Rightarrow> event_receipt list" where
  "j_receipts s = raw_receipts (j_records (fst s))"

definition j_reload :: "hasher \<Rightarrow> string \<Rightarrow> string \<Rightarrow> string \<Rightarrow> event_receipt list res" where
  "j_reload sha jid lid content = bindE (j_recover sha jid lid content) (\<lambda>v. Inr (raw_receipts (jv_records v)))"

definition j_handle_ok :: "hasher \<Rightarrow> string \<Rightarrow> string \<Rightarrow> jstate \<Rightarrow> bool" where
  "j_handle_ok sha jid lid s \<longleftrightarrow> (\<exists>hs. j_ok sha jid lid hs s)"

lemma raw_receipts_run:
  assumes "hex_digest sha" "j_hist sha jid lid hs"
  shows "raw_receipts (jv_records (j_run sha jid lid hs)) =
    map (\<lambda>k. j_receipt_of sha jid lid (j_run sha jid lid (take k hs)) (hs ! k)) [0..<length hs]"
  using assms(2)
proof (induction hs rule: rev_induct)
  case (snoc h hs)
  have f: "j_hist sha jid lid hs" "j_named jid lid" "j_fits sha jid lid (j_run sha jid lid hs) (fst h, snd h)"
    using snoc.prems [unfolded j_hist_snoc] by (auto simp: j_hist_def)
  show ?case using snoc.IH [OF f(1)] raw_receipt_line [OF assms(1) f(2,3)] by (simp add: j_run_snoc raw_receipts_def nth_append)
qed (simp add: raw_receipts_def)

lemma ok_receipts:
  assumes "j_ok sha jid lid hs s"
  shows "j_receipts s = map (\<lambda>k. j_receipt_of sha jid lid (j_run sha jid lid (take k hs)) (hs ! k)) [0..<length hs]"
  using assms raw_receipts_run by (simp add: j_receipts_def j_ok_def)

lemma j_append_handle:
  assumes "j_handle_ok sha jid lid s" "wf_event (ro_event x)" "j_append sha c x s = (r, s')"
  shows "j_handle_ok sha jid lid s' \<and> prefix (j_receipts s) (j_receipts s') \<and>
    (case r of Inr rc \<Rightarrow> rc \<in> set (j_receipts s') | Inl e \<Rightarrow> j_receipts s' = j_receipts s)"
proof -
  obtain hs where ok: "j_ok sha jid lid hs s" using assms(1) by (auto simp: j_handle_ok_def)
  from j_append_cases [OF ok assms(2,3)]
  consider (raised) e where "r = Inl e" "j_ok sha jid lid hs s'" "j_records (fst s') = j_records (fst s)"
    | (known) k where "k < length hs" "hs ! k = (c, x)" "r = Inr (j_receipt_of sha jid lid (j_run sha jid lid (take k hs)) (c, x))"
        "j_ok sha jid lid hs s'" "fst s' = fst s"
    | (new) "r = Inr (j_receipt_of sha jid lid (j_run sha jid lid hs) (c, x))" "j_ok sha jid lid (hs @ [(c, x)]) s'"
    by blast
  then show ?thesis
  proof cases
    case raised
    then show ?thesis by (auto simp: j_handle_ok_def j_receipts_def)
  next
    case known
    then show ?thesis using ok_receipts [OF known(4)] by (auto simp: j_handle_ok_def j_receipts_def intro!: image_eqI [of _ _ k])
  next
    case new
    have "j_receipts s' = j_receipts s @ [j_receipt_of sha jid lid (j_run sha jid lid hs) (c, x)]"
      using ok_receipts [OF new(2)] ok_receipts [OF ok] by (simp add: nth_append)
    then show ?thesis using new by (auto simp: j_handle_ok_def)
  qed
qed

lemma j_reload_handle:
  assumes "j_handle_ok sha jid lid s" "prefix (w_durable (snd s)) c" "j_reload sha jid lid c = Inr rs"
  shows "prefix (j_receipts s) rs"
proof -
  obtain hs where ok: "j_ok sha jid lid hs s" using assms(1) by (auto simp: j_handle_ok_def)
  then obtain rest where c: "c = j_file sha jid lid hs @ rest" using assms(2) by (auto simp: j_ok_def prefix_def)
  obtain v where v: "j_recover sha jid lid c = Inr v" "rs = raw_receipts (jv_records v)"
    using assms(3) by (auto simp: j_reload_def err_simps)
  show ?thesis
    using j_recover_prefix [of sha jid lid hs rest v] ok c v raw_receipts_prefix by (auto simp: j_ok_def j_receipts_def)
qed

interpretation jrn: durable_log "j_handle_ok sha jid lid" "\<lambda>(c, x). wf_event (ro_event x)" j_receipts
  "\<lambda>s. w_durable (snd s)" "\<lambda>(c, x). j_append sha c x" "j_reload sha jid lid" for sha jid lid
proof
  fix s h r s'
  assume "j_handle_ok sha jid lid s" "(case h of (c, x) \<Rightarrow> wf_event (ro_event x))" "(case h of (c, x) \<Rightarrow> j_append sha c x) s = (Inr r, s')"
  then show "j_handle_ok sha jid lid s' \<and> prefix (j_receipts s) (j_receipts s') \<and> r \<in> set (j_receipts s')"
    using j_append_handle [of sha jid lid s "snd h" "fst h" "Inr r" s'] by (cases h) simp
next
  fix s h e s'
  assume "j_handle_ok sha jid lid s" "(case h of (c, x) \<Rightarrow> wf_event (ro_event x))" "(case h of (c, x) \<Rightarrow> j_append sha c x) s = (Inl e, s')"
  then show "j_handle_ok sha jid lid s' \<and> j_receipts s' = j_receipts s"
    using j_append_handle [of sha jid lid s "snd h" "fst h" "Inl e" s'] by (cases h) simp
next
  fix s c rs
  assume "j_handle_ok sha jid lid s" "prefix (w_durable (snd s)) c" "j_reload sha jid lid c = Inr rs"
  then show "prefix (j_receipts s) rs" by (rule j_reload_handle)
qed

end
