(* ===== verification/JournalOpen.thy ===== *)
theory JournalOpen
  imports JournalHandle
begin

text \<open>
  Creating a journal file and opening it again: the handle a creation returns holds no capture, and the
  handle of an existing file holds what recovery reads from it.
\<close>

section \<open>Creating and reopening\<close>

lemma thenS_InrE: "thenS m k = (Inr y, s') \<Longrightarrow> (\<And>x s. m = (Inr x, s) \<Longrightarrow> k x s = (Inr y, s') \<Longrightarrow> P) \<Longrightarrow> P"
  by (auto simp: thenS_Inr_iff)

lemma failS_InrE: "failS b e s k = (Inr y, s') \<Longrightarrow> (\<not> b \<Longrightarrow> k = (Inr y, s') \<Longrightarrow> P) \<Longrightarrow> P"
  by (auto simp: failS_Inr_iff)

lemma checkS_InrE: "checkS r s k = (Inr y, s') \<Longrightarrow> (\<And>x. r = Inr x \<Longrightarrow> k x = (Inr y, s') \<Longrightarrow> P) \<Longrightarrow> P"
  by (auto simp: checkS_Inr_iff)

lemmas method_elims = thenS_InrE failS_InrE checkS_InrE

lemma j_create_header_effect:
  assumes "j_create_header sha jid lid w = (Inr x, w')"
  shows "fst x = j_recovery_start sha jid lid \<and> w_content w' = w_content w @ j_header_line sha jid lid"
  by (insert assms, unfold j_create_header_def Let_def j_header_line_def [symmetric], elim method_elims,
      drule write_all_effect, drule j_identity_same, drule read_exact_effect) (auto simp: same_file_def)

lemma j_load_effect:
  assumes "j_load sha jid lid cp info w = (Inr x, w')"
  shows "j_recover sha jid lid (w_content w) = Inr (fst x) \<and> same_file w w' \<and>
    (cp = Some c \<longrightarrow> j_check_checkpoint sha jid lid (jv_records (fst x)) c = Inr ())"
  by (insert assms, unfold j_load_def, elim method_elims, drule os_read_same) (auto split: option.splits)

lemma j_open_create:
  assumes "j_open_body sha jid lid True cp w = (Inr (v, before), w')"
  shows "v = j_recovery_start sha jid lid \<and> w_content w' = j_header_line sha jid lid \<and> w_durable w' = j_header_line sha jid lid"
  by (insert assms, unfold j_open_body_def if_True split_def, elim method_elims,
      (drule os_open_new j_create_header_effect os_fsync_effect j_identity_same)+) (simp add: same_file_def)

lemma j_open_load:
  assumes "j_open_body sha jid lid False cp w = (Inr (v, before), w')"
  shows "j_recover sha jid lid (w_content w) = Inr v \<and> w_content w' = w_content w \<and> w_durable w' = w_content w \<and>
    (cp = Some c \<longrightarrow> j_check_checkpoint sha jid lid (jv_records v) c = Inr ())"
  by (insert assms, unfold j_open_body_def if_False split_def, elim method_elims,
      (drule os_open_dir_same not_written_file [OF not_written_refl] j_load_effect [where c = c] os_fsync_effect j_identity_same)+)
    (auto simp: same_file_def not_written_def)

lemma j_create_ok:
  assumes "hex_digest sha" "j_create sha jid lid w0 = (Inr l, w)"
  shows "j_ok sha jid lid [] (l, w)"
proof -
  obtain v before where b: "j_open_body sha jid lid True None w0 = (Inr (v, before), w)" "l = j_fresh jid lid w0 v before"
      "j_named jid lid"
    by (insert assms(2), unfold j_create_def j_open_def option.case bindE_simps if_False, elim method_elims)
      (auto simp: j_text_Inr j_named_def split: sum.splits prod.splits)
  show ?thesis using j_open_create [OF b(1)] b(2,3) assms(1)
    by (simp add: j_ok_def j_hist_def j_fresh_def j_file_def j_recovery_start_def)
qed

lemma j_open_existing_loads:
  assumes "j_open_existing sha jid lid cp w = (Inr l, w')"
  shows "\<exists>v. j_recover sha jid lid (w_content w) = Inr v \<and> j_records l = jv_records v \<and> j_by_capture l = jv_by_capture v \<and> j_tip l = jv_tip v"
    "w_content w' = w_content w" "w_durable w' = w_content w" "j_live l" "j_named jid lid" "j_journal_id l = jid" "j_ledger_id l = lid"
    "cp = Some c \<Longrightarrow> j_check_checkpoint sha jid lid (j_records l) c = Inr () \<and> jc_journal_id c = jid \<and> jc_ledger_id c = lid"
proof -
  obtain v before where b: "j_open_body sha jid lid False cp w = (Inr (v, before), w')" "l = j_fresh jid lid w v before"
      "j_named jid lid" "cp = Some c \<Longrightarrow> jc_journal_id c = jid \<and> jc_ledger_id c = lid"
    by (insert assms, unfold j_open_existing_def j_open_def, elim method_elims)
      (auto simp: j_text_Inr j_named_def j_checkpoint_post_init_def err_simps split: sum.splits prod.splits option.splits)
  note o = j_open_load [OF b(1)]
  show "\<exists>v. j_recover sha jid lid (w_content w) = Inr v \<and> j_records l = jv_records v \<and> j_by_capture l = jv_by_capture v \<and> j_tip l = jv_tip v"
    "w_content w' = w_content w" "w_durable w' = w_content w" "j_live l" "j_named jid lid" "j_journal_id l = jid" "j_ledger_id l = lid"
    "cp = Some c \<Longrightarrow> j_check_checkpoint sha jid lid (j_records l) c = Inr () \<and> jc_journal_id c = jid \<and> jc_ledger_id c = lid"
    using o [where c = c] b(2-4) by (simp_all add: j_fresh_def j_live_def)
qed

lemma j_reopen_ok:
  assumes "hex_digest sha" "j_hist sha jid lid hs" "w_content w = j_file sha jid lid hs"
    and "length (j_file sha jid lid hs) \<le> MAX_FILE_BYTES" "j_open_existing sha jid lid cp w = (Inr l, w')"
  shows "j_ok sha jid lid hs (l, w')"
  using j_open_existing_loads [OF assms(5)] j_recover_exact [OF assms(1,2,4)] assms(1-3) by (simp add: j_ok_def)

end
