(* ===== verification/HashChain.thy ===== *)
theory HashChain
  imports Prelude
begin

text \<open>
  What the last hash of a chain determines.  A log starts from one hashed text; each record hashes a text
  that names the previous hash and the record itself.  If the hash function has no collision among the texts
  of two such logs, equal last hashes mean equal logs.  The intent ledger and the event journal interpret
  the locale on their own records.
\<close>

fun chain_texts :: "('s \<Rightarrow> 'x \<Rightarrow> string) \<Rightarrow> ('s \<Rightarrow> 'x \<Rightarrow> 's) \<Rightarrow> 's \<Rightarrow> 'x list \<Rightarrow> string list" where
  "chain_texts record_text add s [] = []"
| "chain_texts record_text add s (x # xs) = record_text s x # chain_texts record_text add (add s x) xs"

lemma chain_texts_snoc:
  "chain_texts record_text add s (xs @ [x]) = chain_texts record_text add s xs @ [record_text (foldl add s xs) x]"
  by (induction xs arbitrary: s) auto

locale hash_chain =
  fixes digest :: "string \<Rightarrow> string"
    and first_text :: string
    and record_text :: "'s \<Rightarrow> 'x \<Rightarrow> string"
    and add :: "'s \<Rightarrow> 'x \<Rightarrow> 's"
    and start :: 's
    and tip :: "'s \<Rightarrow> string"
    and genuine :: "'x \<Rightarrow> bool"
  assumes tip_start: "tip start = digest first_text"
    and tip_add: "tip (add s x) = digest (record_text s x)"
    and first_differs: "first_text \<noteq> record_text s x"
    and record_inj: "genuine x \<Longrightarrow> genuine y \<Longrightarrow> record_text s x = record_text t y \<Longrightarrow> x = y \<and> tip s = tip t"
begin

definition texts :: "'x list \<Rightarrow> string list" where
  "texts xs = first_text # chain_texts record_text add start xs"

definition last_tip :: "'x list \<Rightarrow> string" where
  "last_tip xs = tip (foldl add start xs)"

lemma last_tip_Nil: "last_tip [] = digest first_text"
  by (simp add: last_tip_def tip_start)

lemma last_tip_snoc: "last_tip (xs @ [x]) = digest (record_text (foldl add start xs) x)"
  by (simp add: last_tip_def tip_add)

lemma texts_snoc: "texts (xs @ [x]) = texts xs @ [record_text (foldl add start xs) x]"
  by (simp add: texts_def chain_texts_snoc)

lemma first_in_texts: "first_text \<in> set (texts xs)"
  by (simp add: texts_def)

lemma empty_differs:
  assumes "last_tip [] = last_tip (ys @ [y])" "inj_on digest (set (texts xs @ texts (ys @ [y])))"
  shows False
proof -
  have "first_text = record_text (foldl add start ys) y"
    by (rule inj_onD [OF assms(2)]) (use assms(1) in \<open>simp_all add: last_tip_Nil last_tip_snoc texts_snoc first_in_texts\<close>)
  then show False using first_differs by blast
qed

theorem tip_determines:
  assumes "list_all genuine xs" "list_all genuine ys" "last_tip xs = last_tip ys" "inj_on digest (set (texts xs @ texts ys))"
  shows "xs = ys"
  using assms
proof (induction xs arbitrary: ys rule: rev_induct)
  case Nil
  show ?case
  proof (cases ys rule: rev_cases)
    case (snoc zs z)
    then show ?thesis using empty_differs [of zs z "[]"] Nil.prems(3,4) by simp
  qed simp
next
  case (snoc x xs)
  show ?case
  proof (cases ys rule: rev_cases)
    case Nil
    then show ?thesis using empty_differs [of xs x "[]"] snoc.prems(3,4) by (simp add: Un_commute)
  next
    case ys: (snoc zs z)
    have "record_text (foldl add start xs) x = record_text (foldl add start zs) z"
      by (rule inj_onD [OF snoc.prems(4)]) (use ys snoc.prems(3) in \<open>simp_all add: last_tip_snoc texts_snoc\<close>)
    then have same: "x = z" "last_tip xs = last_tip zs"
      using record_inj [of x z] snoc.prems(1,2) ys by (auto simp: last_tip_def)
    have "inj_on digest (set (texts xs @ texts zs))"
      using snoc.prems(4) ys by (elim inj_on_subset) (auto simp: texts_snoc)
    then show ?thesis using same snoc.IH [of zs] snoc.prems(1,2) ys by simp
  qed
qed

end

end
