(* ===== verification/JournalExport.thy ===== *)
theory JournalExport
  imports JournalOpen HashChain
begin

text \<open>
  Exports of the event journal.  The entries of an intact journal verify against each of its checkpoints, and
  an export that verifies against a checkpoint holds exactly the entries of the journal up to there: the hash
  chain of the journal interprets \<open>hash_chain\<close>.
\<close>

section \<open>The entries of a history\<close>

fun j_entries_from :: "hasher \<Rightarrow> string \<Rightarrow> string \<Rightarrow> j_recovery \<Rightarrow> (string \<times> rec_observation) list \<Rightarrow> j_entry list" where
  "j_entries_from sha jid lid v [] = []"
| "j_entries_from sha jid lid v (h # hs) =
     \<lparr>je_receipt = j_receipt_of sha jid lid v h, je_observation = snd h\<rparr> # j_entries_from sha jid lid (j_add sha jid lid v h) hs"

definition j_entries :: "hasher \<Rightarrow> string \<Rightarrow> string \<Rightarrow> (string \<times> rec_observation) list \<Rightarrow> j_entry list" where
  "j_entries sha jid lid hs = j_entries_from sha jid lid (j_start sha jid lid) hs"

definition j_checkpoint_at :: "hasher \<Rightarrow> string \<Rightarrow> string \<Rightarrow> (string \<times> rec_observation) list \<Rightarrow> j_checkpoint" where
  "j_checkpoint_at sha jid lid hs = \<lparr>jc_journal_id = jid, jc_ledger_id = lid, jc_sequence = int (length hs),
     jc_record_hash = jv_tip (j_run sha jid lid hs)\<rparr>"

definition entry_capture :: "j_entry \<Rightarrow> string \<times> rec_observation" where
  "entry_capture e = (er_capture_id (je_receipt e), je_observation e)"

lemma receipt_of_capture [simp]: "er_capture_id (j_receipt_of sha jid lid v h) = fst h"
    "er_record_hash (j_receipt_of sha jid lid v h) = jv_tip (j_add sha jid lid v h)"
  by (simp_all add: j_receipt_of_def split_def)

lemma entries_captures: "map entry_capture (j_entries_from sha jid lid v hs) = hs"
  by (induction hs arbitrary: v) (auto simp: entry_capture_def)

lemma length_entries [simp]: "length (j_entries_from sha jid lid v hs) = length hs"
  by (induction hs arbitrary: v) auto

lemma entries_observations: "map je_observation (j_entries sha jid lid hs) = map snd hs"
proof -
  have "map je_observation (j_entries_from sha jid lid v hs) = map snd hs" for v
    by (induction hs arbitrary: v) auto
  then show ?thesis by (simp add: j_entries_def)
qed

lemma tip_is_hash:
  assumes "hex_digest sha"
  shows "j_hash_text (jv_tip (j_run sha jid lid hs)) = Inr (jv_tip (j_run sha jid lid hs))"
  by (cases hs rule: rev_cases)
    (simp_all add: j_run_snoc j_record_hash_def j_header_hash_def j_digest_def hash_ok [OF assms])

lemma j_checkpoint_ok:
  assumes "hex_digest sha" "j_named jid lid"
  shows "j_checkpoint_post_init (j_checkpoint_at sha jid lid hs) = Inr (j_checkpoint_at sha jid lid hs)"
  using assms(2) tip_is_hash [OF assms(1)]
  by (simp add: j_checkpoint_post_init_def j_checkpoint_at_def j_named_def j_sequence_def)

section \<open>The export of an intact journal verifies\<close>

lemma entry_of_capture:
  assumes "hex_digest sha" "j_named jid lid" "j_fits sha jid lid v h"
  shows "j_entry_post_init \<lparr>je_receipt = j_receipt_of sha jid lid v h, je_observation = snd h\<rparr> =
    Inr \<lparr>je_receipt = j_receipt_of sha jid lid v h, je_observation = snd h\<rparr>"
proof -
  obtain c x where h: "h = (c, x)" by (cases h)
  then have "valid_observation x" "j_text c ''capture_id'' = Inr c" using assms(3) by (simp_all add: j_fits_def)
  then show ?thesis using receipt_of_ok [OF assms(1,2)] h by (simp add: j_entry_post_init_def observation_kept)
qed

lemma entries_valid:
  "hex_digest sha \<Longrightarrow> j_named jid lid \<Longrightarrow> j_fits_all sha jid lid v hs \<Longrightarrow>
     mapE j_entry_post_init (j_entries_from sha jid lid v hs) = Inr (j_entries_from sha jid lid v hs)"
  by (induction hs arbitrary: v) (auto simp: entry_of_capture)

lemma entries_observed:
  "j_fits_all sha jid lid (j_start sha jid lid) hs \<Longrightarrow>
     mapE (\<lambda>entry. j_observation (je_observation entry)) (j_entries sha jid lid hs) = Inr (map je_observation (j_entries sha jid lid hs))"
proof -
  have "j_fits_all sha jid lid v hs \<Longrightarrow> mapE (\<lambda>entry. j_observation (je_observation entry)) (j_entries_from sha jid lid v hs) =
      Inr (map je_observation (j_entries_from sha jid lid v hs))" for v
    by (induction hs arbitrary: v) (auto simp: j_fits_def observation_kept)
  then show "j_fits_all sha jid lid (j_start sha jid lid) hs \<Longrightarrow> ?thesis" by (simp add: j_entries_def)
qed

lemma lines_are_entries:
  "hex_digest sha \<Longrightarrow> j_named jid lid \<Longrightarrow> j_fits_all sha jid lid v hs \<Longrightarrow>
     \<exists>raws. jv_records (foldl (j_add sha jid lid) v hs) = jv_records v @ raws \<and> mapE j_entry_of raws = Inr (j_entries_from sha jid lid v hs)"
proof (induction hs arbitrary: v)
  case (Cons h hs)
  obtain c x where h: "h = (c, x)" by (cases h)
  obtain raws where r: "jv_records (foldl (j_add sha jid lid) (j_add sha jid lid v h) hs) = jv_records (j_add sha jid lid v h) @ raws"
      "mapE j_entry_of raws = Inr (j_entries_from sha jid lid (j_add sha jid lid v h) hs)"
    using Cons by fastforce
  then show ?case
    using j_line_entry [of sha jid lid v c x] Cons.prems h by (intro exI [of _ "j_line sha jid lid v c x # raws"]) simp
qed simp

lemma length_fits: "j_fits_all sha jid lid v hs \<Longrightarrow> length (jv_records v) \<le> MAX_RECORDS \<Longrightarrow> length (jv_records v) + length hs \<le> MAX_RECORDS"
  by (induction hs arbitrary: v) (fastforce simp: j_fits_def)+

lemma verify_entries_accept:
  assumes "hex_digest sha" "j_named jid lid"
  shows "j_fits_all sha jid lid v hs \<Longrightarrow> \<forall>c \<in> set captures. map_of (jv_by_capture v) c \<noteq> None \<Longrightarrow>
     jv_total v + length (j_body sha jid lid v hs) \<le> MAX_FILE_BYTES \<Longrightarrow>
     verify_entries sha jid lid (int (length (jv_records v)) + 1) (jv_tip v) (jv_total v) captures (j_entries_from sha jid lid v hs) =
       Inr (jv_tip (foldl (j_add sha jid lid) v hs))"
proof (induction hs arbitrary: v captures)
  case (Cons h hs)
  obtain c x where h: "h = (c, x)" by (cases h)
  let ?v = "j_add sha jid lid v h"
  have f: "rc_ledger_id (ro_receipt x) = lid" "j_text c ''capture_id'' = Inr c" "map_of (jv_by_capture v) c = None"
      "length (j_line sha jid lid v c x) \<le> J_MAX_LINE_BYTES"
    using Cons.prems(1) h by (simp_all add: j_fits_def)
  have new: "c \<notin> set captures" using Cons.prems(2) f(3) by auto
  have line: "length (canonical (j_record sha jid lid (int (length (jv_records v)) + 1) (jv_tip v) c (observation_json x))) + 1 =
      length (j_line sha jid lid v c x)"
    by (simp add: j_line_def NL_def)
  have rc: "j_receipt (obj_fields (j_record sha jid lid (int (length (jv_records v)) + 1) (jv_tip v) c (observation_json x))) =
      Inr (j_receipt_of sha jid lid v h)"
    using receipt_of_row(1) receipt_of_ok [OF assms f(2)] h by simp
  have "verify_entries sha jid lid (int (length (jv_records ?v)) + 1) (jv_tip ?v) (jv_total ?v) (c # captures) (j_entries_from sha jid lid ?v hs) =
      Inr (jv_tip (foldl (j_add sha jid lid) ?v hs))"
    using Cons.prems h by (intro Cons.IH) auto
  then show ?case
    using f new Cons.prems(3) h
    by (simp add: Let_def line rc del: One_nat_def)
qed simp

text \<open>The export the journal builds at a checkpoint.\<close>

definition j_unhashed :: "hasher \<Rightarrow> string \<Rightarrow> string \<Rightarrow> (string \<times> rec_observation) list \<Rightarrow> j_export" where
  "j_unhashed sha jid lid hs = \<lparr>jx_checkpoint = j_checkpoint_at sha jid lid hs, jx_entries = j_entries sha jid lid hs,
     jx_artifact_hash = replicate 64 (CHR ''0''), jx_mode = J_OFFLINE, jx_scope = EXPORT_SCOPE, jx_schema_version = J_EXPORT_SCHEMA\<rparr>"

definition j_export_at :: "hasher \<Rightarrow> string \<Rightarrow> string \<Rightarrow> (string \<times> rec_observation) list \<Rightarrow> j_export" where
  "j_export_at sha jid lid hs = (j_unhashed sha jid lid hs)\<lparr>jx_artifact_hash := j_export_hash sha (j_unhashed sha jid lid hs)\<rparr>"

lemma j_unhashed_fields [simp]: "jx_checkpoint (j_unhashed sha jid lid hs) = j_checkpoint_at sha jid lid hs"
    "jx_entries (j_unhashed sha jid lid hs) = j_entries sha jid lid hs"
    "jx_checkpoint (j_export_at sha jid lid hs) = j_checkpoint_at sha jid lid hs"
    "jx_entries (j_export_at sha jid lid hs) = j_entries sha jid lid hs"
  by (simp_all add: j_unhashed_def j_export_at_def)

lemma export_hash_ignores: "j_export_hash sha (x\<lparr>jx_artifact_hash := h\<rparr>) = j_export_hash sha x"
  by (simp add: j_export_hash_def j_export_fields_def dpop_def)

lemma export_valid:
  assumes "hex_digest sha" "j_hist sha jid lid hs" "j_hash_text h = Inr h"
  shows "j_export_post_init ((j_unhashed sha jid lid hs)\<lparr>jx_artifact_hash := h\<rparr>) = Inr ((j_unhashed sha jid lid hs)\<lparr>jx_artifact_hash := h\<rparr>)"
proof -
  have h: "j_named jid lid" "j_fits_all sha jid lid (j_start sha jid lid) hs" using assms(2) by (simp_all add: j_hist_def)
  have "length hs \<le> MAX_RECORDS" using length_fits [OF h(2)] by simp
  then show ?thesis
    using j_checkpoint_ok [OF assms(1) h(1)] entries_valid [OF assms(1) h] assms(3)
    by (simp add: j_export_post_init_def j_entries_def) (simp add: j_unhashed_def j_entries_def)
qed

lemma zeros_hash: "j_hash_text (replicate 64 (CHR ''0'')) = Inr (replicate 64 (CHR ''0''))"
  by code_simp

lemma export_hash_ok: "hex_digest sha \<Longrightarrow> j_hash_text (j_export_hash sha x) = Inr (j_export_hash sha x)"
  by (simp add: j_export_hash_def j_digest_def hash_ok)

lemma export_at_valid:
  "hex_digest sha \<Longrightarrow> j_hist sha jid lid hs \<Longrightarrow> j_export_post_init (j_export_at sha jid lid hs) = Inr (j_export_at sha jid lid hs)"
  unfolding j_export_at_def by (intro export_valid export_hash_ok)

lemma build_export:
  assumes "hex_digest sha" "j_hist sha jid lid hs"
  shows "j_build_export sha (j_checkpoint_at sha jid lid hs) (jv_records (j_run sha jid lid hs) @ later) = Inr (j_export_at sha jid lid hs)"
proof -
  have h: "j_named jid lid" "j_fits_all sha jid lid (j_start sha jid lid) hs" using assms(2) by (simp_all add: j_hist_def)
  have "mapE j_entry_of (jv_records (j_run sha jid lid hs)) = Inr (j_entries sha jid lid hs)"
    using lines_are_entries [OF assms(1) h] by (auto simp: j_run_def j_entries_def)
  moreover have "take (nat (jc_sequence (j_checkpoint_at sha jid lid hs))) (jv_records (j_run sha jid lid hs) @ later) = jv_records (j_run sha jid lid hs)"
    by (simp add: j_checkpoint_at_def j_run_lines)
  moreover have "j_export_post_init (j_unhashed sha jid lid hs) = Inr (j_unhashed sha jid lid hs)"
    using export_valid [OF assms zeros_hash] by (simp add: j_unhashed_def)
  ultimately show ?thesis
    using export_at_valid [OF assms] by (simp add: j_build_export_def j_export_at_def) (simp add: j_unhashed_def)
qed

lemma verify_accepts:
  assumes "hex_digest sha" "j_hist sha jid lid hs" "length (j_file sha jid lid hs) \<le> MAX_FILE_BYTES"
  shows "verify_execution_event_journal_export_v1 sha (j_export_at sha jid lid hs) (j_checkpoint_at sha jid lid hs) = Inr []"
proof -
  have h: "j_named jid lid" "j_fits_all sha jid lid (j_start sha jid lid) hs" using assms(2) by (simp_all add: j_hist_def)
  let ?x = "j_export_at sha jid lid hs"
  note valid = export_at_valid [OF assms(1,2)]
  have hash: "j_export_hash sha ?x = jx_artifact_hash ?x" by (simp add: j_export_at_def export_hash_ignores)
  have start: "length (canonical (j_header sha jid lid)) + 1 = jv_total (j_start sha jid lid)" by (simp add: j_header_line_def NL_def)
  have "verify_entries sha jid lid 1 (j_header_hash sha jid lid) (length (canonical (j_header sha jid lid)) + 1) [] (jx_entries ?x) =
      Inr (jv_tip (j_run sha jid lid hs))"
    using verify_entries_accept [OF assms(1) h(1) h(2), of "[]"] assms(3) unfolding start
    by (simp add: j_entries_def j_run_def j_file_def)
  then have "verify_prefix sha ?x (j_checkpoint_at sha jid lid hs) = Inr ()"
    by (simp add: verify_prefix_def valid raise_if_def) (simp add: j_checkpoint_at_def j_entries_def)
  then show ?thesis
    by (simp add: verify_execution_event_journal_export_v1_def j_checkpoint_ok [OF assms(1) h(1)] hash)
qed

section \<open>The hash chain\<close>

definition j_first_text :: "string \<Rightarrow> string \<Rightarrow> string" where
  "j_first_text jid lid = J_HASH_DOMAIN @ ''header'' @ NL @ canonical (JObj (j_header_payload jid lid))"

definition j_record_text :: "hasher \<Rightarrow> string \<Rightarrow> string \<Rightarrow> j_recovery \<Rightarrow> string \<times> rec_observation \<Rightarrow> string" where
  "j_record_text sha jid lid v = (\<lambda>(c, x). J_HASH_DOMAIN @ ''record'' @ NL @
     canonical (JObj (j_record_payload sha jid lid (int (length (jv_records v)) + 1) (jv_tip v) c (observation_json x))))"

text \<open>The texts the journal of \<open>hs\<close> hashes.\<close>

definition j_hashed_texts :: "hasher \<Rightarrow> string \<Rightarrow> string \<Rightarrow> (string \<times> rec_observation) list \<Rightarrow> string list" where
  "j_hashed_texts sha jid lid hs =
     j_first_text jid lid # chain_texts (j_record_text sha jid lid) (j_add sha jid lid) (j_start sha jid lid) hs"

lemma j_record_text_inj:
  assumes "wf_event (ro_event x)" "wf_event (ro_event y)" "j_record_text sha jid lid v (c, x) = j_record_text sha jid lid w (d, y)"
  shows "(c, x) = (d, y) \<and> jv_tip v = jv_tip w"
proof -
  let ?p = "\<lambda>v c x. j_record_payload sha jid lid (int (length (jv_records v)) + 1) (jv_tip v) c (observation_json x)"
  have eq: "canonical (JObj (?p v c x)) = canonical (JObj (?p w d y))" using assms(3) by (simp add: j_record_text_def)
  have wf: "wf_json (JObj (?p v c x))" "wf_json (JObj (?p w d y))"
    using assms(1,2) observation_wf_json by (simp_all add: j_record_payload_def)
  have m: "map_option sort_json (map_of (?p v c x) k) = map_option sort_json (map_of (?p w d y) k)" for k
    by (rule sort_json_map_of [OF _ _ canonical_inj [OF wf eq]]) (simp_all add: j_record_payload_def)
  have "jv_tip v = jv_tip w" using m [of "''previous_hash''"] by (simp add: j_record_payload_def)
  moreover have "c = d" using m [of "''capture_id''"] by (simp add: j_record_payload_def)
  moreover have "sort_json (observation_json x) = sort_json (observation_json y)"
    using m [of "''observation''"] by (simp add: j_record_payload_def)
  then have "payload x = payload y" by (simp add: canonical_def)
  then have "x = y" using payload_inj assms(1,2) by blast
  ultimately show ?thesis by simp
qed

interpretation jch: hash_chain sha "j_first_text jid lid" "j_record_text sha jid lid" "j_add sha jid lid" "j_start sha jid lid" jv_tip
  "\<lambda>h. wf_event (ro_event (snd h))" for sha jid lid
proof
  show "jv_tip (j_start sha jid lid) = sha (j_first_text jid lid)"
    by (simp add: j_header_hash_def j_digest_def j_first_text_def)
next
  fix v h
  show "jv_tip (j_add sha jid lid v h) = sha (j_record_text sha jid lid v h)"
    by (cases h) (simp add: j_record_hash_def j_digest_def j_record_text_def)
next
  fix v h
  show "j_first_text jid lid \<noteq> j_record_text sha jid lid v h"
    by (cases h) (simp add: j_first_text_def j_record_text_def)
next
  fix x y v w
  assume "wf_event (ro_event (snd x))" "wf_event (ro_event (snd y))" "j_record_text sha jid lid v x = j_record_text sha jid lid w y"
  then show "x = y \<and> jv_tip v = jv_tip w" 
    using j_record_text_inj [of "snd x" "snd y" sha jid lid v "fst x" w "fst y"] by simp
qed

section \<open>What a verified export holds\<close>

lemma event_receipt_id: "event_receipt_post_init r = Inr r' \<Longrightarrow> r' = r"
  by (auto simp: event_receipt_post_init_def err_simps)

lemma verify_entries_sound:
  "verify_entries sha jid lid (int (length (jv_records v)) + 1) (jv_tip v) bytes captures es = Inr p \<Longrightarrow>
     es = j_entries_from sha jid lid v (map entry_capture es) \<and> p = jv_tip (foldl (j_add sha jid lid) v (map entry_capture es))"
proof (induction es arbitrary: v bytes captures)
  case (Cons e es)
  let ?c = "er_capture_id (je_receipt e)" and ?x = "je_observation e"
  let ?row = "j_record sha jid lid (int (length (jv_records v)) + 1) (jv_tip v) ?c (observation_json ?x)"
  let ?v = "j_add sha jid lid v (entry_capture e)"
  obtain expected where 1: "j_receipt (obj_fields ?row) = Inr expected" "je_receipt e = expected"
      "\<exists>b cs. verify_entries sha jid lid (int (length (jv_records v)) + 1 + 1) (er_record_hash expected) b cs es = Inr p"
    using Cons.prems by (auto simp: Let_def err_simps)
  have "expected = j_receipt_of sha jid lid v (?c, ?x)"
    using 1(1) receipt_of_row(1) event_receipt_id by metis
  then have r: "je_receipt e = j_receipt_of sha jid lid v (entry_capture e)" using 1(2) by (simp add: entry_capture_def)
  then have "er_record_hash expected = jv_tip ?v" using 1(2) by simp
  moreover have "int (length (jv_records v)) + 1 + 1 = int (length (jv_records ?v)) + 1" by simp
  ultimately have "\<exists>b cs. verify_entries sha jid lid (int (length (jv_records ?v)) + 1) (jv_tip ?v) b cs es = Inr p"
    using 1(3) by (simp only:)
  then have "es = j_entries_from sha jid lid ?v (map entry_capture es) \<and> p = jv_tip (foldl (j_add sha jid lid) ?v (map entry_capture es))"
    using Cons.IH by blast
  moreover have "\<lparr>je_receipt = je_receipt e, je_observation = snd (entry_capture e)\<rparr> = e" by (simp add: entry_capture_def)
  ultimately show ?case using r by simp
qed simp

lemma entries_kept:
  "mapE j_entry_post_init es = Inr es' \<Longrightarrow> list_all (\<lambda>e. wf_event (ro_event (je_observation e))) es \<Longrightarrow> es' = es"
proof (induction es arbitrary: es')
  case (Cons e es)
  obtain e' es1 where m: "j_entry_post_init e = Inr e'" "mapE j_entry_post_init es = Inr es1" "es' = e' # es1"
    using Cons.prems(1) by (auto simp: err_simps)
  obtain r x where "event_receipt_post_init (je_receipt e) = Inr r" "j_observation (je_observation e) = Inr x"
      "e' = \<lparr>je_receipt = r, je_observation = x\<rparr>"
    using m(1) by (auto simp: j_entry_post_init_def err_simps)
  then have "e' = e" using event_receipt_id append_validates(1) Cons.prems(2) by simp
  then show ?case using m Cons.IH Cons.prems(2) by simp
qed simp

lemma verified_entries:
  assumes "verify_execution_event_journal_export_v1 sha x (j_checkpoint_at sha jid lid hs) = Inr []"
    and "list_all (\<lambda>e. wf_event (ro_event (je_observation e))) (jx_entries x)" "list_all (\<lambda>h. wf_event (ro_event (snd h))) hs"
    and "inj_on sha (set (j_hashed_texts sha jid lid (map entry_capture (jx_entries x)) @ j_hashed_texts sha jid lid hs))"
  shows "jx_entries x = j_entries sha jid lid hs"
proof -
  let ?c = "j_checkpoint_at sha jid lid hs"
  obtain anchor where a: "j_checkpoint_post_init ?c = Inr anchor"
    using assms(1) by (auto simp: verify_execution_event_journal_export_v1_def err_simps)
  then have "anchor = ?c" by (auto simp: j_checkpoint_post_init_def err_simps)
  then have "verify_prefix sha x ?c = Inr ()"
    using assms(1) a by (auto simp: verify_execution_event_journal_export_v1_def Let_def split: sum.splits if_splits)
  then obtain clean where clean: "j_export_post_init x = Inr clean"
      "verify_entries sha jid lid 1 (j_header_hash sha jid lid) (length (canonical (j_header sha jid lid)) + 1) [] (jx_entries clean) =
         Inr (jv_tip (j_run sha jid lid hs))"
    by (auto simp: verify_prefix_def j_checkpoint_at_def err_simps)
  have es: "jx_entries clean = jx_entries x"
    using clean(1) entries_kept [OF _ assms(2)] by (auto simp: j_export_post_init_def err_simps)
  have v: "verify_entries sha jid lid (int (length (jv_records (j_start sha jid lid))) + 1) (jv_tip (j_start sha jid lid))
      (length (canonical (j_header sha jid lid)) + 1) [] (jx_entries x) = Inr (jv_tip (j_run sha jid lid hs))"
    using clean(2) es by simp
  note sound = verify_entries_sound [OF v]
  have "map entry_capture (jx_entries x) = hs"
    using jch.tip_determines [of "map entry_capture (jx_entries x)" hs sha jid lid] sound assms(2-4)
    by (simp add: jch.last_tip_def jch.texts_def j_hashed_texts_def j_run_def list.pred_map entry_capture_def comp_def)
  then show ?thesis using sound by (simp add: j_entries_def)
qed

end
