(* ===== verification/JournalDemo.thy ===== *)
theory JournalDemo
  imports JournalExport ReconcileDemo
begin

text \<open>
  One concrete run of the event journal, for the witnesses: created over the operating-system answers of
  \<open>LedgerDemo\<close>, one captured event of its intent appended, the file opened again.
\<close>

definition demo_x :: rec_observation where
  "demo_x = demo_observe (hd demo_events)"

definition demo_capture :: "string \<times> rec_observation" where
  "demo_capture = (''c1'', demo_x)"

lemma demo_x_json: "observation_json demo_x = JObj
    [(''receipt'', JObj [(''ledger_id'', JStr ''L''), (''sequence'', JInt 1), (''intent_id'', JStr ''i1''),
        (''intent_hash'', JStr (replicate 64 (CHR ''1''))), (''record_hash'', JStr (replicate 64 (CHR ''1''))),
        (''schema_version'', JStr RECEIPT_SCHEMA)]),
     (''event'', event_to_dict (hd demo_events)), (''mode'', JStr OFFLINE), (''schema_version'', JStr EVENT_SCHEMA)]"
  by (simp add: demo_x_def demo_observe_def observation_json_def receipt_json_def demo_receipt_eq)

lemma demo_x_long: "200 \<le> length (payload demo_x)"
  unfolding demo_x_json by code_simp

lemma demo_j_start: "j_start demo_sha ''J'' ''L'' = \<lparr>jv_lines = 1, jv_total = 186, jv_records = [], jv_by_capture = [],
    jv_tip = replicate 64 (CHR ''0'')\<rparr>"
  by code_simp

lemma demo_j_digest: "200 \<le> length (canonical p) \<Longrightarrow> j_digest demo_sha k p = replicate 64 (CHR ''1'')"
  by (simp add: j_digest_def demo_sha_def)

lemma demo_obs_digest: "j_digest demo_sha ''observation'' (observation_json demo_x) = replicate 64 (CHR ''1'')"
  by (rule demo_j_digest [OF demo_x_long])

definition demo_record :: json where
  "demo_record = JObj (j_record_payload demo_sha ''J'' ''L'' 1 (replicate 64 (CHR ''0'')) ''c1'' (observation_json demo_x))"

lemma demo_record_long: "200 \<le> length (canonical demo_record)"
  unfolding demo_record_def j_record_payload_def demo_obs_digest demo_x_json by code_simp

lemma demo_record_hash: "j_record_hash demo_sha ''J'' ''L'' 1 (replicate 64 (CHR ''0'')) ''c1'' (observation_json demo_x) = replicate 64 (CHR ''1'')"
  unfolding j_record_hash_def by (rule demo_j_digest) (use demo_record_long in \<open>simp add: demo_record_def\<close>)

lemma demo_line_fits: "length (j_line demo_sha ''J'' ''L'' (j_start demo_sha ''J'' ''L'') ''c1'' demo_x) \<le> 2000"
proof -
  have "length (canonical (JObj (j_record_payload demo_sha ''J'' ''L'' 1 (replicate 64 (CHR ''0'')) ''c1'' (observation_json demo_x)
      @ [(''record_hash'', JStr (replicate 64 (CHR ''1'')))]))) \<le> 1999"
    unfolding j_record_payload_def demo_obs_digest demo_x_json by code_simp
  then show ?thesis by (simp add: j_line_def j_record_def demo_j_start demo_record_hash NL_def)
qed

lemma demo_valid_observation: "valid_observation demo_x"
  using demo_events_wf demo_observation_ok demo_receipt_valid
  by (simp add: valid_observation_def demo_x_def demo_observe_def demo_events_def rec_observation_post_init_def rec_receipt_def)

lemma demo_named: "j_named ''J'' ''L''" "j_text ''c1'' ''capture_id'' = Inr ''c1''"
  by code_simp+

lemma demo_fits: "j_fits demo_sha ''J'' ''L'' (j_start demo_sha ''J'' ''L'') demo_capture"
proof -
  have "rc_ledger_id (ro_receipt demo_x) = ''L''" by (simp add: demo_x_def demo_observe_def demo_receipt_eq)
  then show ?thesis
    using demo_valid_observation demo_named demo_line_fits
    by (simp add: j_fits_def demo_capture_def J_MAX_LINE_BYTES_def MAX_RECORDS_def)
qed

lemma demo_hist: "j_hist demo_sha ''J'' ''L'' [demo_capture]" "j_hist demo_sha ''J'' ''L'' []"
  using demo_fits demo_named by (simp_all add: j_hist_def)

definition demo_line :: string where
  "demo_line = j_line demo_sha ''J'' ''L'' (j_start demo_sha ''J'' ''L'') ''c1'' demo_x"

definition demo_size :: int where
  "demo_size = 186 + int (length demo_line)"

lemma demo_file: "j_file demo_sha ''J'' ''L'' [demo_capture] = j_header_line demo_sha ''J'' ''L'' @ demo_line"
    "j_file demo_sha ''J'' ''L'' [] = j_header_line demo_sha ''J'' ''L''" "length (j_header_line demo_sha ''J'' ''L'') = 186"
    "length (j_file demo_sha ''J'' ''L'' [demo_capture]) \<le> MAX_FILE_BYTES"
proof -
  have h: "length (j_header_line demo_sha ''J'' ''L'') = 186" using demo_j_start by (metis j_recovery.select_convs(2) j_start_lines(4))
  then show "length (j_header_line demo_sha ''J'' ''L'') = 186" .
  show f: "j_file demo_sha ''J'' ''L'' [demo_capture] = j_header_line demo_sha ''J'' ''L'' @ demo_line"
    "j_file demo_sha ''J'' ''L'' [] = j_header_line demo_sha ''J'' ''L''"
    by (simp_all add: j_file_def demo_capture_def demo_line_def)
  show "length (j_file demo_sha ''J'' ''L'' [demo_capture]) \<le> MAX_FILE_BYTES"
    using h demo_line_fits by (simp add: f demo_line_def MAX_FILE_BYTES_def)
qed

definition demo_j_receipt :: event_receipt where
  "demo_j_receipt = j_receipt_of demo_sha ''J'' ''L'' (j_start demo_sha ''J'' ''L'') demo_capture"

section \<open>The calls\<close>

definition demo_journal :: "(string \<times> rec_observation) list \<Rightarrow> int \<Rightarrow> journal" where
  "demo_journal hs n = j_fresh ''J'' ''L'' (demo_world True [] [] [] [] []) (j_run demo_sha ''J'' ''L'' hs) (stamp_of (demo_st n))"

definition demo_jdisk :: "(string \<times> rec_observation) list \<Rightarrow> write_reply list \<Rightarrow> int list \<Rightarrow> bool list \<Rightarrow> pread_reply list \<Rightarrow> world" where
  "demo_jdisk hs ws ns ss ps = (demo_world True (j_file demo_sha ''J'' ''L'' hs) ws ns [True, True] ss)\<lparr>w_preads := ps\<rparr>"

lemma demo_j_identity:
  "w_stats w = demo_stat n # ss \<Longrightarrow> j_identity w = (Inr (demo_st n), w\<lparr>w_stats := ss\<rparr>)"
  by (simp add: j_identity_def os_stat_def pop_def demo_stat_def demo_st_def Let_def)

lemma demo_read:
  assumes "raw \<noteq> []" "w_preads w = Got (length raw) # ps" "take (length raw) (drop offset (w_content w)) = raw"
  shows "read_exact (length raw) offset w = (Inr raw, w\<lparr>w_preads := ps\<rparr>)"
proof -
  have "read_exact 0 n u = (Inr [], u)" for n u by (subst read_exact.simps) simp
  then show ?thesis using assms by (subst read_exact.simps) (simp add: os_pread_def pop_def)
qed

lemma demo_j_create:
  "j_create demo_sha ''J'' ''L'' ((demo_world False [] [Wrote 186, Wrote (int (length demo_line))] [0, 0, 186, 186, 186, 186, 186, demo_size, demo_size, demo_size]
     [True, True, True, True] [True, True, True])\<lparr>w_preads := [Got 186, Got (length demo_line)]\<rparr>) =
     (Inr (demo_journal [] 186), demo_jdisk [] [Wrote (int (length demo_line))] [186, 186, demo_size, demo_size, demo_size] [True] [Got (length demo_line)])"
proof -
  have raw: "canonical (j_header demo_sha ''J'' ''L'') @ NL = j_header_line demo_sha ''J'' ''L''" by (simp add: j_header_line_def)
  have ne: "j_header_line demo_sha ''J'' ''L'' \<noteq> []" using demo_file(3) by auto
  have t: "j_text ''J'' ''journal_id'' = Inr ''J''" "j_text ''L'' ''ledger_id'' = Inr ''L''" by code_simp+
  note rd = demo_read [OF ne, unfolded demo_file(3)]
  have run: "j_fresh ''J'' ''L'' u (j_recovery_start demo_sha ''J'' ''L'') st = j_fresh ''J'' ''L'' u (j_start demo_sha ''J'' ''L'') st" for u st
    by (simp add: j_fresh_def j_recovery_start_def)
  show ?thesis
    by (simp add: j_create_def j_open_def j_open_body_def j_create_header_def raw t demo_world_def os_open_dir_def os_open_file_def
        demo_j_identity demo_write rd ne demo_file os_fsync_def pop_def Let_def demo_st_def stamp_of_def demo_journal_def demo_jdisk_def
        j_fresh_def j_recovery_start_def MAX_FILE_BYTES_def cong: eval_cong)
qed

lemma demo_j_guard:
  "j_guard (demo_journal hs n, demo_jdisk hs ws (n # ns) ss ps) = (Inr (), (demo_journal hs n, demo_jdisk hs ws ns ss ps))"
  by (simp add: j_guard_def demo_journal_def j_fresh_def demo_jdisk_def demo_world_def demo_j_identity)

lemma demo_j_entered:
  "j_entered (demo_journal hs n, demo_jdisk hs ws (n # ns) ss ps) = (Inr (), (demo_journal hs n, demo_jdisk hs ws ns ss ps))"
proof -
  have "j_owner (demo_journal hs n, demo_jdisk hs ws (n # ns) ss ps) = (Inr (), (demo_journal hs n, demo_jdisk hs ws (n # ns) ss ps))"
    by (simp add: j_owner_def demo_journal_def j_fresh_def demo_jdisk_def demo_world_def)
  then show ?thesis by (simp add: j_entered_def demo_j_guard)
qed

lemma demo_persist:
  "j_persist demo_line (stamp_of (demo_st 186)) (demo_jdisk [] [Wrote (int (length demo_line))] (demo_size # demo_size # demo_size # ns) [True] [Got (length demo_line)]) =
     (Inr (demo_st demo_size), demo_jdisk [demo_capture] [] ns [] [])"
proof -
  have ne: "demo_line \<noteq> []" by (simp add: demo_line_def)
  have sz: "st_size (demo_st n) = n" for n by (simp add: demo_st_def)
  have rd: "read_exact (length demo_line) 186 w = (Inr demo_line, w\<lparr>w_preads := ps\<rparr>)"
    if "w_preads w = Got (length demo_line) # ps" "w_content w = j_header_line demo_sha ''J'' ''L'' @ demo_line" for w ps
    using demo_read [OF ne that(1), of 186] that(2) demo_file(3) by simp
  show ?thesis
    by (simp add: j_persist_def demo_jdisk_def demo_world_def demo_write ne demo_file(1,2) demo_j_identity sz demo_size_def rd os_fsync_def pop_def Let_def
        cong: eval_cong)
qed

lemma demo_j_run: "j_run demo_sha ''J'' ''L'' [demo_capture] =
    \<lparr>jv_lines = 2, jv_total = 186 + length demo_line, jv_records = [demo_line], jv_by_capture = [(''c1'', 0)],
     jv_tip = er_record_hash demo_j_receipt\<rparr>"
  by (simp add: j_run_def j_add_def demo_capture_def demo_line_def demo_j_start demo_j_receipt_def j_receipt_of_def)

lemma demo_j_append:
  "j_append demo_sha ''c1'' demo_x (demo_journal [] 186,
       demo_jdisk [] [Wrote (int (length demo_line))] (186 # 186 # demo_size # demo_size # demo_size # ns) [True] [Got (length demo_line)]) =
     (Inr demo_j_receipt, (demo_journal [demo_capture] demo_size, demo_jdisk [demo_capture] [] ns [] []))"
proof -
  let ?l = "demo_journal [] 186"
  let ?row = "j_record demo_sha ''J'' ''L'' 1 (replicate 64 (CHR ''0'')) ''c1'' (observation_json demo_x)"
  have l: "j_ledger_id ?l = ''L''" "j_journal_id ?l = ''J''" "j_records ?l = []" "j_by_capture ?l = []" "j_tip ?l = replicate 64 (CHR ''0'')"
      "j_stamp ?l = stamp_of (demo_st 186)"
    by (simp_all add: demo_journal_def j_fresh_def demo_j_start)
  have raw: "canonical ?row @ NL = demo_line" by (simp add: demo_line_def j_line_def demo_j_start)
  have rc: "j_receipt (obj_fields ?row) = Inr demo_j_receipt"
    using receipt_of_row(1) [where v = "j_start demo_sha ''J'' ''L''" and c = "''c1''" and x = demo_x] receipt_of_ok [OF demo_sha_hex demo_named]
    by (simp add: demo_j_start demo_j_receipt_def demo_capture_def)
  have fit: "\<not> J_MAX_LINE_BYTES < length demo_line" "\<not> MAX_RECORDS \<le> 0" "\<not> int MAX_FILE_BYTES < stamp_size (stamp_of (demo_st 186)) + int (length demo_line)"
    using demo_line_fits by (simp_all add: demo_line_def J_MAX_LINE_BYTES_def MAX_RECORDS_def MAX_FILE_BYTES_def stamp_size_def stamp_of_def demo_st_def)
  have "length demo_line = length (canonical ?row) + length NL" by (simp flip: raw)
  then have fit': "MAX_RECORDS \<noteq> 0" "\<not> J_MAX_LINE_BYTES < length (canonical ?row) + length NL"
      "\<not> int MAX_FILE_BYTES < st_size (demo_st 186) + (int (length (canonical ?row)) + int (length NL))"
      "\<not> int MAX_FILE_BYTES < st_size (demo_st 186) + int (length demo_line)"
    using fit by simp_all
  have led: "rc_ledger_id (ro_receipt demo_x) = ''L''" by (simp add: demo_x_def demo_observe_def demo_receipt_eq)
  have new: "?l\<lparr>j_by_capture := [(''c1'', 0)], j_records := [demo_line], j_tip := er_record_hash demo_j_receipt,
      j_stamp := stamp_of (demo_st demo_size)\<rparr> = demo_journal [demo_capture] demo_size"
    by (simp add: demo_journal_def j_fresh_def demo_j_run)
  show ?thesis
    by (simp add: j_append_def demo_j_entered demo_named observation_kept [OF demo_valid_observation] l led j_append_new_def Let_def raw rc fit'
        demo_j_guard demo_persist new cong: eval_cong)
qed

definition demo_j_checkpoint :: j_checkpoint where
  "demo_j_checkpoint = j_checkpoint_at demo_sha ''J'' ''L'' [demo_capture]"

lemma demo_j_reopen:
  assumes "n \<le> int MAX_FILE_BYTES"
  shows "j_open_existing demo_sha ''J'' ''L'' None (demo_jdisk [demo_capture] [] [n, n, n, n] [True, True] []) =
     (Inr (demo_journal [demo_capture] n), (demo_jdisk [demo_capture] [] [] [] [])\<lparr>w_opens := [], w_reads := []\<rparr>)"
proof -
  have r: "j_recover demo_sha ''J'' ''L'' (j_file demo_sha ''J'' ''L'' [demo_capture]) = Inr (j_run demo_sha ''J'' ''L'' [demo_capture])"
    by (rule j_recover_exact [OF demo_sha_hex demo_hist(1) demo_file(4)])
  have t: "j_text ''J'' ''journal_id'' = Inr ''J''" "j_text ''L'' ''ledger_id'' = Inr ''L''" by code_simp+
  have d: "demo_jdisk [demo_capture] [] [n, n, n, n] [True, True] [] =
      (demo_world True (j_file demo_sha ''J'' ''L'' [demo_capture]) [] [n, n, n, n] [True, True] [True, True])\<lparr>w_preads := []\<rparr>"
    by (simp add: demo_jdisk_def)
  have sz: "st_size (demo_st n) = n" by (simp add: demo_st_def)
  show ?thesis
    using assms
    by (simp add: j_open_existing_def j_open_def j_open_body_def j_load_def t d demo_world_def os_open_dir_def os_open_file_def
        os_read_def demo_j_identity r sz os_fsync_def pop_def Let_def demo_journal_def demo_jdisk_def j_fresh_def cong: eval_cong)
qed

lemma demo_j_get:
  "j_get_capture ''c1'' (demo_journal [demo_capture] n, demo_jdisk [demo_capture] ws [n, n] ss ps) =
     (Inr (Some \<lparr>je_receipt = demo_j_receipt, je_observation = demo_x\<rparr>), (demo_journal [demo_capture] n, demo_jdisk [demo_capture] ws [] ss ps))"
proof -
  have e: "j_entry_of demo_line = Inr \<lparr>je_receipt = demo_j_receipt, je_observation = demo_x\<rparr>"
    using j_line_entry [OF demo_sha_hex demo_named(1) demo_fits [unfolded demo_capture_def]]
    by (simp add: demo_line_def demo_j_receipt_def demo_capture_def)
  have l: "j_by_capture (demo_journal [demo_capture] n) = [(''c1'', 0)]" "j_records (demo_journal [demo_capture] n) = [demo_line]"
    by (simp_all add: demo_journal_def j_fresh_def demo_j_run)
  show ?thesis by (simp add: j_get_capture_def demo_j_entered demo_named l e demo_j_guard cong: eval_cong)
qed

lemma demo_j_ok:
  assumes "hs \<in> {[], [demo_capture]}"
  shows "j_ok demo_sha ''J'' ''L'' hs (demo_journal hs n, demo_jdisk hs ws ns ss ps)"
  using assms demo_hist demo_sha_hex by (auto simp: j_ok_def demo_journal_def j_fresh_def demo_jdisk_def demo_world_def)

lemma demo_j_checkpoint_of:
  "j_checkpoint_of (demo_journal [demo_capture] n, demo_jdisk [demo_capture] ws (n # ns) ss ps) =
     (Inr demo_j_checkpoint, (demo_journal [demo_capture] n, demo_jdisk [demo_capture] ws ns ss ps))"
proof -
  have "\<lparr>jc_journal_id = j_journal_id (demo_journal [demo_capture] n), jc_ledger_id = j_ledger_id (demo_journal [demo_capture] n),
      jc_sequence = int (length (j_records (demo_journal [demo_capture] n))), jc_record_hash = j_tip (demo_journal [demo_capture] n)\<rparr> = demo_j_checkpoint"
    by (simp add: demo_journal_def j_fresh_def demo_j_checkpoint_def j_checkpoint_at_def j_run_lines)
  then show ?thesis using j_checkpoint_ok [OF demo_sha_hex demo_named(1)]
    by (simp add: j_checkpoint_of_def demo_j_entered demo_j_checkpoint_def)
qed

lemma demo_j_inj: "inj_on demo_sha (set (j_hashed_texts demo_sha ''J'' ''L'' [demo_capture]))"
proof -
  have "length (j_first_text ''J'' ''L'') = 157" by code_simp
  moreover have "200 \<le> length (j_record_text demo_sha ''J'' ''L'' (j_start demo_sha ''J'' ''L'') demo_capture)"
    using demo_record_long by (simp add: j_record_text_def demo_capture_def demo_j_start demo_record_def)
  ultimately show ?thesis by (auto simp: j_hashed_texts_def inj_on_def demo_sha_def)
qed

end
