(* ===== verification/JournalProps.thy ===== *)
theory JournalProps
  imports JournalDemo
begin

text \<open>
  The properties of the event journal, each with its witness on the run of \<open>JournalDemo\<close>.
\<close>

section \<open>Lemmas\<close>

lemma raw_receipts_mem: "r \<in> set (raw_receipts raws) \<longleftrightarrow> (\<exists>raw \<in> set raws. bindE (row_fields raw) j_receipt = Inr r)"
proof -
  have "r \<in> set (raw_receipt raw) \<longleftrightarrow> bindE (row_fields raw) j_receipt = Inr r" for raw
    by (cases "bindE (row_fields raw) j_receipt") (auto simp: raw_receipt_def)
  then show ?thesis by (simp add: raw_receipts_def)
qed

lemma known_capture:
  assumes "j_ok sha jid lid hs s" "k < length hs" "j_get_capture (fst (hs ! k)) s = (Inr e, s')"
  shows "e = Some \<lparr>je_receipt = j_receipt_of sha jid lid (j_run sha jid lid (take k hs)) (hs ! k), je_observation = snd (hs ! k)\<rparr>"
proof -
  obtain c x where h: "hs ! k = (c, x)" by (cases "hs ! k")
  obtain s1 where s1: "j_entered s = (Inr (), s1)" "j_text c ''capture_id'' = Inr c"
      "(case map_of (j_by_capture (fst s1)) c of None \<Rightarrow> Inr None
        | Some index \<Rightarrow> bindE (j_entry_of (j_records (fst s1) ! index)) (\<lambda>e. Inr (Some e))) = Inr e"
    using assms(3) h by (auto simp: j_get_capture_def err_simps j_text_Inr)
  have st: "hex_digest sha" "j_hist sha jid lid hs" "j_records (fst s1) = jv_records (j_run sha jid lid hs)"
      "j_by_capture (fst s1) = jv_by_capture (j_run sha jid lid hs)"
    using j_entered_ok [OF assms(1) s1(1)] by (simp_all add: j_ok_def)
  have "map_of (j_by_capture (fst s1)) c = Some k" using j_run_shape(2) [OF st(2)] st(4) assms(2) h by simp
  moreover have "j_entry_of (jv_records (j_run sha jid lid hs) ! k) =
      Inr \<lparr>je_receipt = j_receipt_of sha jid lid (j_run sha jid lid (take k hs)) (c, x), je_observation = x\<rparr>"
    using j_run_shape(1) [OF st(2) assms(2)] j_line_entry [OF st(1)] j_hist_nth [OF st(2) assms(2)] st(2) h by (simp add: j_hist_def)
  ultimately show ?thesis using s1(3) st(3) h by simp
qed

lemma checkpoint_is_at:
  assumes "j_ok sha jid lid hs s" "j_checkpoint_of s = (Inr c, s')"
  shows "c = j_checkpoint_at sha jid lid hs"
proof -
  obtain s1 where s1: "j_entered s = (Inr (), s1)"
      "j_checkpoint_post_init \<lparr>jc_journal_id = j_journal_id (fst s1), jc_ledger_id = j_ledger_id (fst s1),
         jc_sequence = int (length (j_records (fst s1))), jc_record_hash = j_tip (fst s1)\<rparr> = Inr c"
    using assms(2) by (auto simp: j_checkpoint_of_def err_simps)
  have "j_ok sha jid lid hs s1" using j_entered_ok [OF assms(1) s1(1)] by simp
  then show ?thesis using s1(2)
    by (auto simp: j_checkpoint_at_def j_ok_def j_run_lines j_checkpoint_post_init_def err_simps)
qed

lemma run_prefix: "jv_records (j_run sha jid lid hs) = jv_records (j_run sha jid lid (take n hs)) @ drop (min n (length hs)) (jv_records (j_run sha jid lid hs))"
proof -
  have "prefix (jv_records v) (jv_records (foldl (j_add sha jid lid) v ys))" for v ys
  proof (induction ys arbitrary: v)
    case (Cons y ys)
    show ?case using Cons.IH [of "j_add sha jid lid v y"] by (auto simp: prefix_def)
  qed simp
  from this [of "j_run sha jid lid (take n hs)" "drop n hs"]
  have "prefix (jv_records (j_run sha jid lid (take n hs))) (jv_records (j_run sha jid lid hs))"
    unfolding j_run_def foldl_append [symmetric] by simp
  then show ?thesis by (auto simp: prefix_def j_run_lines)
qed

section \<open>Properties\<close>

text \<open>C35. No acknowledged capture is lost: after a journal is created and any sequence of appends ran against
  any operating-system answers, some of which raised, a process that later opens any file that still starts
  with the bytes made durable finds, among its records, every receipt an append ever returned.\<close>
theorem acknowledged_captures_survive:
  assumes "hex_digest sha" "j_create sha jid lid w0 = (Inr l, w)" "list_all (\<lambda>(c, x). wf_event (ro_event x)) hs"
    and "run_calls (\<lambda>(c, x). j_append sha c x) hs (l, w) = (rs, (l1, w1))" "Inr r \<in> set rs"
    and "prefix (w_durable w1) (w_content w2)" "j_open_existing sha jid lid cp w2 = (Inr l2, w3)"
  shows "\<exists>raw \<in> set (j_records l2). bindE (row_fields raw) j_receipt = Inr r"
proof -
  have ok: "j_handle_ok sha jid lid (l, w)" using j_create_ok [OF assms(1,2)] by (auto simp: j_handle_ok_def)
  obtain v where v: "j_recover sha jid lid (w_content w2) = Inr v" "j_records l2 = jv_records v"
    using j_open_existing_loads(1) [OF assms(7)] by blast
  have "r \<in> set (raw_receipts (jv_records v))"
    using jrn.acknowledged_survives [OF ok assms(3,4,5), of "w_content w2"] assms(6) v by (simp add: j_reload_def)
  then show ?thesis using v by (simp add: raw_receipts_mem)
qed

theorem acknowledged_captures_survive_witness:
  "\<exists>raw \<in> set (j_records (demo_journal [demo_capture] 9)). bindE (row_fields raw) j_receipt = Inr demo_j_receipt"
proof -
  have run: "run_calls (\<lambda>(c, x). j_append demo_sha c x) [demo_capture]
      (demo_journal [] 186, demo_jdisk [] [Wrote (int (length demo_line))] [186, 186, demo_size, demo_size, demo_size] [True] [Got (length demo_line)]) =
      ([Inr demo_j_receipt], (demo_journal [demo_capture] demo_size, demo_jdisk [demo_capture] [] [] [] []))"
    by (simp add: demo_capture_def demo_j_append [unfolded demo_capture_def])
  have wf: "list_all (\<lambda>(c, x). wf_event (ro_event x)) [demo_capture]"
    using demo_valid_observation by (simp add: demo_capture_def valid_observation_def)
  have p: "prefix (w_durable (demo_jdisk [demo_capture] [] [] [] [])) (w_content (demo_jdisk [demo_capture] [] [9, 9, 9, 9] [True, True] []))"
    by (simp add: demo_jdisk_def demo_world_def)
  show ?thesis
    by (rule acknowledged_captures_survive [OF demo_sha_hex demo_j_create wf run _ p demo_j_reopen]) (simp_all add: MAX_FILE_BYTES_def)
qed

text \<open>An acknowledged capture reads back: after an \<open>append\<close> returned a receipt, \<open>get_capture\<close> of the same
  capture id, when it returns, gives exactly that receipt and that observation; and a second observation
  under the same id was refused.\<close>
theorem append_then_get:
  assumes "j_ok sha jid lid hs s" "wf_event (ro_event x)" "j_append sha c x s = (Inr r, s1)" "j_get_capture c s1 = (Inr e, s2)"
  shows "e = Some \<lparr>je_receipt = r, je_observation = x\<rparr>"
proof -
  from j_append_cases [OF assms(1,2,3)]
  consider (known) k where "k < length hs" "hs ! k = (c, x)" "r = j_receipt_of sha jid lid (j_run sha jid lid (take k hs)) (c, x)" "j_ok sha jid lid hs s1"
    | (new) "r = j_receipt_of sha jid lid (j_run sha jid lid hs) (c, x)" "j_ok sha jid lid (hs @ [(c, x)]) s1"
    by auto
  then show ?thesis
  proof cases
    case known
    then show ?thesis using known_capture [OF known(4,1)] assms(4) by simp
  next
    case new
    then show ?thesis using known_capture [OF new(2), of "length hs"] assms(4) by simp
  qed
qed

text \<open>Every prefix of an intact journal exports: for each number \<open>n\<close> of captures it holds, the export built
  at the checkpoint of its first \<open>n\<close> captures exists, verifies against that checkpoint with no reason, and
  hands the reconciler exactly the observations of those captures, in order.\<close>
theorem export_hands_over_prefix:
  assumes "j_ok sha jid lid hs s" "n \<le> length hs" "length (j_file sha jid lid (take n hs)) \<le> MAX_FILE_BYTES"
  shows "\<exists>x. j_build_export sha (j_checkpoint_at sha jid lid (take n hs)) (j_records (fst s)) = Inr x \<and>
    verify_execution_event_journal_export_v1 sha x (j_checkpoint_at sha jid lid (take n hs)) = Inr [] \<and>
    execution_events_from_journal_export_v1 sha x (j_checkpoint_at sha jid lid (take n hs)) = Inr (map snd (take n hs))"
proof -
  let ?hs = "take n hs"
  have st: "hex_digest sha" "j_hist sha jid lid ?hs" "j_records (fst s) = jv_records (j_run sha jid lid hs)"
    using assms(1) j_hist_take by (auto simp: j_ok_def)
  have b: "j_build_export sha (j_checkpoint_at sha jid lid ?hs) (j_records (fst s)) = Inr (j_export_at sha jid lid ?hs)"
    unfolding st(3) by (subst run_prefix [where n = n]) (rule build_export [OF st(1,2)])
  note v = verify_accepts [OF st(1,2) assms(3)]
  have "mapE (\<lambda>entry. j_observation (je_observation entry)) (j_entries sha jid lid ?hs) = Inr (map je_observation (j_entries sha jid lid ?hs))"
    by (rule entries_observed) (use st(2) in \<open>simp add: j_hist_def\<close>)
  then have "execution_events_from_journal_export_v1 sha (j_export_at sha jid lid ?hs) (j_checkpoint_at sha jid lid ?hs) = Inr (map snd ?hs)"
    by (simp add: execution_events_from_journal_export_v1_def export_at_valid [OF st(1,2)] v entries_observations)
  then show ?thesis using b v by blast
qed

text \<open>C36. A verified export holds what the journal held: when an export verifies with no reason against a
  checkpoint that the journal issued at the captures \<open>hs\<close>, its entries are exactly the receipts and
  observations of \<open>hs\<close>, unless the hash function has a collision among the texts involved.\<close>
theorem verified_export_is_history:
  assumes "j_ok sha jid lid hs s" "j_checkpoint_of s = (Inr c, s')"
    and "verify_execution_event_journal_export_v1 sha x c = Inr []"
    and "list_all (\<lambda>e. wf_event (ro_event (je_observation e))) (jx_entries x)"
    and "inj_on sha (set (j_hashed_texts sha jid lid (map entry_capture (jx_entries x)) @ j_hashed_texts sha jid lid hs))"
  shows "jx_entries x = j_entries sha jid lid hs \<and> map je_observation (jx_entries x) = map snd hs"
proof -
  have c: "c = j_checkpoint_at sha jid lid hs" by (rule checkpoint_is_at [OF assms(1,2)])
  have wf: "list_all (\<lambda>h. wf_event (ro_event (snd h))) hs"
    unfolding list_all_length
  proof (intro allI impI)
    fix k assume "k < length hs"
    then show "wf_event (ro_event (snd (hs ! k)))"
      using j_hist_nth [of sha jid lid hs k] assms(1) by (cases "hs ! k") (simp add: j_ok_def j_fits_def valid_observation_def)
  qed
  have "jx_entries x = j_entries sha jid lid hs"
    by (rule verified_entries [OF assms(3) [unfolded c] assms(4) wf assms(5)])
  then show ?thesis by (simp add: entries_observations)
qed

theorem verified_export_is_history_witness:
  "map je_observation (jx_entries (j_export_at demo_sha ''J'' ''L'' [demo_capture])) = [demo_x]"
proof -
  let ?x = "j_export_at demo_sha ''J'' ''L'' [demo_capture]"
  have es: "map entry_capture (jx_entries ?x) = [demo_capture]" by (simp add: j_entries_def entry_capture_def)
  have wf: "list_all (\<lambda>e. wf_event (ro_event (je_observation e))) (jx_entries ?x)"
    using demo_valid_observation by (simp add: j_entries_def demo_capture_def valid_observation_def)
  have "map je_observation (jx_entries ?x) = map snd [demo_capture]"
    using verified_export_is_history [OF demo_j_ok [of "[demo_capture]" 9 "[]" "[9]"] demo_j_checkpoint_of _ wf]
      verify_accepts [OF demo_sha_hex demo_hist(1) demo_file(4)] demo_j_inj es by (simp add: demo_j_checkpoint_def)
  then show ?thesis by (simp add: demo_capture_def)
qed

end
