(* ===== verification/SubmitPath.thy ===== *)
theory SubmitPath
  imports IntentLedger Risk
begin

text \<open>
  \<open>src/std0_quant/execution/exclusive_submit_path_v1.py\<close>: the coordinator that owns one intent ledger, a
  copy of one portfolio and the built-in offline stub, and takes an intent through governance evidence,
  clock, risk gate, reservation and ledger to at most one call of the stub.

  The verification of the governance evidence lives in another module and is the argument \<open>verify\<close>; the
  coordinator reads three fields of the eligibility decision itself.  The trusted clock is the list of the
  readings it will give (an exhausted clock gives \<open>nan\<close>); \<open>set_kill_switch\<close> takes no lock, so another
  thread may set the switch before any of its samples: \<open>sp_interference\<close> lists, per sample, what it sets.
\<close>

section \<open>Validation\<close>

definition sub_text :: "string \<Rightarrow> string \<Rightarrow> string res" where
  "sub_text value name = raise_if (value = [] \<or> value \<noteq> py_strip value)
     (ValueError (name @ '' must be nonempty, without surrounding whitespace'')) (Inr value)"

definition sub_number :: "pyfloat \<Rightarrow> string \<Rightarrow> pyfloat res" where
  "sub_number value name = raise_if (\<not> isfinite value \<or> flt value (Fin 0))
     (ValueError (name @ '' must be finite and nonnegative'')) (Inr value)"

definition sub_hash :: "string \<Rightarrow> string \<Rightarrow> string res" where
  "sub_hash value name = bindE (sub_text value name) (\<lambda>v.
     raise_if (length v \<noteq> 64 \<or> \<not> list_all is_lower_hex v) (ValueError (name @ '' must be lowercase SHA256'')) (Inr v))"

section \<open>Policy and evidence\<close>

record validation_target =
  vt_factor_id :: string
  vt_factor_version :: string
  vt_definition_hash :: string
  vt_alpha_id :: string
  vt_alpha_version :: string
  vt_risk_policy_version :: string

definition target_fields :: "validation_target \<Rightarrow> (string \<times> string) list" where
  "target_fields t = [(''factor_id'', vt_factor_id t), (''factor_version'', vt_factor_version t),
     (''definition_hash'', vt_definition_hash t), (''alpha_id'', vt_alpha_id t),
     (''alpha_version'', vt_alpha_version t), (''risk_policy_version'', vt_risk_policy_version t)]"

definition limits_fields :: "risk_limits \<Rightarrow> (string \<times> pyfloat) list" where
  "limits_fields l = [(''max_order_notional'', max_order_notional l), (''max_market_exposure'', max_market_exposure l),
     (''max_gross_exposure'', max_gross_exposure l), (''max_daily_loss'', max_daily_loss l),
     (''max_market_data_age_ms'', max_market_data_age_ms l)]"

definition SUBMIT_OFFLINE :: string where "SUBMIT_OFFLINE = ''OFFLINE''"
definition POLICY_SCHEMA :: string where "POLICY_SCHEMA = ''exclusive_submit_policy_v1''"
definition RESULT_SCHEMA :: string where "RESULT_SCHEMA = ''exclusive_submit_result_v1''"

record submit_policy =
  ep_policy_id :: string
  ep_version :: string
  ep_target :: validation_target
  ep_eligibility_artifact_hash :: string
  ep_limits :: risk_limits
  ep_max_decision_age_ms :: pyfloat
  ep_fee_reserve_bps :: pyfloat
  ep_mode :: string
  ep_schema_version :: string

definition submit_policy_post_init :: "submit_policy \<Rightarrow> submit_policy res" where
  "submit_policy_post_init p =
     bindE (sub_text (ep_policy_id p) ''policy_id'') (\<lambda>_.
     bindE (sub_text (ep_version p) ''version'') (\<lambda>_.
     bindE (mapE (\<lambda>(k, v). sub_text v (''target.'' @ k)) (target_fields (ep_target p))) (\<lambda>_.
     bindE (sub_hash (vt_definition_hash (ep_target p)) ''definition_hash'') (\<lambda>_.
     bindE (sub_hash (ep_eligibility_artifact_hash p) ''eligibility_artifact_hash'') (\<lambda>_.
     bindE (mapE (\<lambda>(k, v). sub_number v (''limits.'' @ k)) (limits_fields (ep_limits p))) (\<lambda>_.
     bindE (sub_number (ep_max_decision_age_ms p) ''max_decision_age_ms'') (\<lambda>a.
     bindE (sub_number (ep_fee_reserve_bps p) ''fee_reserve_bps'') (\<lambda>b.
     raise_if (ep_mode p \<noteq> SUBMIT_OFFLINE \<or> ep_schema_version p \<noteq> POLICY_SCHEMA)
       (ValueError ''only OFFLINE exclusive submit policy v1 is supported'')
       (Inr (p\<lparr>ep_max_decision_age_ms := a, ep_fee_reserve_bps := b\<rparr>))))))))))"

definition submit_policy_json :: "submit_policy \<Rightarrow> json" where
  "submit_policy_json p = JObj [(''policy_id'', JStr (ep_policy_id p)), (''version'', JStr (ep_version p)),
     (''target'', JObj (map (\<lambda>(k, v). (k, JStr v)) (target_fields (ep_target p)))),
     (''eligibility_artifact_hash'', JStr (ep_eligibility_artifact_hash p)),
     (''limits'', JObj (map (\<lambda>(k, v). (k, JFloat v)) (limits_fields (ep_limits p)))),
     (''max_decision_age_ms'', JFloat (ep_max_decision_age_ms p)), (''fee_reserve_bps'', JFloat (ep_fee_reserve_bps p)),
     (''mode'', JStr (ep_mode p)), (''schema_version'', JStr (ep_schema_version p))]"

definition exclusive_submit_policy_v1_hash :: "hasher \<Rightarrow> submit_policy \<Rightarrow> string res" where
  "exclusive_submit_policy_v1_hash sha p = bindE (submit_policy_post_init p) (\<lambda>q.
     Inr (sha (''std0-quant/exclusive-submit-policy/v1'' @ NL @ canonical (submit_policy_json q))))"

text \<open>The eligibility decision as the coordinator reads it, and the evidence around it, of any type.\<close>

definition ELIGIBLE :: string where "ELIGIBLE = ''ELIGIBLE''"

record eligibility =
  el_status :: string
  el_artifact_hash :: string
  el_target :: validation_target

record 'g evidence =
  ev_eligibility :: eligibility
  ev_documents :: 'g

section \<open>The offline stub\<close>

record dispatch_request =
  rq_intent_json :: json
  rq_intent_hash :: string
  rq_receipt :: intent_receipt
  rq_eligibility_artifact_hash :: string
  rq_submit_policy_hash :: string
  rq_submit_ts_ms :: pyfloat
  rq_mode :: string

record stub_response =
  re_mode :: string
  re_intent_hash :: string
  re_record_hash :: string
  re_event :: order_event

datatype scenario = ACK | REJECT_ALL | TIMEOUT | MALFORMED

record stub =
  ob_scenario :: scenario
  ob_token :: "nat option"
  ob_requests :: "dispatch_request list"

definition stub_claim :: "nat \<Rightarrow> stub \<Rightarrow> unit res \<times> stub" where
  "stub_claim token b = failS (ob_token b \<noteq> None) (SubmitPathUnavailableError ''offline stub already owned'') b
     (Inr (), b\<lparr>ob_token := Some token\<rparr>)"

definition stub_release :: "nat \<Rightarrow> stub \<Rightarrow> stub" where
  "stub_release token b = (if ob_token b = Some token then b\<lparr>ob_token := None\<rparr> else b)"

definition stub_event :: "scenario \<Rightarrow> order_intent \<Rightarrow> dispatch_request \<Rightarrow> order_event res" where
  "stub_event sc i rq = order_event_post_init
     \<lparr>oe_event_id = ''offline:'' @ oi_intent_id i @ '':'' @ int_str (rc_sequence (rq_receipt rq)),
      oe_intent_id = oi_intent_id i,
      oe_event_type = event_type_value (if sc = ACK then VENUE_ACK else REJECTED_EVENT),
      oe_receive_ts_ms = rq_submit_ts_ms rq, oe_venue_ts_ms = None,
      oe_venue_order_id = (if sc = ACK then Some (''offline:'' @ int_str (rc_sequence (rq_receipt rq))) else None),
      oe_fill_qty = Fin 0, oe_fill_price = None, oe_cumulative_filled_qty = Fin 0,
      oe_remaining_qty = Some (oi_qty i), oe_reason = Some ''OFFLINE_STUB_NO_FILL'',
      oe_schema_version = ORDER_EVENT_SCHEMA_V1\<rparr>"

definition stub_dispatch :: "nat \<Rightarrow> dispatch_request \<Rightarrow> stub \<Rightarrow> stub_response option res \<times> stub" where
  "stub_dispatch token rq b =
     failS (ob_token b \<noteq> Some token \<or> rq_mode rq \<noteq> SUBMIT_OFFLINE)
       (SubmitPathUnavailableError ''dispatch must use the owning offline path'') b (
     let b' = b\<lparr>ob_requests := ob_requests b @ [rq]\<rparr> in
     failS (ob_scenario b = TIMEOUT) TimeoutError b' (
     if ob_scenario b = MALFORMED then (Inr None, b') else
     checkS (intent_from_dict (obj_fields (rq_intent_json rq))) b' (\<lambda>i.
     checkS (stub_event (ob_scenario b) i rq) b' (\<lambda>event.
     (Inr (Some \<lparr>re_mode = SUBMIT_OFFLINE, re_intent_hash = rq_intent_hash rq,
        re_record_hash = rc_record_hash (rq_receipt rq), re_event = event\<rparr>), b')))))"

definition validate_response :: "stub_response option \<Rightarrow> dispatch_request \<Rightarrow> order_intent \<Rightarrow> order_event res" where
  "validate_response response rq i =
     (case response of None \<Rightarrow> Inl (ValueError ''invalid offline response type'')
      | Some r \<Rightarrow>
        raise_if (re_mode r \<noteq> SUBMIT_OFFLINE \<or> re_intent_hash r \<noteq> rq_intent_hash rq
                  \<or> re_record_hash r \<noteq> rc_record_hash (rq_receipt rq))
          (ValueError ''offline response binding mismatch'') (
        bindE (event_from_dict (obj_fields (event_to_dict (re_event r)))) (\<lambda>event.
        raise_if (oe_intent_id event \<noteq> oi_intent_id i \<or> oe_event_type event \<notin> {VENUE_ACK, REJECTED_EVENT}
                  \<or> \<not> feq (oe_fill_qty event) (Fin 0) \<or> oe_fill_price event \<noteq> None
                  \<or> \<not> feq (oe_cumulative_filled_qty event) (Fin 0)
                  \<or> (case oe_remaining_qty event of None \<Rightarrow> True | Some q \<Rightarrow> \<not> feq q (oi_qty i))
                  \<or> oe_venue_ts_ms event \<noteq> None \<or> \<not> feq (oe_receive_ts_ms event) (rq_submit_ts_ms rq)
                  \<or> oe_reason event \<noteq> Some ''OFFLINE_STUB_NO_FILL'')
          (ValueError ''unsupported offline event semantics'') (
        raise_if (oe_event_type event = VENUE_ACK \<and>
                  oe_venue_order_id event \<noteq> Some (''offline:'' @ int_str (rc_sequence (rq_receipt rq))))
          (ValueError ''offline acknowledgement identity mismatch'') (
        raise_if (oe_event_type event \<noteq> VENUE_ACK \<and> oe_venue_order_id event \<noteq> None)
          (ValueError ''rejection cannot acknowledge an order'') (Inr event))))))"

section \<open>State\<close>

record hold =
  hd_condition_id :: string
  hd_outcome :: string
  hd_cash :: pyfloat
  hd_sell_qty :: pyfloat
  hd_buy_notional :: pyfloat

record attempt =
  at_intent_id :: string
  at_intent_hash :: string
  at_submit_policy_hash :: string
  at_eligibility_artifact_hash :: string
  at_status :: string
  at_reasons :: "string list"
  at_adapter_called :: bool
  at_receipt :: "intent_receipt option"
  at_risk :: "risk_result option"
  at_event :: "order_event option"
  at_reserved_cash :: pyfloat
  at_reserved_sell_qty :: pyfloat
  at_previous_status :: "string option"
  at_mode :: string
  at_schema_version :: string

record submit_path =
  sp_pid :: int
  sp_kill :: bool
  sp_closed :: bool
  sp_in_submit :: bool
  sp_halt_reason :: "string option"
  sp_portfolio :: portfolio
  sp_policy :: submit_policy
  sp_policy_hash :: string
  sp_clock :: "pyfloat list"
  sp_interference :: "bool option list"
  sp_stub :: stub
  sp_token :: nat
  sp_ledger :: ledger
  sp_world :: world
  sp_tip :: ledger_checkpoint
  sp_holds :: "(string \<times> hold) list"
  sp_results :: "(string \<times> attempt) list"
  sp_consumed_hashes :: "(string \<times> string) list"

definition portfolio_copy :: "portfolio \<Rightarrow> portfolio res" where
  "portfolio_copy p =
     bindE (sub_number (pf_cash p) ''cash'') (\<lambda>_.
     bindE (sub_number (pf_reserved_cash p) ''reserved_cash'') (\<lambda>_.
     raise_if (\<not> isfinite (pf_realized_pnl p)) (ValueError ''invalid realized_pnl'') (
     raise_if (\<not> feq (pf_reserved_cash p) (Fin 0) \<or> pf_reserved_positions p \<noteq> [])
       (ValueError ''initial portfolio must be reconciled with no outstanding reservations'') (
     bindE (mapE (\<lambda>(key, q).
        raise_if (key \<noteq> (po_condition_id q, po_outcome q)) (ValueError ''invalid position identity'') (
        bindE (sub_text (fst key) ''condition_id'') (\<lambda>_.
        bindE (sub_text (snd key) ''outcome'') (\<lambda>_.
        bindE (sub_number (po_qty q) ''position qty'') (\<lambda>_.
        bindE (sub_number (po_cost_basis q) ''cost_basis'') (\<lambda>_.
        raise_if (feq (po_qty q) (Fin 0) \<and> \<not> feq (po_cost_basis q) (Fin 0))
          (ValueError ''empty position cannot have a cost basis'') (Inr ())))))))
       (pf_positions p)) (\<lambda>_.
     bindE (sub_number (gross_cost_exposure p) ''gross exposure'') (\<lambda>_. Inr p))))))"

text \<open>A call of the owned ledger, of the stub, a reading of the clock, a sample of the kill switch.\<close>

definition with_ledger :: "(lstate \<Rightarrow> 'a res \<times> lstate) \<Rightarrow> submit_path \<Rightarrow> 'a res \<times> submit_path" where
  "with_ledger f s = (case f (sp_ledger s, sp_world s) of (r, (l, w)) \<Rightarrow> (r, s\<lparr>sp_ledger := l, sp_world := w\<rparr>))"

definition with_stub :: "(stub \<Rightarrow> 'a res \<times> stub) \<Rightarrow> submit_path \<Rightarrow> 'a res \<times> submit_path" where
  "with_stub f s = (case f (sp_stub s) of (r, b) \<Rightarrow> (r, s\<lparr>sp_stub := b\<rparr>))"

definition read_clock :: "submit_path \<Rightarrow> pyfloat res \<times> submit_path" where
  "read_clock s = (sub_number (pop NaN (sp_clock s)) ''clock_ms'', s\<lparr>sp_clock := drop 1 (sp_clock s)\<rparr>)"

definition kill_is_set :: "submit_path \<Rightarrow> bool \<times> submit_path" where
  "kill_is_set s =
     (let k = (case pop None (sp_interference s) of None \<Rightarrow> sp_kill s | Some b \<Rightarrow> b) in
      (k, s\<lparr>sp_kill := k, sp_interference := drop 1 (sp_interference s)\<rparr>))"

section \<open>Reservations\<close>

definition copy_call :: "(portfolio \<Rightarrow> unit res \<times> portfolio) \<Rightarrow> portfolio \<Rightarrow> portfolio res" where
  "copy_call f p = (case f p of (Inl e, _) \<Rightarrow> Inl e | (Inr _, p') \<Rightarrow> Inr p')"

definition sell_quantities :: "(string \<times> hold) list \<Rightarrow> (pkey \<times> pyfloat list) list" where
  "sell_quantities holds = fold (\<lambda>(_, h) d.
     if hd_sell_qty h \<noteq> Fin 0
     then dput (hd_condition_id h, hd_outcome h) (dget d (hd_condition_id h, hd_outcome h) [] @ [hd_sell_qty h]) d
     else d) holds []"

definition REL_TOL :: pyfloat where "REL_TOL = EPS"

definition reservation_matches :: "pyfloat \<Rightarrow> pyfloat \<Rightarrow> bool" where
  "reservation_matches actual expected \<longleftrightarrow> isfinite actual \<and> fle (Fin 0) actual \<and> isfinite expected \<and>
     fle (Fin 0) expected \<and> isclose REL_TOL actual expected"

definition validate_reservation_candidate :: "portfolio \<Rightarrow> portfolio \<Rightarrow> (string \<times> hold) list \<Rightarrow> unit res" where
  "validate_reservation_candidate current updated holds =
     raise_if (\<not> feq (pf_cash updated) (pf_cash current) \<or> \<not> feq (pf_realized_pnl updated) (pf_realized_pnl current)
               \<or> pf_positions updated \<noteq> pf_positions current)
       (SubmitPathUnavailableError ''reservation update changed non-reservation state'') (
     bindE (fsum (map (hd_cash \<circ> snd) holds)) (\<lambda>expected_cash.
     bindE (mapE (\<lambda>(k, qs). bindE (fsum qs) (\<lambda>x. Inr (k, x))) (sell_quantities holds)) (\<lambda>expected_positions.
     raise_if (\<not> reservation_matches (pf_reserved_cash updated) expected_cash)
       (SubmitPathUnavailableError ''cash reservation does not match active holds'') (
     raise_if (\<not> list_all (\<lambda>k. reservation_matches (dget (pf_reserved_positions updated) k (Fin 0)) (dget expected_positions k (Fin 0)))
                 (map fst (pf_reserved_positions updated) @ map fst expected_positions))
       (SubmitPathUnavailableError ''inventory reservation does not match active holds'') (Inr ())))))"

definition hold_of :: "order_intent \<Rightarrow> pyfloat \<Rightarrow> hold" where
  "hold_of i cash = \<lparr>hd_condition_id = oi_condition_id i, hd_outcome = oi_outcome i, hd_cash = cash,
     hd_sell_qty = (if oi_side i = SELL then oi_qty i else Fin 0),
     hd_buy_notional = (if oi_side i = BUY then order_notional i else Fin 0)\<rparr>"

definition sp_reserve :: "order_intent \<Rightarrow> pyfloat \<Rightarrow> submit_path \<Rightarrow> unit res \<times> submit_path" where
  "sp_reserve i cash s =
     (let h = hold_of i cash; holds = dput (oi_intent_id i) h (sp_holds s) in
      checkS (if hd_cash h \<noteq> Fin 0 then copy_call (reserve_buy_cash (hd_cash h)) (sp_portfolio s) else Inr (sp_portfolio s)) s (\<lambda>p.
      checkS (if hd_sell_qty h \<noteq> Fin 0 then copy_call (reserve_sell_qty (hd_condition_id h) (hd_outcome h) (hd_sell_qty h)) p
              else Inr p) s (\<lambda>updated.
      checkS (validate_reservation_candidate (sp_portfolio s) updated holds) s (\<lambda>_.
      (Inr (), s\<lparr>sp_portfolio := updated, sp_holds := holds\<rparr>)))))"

definition sp_release_hold :: "string \<Rightarrow> submit_path \<Rightarrow> unit res \<times> submit_path" where
  "sp_release_hold iid s =
     (case map_of (sp_holds s) iid of None \<Rightarrow> (Inl KeyError, s) | Some h \<Rightarrow>
      let holds = dpop iid (sp_holds s) in
      checkS (if hd_cash h \<noteq> Fin 0 then copy_call (release_reserved_cash (hd_cash h)) (sp_portfolio s) else Inr (sp_portfolio s)) s (\<lambda>p.
      checkS (if hd_sell_qty h \<noteq> Fin 0 then copy_call (release_reserved_sell_qty (hd_condition_id h) (hd_outcome h) (hd_sell_qty h)) p
              else Inr p) s (\<lambda>updated.
      checkS (validate_reservation_candidate (sp_portfolio s) updated holds) s (\<lambda>_.
      (Inr (), s\<lparr>sp_portfolio := updated, sp_holds := holds\<rparr>)))))"

section \<open>Construction\<close>

text \<open>\<open>_open\<close>: \<open>token\<close> stands for the identity of the object made there.  A failure after the ledger was
  opened closes it and gives the stub back; when that close raises too, the stub stays claimed.\<close>

definition sp_open ::
  "hasher \<Rightarrow> bool \<Rightarrow> ledger_checkpoint option \<Rightarrow> string \<Rightarrow> portfolio \<Rightarrow> submit_policy \<Rightarrow> pyfloat list \<Rightarrow> bool option list \<Rightarrow>
     nat \<Rightarrow> stub \<times> world \<Rightarrow> submit_path res \<times> (stub \<times> world)" where
  "sp_open sha create checkpoint lid p policy clock interference token bw =
     (let (b, w) = bw in
      checkS (exclusive_submit_policy_v1_hash sha policy) (b, w) (\<lambda>policy_hash.
      checkS (portfolio_copy p) (b, w) (\<lambda>owned.
      case stub_claim token b of
        (Inl e, b1) \<Rightarrow> (Inl e, (b1, w))
      | (Inr _, b1) \<Rightarrow>
        (case (if create then ledger_create sha lid w else ledger_open_existing sha lid checkpoint w) of
           (Inl e, w1) \<Rightarrow> (Inl e, (stub_release token b1, w1))
         | (Inr l, w1) \<Rightarrow>
           (case ledger_checkpoint_of (l, w1) of
              (Inl e, s) \<Rightarrow> (case ledger_close s of
                 (Inl e', (_, w2)) \<Rightarrow> (Inl e', (b1, w2))
               | (Inr _, (_, w2)) \<Rightarrow> (Inl e, (stub_release token b1, w2)))
            | (Inr tip, (l1, w2)) \<Rightarrow>
              (Inr \<lparr>sp_pid = w_pid w, sp_kill = False, sp_closed = False, sp_in_submit = False,
                 sp_halt_reason = (if lc_sequence tip \<noteq> 0 then Some ''RECOVERED_HISTORY_REQUIRES_RECONCILIATION'' else None),
                 sp_portfolio = owned, sp_policy = policy, sp_policy_hash = policy_hash, sp_clock = clock,
                 sp_interference = interference, sp_stub = b1, sp_token = token, sp_ledger = l1, sp_world = w2,
                 sp_tip = tip, sp_holds = [], sp_results = [], sp_consumed_hashes = []\<rparr>, (b1, w2)))))))"

definition sp_create where
  "sp_create sha lid p policy clock interference token bw = sp_open sha True None lid p policy clock interference token bw"

definition sp_open_existing where
  "sp_open_existing sha checkpoint lid p policy clock interference token bw =
     sp_open sha False checkpoint lid p policy clock interference token bw"

section \<open>The reasons to stop\<close>

definition sp_owner :: "submit_path \<Rightarrow> unit res \<times> submit_path" where
  "sp_owner s =
     failS (w_pid (sp_world s) \<noteq> sp_pid s) (SubmitPathUnavailableError ''fork-inherited submit path'') s (
     failS (sp_closed s) (SubmitPathUnavailableError ''submit path is closed'') s (Inr (), s))"

definition time_reasons :: "order_intent \<Rightarrow> pyfloat \<Rightarrow> submit_path \<Rightarrow> string list \<times> submit_path" where
  "time_reasons i now s =
     (let (k, s') = kill_is_set s; p = sp_policy s' in
      (reason k ''KILL_SWITCH_ACTIVE'' @
       (if flt now (oi_decision_ts_ms i) then [''DECISION_FROM_FUTURE'']
        else reason (flt (ep_max_decision_age_ms p) (fsub now (oi_decision_ts_ms i))) ''STALE_DECISION'') @
       (if flt now (oi_market_data_ts_ms i) then [''MARKET_DATA_FROM_FUTURE'']
        else reason (flt (max_market_data_age_ms (ep_limits p)) (fsub now (oi_market_data_ts_ms i))) ''STALE_MARKET_DATA''), s'))"

definition governance_reasons ::
  "('g evidence \<Rightarrow> string list res) \<Rightarrow> order_intent \<Rightarrow> 'g evidence \<Rightarrow> submit_policy \<Rightarrow> string list res" where
  "governance_reasons verify i ev p =
     bindE (verify ev) (\<lambda>reasons.
     let gate = ev_eligibility ev; expected = ep_target p in
     Inr (reasons @ reason (el_status gate \<noteq> ELIGIBLE) ''PRODUCTION_ELIGIBILITY_NOT_ELIGIBLE''
       @ reason (el_artifact_hash gate \<noteq> ep_eligibility_artifact_hash p) ''ELIGIBILITY_ANCHOR_MISMATCH''
       @ reason (el_target gate \<noteq> expected) ''GOVERNANCE_TARGET_MISMATCH''
       @ reason ((oi_strategy_id i, oi_strategy_version i) \<noteq> (vt_alpha_id expected, vt_alpha_version expected))
           ''INTENT_STRATEGY_IDENTITY_MISMATCH''
       @ reason (oi_risk_policy_version i \<noteq> vt_risk_policy_version expected) ''INTENT_RISK_POLICY_MISMATCH''))"

text \<open>What the exposures of all pending BUY orders add to the verdict of the risk gate.\<close>

definition pending_reasons :: "order_intent \<Rightarrow> pyfloat \<Rightarrow> risk_result \<Rightarrow> submit_path \<Rightarrow> string list res" where
  "pending_reasons i cash risk s =
     (let limits = ep_limits (sp_policy s); holds = map snd (sp_holds s);
          pending_market = py_sum (map hd_buy_notional (filter (\<lambda>h. hd_condition_id h = oi_condition_id i) holds));
          pending_gross = py_sum (map hd_buy_notional holds);
          market_worst = fadd (py_max (rr_market_exposure_before risk) (rr_market_exposure_after risk)) pending_market;
          gross_worst = fadd (py_max (rr_gross_exposure_before risk) (rr_gross_exposure_after risk)) pending_gross in
      bindE (if oi_side i = SELL then available_position_qty (sp_portfolio s) (oi_condition_id i) (oi_outcome i)
             else Inr (oi_qty i)) (\<lambda>available.
      Inr (reason (\<not> rr_allowed risk \<and> rr_reasons risk = []) ''RISK_NOT_ALLOWED''
        @ reason (\<not> isfinite market_worst \<or> flt (max_market_exposure limits) market_worst) ''PENDING_MAX_MARKET_EXPOSURE_EXCEEDED''
        @ reason (\<not> isfinite gross_worst \<or> flt (max_gross_exposure limits) gross_worst) ''PENDING_MAX_GROSS_EXPOSURE_EXCEEDED''
        @ reason (flt (available_cash (sp_portfolio s)) cash) ''INSUFFICIENT_AVAILABLE_CASH''
        @ reason (oi_side i = SELL \<and> flt available (oi_qty i)) ''INSUFFICIENT_AVAILABLE_POSITION'')))"

section \<open>Results\<close>

definition sp_result :: "submit_path \<Rightarrow> order_intent \<Rightarrow> string \<Rightarrow> string \<Rightarrow> string \<Rightarrow> string list \<Rightarrow> attempt" where
  "sp_result s i digest gate_hash status reasons =
     \<lparr>at_intent_id = oi_intent_id i, at_intent_hash = digest, at_submit_policy_hash = sp_policy_hash s,
      at_eligibility_artifact_hash = gate_hash, at_status = status, at_reasons = dict_fromkeys reasons,
      at_adapter_called = False, at_receipt = None, at_risk = None, at_event = None,
      at_reserved_cash = (case map_of (sp_holds s) (oi_intent_id i) of None \<Rightarrow> Fin 0 | Some h \<Rightarrow> hd_cash h),
      at_reserved_sell_qty = (case map_of (sp_holds s) (oi_intent_id i) of None \<Rightarrow> Fin 0 | Some h \<Rightarrow> hd_sell_qty h),
      at_previous_status = None, at_mode = SUBMIT_OFFLINE, at_schema_version = RESULT_SCHEMA\<rparr>"

definition sp_store :: "attempt \<Rightarrow> submit_path \<Rightarrow> attempt res \<times> submit_path" where
  "sp_store a s = (Inr a, s\<lparr>sp_results := dput (at_intent_id a) a (sp_results s)\<rparr>)"

definition sp_halt :: "string \<Rightarrow> submit_path \<Rightarrow> submit_path" where
  "sp_halt why s = s\<lparr>sp_halt_reason := Some why\<rparr>"

text \<open>\<open>try: m except Exception: h\<close>, going on with \<open>k\<close>: \<open>OtherException\<close> is a \<open>BaseException\<close>.\<close>

definition except_exception ::
  "'a res \<times> 's \<Rightarrow> ('s \<Rightarrow> 'b res \<times> 's) \<Rightarrow> ('a \<Rightarrow> 's \<Rightarrow> 'b res \<times> 's) \<Rightarrow> 'b res \<times> 's" where
  "except_exception m h k = (case m of (Inr x, s) \<Rightarrow> k x s
     | (Inl e, s) \<Rightarrow> if e = OtherException then (Inl e, s) else h s)"

section \<open>Submit\<close>

definition sp_call_stub ::
  "order_intent \<Rightarrow> string \<Rightarrow> string \<Rightarrow> intent_receipt \<Rightarrow> risk_result \<Rightarrow> pyfloat \<Rightarrow> submit_path \<Rightarrow> attempt res \<times> submit_path" where
  "sp_call_stub i digest gate_hash receipt risk dispatch_now s =
     (let rq = \<lparr>rq_intent_json = intent_to_dict i, rq_intent_hash = digest, rq_receipt = receipt,
          rq_eligibility_artifact_hash = gate_hash, rq_submit_policy_hash = sp_policy_hash s,
          rq_submit_ts_ms = dispatch_now, rq_mode = SUBMIT_OFFLINE\<rparr>;
          called = (\<lambda>s status reasons. (sp_result s i digest gate_hash status reasons)
             \<lparr>at_adapter_called := True, at_receipt := Some receipt, at_risk := Some risk\<rparr>) in
      except_exception
        (thenS (with_stub (stub_dispatch (sp_token s) rq) s) (\<lambda>response s1.
         checkS (validate_response response rq i) s1 (\<lambda>event. (Inr event, s1))))
        (\<lambda>s1. let s2 = sp_halt ''DISPATCH_OUTCOME_UNKNOWN_REQUIRES_RECONCILIATION'' s1 in
           sp_store (called s2 ''UNKNOWN'' [''DISPATCH_OUTCOME_UNKNOWN_REQUIRES_RECONCILIATION'']) s2)
        (\<lambda>event s1.
           if oe_event_type event = REJECTED_EVENT
           then thenS (sp_release_hold (oi_intent_id i) s1) (\<lambda>_ s2.
                sp_store ((called s2 ''OFFLINE_REJECTED'' [])\<lparr>at_event := Some event\<rparr>) s2)
           else sp_store ((called s1 ''OFFLINE_ACK'' [])\<lparr>at_event := Some event\<rparr>) s1))"

definition ledger_at_tip :: "submit_path \<Rightarrow> unit res \<times> submit_path" where
  "ledger_at_tip s = thenS (with_ledger ledger_checkpoint_of s) (\<lambda>c s1.
     failS (c \<noteq> sp_tip s1) (SubmitPathUnavailableError ''ledger changed outside this coordinator'') s1 (Inr (), s1))"

text \<open>From the precommit to the stub: the clock and the kill switch are sampled before and after the last
  look at the ledger.\<close>

definition sp_redeem ::
  "order_intent \<Rightarrow> string \<Rightarrow> string \<Rightarrow> intent_receipt \<Rightarrow> risk_result \<Rightarrow> pyfloat \<Rightarrow> submit_path \<Rightarrow> attempt res \<times> submit_path" where
  "sp_redeem i digest gate_hash receipt risk now s =
     (let held = (\<lambda>s status reasons. (sp_result s i digest gate_hash status reasons)
             \<lparr>at_receipt := Some receipt, at_risk := Some risk\<rparr>) in
      thenS (read_clock s) (\<lambda>first_now s1.
      let (t1, s2) = time_reasons i first_now s1;
          reasons1 = t1 @ reason (flt first_now now) ''CLOCK_MOVED_BACKWARDS'' in
      except_exception (ledger_at_tip s2)
        (\<lambda>s3. let s4 = sp_halt ''LEDGER_CHANGED_BEFORE_DISPATCH_REQUIRES_RECONCILIATION'' s3 in
           sp_store (held s4 ''RECONCILIATION_REQUIRED'' [''LEDGER_CHANGED_BEFORE_DISPATCH_REQUIRES_RECONCILIATION'']) s4)
        (\<lambda>_ s3.
           thenS (read_clock s3) (\<lambda>final_now s4.
           let (t2, s5) = time_reasons i final_now s4;
               reasons = reasons1 @ t2 @ reason (flt final_now first_now) ''CLOCK_MOVED_BACKWARDS'' in
           if reasons \<noteq> []
           then thenS (sp_release_hold (oi_intent_id i) s5) (\<lambda>_ s6. sp_store (held s6 ''NOT_DISPATCHED'' reasons) s6)
           else sp_call_stub i digest gate_hash receipt risk final_now s5))))"

text \<open>The append to the ledger, and the checks that the receipt, the checkpoint, the stored intent and the
  last receipt of the ledger all name this intent.\<close>

definition sp_precommit :: "hasher \<Rightarrow> order_intent \<Rightarrow> string \<Rightarrow> submit_path \<Rightarrow> intent_receipt res \<times> submit_path" where
  "sp_precommit sha i digest s =
     (let mismatch = SubmitPathUnavailableError ''precommit receipt binding mismatch'' in
      thenS (with_ledger (ledger_append sha i) s) (\<lambda>receipt s1.
      thenS (with_ledger ledger_checkpoint_of s1) (\<lambda>tip s2.
      thenS (with_ledger (ledger_get_intent (oi_intent_id i)) s2) (\<lambda>stored s3.
      case stored of None \<Rightarrow> (Inl mismatch, s3) | Some x \<Rightarrow>
      checkS (order_intent_payload_hash_v1 sha x) s3 (\<lambda>h.
      failS (h \<noteq> digest \<or> rc_intent_id receipt \<noteq> oi_intent_id i \<or> rc_intent_hash receipt \<noteq> digest
             \<or> rc_ledger_id receipt \<noteq> lc_ledger_id (sp_tip s3) \<or> rc_sequence receipt \<noteq> lc_sequence (sp_tip s3) + 1) mismatch s3 (
      checkS (ledger_checkpoint_post_init \<lparr>lc_ledger_id = rc_ledger_id receipt, lc_sequence = rc_sequence receipt,
                lc_record_hash = rc_record_hash receipt\<rparr>) s3 (\<lambda>c.
      failS (tip \<noteq> c) mismatch s3 (
      thenS (with_ledger ledger_receipts s3) (\<lambda>rs s4.
      failS (rs = [] \<or> last rs \<noteq> receipt) mismatch s4 (Inr receipt, s4\<lparr>sp_tip := tip\<rparr>)))))))))) "

definition sp_commit ::
  "hasher \<Rightarrow> order_intent \<Rightarrow> string \<Rightarrow> string \<Rightarrow> risk_result \<Rightarrow> pyfloat \<Rightarrow> pyfloat \<Rightarrow> submit_path \<Rightarrow> attempt res \<times> submit_path" where
  "sp_commit sha i digest gate_hash risk now cash s =
     thenS (sp_reserve i cash s) (\<lambda>_ s1.
     except_exception (sp_precommit sha i digest (s1\<lparr>sp_consumed_hashes := dput (oi_intent_id i) digest (sp_consumed_hashes s1)\<rparr>))
       (\<lambda>s2. let s3 = sp_halt ''PRECOMMIT_FAILED_REQUIRES_RECONCILIATION'' s2 in
          sp_store ((sp_result s3 i digest gate_hash ''PRECOMMIT_FAILED'' [''PRECOMMIT_FAILED_REQUIRES_RECONCILIATION''])
             \<lparr>at_risk := Some risk\<rparr>) s3)
       (\<lambda>receipt s2. sp_redeem i digest gate_hash receipt risk now s2))"

definition sp_assess :: "hasher \<Rightarrow> order_intent \<Rightarrow> string \<Rightarrow> string \<Rightarrow> pyfloat \<Rightarrow> submit_path \<Rightarrow> attempt res \<times> submit_path" where
  "sp_assess sha i digest gate_hash now s =
     checkS (sub_number (order_notional i) ''order notional'') s (\<lambda>notional.
     failS (fle notional (Fin 0)) (ValueError ''order notional must remain positive after multiplication'') s (
     checkS (bindE (fdiv (fmul notional (ep_fee_reserve_bps (sp_policy s))) (Fin 10000)) (\<lambda>x. sub_number x ''fee reserve'')) s (\<lambda>fee.
     checkS (if oi_side i = BUY then sub_number (fadd notional fee) ''cash requirement'' else Inr (Fin 0)) s (\<lambda>cash.
     checkS (risk_intent_post_init \<lparr>ri_condition_id = oi_condition_id i, ri_outcome = oi_outcome i,
               ri_side = side_value (oi_side i), ri_qty = oi_qty i, ri_limit_price = oi_limit_price i\<rparr>) s (\<lambda>ri.
     let (k, s1) = kill_is_set s in
     checkS (risk_context_post_init \<lparr>now_ts_ms = now, market_data_ts_ms = oi_market_data_ts_ms i, kill_switch = k,
               estimated_fee_cost = fee\<rparr>) s1 (\<lambda>context.
     checkS (evaluate_order_risk (sp_portfolio s1) ri (ep_limits (sp_policy s1)) context) s1 (\<lambda>risk.
     checkS (pending_reasons i cash risk s1) s1 (\<lambda>pending.
     if rr_reasons risk @ pending \<noteq> []
     then (Inr ((sp_result s1 i digest gate_hash ''BLOCKED'' (rr_reasons risk @ pending))\<lparr>at_risk := Some risk\<rparr>), s1)
     else sp_commit sha i digest gate_hash risk now cash s1))))))))"

definition sp_decide ::
  "hasher \<Rightarrow> ('g evidence \<Rightarrow> string list res) \<Rightarrow> order_intent \<Rightarrow> string \<Rightarrow> 'g evidence \<Rightarrow> submit_path \<Rightarrow> attempt res \<times> submit_path" where
  "sp_decide sha verify i digest ev s =
     checkS (governance_reasons verify i ev (sp_policy s)) s (\<lambda>governance.
     thenS (read_clock s) (\<lambda>now s1.
     let (t, s2) = time_reasons i now s1; gate_hash = el_artifact_hash (ev_eligibility ev) in
     if governance @ t \<noteq> [] then (Inr (sp_result s2 i digest gate_hash ''BLOCKED'' (governance @ t)), s2)
     else sp_assess sha i digest gate_hash now s2))"

definition sp_duplicate :: "submit_path \<Rightarrow> order_intent \<Rightarrow> string \<Rightarrow> attempt" where
  "sp_duplicate s i digest =
     (let old = map_of (sp_results s) (oi_intent_id i) in
      (sp_result s i digest (case old of None \<Rightarrow> ep_eligibility_artifact_hash (sp_policy s) | Some a \<Rightarrow> at_eligibility_artifact_hash a)
         ''DUPLICATE'' [''ALREADY_CONSUMED_NO_REDISPATCH''])
      \<lparr>at_receipt := (case old of None \<Rightarrow> None | Some a \<Rightarrow> at_receipt a),
       at_previous_status := Some (case old of None \<Rightarrow> ''UNKNOWN'' | Some a \<Rightarrow> at_status a)\<rparr>)"

definition sp_submit_locked ::
  "hasher \<Rightarrow> ('g evidence \<Rightarrow> string list res) \<Rightarrow> order_intent \<Rightarrow> string \<Rightarrow> 'g evidence \<Rightarrow> submit_path \<Rightarrow> attempt res \<times> submit_path" where
  "sp_submit_locked sha verify i digest ev s =
     (let gate_hash = el_artifact_hash (ev_eligibility ev) in
      case map_of (sp_consumed_hashes s) (oi_intent_id i) of
        Some old_hash \<Rightarrow> failS (old_hash \<noteq> digest) SubmitIntentConflictError s (Inr (sp_duplicate s i digest), s)
      | None \<Rightarrow>
        (case sp_halt_reason s of
           Some why \<Rightarrow> (Inr (sp_result s i digest gate_hash ''RECONCILIATION_REQUIRED'' [why]), s)
         | None \<Rightarrow>
           except_exception (ledger_at_tip s)
             (\<lambda>s1. let s2 = sp_halt ''LEDGER_UNAVAILABLE_REQUIRES_RECONCILIATION'' s1 in
                (Inr (sp_result s2 i digest gate_hash ''RECONCILIATION_REQUIRED'' [''LEDGER_UNAVAILABLE_REQUIRES_RECONCILIATION'']), s2))
             (\<lambda>_ s1. sp_decide sha verify i digest ev s1)))"

definition sp_finish :: "'a res \<times> submit_path \<Rightarrow> 'a res \<times> submit_path" where
  "sp_finish m = (case m of
     (Inr r, s) \<Rightarrow> (Inr r, s\<lparr>sp_in_submit := False\<rparr>)
   | (Inl e, s) \<Rightarrow> (Inl e, (if e = SubmitIntentConflictError then s
        else s\<lparr>sp_halt_reason := Some (case sp_halt_reason s of None \<Rightarrow> ''UNEXPECTED_FAILURE_REQUIRES_RECONCILIATION''
                                      | Some why \<Rightarrow> why)\<rparr>)\<lparr>sp_in_submit := False\<rparr>))"

definition sp_submit ::
  "hasher \<Rightarrow> ('g evidence \<Rightarrow> string list res) \<Rightarrow> order_intent \<Rightarrow> 'g evidence \<Rightarrow> submit_path \<Rightarrow> attempt res \<times> submit_path" where
  "sp_submit sha verify i0 ev s =
     thenS (sp_owner s) (\<lambda>_ s.
     checkS (order_intent_payload_hash_v1 sha i0) s (\<lambda>digest.
     checkS (intent_from_dict (obj_fields (intent_to_dict i0))) s (\<lambda>i.
     thenS (sp_owner s) (\<lambda>_ s.
     failS (sp_in_submit s) (SubmitPathUnavailableError ''reentrant submit is forbidden'') s (
     sp_finish (sp_submit_locked sha verify i digest ev (s\<lparr>sp_in_submit := True\<rparr>)))))))"

section \<open>The other methods\<close>

definition sp_get_halt_reason :: "submit_path \<Rightarrow> string option res \<times> submit_path" where
  "sp_get_halt_reason s = thenS (sp_owner s) (\<lambda>_ s. (Inr (sp_halt_reason s), s))"

definition sp_portfolio_snapshot :: "submit_path \<Rightarrow> portfolio res \<times> submit_path" where
  "sp_portfolio_snapshot s = thenS (sp_owner s) (\<lambda>_ s. (Inr (sp_portfolio s), s))"

definition sp_set_kill_switch :: "bool \<Rightarrow> submit_path \<Rightarrow> unit res \<times> submit_path" where
  "sp_set_kill_switch active s = thenS (sp_owner s) (\<lambda>_ s. (Inr (), s\<lparr>sp_kill := active\<rparr>))"

definition sp_close :: "submit_path \<Rightarrow> unit res \<times> submit_path" where
  "sp_close s =
     failS (w_pid (sp_world s) \<noteq> sp_pid s) (SubmitPathUnavailableError ''fork-inherited submit path must not be used'') s (
     failS (sp_in_submit s) (SubmitPathUnavailableError ''cannot close inside submit'') s (
     if sp_closed s then (Inr (), s) else
     (case with_ledger ledger_close (s\<lparr>sp_closed := True\<rparr>) of
        (r, s1) \<Rightarrow> (r, s1\<lparr>sp_stub := stub_release (sp_token s1) (sp_stub s1)\<rparr>))))"

end
