(* ===== verification/SubmitLaws.thy ===== *)
theory SubmitLaws
  imports SubmitPath LedgerProps
begin

text \<open>
  The invariant of the submit path and its proof, call by call: what the stub received was recorded in the
  ledger before, each intent reaches the stub at most once, and the reservations in the portfolio are those
  of the active holds.
\<close>

section \<open>Postconditions\<close>

lemma post_except:
  "(\<And>e s. m = (Inl e, s) \<Longrightarrow> Q (Inl e) s) \<Longrightarrow> (\<And>e s. m = (Inl e, s) \<Longrightarrow> post Q (h s)) \<Longrightarrow>
     (\<And>x s. m = (Inr x, s) \<Longrightarrow> post Q (k x s)) \<Longrightarrow> post Q (except_exception m h k)"
  by (cases m; cases "fst m") (auto simp: except_exception_def post_def)

lemma post_if: "(b \<Longrightarrow> post Q m) \<Longrightarrow> (\<not> b \<Longrightarrow> post Q n) \<Longrightarrow> post Q (if b then m else n)"
  by simp

lemma post_split: "(\<And>x y. p = (x, y) \<Longrightarrow> post Q (f x y)) \<Longrightarrow> post Q (case p of (x, y) \<Rightarrow> f x y)"
  by (simp add: split: prod.split)

lemma post_option:
  "(q = None \<Longrightarrow> post Q m) \<Longrightarrow> (\<And>x. q = Some x \<Longrightarrow> post Q (f x)) \<Longrightarrow> post Q (case q of None \<Rightarrow> m | Some x \<Rightarrow> f x)"
  by (cases q) simp_all

lemmas submit_intros = post_checkS post_failS post_thenS post_except post_if post_split post_option post_return

section \<open>Calls of the ledger\<close>

text \<open>The three queries leave the handle as the guard of the call leaves it.\<close>

definition entered_only :: "(lstate \<Rightarrow> 'a res \<times> lstate) \<Rightarrow> bool" where
  "entered_only f \<longleftrightarrow> (\<forall>s. snd (f s) = snd (entered s))"

lemma ledger_queries [simp]:
  "entered_only ledger_checkpoint_of" "entered_only (ledger_get_intent k)" "entered_only ledger_receipts"
proof -
  have "snd (thenS (entered s) (\<lambda>_ s1. g s1)) = snd (entered s)" if "\<And>s. snd (g s) = s" for s and g :: "lstate \<Rightarrow> 'a res \<times> lstate"
    using that by (cases "entered s"; cases "fst (entered s)") auto
  note step = this
  show "entered_only ledger_checkpoint_of" "entered_only (ledger_get_intent k)" "entered_only ledger_receipts"
    unfolding entered_only_def ledger_checkpoint_of_def ledger_get_intent_def ledger_receipts_def
    by (auto intro!: step simp: checkS_def split: sum.splits option.splits json.splits)
qed

lemma query_keeps:
  assumes "entered_only f" "f s = (r, s')"
  shows "ledger_ok sha lid is s \<Longrightarrow> ledger_ok sha lid is s'" "l_records (fst s') = l_records (fst s)"
proof -
  have "snd (entered s) = s'" using assms by (metis entered_only_def snd_conv)
  then obtain q where q: "entered s = (q, s')" by (metis prod.collapse)
  show "ledger_ok sha lid is s \<Longrightarrow> ledger_ok sha lid is s'" using entered_ok q by blast
  show "l_records (fst s') = l_records (fst s)" using entered_effect(3) [OF q] by (cases s') (auto simp: poison_def)
qed

lemma close_keeps:
  assumes "ledger_ok sha lid is s" "ledger_close s = (r, s')"
  shows "ledger_ok sha lid is s' \<and> l_records (fst s') = l_records (fst s)"
proof -
  obtain l w where s: "s = (l, w)" by (cases s)
  show ?thesis using assms s
    by (auto simp: ledger_close_def ledger_release_def os_close_def Let_def ledger_ok_def agrees_def live_def split: if_splits)
qed

text \<open>After \<open>append\<close> the handle has every entry it had, and the entry of the receipt it returned.\<close>

lemma append_entries:
  assumes "ledger_ok sha lid is s" "floats_typed i" "ledger_append sha i s = (r, s')"
  shows "(\<exists>js. ledger_ok sha lid js s') \<and> prefix (l_records (fst s)) (l_records (fst s')) \<and>
    (\<forall>rc. r = Inr rc \<longrightarrow> (rc, canonical (intent_to_dict i)) \<in> set (l_records (fst s')))"
proof -
  have a: "recordable_list sha lid is" "agrees sha lid is (fst s)" using assms(1) by (simp_all add: ledger_ok_def)
  note len = agrees_shape(1) [OF a] and entry = agrees_shape(2) [OF a]
  from append_cases [OF assms] show ?thesis
  proof (elim disjE exE conjE)
    fix k assume k: "r = Inr (fst (l_records (fst s) ! k))" "k < length is" "is ! k = i"
      and s': "ledger_ok sha lid is s'" "fst s' = fst s"
    have "(fst (l_records (fst s) ! k), canonical (intent_to_dict i)) = l_records (fst s) ! k"
      using entry [OF k(2)] k(3) by (intro prod_eqI) simp_all
    then have "(fst (l_records (fst s) ! k), canonical (intent_to_dict i)) \<in> set (l_records (fst s))"
      using len k(2) by (metis nth_mem)
    then show ?thesis using k(1) s' by auto
  qed auto
qed

section \<open>The invariant\<close>

definition rq_intent_id :: "dispatch_request \<Rightarrow> string" where
  "rq_intent_id rq = rc_intent_id (rq_receipt rq)"

text \<open>A request the stub received for an intent that the ledger had recorded and the path had consumed.\<close>

definition recorded_request :: "hasher \<Rightarrow> submit_path \<Rightarrow> dispatch_request \<Rightarrow> bool" where
  "recorded_request sha s rq \<longleftrightarrow>
     (rq_receipt rq, canonical (rq_intent_json rq)) \<in> set (l_records (sp_ledger s)) \<and>
     map_of (sp_consumed_hashes s) (rq_intent_id rq) = Some (rq_intent_hash rq) \<and>
     rc_intent_hash (rq_receipt rq) = rq_intent_hash rq \<and>
     (\<exists>i. valid_intent i \<and> rq_intent_json rq = intent_to_dict i \<and> rq_intent_id rq = oi_intent_id i \<and>
        order_intent_payload_hash_v1 sha i = Inr (rq_intent_hash rq))"

text \<open>The requests of this path: those after the \<open>n\<close> the stub had received before.\<close>

definition sp_requests :: "nat \<Rightarrow> submit_path \<Rightarrow> dispatch_request list" where
  "sp_requests n s = drop n (ob_requests (sp_stub s))"

definition path_ok :: "hasher \<Rightarrow> string \<Rightarrow> portfolio \<Rightarrow> nat \<Rightarrow> submit_path \<Rightarrow> bool" where
  "path_ok sha lid p0 n s \<longleftrightarrow>
     (\<exists>is. ledger_ok sha lid is (sp_ledger s, sp_world s)) \<and> n \<le> length (ob_requests (sp_stub s)) \<and>
     list_all (recorded_request sha s) (sp_requests n s) \<and> distinct (map rq_intent_id (sp_requests n s)) \<and>
     validate_reservation_candidate p0 (sp_portfolio s) (sp_holds s) = Inr ()"

text \<open>The parts of the state the invariant reads.\<close>

definition path_core :: "submit_path \<Rightarrow> ledger \<times> world \<times> dispatch_request list \<times> (string \<times> string) list \<times> portfolio \<times> (string \<times> hold) list" where
  "path_core s = (sp_ledger s, sp_world s, ob_requests (sp_stub s), sp_consumed_hashes s, sp_portfolio s, sp_holds s)"

lemma recorded_core: "path_core s' = path_core s \<Longrightarrow> recorded_request sha s' = recorded_request sha s"
  by (rule ext) (simp add: path_core_def recorded_request_def)

lemma path_ok_core: "path_core s' = path_core s \<Longrightarrow> path_ok sha lid p0 n s' = path_ok sha lid p0 n s"
  using recorded_core [of s' s sha] by (simp add: path_ok_def path_core_def sp_requests_def)

lemma core_consumed: "path_core s' = path_core s \<Longrightarrow> sp_consumed_hashes s' = sp_consumed_hashes s"
  by (simp add: path_core_def)

lemma path_core_updates [simp]:
  "path_core (s\<lparr>sp_clock := c\<rparr>) = path_core s" "path_core (s\<lparr>sp_kill := k\<rparr>) = path_core s"
  "path_core (s\<lparr>sp_interference := x\<rparr>) = path_core s" "path_core (s\<lparr>sp_halt_reason := h\<rparr>) = path_core s"
  "path_core (s\<lparr>sp_in_submit := b\<rparr>) = path_core s" "path_core (s\<lparr>sp_closed := b\<rparr>) = path_core s"
  "path_core (s\<lparr>sp_tip := t\<rparr>) = path_core s" "path_core (s\<lparr>sp_results := rs\<rparr>) = path_core s"
  by (simp_all add: path_core_def)

lemma path_core_steps:
  "read_clock s = (r, s') \<Longrightarrow> path_core s' = path_core s"
  "kill_is_set s = (k, s') \<Longrightarrow> path_core s' = path_core s"
  "time_reasons i now s = (t, s') \<Longrightarrow> path_core s' = path_core s"
  "sp_store a s = (q, s') \<Longrightarrow> path_core s' = path_core s"
  "path_core (sp_halt why s) = path_core s"
  by (auto simp: read_clock_def kill_is_set_def time_reasons_def sp_store_def sp_halt_def Let_def path_core_def split: option.splits)


section \<open>From the precommit to the stub\<close>

text \<open>An intent that was consumed and recorded, and has not reached the stub.\<close>

definition new_id :: "nat \<Rightarrow> string \<Rightarrow> submit_path \<Rightarrow> bool" where
  "new_id n iid s \<longleftrightarrow> iid \<notin> rq_intent_id ` set (sp_requests n s)"

definition committed ::
  "hasher \<Rightarrow> string \<Rightarrow> portfolio \<Rightarrow> nat \<Rightarrow> order_intent \<Rightarrow> string \<Rightarrow> intent_receipt \<Rightarrow> submit_path \<Rightarrow> bool" where
  "committed sha lid p0 n i digest receipt s \<longleftrightarrow> path_ok sha lid p0 n s \<and> new_id n (oi_intent_id i) s \<and>
     map_of (sp_consumed_hashes s) (oi_intent_id i) = Some digest \<and>
     (receipt, canonical (intent_to_dict i)) \<in> set (l_records (sp_ledger s)) \<and>
     rc_intent_id receipt = oi_intent_id i \<and> rc_intent_hash receipt = digest"

lemma new_id_core: "path_core s' = path_core s \<Longrightarrow> new_id n iid s' = new_id n iid s"
  by (simp add: new_id_def path_core_def sp_requests_def)

lemma committed_core:
  "path_core s' = path_core s \<Longrightarrow> committed sha lid p0 n i digest receipt s' = committed sha lid p0 n i digest receipt s"
  using path_ok_core [of s' s] new_id_core [of s' s] by (simp add: committed_def path_core_def)

text \<open>A query of the ledger through the path changes the handle and the world only.\<close>

lemma with_query:
  assumes "entered_only f" "with_ledger f s = (r, s')"
  shows "\<exists>l w. s' = s\<lparr>sp_ledger := l, sp_world := w\<rparr> \<and> l_records l = l_records (sp_ledger s) \<and>
    (\<forall>is. ledger_ok sha lid is (sp_ledger s, sp_world s) \<longrightarrow> ledger_ok sha lid is (l, w))"
proof -
  obtain q l w where f: "f (sp_ledger s, sp_world s) = (q, (l, w))" by (metis prod.collapse)
  have "s' = s\<lparr>sp_ledger := l, sp_world := w\<rparr>" using assms(2) f by (simp add: with_ledger_def)
  then show ?thesis
    by (intro exI [of _ l] exI [of _ w]) (use query_keeps [OF assms(1) f] in auto)
qed

lemma query_ok:
  assumes "entered_only f" "with_ledger f s = (r, s')"
  shows "path_ok sha lid p0 n s \<Longrightarrow> path_ok sha lid p0 n s'" "new_id n iid s' = new_id n iid s"
    "committed sha lid p0 n i digest receipt s \<Longrightarrow> committed sha lid p0 n i digest receipt s'"
    "sp_consumed_hashes s' = sp_consumed_hashes s" "l_records (sp_ledger s') = l_records (sp_ledger s)"
    "ob_requests (sp_stub s') = ob_requests (sp_stub s)"
proof -
  obtain l w where s': "s' = s\<lparr>sp_ledger := l, sp_world := w\<rparr>" "l_records l = l_records (sp_ledger s)"
      "\<And>is. ledger_ok sha lid is (sp_ledger s, sp_world s) \<Longrightarrow> ledger_ok sha lid is (l, w)"
    using with_query [OF assms, of sha lid] by blast
  have "recorded_request sha s' = recorded_request sha s"
    by (rule ext) (simp add: recorded_request_def s'(1,2))
  then show ok: "path_ok sha lid p0 n s \<Longrightarrow> path_ok sha lid p0 n s'"
    using s' by (auto simp: path_ok_def sp_requests_def)
  show "new_id n iid s' = new_id n iid s" by (simp add: new_id_def sp_requests_def s'(1))
  then show "committed sha lid p0 n i digest receipt s \<Longrightarrow> committed sha lid p0 n i digest receipt s'"
    using ok s' by (simp add: committed_def new_id_def sp_requests_def)
qed (use with_query [OF assms, of sha lid] in auto)

lemma at_tip_ok:
  assumes "ledger_at_tip s = (r, s')"
  shows "path_ok sha lid p0 n s \<Longrightarrow> path_ok sha lid p0 n s'" "new_id n iid s' = new_id n iid s"
    "committed sha lid p0 n i digest receipt s \<Longrightarrow> committed sha lid p0 n i digest receipt s'"
    "sp_consumed_hashes s' = sp_consumed_hashes s" "ob_requests (sp_stub s') = ob_requests (sp_stub s)"
proof -
  obtain q where "with_ledger ledger_checkpoint_of s = (q, s')"
    using assms by (cases "with_ledger ledger_checkpoint_of s"; cases "fst (with_ledger ledger_checkpoint_of s)")
      (auto simp: ledger_at_tip_def failS_def split: if_splits)
  from query_ok [OF ledger_queries(1) this]
  show "path_ok sha lid p0 n s \<Longrightarrow> path_ok sha lid p0 n s'" "new_id n iid s' = new_id n iid s"
    "committed sha lid p0 n i digest receipt s \<Longrightarrow> committed sha lid p0 n i digest receipt s'"
    "sp_consumed_hashes s' = sp_consumed_hashes s" "ob_requests (sp_stub s') = ob_requests (sp_stub s)" by blast+
qed

text \<open>Reservations: what replaces portfolio and holds was checked against the active holds.\<close>

lemma feq_trans: "feq a b \<Longrightarrow> feq b c \<Longrightarrow> feq a c"
  by (cases a; cases b) auto

definition book_matches :: "portfolio \<Rightarrow> (string \<times> hold) list \<Rightarrow> bool" where
  "book_matches p holds \<longleftrightarrow> (\<exists>cash sells. fsum (map (hd_cash \<circ> snd) holds) = Inr cash \<and>
     mapE (\<lambda>(k, qs). bindE (fsum qs) (\<lambda>x. Inr (k, x))) (sell_quantities holds) = Inr sells \<and>
     reservation_matches (pf_reserved_cash p) cash \<and>
     list_all (\<lambda>k. reservation_matches (dget (pf_reserved_positions p) k (Fin 0)) (dget sells k (Fin 0)))
       (map fst (pf_reserved_positions p) @ map fst sells))"

lemma validate_iff: "validate_reservation_candidate c p holds = Inr () \<longleftrightarrow>
    feq (pf_cash p) (pf_cash c) \<and> feq (pf_realized_pnl p) (pf_realized_pnl c) \<and> pf_positions p = pf_positions c \<and> book_matches p holds"
  unfolding validate_reservation_candidate_def book_matches_def raise_if_def by (simp add: err_simps) blast

lemma reservation_trans:
  "validate_reservation_candidate p0 p hs = Inr () \<Longrightarrow> validate_reservation_candidate p q hs' = Inr () \<Longrightarrow>
     validate_reservation_candidate p0 q hs' = Inr ()"
  unfolding validate_iff using feq_trans by metis

definition rebooked :: "submit_path \<Rightarrow> submit_path \<Rightarrow> bool" where
  "rebooked s s' \<longleftrightarrow> s' = s \<or> (\<exists>p hs. s' = s\<lparr>sp_portfolio := p, sp_holds := hs\<rparr> \<and>
     validate_reservation_candidate (sp_portfolio s) p hs = Inr ())"

lemma rebooked_refl: "rebooked s s"
  by (simp add: rebooked_def)

lemma rebooked_intro:
  "validate_reservation_candidate (sp_portfolio s) p hs = Inr u \<Longrightarrow> rebooked s (s\<lparr>sp_portfolio := p, sp_holds := hs\<rparr>)"
  unfolding rebooked_def by (cases u) blast

lemma reservations_rebook:
  "sp_reserve i cash s = (r, s') \<Longrightarrow> rebooked s s'"
  "sp_release_hold iid s = (r, s') \<Longrightarrow> rebooked s s'"
  unfolding sp_reserve_def sp_release_hold_def Let_def checkS_def
  by (auto intro: rebooked_refl rebooked_intro split: sum.splits option.splits)

lemma rebooked_ok:
  assumes "rebooked s s'"
  shows "path_ok sha lid p0 n s \<Longrightarrow> path_ok sha lid p0 n s'" "new_id n iid s' = new_id n iid s"
    "sp_consumed_hashes s' = sp_consumed_hashes s" "ob_requests (sp_stub s') = ob_requests (sp_stub s)"
proof -
  have "recorded_request sha s' = recorded_request sha s"
    by (rule ext) (use assms in \<open>auto simp: recorded_request_def rebooked_def\<close>)
  then show "path_ok sha lid p0 n s \<Longrightarrow> path_ok sha lid p0 n s'"
    using assms reservation_trans by (auto simp: path_ok_def sp_requests_def rebooked_def)
qed (use assms in \<open>auto simp: rebooked_def new_id_def sp_requests_def\<close>)


section \<open>The calls of a submission\<close>

lemma wf_typed: "wf_intent i \<Longrightarrow> valid_intent i \<and> floats_typed i"
  by (simp add: wf_intent_def floats_typed_def)

lemma precommit_ok:
  assumes "path_ok sha lid p0 n s" "new_id n (oi_intent_id i) s" "map_of (sp_consumed_hashes s) (oi_intent_id i) = Some digest"
    and "floats_typed i"
  shows "post (\<lambda>r s'. path_ok sha lid p0 n s' \<and> (\<forall>receipt. r = Inr receipt \<longrightarrow> committed sha lid p0 n i digest receipt s'))
    (sp_precommit sha i digest s)"
proof -
  obtain r s1 where a: "with_ledger (ledger_append sha i) s = (r, s1)" by (cases "with_ledger (ledger_append sha i) s")
  obtain q l w where f: "ledger_append sha i (sp_ledger s, sp_world s) = (q, (l, w))" by (metis prod.collapse)
  have s1: "q = r" "s1 = s\<lparr>sp_ledger := l, sp_world := w\<rparr>" using a f by (simp_all add: with_ledger_def)
  obtain "is" where "ledger_ok sha lid is (sp_ledger s, sp_world s)" using assms(1) by (auto simp: path_ok_def)
  from append_entries [OF this assms(4) f]
  have e: "\<exists>js. ledger_ok sha lid js (l, w)" "set (l_records (sp_ledger s)) \<subseteq> set (l_records l)"
      "\<And>rc. r = Inr rc \<Longrightarrow> (rc, canonical (intent_to_dict i)) \<in> set (l_records l)"
    using s1(1) set_mono_prefix by auto
  have "recorded_request sha s1 rq" if "recorded_request sha s rq" for rq
    using that e(2) s1(2) by (auto simp: recorded_request_def)
  then have ok1: "path_ok sha lid p0 n s1"
    using assms(1) e(1) s1(2) by (auto simp: path_ok_def sp_requests_def list_all_iff)
  have id1: "new_id n (oi_intent_id i) s1" "map_of (sp_consumed_hashes s1) (oi_intent_id i) = Some digest"
    using assms(2,3) s1(2) by (simp_all add: new_id_def sp_requests_def)
  have c1: "committed sha lid p0 n i digest rc s1" if "r = Inr rc" "rc_intent_id rc = oi_intent_id i" "rc_intent_hash rc = digest" for rc
    using that ok1 id1 e(3) s1(2) by (simp add: committed_def)
  note q = query_ok [OF ledger_queries(1)] query_ok [OF ledger_queries(2)] query_ok [OF ledger_queries(3)]
  show ?thesis unfolding sp_precommit_def Let_def a
    by (intro submit_intros)
      (use ok1 c1 in \<open>auto simp: committed_core [where s' = "_\<lparr>sp_tip := _\<rparr>"] path_ok_core [where s' = "_\<lparr>sp_tip := _\<rparr>"] dest: q\<close>)
qed

lemma stub_dispatch_requests:
  assumes "stub_dispatch token rq b = (r, b')"
  shows "ob_requests b' = ob_requests b \<or> ob_requests b' = ob_requests b @ [rq]"
proof -
  have "post (\<lambda>_ b'. ob_requests b' = ob_requests b \<or> ob_requests b' = ob_requests b @ [rq]) (stub_dispatch token rq b)"
    unfolding stub_dispatch_def Let_def by (intro submit_intros) auto
  from postD [OF this assms] show ?thesis .
qed

text \<open>The stub call takes a committed intent to a path that is in order again, whatever the stub does.\<close>

lemma call_stub_ok:
  assumes "committed sha lid p0 n i digest receipt s" "valid_intent i" "order_intent_payload_hash_v1 sha i = Inr digest"
  shows "post (\<lambda>_. path_ok sha lid p0 n) (sp_call_stub i digest gate_hash receipt risk now s)"
proof -
  have dispatch: "path_ok sha lid p0 n s1"
    if "with_stub (stub_dispatch token rq) s = (r, s1)" "rq_intent_json rq = intent_to_dict i" "rq_intent_hash rq = digest"
      "rq_receipt rq = receipt" for token rq r s1
  proof -
    note call = that(1)
    obtain b where b: "s1 = s\<lparr>sp_stub := b\<rparr>" "stub_dispatch token rq (sp_stub s) = (r, b)"
      using call by (cases "stub_dispatch token rq (sp_stub s)") (auto simp: with_stub_def)
    have same: "recorded_request sha s1 = recorded_request sha s"
      by (rule ext) (simp add: recorded_request_def b(1))
    have rec: "recorded_request sha s1 rq" "rq_intent_id rq \<notin> rq_intent_id ` set (sp_requests n s)"
      using assms that(2-4) by (auto simp: same committed_def recorded_request_def rq_intent_id_def new_id_def)
    have "sp_requests n s1 = sp_requests n s \<or> sp_requests n s1 = sp_requests n s @ [rq]"
      using stub_dispatch_requests [OF b(2)] assms(1) b(1) by (auto simp: sp_requests_def committed_def path_ok_def)
    then show ?thesis using assms(1) rec same stub_dispatch_requests [OF b(2)] b(1)
      by (auto simp: committed_def path_ok_def)
  qed
  note rebook = rebooked_ok(1) [OF reservations_rebook(2)]
  show ?thesis unfolding sp_call_stub_def Let_def
    by (intro submit_intros)
      (use dispatch in \<open>auto simp: sp_store_def sp_halt_def post_def path_ok_core [where s' = "_\<lparr>sp_results := _\<rparr>"]
         path_ok_core [where s' = "_\<lparr>sp_halt_reason := _\<rparr>"] err_simps dest!: rebook\<close>)
qed

lemma committed_steps:
  "read_clock s = (r, s') \<Longrightarrow> committed sha lid p0 n i digest receipt s \<Longrightarrow> committed sha lid p0 n i digest receipt s'"
  "time_reasons j now s = (t, s') \<Longrightarrow> committed sha lid p0 n i digest receipt s \<Longrightarrow> committed sha lid p0 n i digest receipt s'"
  "ledger_at_tip s = (q, s') \<Longrightarrow> committed sha lid p0 n i digest receipt s \<Longrightarrow> committed sha lid p0 n i digest receipt s'"
  by (erule iffD2 [OF committed_core, OF path_core_steps(1)], assumption,
      erule iffD2 [OF committed_core, OF path_core_steps(3)], assumption, erule (1) at_tip_ok(3))

lemma committed_path_ok: "committed sha lid p0 n i digest receipt s \<Longrightarrow> path_ok sha lid p0 n s"
  by (simp add: committed_def)

lemma stored_ok:
  "path_ok sha lid p0 n s \<Longrightarrow> post (\<lambda>_. path_ok sha lid p0 n) (sp_store a s)"
  "path_ok sha lid p0 n s \<Longrightarrow> path_ok sha lid p0 n (sp_halt why s)"
  by (simp_all add: sp_store_def post_def sp_halt_def path_ok_core [where s' = "_\<lparr>sp_results := _\<rparr>"]
    path_ok_core [where s' = "_\<lparr>sp_halt_reason := _\<rparr>"])

lemma redeem_ok:
  assumes "committed sha lid p0 n i digest receipt s" "valid_intent i" "order_intent_payload_hash_v1 sha i = Inr digest"
  shows "post (\<lambda>_. path_ok sha lid p0 n) (sp_redeem i digest gate_hash receipt risk now s)"
  unfolding sp_redeem_def Let_def
  by (intro submit_intros stored_ok call_stub_ok assms;
      ((drule committed_steps, rule assms | drule (1) committed_steps | drule reservations_rebook)+)?)
    (auto intro: committed_path_ok rebooked_ok(1))

lemma fresh_intent:
  assumes "path_ok sha lid p0 n s" "map_of (sp_consumed_hashes s) iid = None"
  shows "new_id n iid s"
  using assms by (auto simp: path_ok_def new_id_def list_all_iff recorded_request_def)

lemma consume_ok:
  assumes "path_ok sha lid p0 n s" "map_of (sp_consumed_hashes s) iid = None"
  shows "path_ok sha lid p0 n (s\<lparr>sp_consumed_hashes := dput iid digest (sp_consumed_hashes s)\<rparr>)"
    "new_id n iid (s\<lparr>sp_consumed_hashes := dput iid digest (sp_consumed_hashes s)\<rparr>)"
  using assms fresh_intent [OF assms] by (auto simp: path_ok_def new_id_def list_all_iff recorded_request_def sp_requests_def)

lemma commit_ok:
  assumes "path_ok sha lid p0 n s" "map_of (sp_consumed_hashes s) (oi_intent_id i) = None"
    and "wf_intent i" "order_intent_payload_hash_v1 sha i = Inr digest"
  shows "post (\<lambda>_. path_ok sha lid p0 n) (sp_commit sha i digest gate_hash risk now cash s)"
  unfolding sp_commit_def Let_def
proof (rule post_thenS)
  fix e s1 assume "sp_reserve i cash s = (Inl e, s1)"
  then show "path_ok sha lid p0 n s1" using rebooked_ok(1) [OF reservations_rebook(1)] assms(1) by blast
next
  fix x s1 assume r: "sp_reserve i cash s = (Inr x, s1)"
  have "path_ok sha lid p0 n s1" "map_of (sp_consumed_hashes s1) (oi_intent_id i) = None"
    using rebooked_ok(1,3) [OF reservations_rebook(1) [OF r]] assms(1,2) by auto
  note c = consume_ok [OF this, of digest]
  have p: "post (\<lambda>r s'. path_ok sha lid p0 n s' \<and> (\<forall>receipt. r = Inr receipt \<longrightarrow> committed sha lid p0 n i digest receipt s'))
      (sp_precommit sha i digest (s1\<lparr>sp_consumed_hashes := dput (oi_intent_id i) digest (sp_consumed_hashes s1)\<rparr>))"
    by (rule precommit_ok [OF c]) (use wf_typed [OF assms(3)] in simp_all)
  show "post (\<lambda>_. path_ok sha lid p0 n)
     (except_exception (sp_precommit sha i digest (s1\<lparr>sp_consumed_hashes := dput (oi_intent_id i) digest (sp_consumed_hashes s1)\<rparr>))
       (\<lambda>s2. sp_store (sp_result (sp_halt ''PRECOMMIT_FAILED_REQUIRES_RECONCILIATION'' s2) i digest gate_hash ''PRECOMMIT_FAILED''
           [''PRECOMMIT_FAILED_REQUIRES_RECONCILIATION''] \<lparr>at_risk := Some risk\<rparr>) (sp_halt ''PRECOMMIT_FAILED_REQUIRES_RECONCILIATION'' s2))
       (\<lambda>receipt. sp_redeem i digest gate_hash receipt risk now))"
    by (rule post_except; (drule postD [OF p]))
      (use wf_typed [OF assms(3)] assms(4) in \<open>auto intro: stored_ok redeem_ok\<close>)
qed

lemma assess_ok:
  assumes "path_ok sha lid p0 n s" "map_of (sp_consumed_hashes s) (oi_intent_id i) = None"
    and "wf_intent i" "order_intent_payload_hash_v1 sha i = Inr digest"
  shows "post (\<lambda>_. path_ok sha lid p0 n) (sp_assess sha i digest gate_hash now s)"
proof -
  obtain k s1 where k: "kill_is_set s = (k, s1)" by (cases "kill_is_set s")
  have c: "path_core s1 = path_core s" by (rule path_core_steps(2) [OF k])
  have "path_ok sha lid p0 n s1" "map_of (sp_consumed_hashes s1) (oi_intent_id i) = None"
    using path_ok_core [OF c] core_consumed [OF c] assms(1,2) by simp_all
  then show ?thesis unfolding sp_assess_def Let_def k prod.case
    by (intro submit_intros commit_ok assms) (use assms in auto)
qed

lemma decide_ok:
  assumes "path_ok sha lid p0 n s" "map_of (sp_consumed_hashes s) (oi_intent_id i) = None"
    and "wf_intent i" "order_intent_payload_hash_v1 sha i = Inr digest"
  shows "post (\<lambda>_. path_ok sha lid p0 n) (sp_decide sha verify i digest ev s)"
proof -
  have keep: "path_ok sha lid p0 n s2 \<and> map_of (sp_consumed_hashes s2) (oi_intent_id i) = None"
    if "read_clock s = (r, s1)" "time_reasons i now s1 = (t, s2)" for r now t s1 s2
  proof -
    have c: "path_core s2 = path_core s" using path_core_steps(1) [OF that(1)] path_core_steps(3) [OF that(2)] by simp
    show ?thesis using path_ok_core [OF c] core_consumed [OF c] assms(1,2) by simp
  qed
  have clock: "path_ok sha lid p0 n s1" if "read_clock s = (r, s1)" for r s1
    using path_ok_core [OF path_core_steps(1) [OF that]] assms(1) by simp
  show ?thesis unfolding sp_decide_def Let_def
    by (intro submit_intros assess_ok assms) (use keep clock assms(1) in auto)
qed

lemma submit_locked_ok:
  assumes "path_ok sha lid p0 n s" "wf_intent i" "order_intent_payload_hash_v1 sha i = Inr digest"
  shows "post (\<lambda>_. path_ok sha lid p0 n) (sp_submit_locked sha verify i digest ev s)"
  unfolding sp_submit_locked_def Let_def
  by (intro submit_intros decide_ok assms)
    (use assms in \<open>auto dest: at_tip_ok(1,4) intro: stored_ok(2)\<close>)

lemma submit_ok:
  assumes "path_ok sha lid p0 n s" "floats_typed i0"
  shows "post (\<lambda>_. path_ok sha lid p0 n) (sp_submit sha verify i0 ev s)"
proof -
  have owner: "sp_owner t = (r, t') \<Longrightarrow> t' = t" for r t t'
    by (auto simp: sp_owner_def failS_def split: if_splits)
  have run: "post (\<lambda>_. path_ok sha lid p0 n) (sp_finish (sp_submit_locked sha verify i digest ev (s\<lparr>sp_in_submit := True\<rparr>)))"
    if hash: "order_intent_payload_hash_v1 sha i0 = Inr digest" and parse: "intent_from_dict (obj_fields (intent_to_dict i0)) = Inr i" for digest i
  proof -
    have wf: "wf_intent i0" using payload_wf [of i0] assms(2) hash
      by (auto simp: order_intent_payload_hash_v1_def err_simps floats_typed_def)
    then have i: "i = i0" using parse valid_post_init by (simp add: intent_from_to_dict wf_intent_def)
    obtain r s1 where r: "sp_submit_locked sha verify i digest ev (s\<lparr>sp_in_submit := True\<rparr>) = (r, s1)"
      by (cases "sp_submit_locked sha verify i digest ev (s\<lparr>sp_in_submit := True\<rparr>)")
    have "path_ok sha lid p0 n s1"
      using postD [OF submit_locked_ok r] assms(1) wf hash i path_ok_core [OF path_core_updates(5)] by blast
    then show ?thesis unfolding r
      by (cases r) (auto simp: sp_finish_def post_def path_ok_core [where s' = "_\<lparr>sp_in_submit := _\<rparr>"]
        path_ok_core [where s' = "_\<lparr>sp_halt_reason := _\<rparr>"])
  qed
  show ?thesis unfolding sp_submit_def
    by (intro submit_intros) (use run assms(1) in \<open>auto dest!: owner\<close>)
qed

section \<open>Runs of a path\<close>

datatype 'g sp_call = Submit order_intent "'g evidence" | Set_Kill_Switch bool | Close_Path

primrec sp_exec :: "hasher \<Rightarrow> ('g evidence \<Rightarrow> string list res) \<Rightarrow> 'g sp_call \<Rightarrow> submit_path \<Rightarrow> submit_path" where
  "sp_exec sha verify (Submit i ev) s = snd (sp_submit sha verify i ev s)"
| "sp_exec sha verify (Set_Kill_Switch b) s = snd (sp_set_kill_switch b s)"
| "sp_exec sha verify Close_Path s = snd (sp_close s)"

primrec typed_call :: "'g sp_call \<Rightarrow> bool" where
  "typed_call (Submit i ev) \<longleftrightarrow> floats_typed i"
| "typed_call (Set_Kill_Switch b) \<longleftrightarrow> True"
| "typed_call Close_Path \<longleftrightarrow> True"

text \<open>The states a path can reach: any calls in any order, some of which raise.\<close>

inductive sp_reach :: "hasher \<Rightarrow> ('g evidence \<Rightarrow> string list res) \<Rightarrow> submit_path \<Rightarrow> submit_path \<Rightarrow> bool" for sha verify s where
  sp_reach_refl: "sp_reach sha verify s s"
| sp_reach_step: "sp_reach sha verify s t \<Longrightarrow> typed_call c \<Longrightarrow> sp_reach sha verify s (sp_exec sha verify c t)"

lemma close_ok:
  assumes "path_ok sha lid p0 n s"
  shows "path_ok sha lid p0 n (snd (sp_close s))"
proof -
  obtain r l w where c: "ledger_close (sp_ledger s, sp_world s) = (r, (l, w))" by (metis prod.collapse)
  obtain "is" where "ledger_ok sha lid is (sp_ledger s, sp_world s)" using assms by (auto simp: path_ok_def)
  from close_keeps [OF this c]
  have k: "ledger_ok sha lid is (l, w)" "l_records l = l_records (sp_ledger s)" by simp_all
  let ?s = "s\<lparr>sp_closed := True, sp_ledger := l, sp_world := w, sp_stub := stub_release (sp_token s) (sp_stub s)\<rparr>"
  have "recorded_request sha ?s = recorded_request sha s"
    by (rule ext) (simp add: recorded_request_def k(2))
  moreover have "ob_requests (stub_release (sp_token s) (sp_stub s)) = ob_requests (sp_stub s)" by (simp add: stub_release_def)
  ultimately have "path_ok sha lid p0 n ?s" using assms k(1) by (auto simp: path_ok_def sp_requests_def)
  then show ?thesis using assms by (simp add: sp_close_def failS_def with_ledger_def c)
qed

lemma exec_ok:
  assumes "path_ok sha lid p0 n s" "typed_call c"
  shows "path_ok sha lid p0 n (sp_exec sha verify c s)"
proof (cases c)
  case (Submit i ev)
  then show ?thesis using submit_ok [OF assms(1)] assms(2) by (simp add: post_def)
next
  case (Set_Kill_Switch b)
  then show ?thesis using assms(1)
    by (simp add: sp_set_kill_switch_def sp_owner_def failS_def path_ok_core [where s' = "_\<lparr>sp_kill := _\<rparr>"])
qed (simp add: close_ok [OF assms(1)])

lemma reach_ok: "sp_reach sha verify s t \<Longrightarrow> path_ok sha lid p0 n s \<Longrightarrow> path_ok sha lid p0 n t"
  by (induction rule: sp_reach.induct) (auto intro: exec_ok)

end
