(* ===== verification/SubmitGate.thy ===== *)
theory SubmitGate
  imports SubmitLaws
begin

text \<open>
  What a submission went through before the stub received its request: every control of the path, and the
  limits on what the order adds to the exposures and takes from the portfolio.
\<close>

section \<open>Frames\<close>

definition sent_nothing :: "submit_path \<Rightarrow> submit_path \<Rightarrow> bool" where
  "sent_nothing s s' \<longleftrightarrow> ob_requests (sp_stub s') = ob_requests (sp_stub s)"

text \<open>The parts of the state the checks before the reservation read.\<close>

definition same_book :: "submit_path \<Rightarrow> submit_path \<Rightarrow> bool" where
  "same_book s s' \<longleftrightarrow> sp_portfolio s' = sp_portfolio s \<and> sp_policy s' = sp_policy s \<and> sp_holds s' = sp_holds s \<and>
     sp_policy_hash s' = sp_policy_hash s \<and> sp_token s' = sp_token s \<and> sp_results s' = sp_results s \<and>
     sp_consumed_hashes s' = sp_consumed_hashes s \<and> sp_halt_reason s' = sp_halt_reason s \<and> sp_stub s' = sp_stub s"

lemma with_ledger_book: "with_ledger f s = (r, s') \<Longrightarrow> same_book s s' \<and> sp_kill s' = sp_kill s"
  by (cases "f (sp_ledger s, sp_world s)") (auto simp: with_ledger_def same_book_def)

lemma at_tip_book: "ledger_at_tip s = (r, s') \<Longrightarrow> same_book s s' \<and> sp_kill s' = sp_kill s"
  by (cases "with_ledger ledger_checkpoint_of s"; cases "fst (with_ledger ledger_checkpoint_of s)")
    (auto simp: ledger_at_tip_def failS_def dest: with_ledger_book split: if_splits)

lemma clock_book: "read_clock s = (r, s') \<Longrightarrow> same_book s s' \<and> sp_kill s' = sp_kill s"
  by (auto simp: read_clock_def same_book_def)

lemma kill_book: "kill_is_set s = (k, s') \<Longrightarrow> same_book s s' \<and> sp_kill s' = k"
  by (auto simp: kill_is_set_def same_book_def Let_def)

text \<open>A decision and its market data are neither from the future nor too old at time \<open>t\<close>.\<close>

definition timely :: "submit_policy \<Rightarrow> order_intent \<Rightarrow> pyfloat \<Rightarrow> bool" where
  "timely pol i t \<longleftrightarrow> \<not> flt t (oi_decision_ts_ms i) \<and> \<not> flt (ep_max_decision_age_ms pol) (fsub t (oi_decision_ts_ms i)) \<and>
     \<not> flt t (oi_market_data_ts_ms i) \<and> \<not> flt (max_market_data_age_ms (ep_limits pol)) (fsub t (oi_market_data_ts_ms i))"

lemma time_book:
  assumes "time_reasons i now s = (t, s')"
  shows "same_book s s' \<and> (t = [] \<longleftrightarrow> \<not> sp_kill s' \<and> timely (sp_policy s) i now)"
proof -
  obtain k s1 where k: "kill_is_set s = (k, s1)" by (cases "kill_is_set s")
  have b: "same_book s s1" "sp_kill s1 = k" using kill_book [OF k] by simp_all
  then have p: "sp_policy s1 = sp_policy s" by (simp add: same_book_def)
  show ?thesis using assms b p by (auto simp: time_reasons_def k Let_def timely_def reason_def split: if_splits)
qed

lemma rebooked_sends: "rebooked s s' \<Longrightarrow> sent_nothing s s' \<and> sp_kill s' = sp_kill s \<and> sp_policy s' = sp_policy s"
  by (auto simp: rebooked_def sent_nothing_def)

section \<open>When the stub gets a request\<close>

definition sends :: "submit_policy \<Rightarrow> order_intent \<Rightarrow> submit_path \<Rightarrow> submit_path \<Rightarrow> bool" where
  "sends pol i s s' \<longleftrightarrow> sent_nothing s s' \<or>
     (\<exists>rq. ob_requests (sp_stub s') = ob_requests (sp_stub s) @ [rq] \<and> rq_intent_json rq = intent_to_dict i \<and>
        timely pol i (rq_submit_ts_ms rq) \<and> \<not> sp_kill s')"

lemma sends_nothing: "sent_nothing s s' \<Longrightarrow> sends pol i s s'"
  by (simp add: sends_def)

lemma sends_from: "sent_nothing s s1 \<Longrightarrow> sends pol i s1 s' \<Longrightarrow> sends pol i s s'"
  by (simp add: sends_def sent_nothing_def)

lemma call_stub_sends:
  assumes "timely pol i now" "\<not> sp_kill s"
  shows "post (\<lambda>_ s'. sends pol i s s') (sp_call_stub i digest gate_hash receipt risk now s)"
proof -
  have dispatch: "sends pol i s s1 \<and> \<not> sp_kill s1"
    if "with_stub (stub_dispatch token rq) s = (r, s1)" "rq_intent_json rq = intent_to_dict i" "rq_submit_ts_ms rq = now" for token rq r s1
  proof -
    obtain r' b where b: "stub_dispatch token rq (sp_stub s) = (r', b)" by fastforce
    then have "s1 = s\<lparr>sp_stub := b\<rparr>" using that(1) by (simp add: with_stub_def)
    then show ?thesis using stub_dispatch_requests [OF b] assms that(2,3) by (auto simp: sends_def sent_nothing_def)
  qed
  have keep: "sends pol i s s2" if "sends pol i s s1 \<and> \<not> sp_kill s1" "sent_nothing s1 s2 \<and> sp_kill s2 = sp_kill s1" for s1 s2
    using that by (auto simp: sends_def sent_nothing_def)
  show ?thesis unfolding sp_call_stub_def Let_def
    by (intro submit_intros)
      (auto simp: sp_store_def sp_halt_def post_def err_simps sent_nothing_def
        dest!: dispatch reservations_rebook(2) [THEN rebooked_sends] intro: keep)
qed

lemma post_sends: "sent_nothing s t \<Longrightarrow> post (\<lambda>_ s'. sends pol i t s') m \<Longrightarrow> post (\<lambda>_ s'. sends pol i s s') m"
  by (simp add: post_def sends_from)

lemma book_sent: "same_book s s' \<Longrightarrow> sent_nothing s s' \<and> sp_policy s' = sp_policy s"
  by (simp add: same_book_def sent_nothing_def)

lemma sent_trans: "sent_nothing s t \<Longrightarrow> sent_nothing t u \<Longrightarrow> sent_nothing s u"
  by (simp add: sent_nothing_def)

lemma store_sends: "sent_nothing s t \<Longrightarrow> post (\<lambda>_ s'. sends pol i s s') (sp_store a t)"
  "sent_nothing s t \<Longrightarrow> sent_nothing s (sp_halt why t)"
  by (simp_all add: sp_store_def post_def sends_def sent_nothing_def sp_halt_def)

lemma redeem_sends: "post (\<lambda>_ s'. sends (sp_policy s) i s s') (sp_redeem i digest gate_hash receipt risk now s)"
  unfolding sp_redeem_def Let_def
proof (rule post_thenS)
  fix e s1 assume "read_clock s = (Inl e, s1)"
  then show "sends (sp_policy s) i s s1" using sends_nothing book_sent clock_book by blast
next
  let ?held = "\<lambda>s status reasons. (sp_result s i digest gate_hash status reasons)\<lparr>at_receipt := Some receipt, at_risk := Some risk\<rparr>"
  let ?why = "''LEDGER_CHANGED_BEFORE_DISPATCH_REQUIRES_RECONCILIATION''"
  fix x1 s1 assume c1: "read_clock s = (Inr x1, s1)"
  obtain t1 s2 where t1: "time_reasons i x1 s1 = (t1, s2)" by fastforce
  have s2: "sent_nothing s s2" "sp_policy s2 = sp_policy s"
    using book_sent [of s s1] book_sent [of s1 s2] clock_book [OF c1] time_book [OF t1] sent_trans by auto
  show "post (\<lambda>_ s'. sends (sp_policy s) i s s') (case time_reasons i x1 s1 of (t1, s2) \<Rightarrow>
      except_exception (ledger_at_tip s2) (\<lambda>s3. sp_store (?held (sp_halt ?why s3) ''RECONCILIATION_REQUIRED'' [?why]) (sp_halt ?why s3))
        (\<lambda>_ s3. thenS (read_clock s3) (\<lambda>final_now s4. case time_reasons i final_now s4 of (t2, s5) \<Rightarrow>
           if (t1 @ reason (flt x1 now) ''CLOCK_MOVED_BACKWARDS'') @ t2 @ reason (flt final_now x1) ''CLOCK_MOVED_BACKWARDS'' \<noteq> []
           then thenS (sp_release_hold (oi_intent_id i) s5) (\<lambda>_ s6. sp_store (?held s6 ''NOT_DISPATCHED''
             ((t1 @ reason (flt x1 now) ''CLOCK_MOVED_BACKWARDS'') @ t2 @ reason (flt final_now x1) ''CLOCK_MOVED_BACKWARDS'')) s6)
           else sp_call_stub i digest gate_hash receipt risk final_now s5)))"
    unfolding t1 prod.case
  proof (intro post_except post_thenS post_split post_if store_sends)
    fix e s3 assume "ledger_at_tip s2 = (Inl e, s3)"
    then have "sent_nothing s s3" using s2(1) at_tip_book book_sent sent_trans by blast
    then show "sends (sp_policy s) i s s3" "sent_nothing s s3" by (simp_all add: sends_nothing)
  next
    fix u s3 e s4 assume "ledger_at_tip s2 = (Inr u, s3)" "read_clock s3 = (Inl e, s4)"
    then have "sent_nothing s s4" using s2(1) at_tip_book clock_book book_sent sent_trans by meson
    then show "sends (sp_policy s) i s s4" by (rule sends_nothing)
  next
    fix u s3 x s4 t2 s5
    assume l: "ledger_at_tip s2 = (Inr u, s3)" and c: "read_clock s3 = (Inr x, s4)" and t: "time_reasons i x s4 = (t2, s5)"
    have b: "same_book s2 s3" "same_book s3 s4" "same_book s4 s5" using at_tip_book [OF l] clock_book [OF c] time_book [OF t] by auto
    have s4: "sp_policy s4 = sp_policy s" using s2(2) book_sent [OF b(1)] book_sent [OF b(2)] by simp
    have s5: "sent_nothing s s5" using s2(1) book_sent [OF b(1)] book_sent [OF b(2)] book_sent [OF b(3)] sent_trans by blast
    { fix e s6 assume "sp_release_hold (oi_intent_id i) s5 = (Inl e, s6)"
      then show "sends (sp_policy s) i s s6" using rebooked_sends [OF reservations_rebook(2)] s5 sent_trans sends_nothing by blast }
    { fix v s6 assume "sp_release_hold (oi_intent_id i) s5 = (Inr v, s6)"
      then show "sent_nothing s s6" using rebooked_sends [OF reservations_rebook(2)] s5 sent_trans by blast }
    assume "\<not> (t1 @ reason (flt x1 now) ''CLOCK_MOVED_BACKWARDS'') @ t2 @ reason (flt x x1) ''CLOCK_MOVED_BACKWARDS'' \<noteq> []"
    then have "timely (sp_policy s) i x" "\<not> sp_kill s5" using time_book [OF t] s4 by auto
    then show "post (\<lambda>_ s'. sends (sp_policy s) i s s') (sp_call_stub i digest gate_hash receipt risk x s5)"
      by (intro post_sends [OF s5] call_stub_sends)
  qed
qed

lemma precommit_sends:
  assumes "sp_precommit sha i digest s = (r, s')"
  shows "sent_nothing s s' \<and> sp_policy s' = sp_policy s"
proof -
  have "post (\<lambda>_ s'. sent_nothing s s' \<and> sp_policy s' = sp_policy s) (sp_precommit sha i digest s)"
    unfolding sp_precommit_def Let_def
    by (intro submit_intros) (auto simp: sent_nothing_def same_book_def dest!: with_ledger_book)
  from postD [OF this assms] show ?thesis .
qed

lemma commit_sends: "post (\<lambda>_ s'. sends (sp_policy s) i s s') (sp_commit sha i digest gate_hash risk now cash s)"
  unfolding sp_commit_def Let_def
proof (intro post_thenS post_except store_sends)
  fix e s1 assume "sp_reserve i cash s = (Inl e, s1)"
  then show "sends (sp_policy s) i s s1" using rebooked_sends [OF reservations_rebook(1)] sends_nothing by blast
next
  fix u s1 assume r: "sp_reserve i cash s = (Inr u, s1)"
  have s1: "sent_nothing s s1" "sp_policy s1 = sp_policy s" using rebooked_sends [OF reservations_rebook(1) [OF r]] by auto
  have p: "sent_nothing s s2 \<and> sp_policy s2 = sp_policy s"
    if "sp_precommit sha i digest (s1\<lparr>sp_consumed_hashes := dput (oi_intent_id i) digest (sp_consumed_hashes s1)\<rparr>) = (q, s2)" for q s2
    using precommit_sends [OF that] s1 by (simp add: sent_nothing_def)
  { fix e s2
    assume "sp_precommit sha i digest (s1\<lparr>sp_consumed_hashes := dput (oi_intent_id i) digest (sp_consumed_hashes s1)\<rparr>) = (Inl e, s2)"
    then show "sends (sp_policy s) i s s2" "sent_nothing s s2" using p sends_nothing by auto }
  fix receipt s2
  assume "sp_precommit sha i digest (s1\<lparr>sp_consumed_hashes := dput (oi_intent_id i) digest (sp_consumed_hashes s1)\<rparr>) = (Inr receipt, s2)"
  then have s2: "sent_nothing s s2" "sp_policy s2 = sp_policy s" using p by auto
  show "post (\<lambda>_ s'. sends (sp_policy s) i s s') (sp_redeem i digest gate_hash receipt risk now s2)"
    by (rule post_sends [OF s2(1)]) (use redeem_sends [of s2 i] s2(2) in simp)
qed

section \<open>The limits\<close>

text \<open>The exposure an order of notional \<open>n\<close> can lead to, on top of what is held and of the pending orders.\<close>

definition worst_exposure :: "pyfloat \<Rightarrow> pyfloat \<Rightarrow> pyfloat list \<Rightarrow> pyfloat" where
  "worst_exposure held n pending = fadd (py_max held (fadd held n)) (py_sum pending)"

definition fits_limit :: "pyfloat \<Rightarrow> pyfloat \<Rightarrow> bool" where
  "fits_limit x limit \<longleftrightarrow> isfinite x \<and> \<not> flt limit x"

definition within_budget :: "submit_policy \<Rightarrow> portfolio \<Rightarrow> hold list \<Rightarrow> order_intent \<Rightarrow> bool" where
  "within_budget pol p holds i \<longleftrightarrow>
     (let L = ep_limits pol; n = order_notional i; c = oi_condition_id i in
      \<not> flt (fadd (max_order_notional L) EPS) n \<and>
      (oi_side i = BUY \<longrightarrow>
         fits_limit (worst_exposure (market_exposure p c) n (map hd_buy_notional (filter (\<lambda>h. hd_condition_id h = c) holds))) (max_market_exposure L) \<and>
         fits_limit (worst_exposure (gross_cost_exposure p) n (map hd_buy_notional holds)) (max_gross_exposure L) \<and>
         (\<exists>fee. fdiv (fmul n (ep_fee_reserve_bps pol)) (Fin 10000) = Inr fee \<and> fits_limit (fadd n fee) (available_cash p))) \<and>
      (oi_side i = SELL \<longrightarrow> (\<exists>q. available_position_qty p c (oi_outcome i) = Inr q \<and> fits_limit (oi_qty i) q)))"

lemma risk_passed:
  assumes "evaluate_order_risk p ri L c = Inr risk" "rr_reasons risk = []"
  shows "\<not> flt (fadd (max_order_notional L) EPS) (ri_order_notional ri)"
    "ri_side ri = ''BUY'' \<Longrightarrow> rr_market_exposure_before risk = market_exposure p (ri_condition_id ri) \<and>
       rr_market_exposure_after risk = fadd (market_exposure p (ri_condition_id ri)) (ri_order_notional ri) \<and>
       rr_gross_exposure_before risk = gross_cost_exposure p \<and>
       rr_gross_exposure_after risk = fadd (gross_cost_exposure p) (ri_order_notional ri)"
  using assms by (auto simp: evaluate_order_risk_def err_simps Let_def buy_effect_def)

lemma risk_intent_of:
  assumes "wf_intent i" "risk_intent_post_init \<lparr>ri_condition_id = oi_condition_id i, ri_outcome = oi_outcome i,
     ri_side = side_value (oi_side i), ri_qty = oi_qty i, ri_limit_price = oi_limit_price i\<rparr> = Inr ri"
  shows "ri_condition_id ri = oi_condition_id i" "ri_side ri = side_value (oi_side i)" "ri_order_notional ri = order_notional i"
proof -
  have "py_upper (side_value (oi_side i)) = side_value (oi_side i)" by (cases "oi_side i"; simp; code_simp)
  then show "ri_condition_id ri = oi_condition_id i" "ri_side ri = side_value (oi_side i)" "ri_order_notional ri = order_notional i"
    using assms by (auto simp: risk_intent_post_init_def err_simps contract_simps Let_def wf_intent_def valid_intent_def
      valid_text_def ri_order_notional_def order_notional_def)
qed

lemma pending_passed:
  assumes "pending_reasons i cash risk s = Inr []"
  shows "fits_limit (fadd (py_max (rr_market_exposure_before risk) (rr_market_exposure_after risk))
      (py_sum (map hd_buy_notional (filter (\<lambda>h. hd_condition_id h = oi_condition_id i) (map snd (sp_holds s))))))
      (max_market_exposure (ep_limits (sp_policy s)))"
    "fits_limit (fadd (py_max (rr_gross_exposure_before risk) (rr_gross_exposure_after risk))
      (py_sum (map hd_buy_notional (map snd (sp_holds s))))) (max_gross_exposure (ep_limits (sp_policy s)))"
    "\<not> flt (available_cash (sp_portfolio s)) cash"
    "oi_side i = SELL \<Longrightarrow> \<exists>q. available_position_qty (sp_portfolio s) (oi_condition_id i) (oi_outcome i) = Inr q \<and> \<not> flt q (oi_qty i)"
  using assms by (auto simp: pending_reasons_def Let_def err_simps reason_def fits_limit_def split: if_splits)

text \<open>The postcondition of the checks before the reservation.\<close>

definition checked :: "order_intent \<Rightarrow> submit_path \<Rightarrow> submit_path \<Rightarrow> bool" where
  "checked i s s' \<longleftrightarrow> sends (sp_policy s) i s s' \<and>
     (\<not> sent_nothing s s' \<longrightarrow> within_budget (sp_policy s) (sp_portfolio s) (map snd (sp_holds s)) i)"

lemma checked_nothing: "sent_nothing s s' \<Longrightarrow> checked i s s'"
  by (simp add: checked_def sends_nothing)

lemma post_checked:
  assumes "same_book s t" "post (\<lambda>_ s'. checked i t s') m"
  shows "post (\<lambda>_ s'. checked i s s') m"
  using assms by (auto simp: post_def checked_def same_book_def sends_def sent_nothing_def)

lemma number_eq: "sub_number v k = Inr x \<Longrightarrow> x = v \<and> isfinite v"
  by (auto simp: sub_number_def err_simps)

lemma assess_checked:
  assumes "wf_intent i"
  shows "post (\<lambda>_ s'. checked i s s') (sp_assess sha i digest gate_hash now s)"
  unfolding sp_assess_def Let_def
proof (intro post_checkS post_failS post_split post_if post_return)
  fix n fee cash ri k s1 ctx risk pending
  assume n: "sub_number (order_notional i) ''order notional'' = Inr n"
    and fee: "bindE (fdiv (fmul n (ep_fee_reserve_bps (sp_policy s))) (Fin 10000)) (\<lambda>x. sub_number x ''fee reserve'') = Inr fee"
    and cash: "(if oi_side i = BUY then sub_number (fadd n fee) ''cash requirement'' else Inr (Fin 0)) = Inr cash"
    and ri: "risk_intent_post_init \<lparr>ri_condition_id = oi_condition_id i, ri_outcome = oi_outcome i,
         ri_side = side_value (oi_side i), ri_qty = oi_qty i, ri_limit_price = oi_limit_price i\<rparr> = Inr ri"
    and k: "kill_is_set s = (k, s1)"
    and risk: "evaluate_order_risk (sp_portfolio s1) ri (ep_limits (sp_policy s1)) ctx = Inr risk"
    and pending: "pending_reasons i cash risk s1 = Inr pending" "\<not> rr_reasons risk @ pending \<noteq> []"
  have b: "same_book s s1" using kill_book [OF k] by simp
  have eq: "n = order_notional i" "sp_policy s1 = sp_policy s" "sp_portfolio s1 = sp_portfolio s" "sp_holds s1 = sp_holds s"
    using number_eq [OF n] b by (simp_all add: same_book_def)
  have p: "pending_reasons i cash risk s1 = Inr []" "rr_reasons risk = []" using pending by auto
  note r = risk_passed [OF risk p(2), unfolded risk_intent_of [OF assms ri]]
  note q = pending_passed [OF p(1), unfolded eq]
  obtain f where f: "fdiv (fmul n (ep_fee_reserve_bps (sp_policy s))) (Fin 10000) = Inr f" "fee = f" using fee number_eq by (auto simp: err_simps)
  have "within_budget (sp_policy s) (sp_portfolio s) (map snd (sp_holds s)) i"
    unfolding within_budget_def Let_def
  proof (intro conjI impI)
    show "\<not> flt (fadd (max_order_notional (ep_limits (sp_policy s))) EPS) (order_notional i)" using r(1) eq by simp
  next
    assume buy: "oi_side i = BUY"
    then have rr: "rr_market_exposure_before risk = market_exposure (sp_portfolio s) (oi_condition_id i) \<and>
       rr_market_exposure_after risk = fadd (market_exposure (sp_portfolio s) (oi_condition_id i)) (order_notional i) \<and>
       rr_gross_exposure_before risk = gross_cost_exposure (sp_portfolio s) \<and>
       rr_gross_exposure_after risk = fadd (gross_cost_exposure (sp_portfolio s)) (order_notional i)"
      using r(2) eq by simp
    show "fits_limit (worst_exposure (market_exposure (sp_portfolio s) (oi_condition_id i)) (order_notional i)
        (map hd_buy_notional (filter (\<lambda>h. hd_condition_id h = oi_condition_id i) (map snd (sp_holds s)))))
        (max_market_exposure (ep_limits (sp_policy s)))"
      "fits_limit (worst_exposure (gross_cost_exposure (sp_portfolio s)) (order_notional i) (map hd_buy_notional (map snd (sp_holds s))))
        (max_gross_exposure (ep_limits (sp_policy s)))"
      using q(1,2) rr by (simp_all add: worst_exposure_def)
    have "cash = fadd n fee" "isfinite cash" using cash buy number_eq by auto
    then show "\<exists>fee. fdiv (fmul (order_notional i) (ep_fee_reserve_bps (sp_policy s))) (Fin 10000) = Inr fee \<and>
        fits_limit (fadd (order_notional i) fee) (available_cash (sp_portfolio s))"
      using f q(3) eq by (simp add: fits_limit_def)
  next
    assume "oi_side i = SELL"
    then show "\<exists>q. available_position_qty (sp_portfolio s) (oi_condition_id i) (oi_outcome i) = Inr q \<and> fits_limit (oi_qty i) q"
      using q(4) assms by (auto simp: fits_limit_def wf_intent_def valid_intent_def)
  qed
  moreover have "post (\<lambda>_ s'. sends (sp_policy s) i s s') (sp_commit sha i digest gate_hash risk now cash s1)"
    by (rule post_sends) (use book_sent [OF b] commit_sends [of s1 i] in auto)
  ultimately show "post (\<lambda>_ s'. checked i s s') (sp_commit sha i digest gate_hash risk now cash s1)"
    by (simp add: post_def checked_def)
qed (rule checked_nothing, (drule kill_book, drule conjunct1, drule book_sent, erule conjunct1 | simp add: sent_nothing_def))+

lemma decide_checked:
  assumes "wf_intent i"
  shows "post (\<lambda>_ s'. checked i s s' \<and> (\<not> sent_nothing s s' \<longrightarrow> governance_reasons verify i ev (sp_policy s) = Inr []))
    (sp_decide sha verify i digest ev s)"
  unfolding sp_decide_def Let_def
proof (intro post_checkS post_thenS post_split post_if post_return)
  fix g now s1 t s2
  assume g: "governance_reasons verify i ev (sp_policy s) = Inr g" and c: "read_clock s = (Inr now, s1)"
    and t: "time_reasons i now s1 = (t, s2)" and ok: "\<not> g @ t \<noteq> []"
  have b: "same_book s s2" using clock_book [OF c] time_book [OF t] by (simp add: same_book_def)
  show "post (\<lambda>_ s'. checked i s s' \<and> (\<not> sent_nothing s s' \<longrightarrow> governance_reasons verify i ev (sp_policy s) = Inr []))
      (sp_assess sha i digest (el_artifact_hash (ev_eligibility ev)) now s2)"
    using post_checked [OF b assess_checked [OF assms]] g ok by (simp add: post_def)
next
  fix e s1 assume "read_clock s = (Inl e, s1)"
  then have "sent_nothing s s1" using clock_book book_sent by blast
  then show "checked i s s1 \<and> (\<not> sent_nothing s s1 \<longrightarrow> governance_reasons verify i ev (sp_policy s) = Inr [])"
    by (simp add: checked_nothing)
next
  fix now s1 t s2 assume c: "read_clock s = (Inr now, s1)" and t: "time_reasons i now s1 = (t, s2)"
  have "same_book s s2" using clock_book [OF c] time_book [OF t] by (simp add: same_book_def)
  then have "sent_nothing s s2" using book_sent by blast
  then show "checked i s s2 \<and> (\<not> sent_nothing s s2 \<longrightarrow> governance_reasons verify i ev (sp_policy s) = Inr [])"
    by (simp add: checked_nothing)
qed (simp add: checked_nothing sent_nothing_def)

text \<open>What held when a submission sent a request.\<close>

definition passed_controls ::
  "('g evidence \<Rightarrow> string list res) \<Rightarrow> order_intent \<Rightarrow> 'g evidence \<Rightarrow> submit_path \<Rightarrow> bool" where
  "passed_controls verify i ev s \<longleftrightarrow> map_of (sp_consumed_hashes s) (oi_intent_id i) = None \<and> sp_halt_reason s = None \<and>
     governance_reasons verify i ev (sp_policy s) = Inr []"

lemma submit_checked:
  assumes "floats_typed i0" "sp_submit sha verify i0 ev s = (r, s')" "\<not> sent_nothing s s'"
  shows "sends (sp_policy s) i0 s s' \<and> within_budget (sp_policy s) (sp_portfolio s) (map snd (sp_holds s)) i0 \<and>
    passed_controls verify i0 ev s"
proof -
  let ?Q = "\<lambda>_ s'. checked i0 s s' \<and> (\<not> sent_nothing s s' \<longrightarrow> passed_controls verify i0 ev s)"
  have owner: "sp_owner t = (q, t') \<Longrightarrow> t' = t" for q t t'
    by (auto simp: sp_owner_def failS_def split: if_splits)
  have quiet: "checked i0 s s" "sent_nothing s s" by (simp_all add: checked_nothing sent_nothing_def)
  have run: "post ?Q (sp_finish (sp_submit_locked sha verify i digest ev (s\<lparr>sp_in_submit := True\<rparr>)))"
    if hash: "order_intent_payload_hash_v1 sha i0 = Inr digest" and parse: "intent_from_dict (obj_fields (intent_to_dict i0)) = Inr i" for digest i
  proof -
    have wf: "wf_intent i0" using payload_wf [of i0] assms(1) hash
      by (auto simp: order_intent_payload_hash_v1_def err_simps floats_typed_def)
    then have i: "i = i0" using parse valid_post_init by (simp add: intent_from_to_dict wf_intent_def)
    let ?s = "s\<lparr>sp_in_submit := True\<rparr>"
    have book: "same_book s ?s" by (simp add: same_book_def)
    have "post ?Q (sp_submit_locked sha verify i0 digest ev ?s)"
      unfolding sp_submit_locked_def Let_def
    proof (intro post_option post_failS post_except post_return)
      fix u s1 assume none: "map_of (sp_consumed_hashes ?s) (oi_intent_id i0) = None" "sp_halt_reason ?s = None"
        and tip: "ledger_at_tip ?s = (Inr u, s1)"
      have b: "same_book s s1" using at_tip_book [OF tip] by (simp add: same_book_def)
      have "post (\<lambda>_ s'. checked i0 s1 s' \<and> (\<not> sent_nothing s1 s' \<longrightarrow> governance_reasons verify i0 ev (sp_policy s1) = Inr []))
          (sp_decide sha verify i0 digest ev s1)" by (rule decide_checked [OF wf])
      then show "post ?Q (sp_decide sha verify i0 digest ev s1)"
        using b none by (auto simp: post_def checked_def same_book_def sends_def sent_nothing_def passed_controls_def)
    next
      fix e s1 assume tip: "ledger_at_tip ?s = (Inl e, s1)"
      have "sent_nothing s s1" using at_tip_book [OF tip] by (simp add: same_book_def sent_nothing_def)
      then show "?Q (Inl e) s1" "checked i0 s (sp_halt ''LEDGER_UNAVAILABLE_REQUIRES_RECONCILIATION'' s1) \<and>
          (\<not> sent_nothing s (sp_halt ''LEDGER_UNAVAILABLE_REQUIRES_RECONCILIATION'' s1) \<longrightarrow> passed_controls verify i0 ev s)"
        by (simp_all add: checked_nothing sent_nothing_def sp_halt_def)
    qed (simp_all add: checked_nothing sent_nothing_def)
    then show ?thesis unfolding i
      by (cases "sp_submit_locked sha verify i0 digest ev ?s"; cases "fst (sp_submit_locked sha verify i0 digest ev ?s)")
        (auto simp: sp_finish_def post_def checked_def sends_def sent_nothing_def)
  qed
  obtain q where q: "sp_owner s = (q, s)" using owner by (metis prod.collapse)
  have "post ?Q (sp_submit sha verify i0 ev s)"
  proof (cases q)
    case (Inr u)
    show ?thesis unfolding sp_submit_def q Inr thenS_simps
      by (intro post_checkS post_failS run) (simp_all add: quiet)
  qed (simp add: sp_submit_def q post_def quiet)
  from postD [OF this assms(2)] assms(3) show ?thesis by (simp add: checked_def)
qed

end
