(* ===== verification/SubmitAttempts.thy ===== *)
theory SubmitAttempts
  imports SubmitGate
begin

text \<open>
  The attempts a submission returns: their shape, and that one with a receipt is stored under its intent id,
  so that the next submission of the intent finds it.
\<close>

definition attempt_typed :: "attempt \<Rightarrow> bool" where
  "attempt_typed a \<longleftrightarrow> at_mode a = SUBMIT_OFFLINE \<and> at_schema_version a = RESULT_SCHEMA \<and> distinct (at_reasons a) \<and>
     at_status a \<in> {''BLOCKED'', ''RECONCILIATION_REQUIRED'', ''PRECOMMIT_FAILED'', ''NOT_DISPATCHED'', ''UNKNOWN'',
       ''OFFLINE_REJECTED'', ''OFFLINE_ACK'', ''DUPLICATE''} \<and>
     (at_adapter_called a \<longleftrightarrow> at_status a \<in> {''UNKNOWN'', ''OFFLINE_REJECTED'', ''OFFLINE_ACK''}) \<and>
     (at_event a \<noteq> None \<longleftrightarrow> at_status a \<in> {''OFFLINE_REJECTED'', ''OFFLINE_ACK''}) \<and>
     (at_reasons a = [] \<longleftrightarrow> at_status a \<in> {''OFFLINE_REJECTED'', ''OFFLINE_ACK''}) \<and>
     (at_previous_status a \<noteq> None \<longleftrightarrow> at_status a = ''DUPLICATE'') \<and>
     (at_adapter_called a \<longrightarrow> at_receipt a \<noteq> None \<and> at_risk a \<noteq> None)"

text \<open>The postcondition of the parts of a submission.\<close>

definition returned :: "order_intent \<Rightarrow> string \<Rightarrow> attempt res \<Rightarrow> submit_path \<Rightarrow> bool" where
  "returned i digest r s \<longleftrightarrow> (\<forall>a. r = Inr a \<longrightarrow> attempt_typed a \<and> at_intent_id a = oi_intent_id i \<and> at_intent_hash a = digest \<and>
     at_submit_policy_hash a = sp_policy_hash s \<and>
     (at_receipt a \<noteq> None \<and> at_status a \<noteq> ''DUPLICATE'' \<longrightarrow>
        map_of (sp_results s) (oi_intent_id i) = Some a \<and> map_of (sp_consumed_hashes s) (oi_intent_id i) = Some digest))"

lemma returned_raise [simp]: "returned i digest (Inl e) s"
  by (simp add: returned_def)

lemma dict_fromkeys_Nil [simp]: "dict_fromkeys xs = [] \<longleftrightarrow> xs = []"
  by (metis empty_iff empty_set set_dict_fromkeys set_empty2)

lemma store_returned:
  "attempt_typed a \<Longrightarrow> at_intent_id a = oi_intent_id i \<Longrightarrow> at_intent_hash a = digest \<Longrightarrow> at_submit_policy_hash a = sp_policy_hash s \<Longrightarrow>
     at_receipt a = None \<or> map_of (sp_consumed_hashes s) (oi_intent_id i) = Some digest \<Longrightarrow>
     post (returned i digest) (sp_store a s)"
  by (auto simp: sp_store_def post_def returned_def)

lemma rebooked_frame:
  "rebooked s s' \<Longrightarrow> sp_policy_hash s' = sp_policy_hash s \<and> sp_consumed_hashes s' = sp_consumed_hashes s \<and> sp_results s' = sp_results s"
  by (auto simp: rebooked_def)

lemma call_stub_returned:
  assumes "map_of (sp_consumed_hashes s) (oi_intent_id i) = Some digest"
  shows "post (returned i digest) (sp_call_stub i digest gate_hash receipt risk now s)"
proof -
  have stub: "sp_policy_hash s1 = sp_policy_hash s \<and> sp_consumed_hashes s1 = sp_consumed_hashes s"
    if "with_stub f s = (r, s1)" for f r s1
    using that by (auto simp: with_stub_def split: prod.splits)
  show ?thesis unfolding sp_call_stub_def Let_def
    by (intro submit_intros store_returned)
      (use assms in \<open>auto simp: err_simps attempt_typed_def sp_result_def sp_halt_def dest!: stub reservations_rebook(2) [THEN rebooked_frame]\<close>)
qed

text \<open>What the calls between two stores keep.\<close>

definition ready_to_store :: "order_intent \<Rightarrow> string \<Rightarrow> submit_path \<Rightarrow> bool" where
  "ready_to_store i digest s \<longleftrightarrow> map_of (sp_consumed_hashes s) (oi_intent_id i) = Some digest"

lemma ready_steps:
  "read_clock s = (r, s') \<Longrightarrow> ready_to_store i digest s \<Longrightarrow> ready_to_store i digest s'"
  "time_reasons j now s = (t, s') \<Longrightarrow> ready_to_store i digest s \<Longrightarrow> ready_to_store i digest s'"
  "ledger_at_tip s = (q, s') \<Longrightarrow> ready_to_store i digest s \<Longrightarrow> ready_to_store i digest s'"
  "with_ledger f s = (v, s') \<Longrightarrow> ready_to_store i digest s \<Longrightarrow> ready_to_store i digest s'"
  "sp_release_hold iid s = (u, s') \<Longrightarrow> ready_to_store i digest s \<Longrightarrow> ready_to_store i digest s'"
  by (drule clock_book time_book at_tip_book with_ledger_book reservations_rebook(2) [THEN rebooked_frame],
      simp add: ready_to_store_def same_book_def)+

lemma redeem_returned:
  assumes "ready_to_store i digest s"
  shows "post (returned i digest) (sp_redeem i digest gate_hash receipt risk now s)"
  unfolding sp_redeem_def Let_def
  by (intro submit_intros store_returned call_stub_returned;
      ((drule ready_steps, rule assms | drule (1) ready_steps)+)?)
    (auto simp: attempt_typed_def sp_result_def sp_halt_def ready_to_store_def)

lemma precommit_ready:
  assumes "ready_to_store i digest s" "sp_precommit sha i digest s = (r, s')"
  shows "ready_to_store i digest s'"
proof -
  have "post (\<lambda>_ s'. ready_to_store i digest s') (sp_precommit sha i digest s)"
    unfolding sp_precommit_def Let_def
    by (intro submit_intros; ((drule ready_steps(4), rule assms(1) | drule (1) ready_steps(4))+)?)
      (auto simp: ready_to_store_def)
  from postD [OF this assms(2)] show ?thesis .
qed

lemma commit_returned: "post (returned i digest) (sp_commit sha i digest gate_hash risk now cash s)"
  unfolding sp_commit_def Let_def
proof (intro post_thenS post_except store_returned)
  fix u s1 receipt s2
  assume "sp_precommit sha i digest (s1\<lparr>sp_consumed_hashes := dput (oi_intent_id i) digest (sp_consumed_hashes s1)\<rparr>) = (Inr receipt, s2)"
  then have "ready_to_store i digest s2" by (rule precommit_ready [rotated]) (simp add: ready_to_store_def)
  then show "post (returned i digest) (sp_redeem i digest gate_hash receipt risk now s2)" by (rule redeem_returned)
qed (auto simp: attempt_typed_def sp_result_def sp_halt_def)

lemma assess_returned: "post (returned i digest) (sp_assess sha i digest gate_hash now s)"
  unfolding sp_assess_def Let_def
  by (intro submit_intros commit_returned) (auto simp: returned_def attempt_typed_def sp_result_def)

lemma decide_returned: "post (returned i digest) (sp_decide sha verify i digest ev s)"
  unfolding sp_decide_def Let_def
  by (intro submit_intros assess_returned) (auto simp: returned_def attempt_typed_def sp_result_def)

lemma submit_locked_returned: "post (returned i digest) (sp_submit_locked sha verify i digest ev s)"
  unfolding sp_submit_locked_def Let_def
  by (intro submit_intros decide_returned) (auto simp: returned_def attempt_typed_def sp_result_def sp_halt_def sp_duplicate_def Let_def)

text \<open>Past the checks of \<open>submit\<close> the locked part runs on the intent itself.\<close>

lemma submit_runs:
  assumes "floats_typed i" "sp_submit sha verify i ev s = (r, s')" "order_intent_payload_hash_v1 sha i = Inr digest"
    and "sp_owner s = (Inr (), s)" "\<not> sp_in_submit s"
  shows "wf_intent i" "sp_finish (sp_submit_locked sha verify i digest ev (s\<lparr>sp_in_submit := True\<rparr>)) = (r, s')"
proof -
  show wf: "wf_intent i" using payload_wf [of i] assms(1,3)
    by (auto simp: order_intent_payload_hash_v1_def err_simps floats_typed_def)
  have "intent_from_dict (obj_fields (intent_to_dict i)) = Inr i"
    using wf valid_post_init by (simp add: intent_from_to_dict wf_intent_def)
  then show "sp_finish (sp_submit_locked sha verify i digest ev (s\<lparr>sp_in_submit := True\<rparr>)) = (r, s')"
    using assms(2-5) by (simp add: sp_submit_def)
qed

lemma submit_returns:
  assumes "sp_submit sha verify i ev s = (Inr a, s')"
  obtains digest where "order_intent_payload_hash_v1 sha i = Inr digest" "sp_owner s = (Inr (), s)" "\<not> sp_in_submit s"
proof -
  have owner: "sp_owner t = (q, t') \<Longrightarrow> t' = t" for q t t'
    by (auto simp: sp_owner_def failS_def split: if_splits)
  show thesis using assms that by (auto simp: sp_submit_def err_simps dest: owner)
qed

lemma submit_returned:
  assumes "floats_typed i" "sp_submit sha verify i ev s = (Inr a, s')"
  shows "\<exists>digest. order_intent_payload_hash_v1 sha i = Inr digest \<and> returned i digest (Inr a) s' \<and> \<not> sp_in_submit s'"
proof -
  obtain digest where d: "order_intent_payload_hash_v1 sha i = Inr digest" "sp_owner s = (Inr (), s)" "\<not> sp_in_submit s"
    using submit_returns [OF assms(2)] .
  obtain r s1 where l: "sp_submit_locked sha verify i digest ev (s\<lparr>sp_in_submit := True\<rparr>) = (r, s1)" by fastforce
  have "r = Inr a" "s' = s1\<lparr>sp_in_submit := False\<rparr>"
    using submit_runs(2) [OF assms d] l by (cases r; simp add: sp_finish_def)+
  then show ?thesis using d(1) postD [OF submit_locked_returned l] by (auto simp: returned_def)
qed

end
