(* ===== verification/SubmitDemo.thy ===== *)
theory SubmitDemo
  imports SubmitAttempts
begin

text \<open>
  One concrete run of the submit path, for the witnesses: the path is created on the ledger of \<open>LedgerDemo\<close>,
  one order is submitted and acknowledged by the stub.
\<close>

section \<open>The ledger under the path\<close>

definition demo_after :: "int list \<Rightarrow> world" where
  "demo_after ns = (demo_disk [demo_order] [] ns)\<lparr>w_syncs := [True]\<rparr>"

lemma demo_create_with:
  "ledger_create demo_sha ''L'' (demo_world False [] (Wrote 150 # ws) (0 # 0 # 150 # 150 # ns)
     [True, True, True, True] [True, True, True, True]) = (Inr (demo_ledger [] 150), demo_disk [] ws ns)"
proof -
  have raw: "canonical (ledger_header demo_sha ''L'') @ NL = header_line demo_sha ''L''" by (simp add: header_line_def)
  have ne: "header_line demo_sha ''L'' \<noteq> []" by (simp add: header_line_def NL_def)
  show ?thesis
    by (simp add: ledger_create_def ledger_open_def open_body_def raw demo_valid(3) demo_world_def os_open_dir_def
        os_open_file_def demo_identity demo_write ne demo_texts os_fsync_def pop_def Let_def demo_st_def stamp_of_def
        demo_ledger_def demo_disk_def file_text_def state_of_Nil start_state_def fresh_ledger_def cong: eval_cong)
qed

lemma demo_append_with:
  "ledger_append demo_sha demo_order (demo_ledger [] 150, demo_disk [] [Wrote 593] (150 # 743 # ns)) =
     (Inr demo_receipt, (demo_ledger [demo_order] 743, demo_after ns))"
proof -
  let ?line = "line_of demo_sha ''L'' (start_state demo_sha ''L'') demo_order"
  have w: "append_persist ?line (stamp_of (demo_st 150)) (demo_disk [] [Wrote 593] (743 # ns)) = (Inr (demo_st 743), demo_after ns)"
    by (simp add: append_persist_def demo_write demo_texts demo_disk_def demo_world_def os_fsync_def pop_def Let_def
        demo_identity file_text_def line_of_nonempty demo_after_def) (simp add: demo_st_def demo_texts)
  have "(demo_ledger [demo_order] 743)\<lparr>l_stamp := stamp_of (demo_st 743)\<rparr> = demo_ledger [demo_order] 743"
    by (simp add: demo_ledger_def demo_state fresh_ledger_def)
  then show ?thesis by (simp add: demo_append_cases w)
qed

lemma demo_after_entered:
  "entered (demo_ledger [demo_order] 743, demo_after (743 # ns)) = (Inr (), (demo_ledger [demo_order] 743, demo_after ns))"
  by (simp add: entered_def ledger_owner_def ledger_guard_def demo_ledger_def fresh_ledger_def demo_disk_def
      demo_world_def demo_identity demo_state demo_after_def)

definition demo_origin :: ledger_checkpoint where
  "demo_origin = \<lparr>lc_ledger_id = ''L'', lc_sequence = 0, lc_record_hash = replicate 64 (CHR ''0'')\<rparr>"

lemma demo_queries:
  "ledger_checkpoint_of (demo_ledger [] 150, demo_disk [] ws (150 # ns)) = (Inr demo_origin, (demo_ledger [] 150, demo_disk [] ws ns))"
  "ledger_checkpoint_of (demo_ledger [demo_order] 743, demo_after (743 # ns)) =
     (Inr demo_checkpoint, (demo_ledger [demo_order] 743, demo_after ns))"
  "ledger_get_intent ''i1'' (demo_ledger [demo_order] 743, demo_after (743 # ns)) =
     (Inr (Some demo_order), (demo_ledger [demo_order] 743, demo_after ns))"
  "ledger_receipts (demo_ledger [demo_order] 743, demo_after (743 # ns)) =
     (Inr [demo_receipt], (demo_ledger [demo_order] 743, demo_after ns))"
proof -
  have l0: "\<lparr>lc_ledger_id = l_ledger_id (demo_ledger [] 150), lc_sequence = int (length (l_records (demo_ledger [] 150))),
      lc_record_hash = l_tip (demo_ledger [] 150)\<rparr> = demo_origin"
    by (simp add: demo_ledger_def demo_state fresh_ledger_def demo_origin_def demo_header_digest)
  have "ledger_checkpoint_post_init demo_origin = Inr demo_origin" unfolding demo_origin_def by code_simp
  then show "ledger_checkpoint_of (demo_ledger [] 150, demo_disk [] ws (150 # ns)) = (Inr demo_origin, (demo_ledger [] 150, demo_disk [] ws ns))"
    using l0 by (simp add: ledger_checkpoint_of_def demo_entered)
  have l1: "\<lparr>lc_ledger_id = l_ledger_id (demo_ledger [demo_order] n), lc_sequence = int (length (l_records (demo_ledger [demo_order] n))),
      lc_record_hash = l_tip (demo_ledger [demo_order] n)\<rparr> = demo_checkpoint" for n
    by (simp add: demo_ledger_def demo_state fresh_ledger_def demo_checkpoint_def)
  show "ledger_checkpoint_of (demo_ledger [demo_order] 743, demo_after (743 # ns)) =
     (Inr demo_checkpoint, (demo_ledger [demo_order] 743, demo_after ns))"
    using l1 by (simp add: ledger_checkpoint_of_def demo_after_entered demo_checkpoint_valid)
  have t: "ledger_text ''i1'' ''intent_id'' = Inr ''i1''" by code_simp
  obtain d where "loads (canonical (intent_to_dict demo_order)) = Some (JObj d)" "intent_from_dict d = Inr demo_order"
    using intent_text_roundtrip [OF demo_typed(2)] loads_canonical [OF wf_json_intent [OF demo_typed(2)]]
    by (cases "sort_json (intent_to_dict demo_order)") (auto simp: obj_fields_def intent_to_dict_def)
  then show "ledger_get_intent ''i1'' (demo_ledger [demo_order] 743, demo_after (743 # ns)) =
     (Inr (Some demo_order), (demo_ledger [demo_order] 743, demo_after ns))"
    by (simp add: ledger_get_intent_def demo_after_entered t) (simp add: demo_ledger_def demo_state fresh_ledger_def)
  show "ledger_receipts (demo_ledger [demo_order] 743, demo_after (743 # ns)) =
     (Inr [demo_receipt], (demo_ledger [demo_order] 743, demo_after ns))"
    by (simp add: ledger_receipts_def demo_after_entered) (simp add: demo_ledger_def demo_state fresh_ledger_def)
qed

section \<open>The path\<close>

definition hex_zeros :: string where "hex_zeros = replicate 64 (CHR ''0'')"
definition hex_ones :: string where "hex_ones = replicate 64 (CHR ''1'')"

definition demo_target :: validation_target where
  "demo_target = \<lparr>vt_factor_id = ''f'', vt_factor_version = ''1'', vt_definition_hash = hex_zeros, vt_alpha_id = ''s'',
     vt_alpha_version = ''1'', vt_risk_policy_version = ''1''\<rparr>"

definition demo_policy :: submit_policy where
  "demo_policy = \<lparr>ep_policy_id = ''p'', ep_version = ''1'', ep_target = demo_target, ep_eligibility_artifact_hash = hex_zeros,
     ep_limits = \<lparr>max_order_notional = Fin 50, max_market_exposure = Fin 50, max_gross_exposure = Fin 50, max_daily_loss = Fin 10,
       max_market_data_age_ms = Fin 1000\<rparr>, ep_max_decision_age_ms = Fin 1000, ep_fee_reserve_bps = Fin 0,
     ep_mode = SUBMIT_OFFLINE, ep_schema_version = POLICY_SCHEMA\<rparr>"

definition demo_evidence :: "unit evidence" where
  "demo_evidence = \<lparr>ev_eligibility = \<lparr>el_status = ELIGIBLE, el_artifact_hash = hex_zeros, el_target = demo_target\<rparr>, ev_documents = ()\<rparr>"

definition demo_verify :: "unit evidence \<Rightarrow> string list res" where
  "demo_verify ev = Inr []"

definition demo_cash :: "pyfloat \<Rightarrow> portfolio" where
  "demo_cash r = \<lparr>pf_cash = Fin 100, pf_reserved_cash = r, pf_realized_pnl = Fin 0, pf_positions = [], pf_reserved_positions = []\<rparr>"

definition demo_stub :: "nat option \<Rightarrow> dispatch_request list \<Rightarrow> stub" where
  "demo_stub t rqs = \<lparr>ob_scenario = ACK, ob_token = t, ob_requests = rqs\<rparr>"

lemma demo_policy_hash: "exclusive_submit_policy_v1_hash demo_sha demo_policy = Inr hex_ones"
  by code_simp

lemma demo_copy: "portfolio_copy (demo_cash (Fin 0)) = Inr (demo_cash (Fin 0))"
  by code_simp

text \<open>The path after \<open>create\<close>, and while and after it takes the order.\<close>

definition demo_path ::
  "bool \<Rightarrow> pyfloat list \<Rightarrow> stub \<Rightarrow> ledger \<times> world \<Rightarrow> ledger_checkpoint \<Rightarrow> portfolio \<Rightarrow> (string \<times> hold) list \<Rightarrow> (string \<times> attempt) list \<Rightarrow>
     (string \<times> string) list \<Rightarrow> submit_path" where
  "demo_path m clock b lw tip p hs rs cs = \<lparr>sp_pid = 7, sp_kill = False, sp_closed = False, sp_in_submit = m,
     sp_halt_reason = None, sp_portfolio = p, sp_policy = demo_policy, sp_policy_hash = hex_ones, sp_clock = clock,
     sp_interference = [], sp_stub = b, sp_token = 9, sp_ledger = fst lw, sp_world = snd lw, sp_tip = tip, sp_holds = hs,
     sp_results = rs, sp_consumed_hashes = cs\<rparr>"

definition demo_start_path :: submit_path where
  "demo_start_path = demo_path False [Fin 5, Fin 6, Fin 7] (demo_stub (Some 9) [])
     (demo_ledger [] 150, demo_disk [] [Wrote 593] [150, 150, 743, 743, 743, 743, 743]) demo_origin (demo_cash (Fin 0)) [] [] []"

lemma demo_sp_create:
  "sp_create demo_sha ''L'' (demo_cash (Fin 0)) demo_policy [Fin 5, Fin 6, Fin 7] [] 9
     (demo_stub None [], demo_world False [] [Wrote 150, Wrote 593] [0, 0, 150, 150, 150, 150, 150, 743, 743, 743, 743, 743]
       [True, True, True, True] [True, True, True, True]) =
     (Inr demo_start_path, (demo_stub (Some 9) [], demo_disk [] [Wrote 593] [150, 150, 743, 743, 743, 743, 743]))"
proof -
  have "stub_claim 9 (demo_stub None []) = (Inr (), demo_stub (Some 9) [])" by (simp add: stub_claim_def demo_stub_def)
  moreover have "lc_sequence demo_origin = 0" by (simp add: demo_origin_def)
  moreover have "w_pid (demo_world x c ws ns os ss) = 7" for x c ws ns os ss by (simp add: demo_world_def)
  ultimately show ?thesis
    by (simp add: sp_create_def sp_open_def demo_policy_hash demo_copy demo_create_with demo_queries(1) demo_start_path_def demo_path_def
        cong: eval_cong)
qed

section \<open>The submission\<close>

definition demo_risk_intent :: risk_intent where
  "demo_risk_intent = \<lparr>ri_condition_id = ''m'', ri_outcome = ''YES'', ri_side = ''BUY'', ri_qty = Fin 4, ri_limit_price = Fin (1 / 2)\<rparr>"

definition demo_now :: risk_context where
  "demo_now = \<lparr>now_ts_ms = Fin 5, market_data_ts_ms = Fin 1, kill_switch = False, estimated_fee_cost = Fin 0\<rparr>"

definition demo_risk :: risk_result where
  "demo_risk = \<lparr>rr_decision = ALLOW, rr_reasons = [], rr_order_notional = Fin 2, rr_cash_required = Fin 2,
     rr_market_exposure_before = Fin 0, rr_market_exposure_after = Fin 2, rr_gross_exposure_before = Fin 0, rr_gross_exposure_after = Fin 2\<rparr>"

definition demo_hold :: hold where
  "demo_hold = hold_of demo_order (Fin 2)"

definition demo_request :: dispatch_request where
  "demo_request = \<lparr>rq_intent_json = intent_to_dict demo_order, rq_intent_hash = hex_ones, rq_receipt = demo_receipt,
     rq_eligibility_artifact_hash = hex_zeros, rq_submit_policy_hash = hex_ones, rq_submit_ts_ms = Fin 7, rq_mode = SUBMIT_OFFLINE\<rparr>"

lemma demo_hash: "order_intent_payload_hash_v1 demo_sha demo_order = Inr hex_ones"
proof -
  have "200 \<le> length (canonical (intent_to_dict demo_order))" by code_simp
  then show ?thesis by (simp add: order_intent_payload_hash_v1_def valid_payload demo_valid(1) demo_digest hex_ones_def)
qed

lemma demo_notional:
  "order_notional demo_order = Fin 2" "fdiv (fmul (Fin 2) (Fin 0)) (Fin 10000) = Inr (Fin 0)" "fadd (Fin 2) (Fin 0) = Fin 2"
proof -
  have "wf_float (Fin 2)" using wf_of_int [of 2] by simp
  then show "fadd (Fin 2) (Fin 0) = Fin 2" by simp
  from \<open>wf_float (Fin 2)\<close> show "order_notional demo_order = Fin 2"
    by (simp add: order_notional_def demo_order_def b64_repr)
qed simp

lemma demo_inputs:
  "risk_intent_post_init demo_risk_intent = Inr demo_risk_intent" "risk_context_post_init demo_now = Inr demo_now"
proof -
  have "py_strip ''m'' = ''m''" "py_strip ''YES'' = ''YES''" "py_upper ''BUY'' = ''BUY''" by code_simp+
  then show "risk_intent_post_init demo_risk_intent = Inr demo_risk_intent"
    by (simp add: risk_intent_post_init_def demo_risk_intent_def nonempty_def positive_def Let_def cong: eval_cong)
  show "risk_context_post_init demo_now = Inr demo_now"
    by (simp add: risk_context_post_init_def demo_now_def nonnegative_def cong: eval_cong)
qed

lemma demo_risk_ok: "evaluate_order_risk (demo_cash (Fin 0)) demo_risk_intent (ep_limits demo_policy) demo_now = Inr demo_risk"
  using no_daily_loss
  by (simp add: evaluate_order_risk_def demo_cash_def demo_risk_intent_def demo_now_def demo_policy_def demo_risk_def
      ri_order_notional_def buy_effect_def market_exposure_def gross_cost_exposure_def available_cash_def
      py_sum_def reason_def Let_def)

lemma demo_reserve:
  "reserve_buy_cash (Fin 2) (demo_cash (Fin 0)) = (Inr (), demo_cash (Fin 2))"
  by (simp add: demo_cash_def reserve_buy_cash_def pf_positive_def pf_finite_def available_cash_def pf_normalize_def Let_def cong: eval_cong)

lemma demo_holds:
  "validate_reservation_candidate (demo_cash (Fin 0)) (demo_cash (Fin 2)) [(''i1'', demo_hold)] = Inr ()"
  "hd_cash demo_hold = Fin 2" "hd_sell_qty demo_hold = Fin 0"
proof -
  show h: "hd_cash demo_hold = Fin 2" "hd_sell_qty demo_hold = Fin 0" by (simp_all add: demo_hold_def hold_of_def demo_order_def)
  have "b64 2 = Fin 2" using wf_of_int [of 2] by (intro b64_repr) simp
  then show "validate_reservation_candidate (demo_cash (Fin 0)) (demo_cash (Fin 2)) [(''i1'', demo_hold)] = Inr ()"
    using h by (simp add: demo_cash_def validate_iff book_matches_def fsum_def sell_quantities_def reservation_matches_def isclose_def)
qed

lemma demo_path_steps:
  "0 \<le> t \<Longrightarrow> read_clock (demo_path m (Fin t # c) b lw tip p hs rs cs) = (Inr (Fin t), demo_path m c b lw tip p hs rs cs)"
  "with_ledger f (demo_path m c b lw tip p hs rs cs) = (case f lw of (r, lw') \<Rightarrow> (r, demo_path m c b lw' tip p hs rs cs))"
  "with_stub g (demo_path m c b lw tip p hs rs cs) = (case g b of (r, b') \<Rightarrow> (r, demo_path m c b' lw tip p hs rs cs))"
  "kill_is_set (demo_path m c b lw tip p hs rs cs) = (False, demo_path m c b lw tip p hs rs cs)"
  by (simp_all add: read_clock_def demo_path_def pop_def sub_number_def with_ledger_def with_stub_def kill_is_set_def split: prod.split)

lemma demo_time:
  assumes "t \<in> {5, 6, 7}"
  shows "time_reasons demo_order (Fin t) (demo_path m c b lw tip p hs rs cs) = ([], demo_path m c b lw tip p hs rs cs)"
proof -
  have "sp_policy (demo_path m c b lw tip p hs rs cs) = demo_policy" by (simp add: demo_path_def)
  then show ?thesis using assms
    by (auto simp: time_reasons_def demo_path_steps(4) demo_order_def demo_policy_def reason_def)
qed

lemma demo_governance: "governance_reasons demo_verify demo_order demo_evidence demo_policy = Inr []"
  by (simp add: governance_reasons_def demo_verify_def demo_evidence_def demo_policy_def demo_target_def demo_order_def reason_def)

lemma demo_pending:
  "pending_reasons demo_order (Fin 2) demo_risk (demo_path m c b lw tip (demo_cash (Fin 0)) [] rs cs) = Inr []"
proof -
  have "wf_float (Fin 2)" using wf_of_int [of 2] by simp
  then show ?thesis
    by (simp add: pending_reasons_def demo_path_def demo_risk_def demo_policy_def demo_order_def demo_cash_def reason_def Let_def
      py_sum_def py_max_def available_cash_def rr_allowed_def)
qed

definition demo_ack :: order_event where
  "demo_ack = \<lparr>oe_event_id = ''offline:i1:1'', oe_intent_id = ''i1'', oe_event_type = VENUE_ACK, oe_receive_ts_ms = Fin 7,
     oe_venue_ts_ms = None, oe_venue_order_id = Some ''offline:1'', oe_fill_qty = Fin 0, oe_fill_price = None,
     oe_cumulative_filled_qty = Fin 0, oe_remaining_qty = Some (Fin 4), oe_reason = Some ''OFFLINE_STUB_NO_FILL'',
     oe_schema_version = ORDER_EVENT_SCHEMA_V1\<rparr>"

lemma demo_stub_event: "stub_event ACK demo_order demo_request = Inr demo_ack"
  unfolding demo_request_def demo_receipt_eq by code_simp

definition demo_response :: stub_response where
  "demo_response = \<lparr>re_mode = SUBMIT_OFFLINE, re_intent_hash = hex_ones, re_record_hash = hex_ones, re_event = demo_ack\<rparr>"

lemma demo_dispatch: "stub_dispatch 9 demo_request (demo_stub (Some 9) []) = (Inr (Some demo_response), demo_stub (Some 9) [demo_request])"
proof -
  have "intent_from_dict (obj_fields (intent_to_dict demo_order)) = Inr demo_order"
    using valid_post_init [OF demo_valid(1)] by (simp add: intent_from_to_dict)
  moreover have "rc_record_hash demo_receipt = hex_ones" by (simp add: demo_receipt_eq hex_ones_def)
  ultimately show ?thesis using demo_stub_event
    by (simp add: stub_dispatch_def demo_stub_def demo_request_def demo_response_def Let_def)
qed

lemma demo_response_valid: "validate_response (Some demo_response) demo_request demo_order = Inr demo_ack"
proof -
  have "event_from_dict (obj_fields (event_to_dict demo_ack)) = Inr demo_ack" by code_simp
  then show ?thesis
    by (simp add: validate_response_def demo_response_def demo_request_def demo_receipt_eq hex_ones_def demo_ack_def demo_order_def)
      code_simp
qed

definition demo_attempt :: attempt where
  "demo_attempt = \<lparr>at_intent_id = ''i1'', at_intent_hash = hex_ones, at_submit_policy_hash = hex_ones, at_eligibility_artifact_hash = hex_zeros,
     at_status = ''OFFLINE_ACK'', at_reasons = [], at_adapter_called = True, at_receipt = Some demo_receipt, at_risk = Some demo_risk,
     at_event = Some demo_ack, at_reserved_cash = Fin 2, at_reserved_sell_qty = Fin 0, at_previous_status = None,
     at_mode = SUBMIT_OFFLINE, at_schema_version = RESULT_SCHEMA\<rparr>"

definition demo_end_path :: submit_path where
  "demo_end_path = demo_path False [] (demo_stub (Some 9) [demo_request]) (demo_ledger [demo_order] 743, demo_after []) demo_checkpoint
     (demo_cash (Fin 2)) [(''i1'', demo_hold)] [(''i1'', demo_attempt)] [(''i1'', hex_ones)]"

lemma demo_precommit:
  "sp_precommit demo_sha demo_order hex_ones
     (demo_path m c b (demo_ledger [] 150, demo_disk [] [Wrote 593] [150, 743, 743, 743, 743, 743]) demo_origin p hs rs cs) =
   (Inr demo_receipt, demo_path m c b (demo_ledger [demo_order] 743, demo_after [743]) demo_checkpoint p hs rs cs)"
proof -
  have tip: "sp_tip (demo_path m c b lw demo_origin p hs rs cs) = demo_origin" for lw by (simp add: demo_path_def)
  have orig: "lc_ledger_id demo_origin = ''L''" "lc_sequence demo_origin = 0" by (simp_all add: demo_origin_def)
  have upd: "(demo_path m c b lw t p hs rs cs)\<lparr>sp_tip := demo_checkpoint\<rparr> = demo_path m c b lw demo_checkpoint p hs rs cs" for lw t
    by (simp add: demo_path_def)
  have cp: "\<lparr>lc_ledger_id = ''L'', lc_sequence = 1, lc_record_hash = hex_ones\<rparr> = demo_checkpoint"
    by (simp add: demo_checkpoint_def demo_receipt_eq hex_ones_def)
  have rc: "rc_intent_id demo_receipt = ''i1''" "rc_intent_hash demo_receipt = hex_ones" "rc_ledger_id demo_receipt = ''L''"
      "rc_sequence demo_receipt = 1" "rc_record_hash demo_receipt = hex_ones" by (simp_all add: demo_receipt_eq hex_ones_def)
  have iid: "oi_intent_id demo_order = ''i1''" by (simp add: demo_order_def)
  show ?thesis
    by (simp add: sp_precommit_def Let_def demo_path_steps(2) demo_append_with demo_queries demo_hash rc iid tip cp demo_checkpoint_valid upd
        orig cong: eval_cong)
qed

lemma demo_sp_redeem:
  "sp_redeem demo_order hex_ones hex_zeros demo_receipt demo_risk (Fin 5)
     (demo_path True [Fin 6, Fin 7] (demo_stub (Some 9) []) (demo_ledger [demo_order] 743, demo_after [743]) demo_checkpoint (demo_cash (Fin 2))
        [(''i1'', demo_hold)] [] [(''i1'', hex_ones)]) = (Inr demo_attempt, demo_end_path\<lparr>sp_in_submit := True\<rparr>)"
proof -
  have tip: "sp_tip (demo_path m c b lw demo_checkpoint p hs rs cs) = demo_checkpoint" for m c b lw p hs rs cs by (simp add: demo_path_def)
  have other: "sp_token (demo_path m c b lw t p hs rs cs) = 9" "sp_policy_hash (demo_path m c b lw t p hs rs cs) = hex_ones" for m c b lw t p hs rs cs
    by (simp_all add: demo_path_def)
  have rq: "\<lparr>rq_intent_json = intent_to_dict demo_order, rq_intent_hash = hex_ones, rq_receipt = demo_receipt,
     rq_eligibility_artifact_hash = hex_zeros, rq_submit_policy_hash = hex_ones, rq_submit_ts_ms = Fin 7, rq_mode = SUBMIT_OFFLINE\<rparr> = demo_request"
    by (simp add: demo_request_def)
  have ack: "oe_event_type demo_ack = VENUE_ACK" by (simp add: demo_ack_def)
  have call: "sp_call_stub demo_order hex_ones hex_zeros demo_receipt demo_risk (Fin 7)
     (demo_path True [] (demo_stub (Some 9) []) (demo_ledger [demo_order] 743, demo_after []) demo_checkpoint (demo_cash (Fin 2))
        [(''i1'', demo_hold)] [] [(''i1'', hex_ones)]) = (Inr demo_attempt, demo_end_path\<lparr>sp_in_submit := True\<rparr>)"
    by (simp add: sp_call_stub_def Let_def other rq demo_path_steps(3) demo_dispatch demo_response_valid except_exception_def ack
        sp_store_def sp_result_def demo_end_path_def) (simp add: demo_path_def demo_attempt_def demo_order_def demo_hold_def hold_of_def)
  show ?thesis
    by (simp add: sp_redeem_def Let_def demo_path_steps demo_time ledger_at_tip_def demo_queries(2) tip except_exception_def reason_def call
        cong: eval_cong)
qed

lemma demo_sp_decide:
  "sp_decide demo_sha demo_verify demo_order hex_ones demo_evidence
     (demo_path True [Fin 5, Fin 6, Fin 7] (demo_stub (Some 9) []) (demo_ledger [] 150, demo_disk [] [Wrote 593] [150, 743, 743, 743, 743, 743])
        demo_origin (demo_cash (Fin 0)) [] [] []) = (Inr demo_attempt, demo_end_path\<lparr>sp_in_submit := True\<rparr>)"
proof -
  let ?s = "\<lambda>c p hs cs. demo_path True c (demo_stub (Some 9) []) (demo_ledger [] 150, demo_disk [] [Wrote 593] [150, 743, 743, 743, 743, 743])
      demo_origin p hs [] cs"
  have s: "sp_policy (?s c p hs cs) = demo_policy" "sp_portfolio (?s c p hs cs) = p" "sp_holds (?s c p hs cs) = hs" for c p hs cs
    by (simp_all add: demo_path_def)
  have upd: "(?s c p hs cs)\<lparr>sp_portfolio := q, sp_holds := gs\<rparr> = ?s c q gs cs" "sp_consumed_hashes (?s c p hs cs) = cs"
      "(?s c p hs cs)\<lparr>sp_consumed_hashes := ds\<rparr> = ?s c p hs ds" for c p q hs gs cs ds
    by (simp_all add: demo_path_def)
  have iid: "oi_intent_id demo_order = ''i1''" "oi_side demo_order = BUY" by (simp_all add: demo_order_def)
  have ri: "\<lparr>ri_condition_id = oi_condition_id demo_order, ri_outcome = oi_outcome demo_order, ri_side = ''BUY'',
      ri_qty = oi_qty demo_order, ri_limit_price = oi_limit_price demo_order\<rparr> = demo_risk_intent"
    by (simp add: demo_order_def demo_risk_intent_def)
  have ctx: "\<lparr>now_ts_ms = Fin 5, market_data_ts_ms = oi_market_data_ts_ms demo_order, kill_switch = False, estimated_fee_cost = Fin 0\<rparr> = demo_now"
    by (simp add: demo_order_def demo_now_def)
  have bps: "ep_fee_reserve_bps demo_policy = Fin 0" by (simp add: demo_policy_def)
  have gate: "el_artifact_hash (ev_eligibility demo_evidence) = hex_zeros" by (simp add: demo_evidence_def)
  have numbers: "sub_number (Fin 2) k = Inr (Fin 2)" "sub_number (Fin 0) k = Inr (Fin 0)" "\<not> fle (Fin 2) (Fin 0)" for k
    by (simp_all add: sub_number_def)
  have r: "rr_reasons demo_risk = []" by (simp add: demo_risk_def)
  have reserve: "sp_reserve demo_order (Fin 2) (?s c (demo_cash (Fin 0)) [] []) = (Inr (), ?s c (demo_cash (Fin 2)) [(''i1'', demo_hold)] [])" for c
    by (simp add: sp_reserve_def Let_def flip: demo_hold_def) (simp add: iid s demo_holds demo_reserve copy_call_def upd)
  have commit: "sp_commit demo_sha demo_order hex_ones hex_zeros demo_risk (Fin 5) (Fin 2) (?s [Fin 6, Fin 7] (demo_cash (Fin 0)) [] []) =
      (Inr demo_attempt, demo_end_path\<lparr>sp_in_submit := True\<rparr>)"
    by (simp add: sp_commit_def reserve upd iid except_exception_def demo_precommit demo_sp_redeem)
  have assess: "sp_assess demo_sha demo_order hex_ones hex_zeros (Fin 5) (?s [Fin 6, Fin 7] (demo_cash (Fin 0)) [] []) =
      (Inr demo_attempt, demo_end_path\<lparr>sp_in_submit := True\<rparr>)"
    by (simp add: sp_assess_def Let_def demo_notional numbers s bps iid ri demo_inputs demo_path_steps(4) ctx demo_risk_ok
        demo_pending r commit cong: eval_cong)
  show ?thesis
    by (simp add: sp_decide_def s demo_governance demo_path_steps(1) demo_time gate assess cong: eval_cong)
qed

lemma demo_sp_submit: "sp_submit demo_sha demo_verify demo_order demo_evidence demo_start_path = (Inr demo_attempt, demo_end_path)"
proof -
  let ?s = "\<lambda>m ns. demo_path m [Fin 5, Fin 6, Fin 7] (demo_stub (Some 9) []) (demo_ledger [] 150, demo_disk [] [Wrote 593] ns)
      demo_origin (demo_cash (Fin 0)) [] [] []"
  have s: "sp_consumed_hashes (?s m ns) = []" "sp_halt_reason (?s m ns) = None" "sp_tip (?s m ns) = demo_origin" "\<not> sp_in_submit (?s False ns)"
      "sp_owner (?s m ns) = (Inr (), ?s m ns)" "(?s m ns)\<lparr>sp_in_submit := True\<rparr> = ?s True ns" for m ns
    by (simp_all add: demo_path_def sp_owner_def demo_disk_def demo_world_def)
  have i: "intent_from_dict (obj_fields (intent_to_dict demo_order)) = Inr demo_order"
    using valid_post_init [OF demo_valid(1)] by (simp add: intent_from_to_dict)
  have tip: "ledger_at_tip (?s m (150 # ns)) = (Inr (), ?s m ns)" for m ns
    by (simp add: ledger_at_tip_def demo_path_steps(2) demo_queries(1) s)
  have "sp_submit_locked demo_sha demo_verify demo_order hex_ones demo_evidence (?s True [150, 150, 743, 743, 743, 743, 743]) =
      (Inr demo_attempt, demo_end_path\<lparr>sp_in_submit := True\<rparr>)"
    by (simp add: sp_submit_locked_def s tip except_exception_def demo_sp_decide)
  moreover have "demo_end_path\<lparr>sp_in_submit := True, sp_in_submit := False\<rparr> = demo_end_path" by (simp add: demo_end_path_def demo_path_def)
  ultimately show ?thesis
    by (simp add: sp_submit_def demo_start_path_def s demo_hash i sp_finish_def)
qed

section \<open>A second process\<close>

definition demo_reopened :: "int list \<Rightarrow> world" where
  "demo_reopened ns = (demo_disk [demo_order] [] ns)\<lparr>w_syncs := [], w_opens := [], w_reads := []\<rparr>"

lemma demo_reopen_with:
  "ledger_open_existing demo_sha ''L'' None (demo_disk [demo_order] [] (n # n # n # n # ns)) =
     (Inr (demo_ledger [demo_order] n), demo_reopened ns)"
proof -
  have r: "ledger_recover demo_sha ''L'' (file_text demo_sha ''L'' [demo_order]) = Inr (state_of demo_sha ''L'' [demo_order])"
    by (rule recover_exact [OF demo_recordable(1)])
  show ?thesis
    by (simp add: ledger_open_existing_def ledger_open_def open_body_def demo_valid(3) demo_disk_def demo_world_def
        os_open_dir_def os_open_file_def os_read_def demo_identity os_fsync_def pop_def Let_def demo_ledger_def split_def
        fresh_ledger_def demo_reopened_def r cong: eval_cong)
qed

definition demo_second_path :: submit_path where
  "demo_second_path = (demo_path False [] (demo_stub (Some 9) []) (demo_ledger [demo_order] 743, demo_reopened []) demo_checkpoint
     (demo_cash (Fin 0)) [] [] [])\<lparr>sp_halt_reason := Some ''RECOVERED_HISTORY_REQUIRES_RECONCILIATION''\<rparr>"

lemma demo_sp_reopen:
  "sp_open_existing demo_sha None ''L'' (demo_cash (Fin 0)) demo_policy [] [] 9
     (demo_stub None [], demo_disk [demo_order] [] [743, 743, 743, 743, 743]) =
     (Inr demo_second_path, (demo_stub (Some 9) [], demo_reopened []))"
proof -
  have "entered (demo_ledger [demo_order] 743, demo_reopened [743]) = (Inr (), (demo_ledger [demo_order] 743, demo_reopened []))"
    by (simp add: entered_def ledger_owner_def ledger_guard_def demo_ledger_def fresh_ledger_def demo_disk_def
        demo_world_def demo_identity demo_state demo_reopened_def)
  moreover have "\<lparr>lc_ledger_id = l_ledger_id (demo_ledger [demo_order] n), lc_sequence = int (length (l_records (demo_ledger [demo_order] n))),
      lc_record_hash = l_tip (demo_ledger [demo_order] n)\<rparr> = demo_checkpoint" for n
    by (simp add: demo_ledger_def demo_state fresh_ledger_def demo_checkpoint_def)
  ultimately have c: "ledger_checkpoint_of (demo_ledger [demo_order] 743, demo_reopened [743]) =
      (Inr demo_checkpoint, (demo_ledger [demo_order] 743, demo_reopened []))"
    by (simp add: ledger_checkpoint_of_def demo_checkpoint_valid)
  have "stub_claim 9 (demo_stub None []) = (Inr (), demo_stub (Some 9) [])" by (simp add: stub_claim_def demo_stub_def)
  moreover have "lc_sequence demo_checkpoint \<noteq> 0" by (simp add: demo_checkpoint_def)
  moreover have "w_pid (demo_disk is ws ns) = 7" for "is" ws ns by (simp add: demo_disk_def demo_world_def)
  ultimately show ?thesis
    by (simp add: sp_open_existing_def sp_open_def demo_policy_hash demo_copy demo_reopen_with c demo_second_path_def demo_path_def
        cong: eval_cong)
qed

lemma demo_reached: "sp_reach demo_sha demo_verify demo_start_path demo_end_path"
  using sp_reach_step [OF sp_reach_refl, of "Submit demo_order demo_evidence" demo_sha demo_verify demo_start_path] demo_typed(1)
  by (simp add: demo_sp_submit)

lemma demo_end:
  "sp_requests 0 demo_end_path = [demo_request]" "l_records (sp_ledger demo_end_path) = [(demo_receipt, canonical (intent_to_dict demo_order))]"
  "w_durable (sp_world demo_end_path) = file_text demo_sha ''L'' [demo_order]" "ob_requests (sp_stub demo_end_path) = [demo_request]"
  "ob_requests (sp_stub demo_start_path) = []" "sp_owner demo_end_path = (Inr (), demo_end_path)"
  by (simp_all add: demo_end_path_def demo_start_path_def demo_path_def sp_requests_def demo_stub_def demo_ledger_def demo_state
      fresh_ledger_def demo_after_def demo_disk_def demo_world_def sp_owner_def)

end
