(* ===== verification/SubmitProps.thy ===== *)
theory SubmitProps
  imports SubmitDemo
begin

text \<open>
  The properties of the submit path, each with its witness on the run of \<open>SubmitDemo\<close>.
\<close>

section \<open>Creation, halted paths\<close>

lemma sub_number_Inr: "sub_number v k = Inr x \<longleftrightarrow> x = v \<and> isfinite v \<and> \<not> flt v (Fin 0)"
  by (auto simp: sub_number_def err_simps)

lemma portfolio_copy_Inr:
  assumes "portfolio_copy p = Inr q"
  shows "q = p \<and> validate_reservation_candidate p p [] = Inr ()"
proof -
  have "q = p" "isfinite (pf_cash p)" "isfinite (pf_realized_pnl p)" "pf_reserved_cash p = Fin 0" "pf_reserved_positions p = []"
    using assms by (auto simp: portfolio_copy_def err_simps sub_number_Inr elim: feq.elims)
  moreover have "feq x x" if "isfinite x" for x using that by (cases x) auto
  ultimately show ?thesis
    by (simp add: validate_iff book_matches_def fsum_def sell_quantities_def reservation_matches_def fle_def isclose_def)
qed

lemma stub_claim_Inr: "stub_claim token b = (Inr u, b1) \<Longrightarrow> ob_requests b1 = ob_requests b"
  by (auto simp: stub_claim_def failS_def split: if_splits)

lemma open_cases:
  assumes "sp_open sha create cp lid p policy clock interference token (b, w) = (Inr s, bw)"
  obtains l w1 tip where "(if create then ledger_create sha lid w else ledger_open_existing sha lid cp w) = (Inr l, w1)"
    "ledger_checkpoint_of (l, w1) = (Inr tip, (sp_ledger s, sp_world s))" "portfolio_copy p = Inr (sp_portfolio s)"
    "ob_requests (sp_stub s) = ob_requests b" "sp_holds s = []"
    "sp_halt_reason s = (if lc_sequence tip \<noteq> 0 then Some ''RECOVERED_HISTORY_REQUIRES_RECONCILIATION'' else None)"
proof -
  obtain h owned where h: "exclusive_submit_policy_v1_hash sha policy = Inr h" "portfolio_copy p = Inr owned"
    using assms by (auto simp: sp_open_def Let_def checkS_Inr_iff)
  obtain r1 b1 where b1: "stub_claim token b = (r1, b1)" by fastforce
  obtain r2 w1 where l: "(if create then ledger_create sha lid w else ledger_open_existing sha lid cp w) = (r2, w1)" by fastforce
  note start = assms [unfolded sp_open_def Let_def prod.case h checkS_simps b1 l]
  obtain l where l2: "r2 = Inr l" "r1 = Inr ()" using start by (cases r1; cases r2) simp_all
  obtain r3 l1 w2 where t: "ledger_checkpoint_of (l, w1) = (r3, (l1, w2))" by (metis prod.collapse)
  obtain tip where t2: "r3 = Inr tip" using start l2 t by (cases r3) (auto split: prod.splits sum.splits)
  show thesis
    by (rule that [of l w1 tip]) (use start l l2 t t2 h stub_claim_Inr [OF b1 [unfolded l2(2)]] in auto)
qed

lemma create_path_ok:
  assumes "hex_digest sha" "sp_create sha lid p policy clock interference token (b, w) = (Inr s, bw)"
  shows "path_ok sha lid p (length (ob_requests b)) s"
proof -
  obtain l w1 tip where c: "ledger_create sha lid w = (Inr l, w1)" "ledger_checkpoint_of (l, w1) = (Inr tip, (sp_ledger s, sp_world s))"
      "portfolio_copy p = Inr (sp_portfolio s)" "ob_requests (sp_stub s) = ob_requests b" "sp_holds s = []"
    by (rule open_cases [OF assms(2) [unfolded sp_create_def]]) simp
  have "ledger_ok sha lid [] (sp_ledger s, sp_world s)"
    using query_keeps(1) [OF ledger_queries(1) c(2) create_ok [OF assms(1) c(1)]] .
  then show ?thesis using c(4,5) portfolio_copy_Inr [OF c(3)] by (auto simp: path_ok_def sp_requests_def)
qed

text \<open>A halted path does nothing any more.\<close>

definition same_orders :: "submit_path \<Rightarrow> submit_path \<Rightarrow> bool" where
  "same_orders s s' \<longleftrightarrow> sp_halt_reason s' = sp_halt_reason s \<and> ob_requests (sp_stub s') = ob_requests (sp_stub s) \<and>
     l_records (sp_ledger s') = l_records (sp_ledger s) \<and> sp_portfolio s' = sp_portfolio s \<and> sp_holds s' = sp_holds s"

lemma halted_submit:
  assumes "sp_halt_reason s = Some why"
  shows "post (\<lambda>_ s'. same_orders s s') (sp_submit sha verify i ev s)"
proof -
  have owner: "sp_owner t = (r, t') \<Longrightarrow> t' = t" for r t t'
    by (auto simp: sp_owner_def failS_def split: if_splits)
  have "post (\<lambda>_ s'. same_orders s s') (sp_finish (sp_submit_locked sha verify x d ev (s\<lparr>sp_in_submit := True\<rparr>)))" for x d
  proof -
    have "snd (sp_submit_locked sha verify x d ev (s\<lparr>sp_in_submit := True\<rparr>)) = s\<lparr>sp_in_submit := True\<rparr>"
      using assms by (simp add: sp_submit_locked_def failS_def Let_def split: option.split)
    then obtain r where "sp_submit_locked sha verify x d ev (s\<lparr>sp_in_submit := True\<rparr>) = (r, s\<lparr>sp_in_submit := True\<rparr>)"
      by (metis prod.collapse)
    then show ?thesis using assms by (cases r) (auto simp: sp_finish_def post_def same_orders_def)
  qed
  then show ?thesis unfolding sp_submit_def
    by (intro submit_intros) (auto simp: same_orders_def dest!: owner)
qed

lemma halted_exec: "sp_halt_reason s = Some why \<Longrightarrow> same_orders s (sp_exec sha verify c s)"
proof (cases c)
  case Close_Path
  obtain r l w where "ledger_close (sp_ledger s, sp_world s) = (r, (l, w))" by (metis prod.collapse)
  moreover from this have "l_records l = l_records (sp_ledger s)"
    by (auto simp: ledger_close_def ledger_release_def os_close_def split: if_splits prod.splits)
  ultimately show ?thesis using Close_Path
    by (simp add: sp_close_def failS_def with_ledger_def same_orders_def stub_release_def)
qed (use halted_submit [of s why sha verify] in \<open>auto simp: post_def sp_set_kill_switch_def sp_owner_def failS_def same_orders_def\<close>)

lemma halted_reach: "sp_reach sha verify s t \<Longrightarrow> sp_halt_reason s = Some why \<Longrightarrow> same_orders s t"
proof (induction rule: sp_reach.induct)
  case (sp_reach_step t c)
  then show ?case using halted_exec [of t why sha verify c] by (simp add: same_orders_def)
qed (simp add: same_orders_def)

lemma open_existing_halts:
  assumes "sp_open_existing sha cp lid p policy clock interference token (b, w) = (Inr s, bw)"
    and "ledger_recover sha lid (w_content w) = Inr (n, recs, ids, tip)" "recs \<noteq> []"
  shows "sp_halt_reason s = Some ''RECOVERED_HISTORY_REQUIRES_RECONCILIATION'' \<and> ob_requests (sp_stub s) = ob_requests b"
proof -
  obtain l w1 c where o: "ledger_open_existing sha lid cp w = (Inr l, w1)"
      "ledger_checkpoint_of (l, w1) = (Inr c, (sp_ledger s, sp_world s))" "ob_requests (sp_stub s) = ob_requests b"
      "sp_halt_reason s = (if lc_sequence c \<noteq> 0 then Some ''RECOVERED_HISTORY_REQUIRES_RECONCILIATION'' else None)"
    by (rule open_cases [OF assms(1) [unfolded sp_open_existing_def]]) simp
  have "l_records l = recs" using open_existing_loads(1) [OF o(1)] assms(2) by auto
  moreover obtain s1 where e: "entered (l, w1) = (Inr (), s1)" "lc_sequence c = int (length (l_records (fst s1)))"
    using o(2) by (auto simp: ledger_checkpoint_of_def ledger_checkpoint_post_init_def err_simps)
  ultimately have "lc_sequence c \<noteq> 0" using entered_effect(2) [OF e(1)] assms(3) by simp
  then show ?thesis using o(3,4) by simp
qed


section \<open>Orders and restarts\<close>

lemma sp_reopened_entries:
  assumes "ledger_ok sha lid is (l, w)" "prefix (w_durable w) c" "ledger_recover sha lid c = Inr (n, recs, ids, tip)"
  shows "prefix (l_records l) recs"
proof -
  have a: "recordable_list sha lid is" "l_records l = fst (snd (state_of sha lid is))" "prefix (file_text sha lid is) (w_durable w)"
    using assms(1) by (auto simp: ledger_ok_def agrees_def dest: arg_cong [where f = "\<lambda>x. fst (snd x)"])
  obtain rest where "c = file_text sha lid is @ rest" using a(3) assms(2) by (auto simp: prefix_def)
  then show ?thesis using recover_prefix [OF a(1)] assms(3) a(2) by fastforce
qed

lemma run_ok:
  assumes "hex_digest sha" "sp_create sha lid p policy clock interference token (b, w0) = (Inr s0, bw)" "sp_reach sha verify s0 s"
  shows "path_ok sha lid p (length (ob_requests b)) s"
  by (rule reach_ok [OF assms(3) create_path_ok [OF assms(1,2)]])

text \<open>C4. The stub only ever sees what survives a crash: after a submit path is created and any calls ran on it,
  in any order, against any operating-system answers, clock readings and kill-switch updates, each request it
  sent to the stub carries the receipt of its own intent, and a process that later opens any file that still
  starts with the bytes made durable finds that receipt with that intent.\<close>
theorem dispatched_orders_survive:
  assumes "hex_digest sha" "sp_create sha lid p policy clock interference token (b, w0) = (Inr s0, bw)" "sp_reach sha verify s0 s"
    and "rq \<in> set (sp_requests (length (ob_requests b)) s)"
    and "prefix (w_durable (sp_world s)) (w_content w2)" "ledger_open_existing sha lid cp w2 = (Inr l, w3)"
  shows "(rq_receipt rq, canonical (rq_intent_json rq)) \<in> set (l_records l)"
proof -
  have ok: "path_ok sha lid p (length (ob_requests b)) s" by (rule run_ok [OF assms(1-3)])
  obtain n where r: "ledger_recover sha lid (w_content w2) = Inr (n, l_records l, l_by_id l, l_tip l)"
    using open_existing_loads(1) [OF assms(6)] by blast
  have "prefix (l_records (sp_ledger s)) (l_records l)"
    using ok sp_reopened_entries [OF _ assms(5) r] by (auto simp: path_ok_def)
  then show ?thesis using ok assms(4) set_mono_prefix by (force simp: path_ok_def list_all_iff recorded_request_def)
qed

theorem dispatched_orders_survive_witness:
  "(rq_receipt demo_request, canonical (rq_intent_json demo_request)) \<in> set (l_records (demo_ledger [demo_order] 9))"
proof -
  have "prefix (w_durable (sp_world demo_end_path)) (w_content (demo_disk [demo_order] [] [9, 9, 9, 9]))"
    by (simp add: demo_end demo_disk_def demo_world_def)
  from dispatched_orders_survive [OF demo_sha_hex demo_sp_create demo_reached _ this demo_reopen_with]
  show ?thesis by (simp add: demo_stub_def demo_end)
qed

text \<open>C9. No intent reaches the stub twice: in any run of a path the intent ids in the requests it sent are
  distinct.\<close>
theorem dispatched_at_most_once:
  assumes "hex_digest sha" "sp_create sha lid p policy clock interference token (b, w0) = (Inr s0, bw)" "sp_reach sha verify s0 s"
  shows "distinct (map (\<lambda>rq. map_of (obj_fields (rq_intent_json rq)) ''intent_id'') (sp_requests (length (ob_requests b)) s))"
proof -
  have ok: "path_ok sha lid p (length (ob_requests b)) s" by (rule run_ok [OF assms])
  have "map_of (obj_fields (rq_intent_json rq)) ''intent_id'' = Some (JStr (rq_intent_id rq))"
    if "rq \<in> set (sp_requests (length (ob_requests b)) s)" for rq
    using ok that by (auto simp: path_ok_def list_all_iff recorded_request_def intent_to_dict_def obj_fields_def)
  then have "map (\<lambda>rq. map_of (obj_fields (rq_intent_json rq)) ''intent_id'') (sp_requests (length (ob_requests b)) s) =
      map (Some \<circ> JStr) (map rq_intent_id (sp_requests (length (ob_requests b)) s))" by simp
  also have "distinct \<dots>" using ok by (subst distinct_map) (auto simp: path_ok_def inj_on_def)
  finally show ?thesis .
qed

theorem dispatched_at_most_once_witness:
  "distinct (map (\<lambda>rq. map_of (obj_fields (rq_intent_json rq)) ''intent_id'') (sp_requests 0 demo_end_path)) \<and>
   sp_requests 0 demo_end_path = [demo_request]"
  using dispatched_at_most_once [OF demo_sha_hex demo_sp_create demo_reached] by (simp add: demo_stub_def demo_end)

text \<open>C5. A restart never dispatches again: when a path recorded any intent - whether or not it reached the stub -
  and a new process opens what the crash left of its file, no sequence of calls of the new process sends
  anything to the stub.\<close>
theorem restart_never_redispatches:
  assumes "hex_digest sha" "sp_create sha lid p policy clock interference token (b, w0) = (Inr s0, bw)" "sp_reach sha verify s0 s"
    and "l_records (sp_ledger s) \<noteq> []" "prefix (w_durable (sp_world s)) (w_content w2)"
    and "sp_open_existing sha cp lid p2 policy2 clock2 interference2 token2 (b2, w2) = (Inr s2, bw2)" "sp_reach sha verify2 s2 s3"
  shows "ob_requests (sp_stub s3) = ob_requests b2"
proof -
  have ok: "path_ok sha lid p (length (ob_requests b)) s" by (rule run_ok [OF assms(1-3)])
  obtain l w1 where o: "ledger_open_existing sha lid cp w2 = (Inr l, w1)"
    by (rule open_cases [OF assms(6) [unfolded sp_open_existing_def]]) simp
  obtain n where r: "ledger_recover sha lid (w_content w2) = Inr (n, l_records l, l_by_id l, l_tip l)"
    using open_existing_loads(1) [OF o] by blast
  have "prefix (l_records (sp_ledger s)) (l_records l)"
    using ok sp_reopened_entries [OF _ assms(5) r] by (auto simp: path_ok_def)
  then have h: "sp_halt_reason s2 = Some ''RECOVERED_HISTORY_REQUIRES_RECONCILIATION'' \<and> ob_requests (sp_stub s2) = ob_requests b2"
    using assms(4) by (intro open_existing_halts [OF assms(6) r]) auto
  then show ?thesis using halted_reach [OF assms(7)] by (simp add: same_orders_def)
qed

theorem restart_never_redispatches_witness:
  "ob_requests (sp_stub (sp_exec demo_sha demo_verify (Submit demo_order demo_evidence) demo_second_path)) = []"
proof -
  have p: "prefix (w_durable (sp_world demo_end_path)) (w_content (demo_disk [demo_order] [] [743, 743, 743, 743, 743]))"
    by (simp add: demo_end demo_disk_def demo_world_def)
  have r: "sp_reach demo_sha demo_verify demo_second_path (sp_exec demo_sha demo_verify (Submit demo_order demo_evidence) demo_second_path)"
    by (rule sp_reach_step [OF sp_reach_refl]) (simp add: demo_typed)
  show ?thesis
    using restart_never_redispatches [OF demo_sha_hex demo_sp_create demo_reached _ p demo_sp_reopen r]
    by (simp add: demo_end demo_stub_def)
qed

text \<open>C8. Reservations are those of the active holds: in every state of a path cash, positions and realized profit
  are those it was created with, and the reserved cash and the reserved shares of each position are, within the
  relative tolerance of the code, the sums of the active holds.\<close>
theorem reservations_match_holds:
  assumes "hex_digest sha" "sp_create sha lid p policy clock interference token (b, w0) = (Inr s0, bw)" "sp_reach sha verify s0 s"
  shows "pf_cash (sp_portfolio s) = pf_cash p \<and> pf_realized_pnl (sp_portfolio s) = pf_realized_pnl p \<and>
    pf_positions (sp_portfolio s) = pf_positions p \<and> book_matches (sp_portfolio s) (sp_holds s)"
proof -
  have "feq a c \<Longrightarrow> a = c" for a c by (cases a) auto
  then show ?thesis using run_ok [OF assms] by (simp add: path_ok_def validate_iff)
qed

theorem reservations_match_holds_witness:
  "pf_cash (sp_portfolio demo_end_path) = Fin 100 \<and> book_matches (sp_portfolio demo_end_path) (sp_holds demo_end_path) \<and>
   sp_holds demo_end_path = [(''i1'', demo_hold)]"
  using reservations_match_holds [OF demo_sha_hex demo_sp_create demo_reached]
  by (simp add: demo_cash_def) (simp add: demo_end_path_def demo_path_def)

section \<open>What one submission does\<close>

text \<open>C6. Every control passed before the stub is called: when a submission sends anything, it sends exactly one
  request, for its own intent, at a time at which decision and market data are neither from the future nor
  too old; the kill switch was off at its last sample; the path was not halted and the intent id had not
  been consumed; and the evidence verified without a reason, is eligible, is the one the policy pins, and
  names the target, strategy and risk policy of the intent.\<close>
theorem dispatch_passed_every_control:
  assumes "floats_typed i" "sp_submit sha verify i ev s = (r, s')" "ob_requests (sp_stub s') \<noteq> ob_requests (sp_stub s)"
  shows "(\<exists>rq. ob_requests (sp_stub s') = ob_requests (sp_stub s) @ [rq] \<and> rq_intent_json rq = intent_to_dict i \<and>
      timely (sp_policy s) i (rq_submit_ts_ms rq)) \<and> \<not> sp_kill s' \<and>
    sp_halt_reason s = None \<and> map_of (sp_consumed_hashes s) (oi_intent_id i) = None \<and>
    verify ev = Inr [] \<and> el_status (ev_eligibility ev) = ELIGIBLE \<and>
    el_artifact_hash (ev_eligibility ev) = ep_eligibility_artifact_hash (sp_policy s) \<and>
    el_target (ev_eligibility ev) = ep_target (sp_policy s) \<and>
    oi_strategy_id i = vt_alpha_id (ep_target (sp_policy s)) \<and> oi_strategy_version i = vt_alpha_version (ep_target (sp_policy s)) \<and>
    oi_risk_policy_version i = vt_risk_policy_version (ep_target (sp_policy s))"
proof -
  have "\<not> sent_nothing s s'" using assms(3) by (simp add: sent_nothing_def)
  note c = submit_checked [OF assms(1,2) this]
  have "governance_reasons verify i ev (sp_policy s) = Inr []" using c by (simp add: passed_controls_def)
  then show ?thesis using c assms(3)
    by (auto simp: governance_reasons_def err_simps Let_def sends_def sent_nothing_def passed_controls_def)
qed

theorem dispatch_passed_every_control_witness:
  "timely demo_policy demo_order (Fin 7) \<and> \<not> sp_kill demo_end_path"
proof -
  have p: "sp_policy demo_start_path = demo_policy" by (simp add: demo_start_path_def demo_path_def)
  show ?thesis
    using dispatch_passed_every_control [OF demo_typed(1) demo_sp_submit] by (auto simp: demo_end p demo_request_def)
qed

text \<open>C7. A dispatched order is within the limits even if everything pending fills: its notional is at most the
  order limit (and the code's tolerance); for a BUY the market and the gross exposure - what is held, the order,
  and all pending BUY orders together - are at most the limits, and notional and fee are at most the available
  cash, without any tolerance; for a SELL the quantity is at most the available shares.\<close>
theorem dispatch_within_limits:
  assumes "floats_typed i" "sp_submit sha verify i ev s = (r, s')" "ob_requests (sp_stub s') \<noteq> ob_requests (sp_stub s)"
  shows "within_budget (sp_policy s) (sp_portfolio s) (map snd (sp_holds s)) i"
  using submit_checked [OF assms(1,2)] assms(3) by (simp add: sent_nothing_def)

theorem dispatch_within_limits_witness:
  "within_budget demo_policy (demo_cash (Fin 0)) [] demo_order"
proof -
  have "sp_policy demo_start_path = demo_policy" "sp_portfolio demo_start_path = demo_cash (Fin 0)" "sp_holds demo_start_path = []"
    by (simp_all add: demo_start_path_def demo_path_def)
  then show ?thesis using dispatch_within_limits [OF demo_typed(1) demo_sp_submit] by (simp add: demo_end)
qed

text \<open>Submitting an intent again does nothing: after a submission returned an attempt with a receipt, a second
  submission under the same intent id leaves the path exactly as it is; with the same content hash it returns
  a duplicate with the receipt and the status of the first, with another hash it raises a conflict.\<close>
theorem resubmission_is_inert:
  assumes "floats_typed i" "sp_submit sha verify i ev s = (Inr a, s1)" "at_receipt a \<noteq> None" "at_status a \<noteq> ''DUPLICATE''"
    and "floats_typed j" "oi_intent_id j = oi_intent_id i" "order_intent_payload_hash_v1 sha j = Inr h" "sp_owner s1 = (Inr (), s1)"
    and "sp_submit sha verify2 j ev2 s1 = (r, s2)"
  shows "s2 = s1 \<and> (if h = at_intent_hash a
    then \<exists>b. r = Inr b \<and> at_status b = ''DUPLICATE'' \<and> at_receipt b = at_receipt a \<and> at_previous_status b = Some (at_status a) \<and>
      \<not> at_adapter_called b
    else r = Inl SubmitIntentConflictError)"
proof -
  obtain digest where d: "returned i digest (Inr a) s1" "\<not> sp_in_submit s1" using submit_returned [OF assms(1,2)] by blast
  have stored: "map_of (sp_results s1) (oi_intent_id j) = Some a" "map_of (sp_consumed_hashes s1) (oi_intent_id j) = Some (at_intent_hash a)"
    using d(1) assms(3,4,6) by (simp_all add: returned_def)
  have same: "s1\<lparr>sp_in_submit := False\<rparr> = s1" using d(2) by simp
  have run: "sp_finish (sp_submit_locked sha verify2 j h ev2 (s1\<lparr>sp_in_submit := True\<rparr>)) = (r, s2)"
    by (rule submit_runs(2) [OF assms(5,9,7,8) d(2)])
  show ?thesis
  proof (cases "h = at_intent_hash a")
    case True
    then show ?thesis using run stored same
      by (auto simp: sp_submit_locked_def sp_finish_def sp_duplicate_def sp_result_def Let_def)
  next
    case False
    then show ?thesis using run stored same
      by (auto simp: sp_submit_locked_def sp_finish_def Let_def)
  qed
qed

text \<open>C10. Every returned attempt is well formed: it names its intent, the hash of its content and the hash of the
  policy; its status is one of the eight; the stub was called exactly for an acknowledgement, a rejection and an
  unknown outcome, and then there is a receipt and a risk verdict; there is an event exactly for an
  acknowledgement and a rejection, and a reason exactly otherwise; and the path takes the next call.\<close>
theorem attempts_are_well_formed:
  assumes "floats_typed i" "sp_submit sha verify i ev s = (Inr a, s')"
  shows "attempt_typed a \<and> at_intent_id a = oi_intent_id i \<and> order_intent_payload_hash_v1 sha i = Inr (at_intent_hash a) \<and>
    at_submit_policy_hash a = sp_policy_hash s' \<and> \<not> sp_in_submit s'"
  using submit_returned [OF assms] by (auto simp: returned_def)

theorem attempts_are_well_formed_witness:
  "attempt_typed demo_attempt \<and> order_intent_payload_hash_v1 demo_sha demo_order = Inr (at_intent_hash demo_attempt)"
  using attempts_are_well_formed [OF demo_typed(1) demo_sp_submit] by simp

end
