(* ===== verification/LedgerProgress.thy ===== *)
theory LedgerProgress
  imports LedgerDemo
begin

text \<open>
  When the ledger acknowledges: an append on a usable handle returns its receipt as soon as the operating
  system makes progress on the write, whatever interruptions and short writes come first.
\<close>

text \<open>The answers \<open>ws\<close> are interruptions and short writes that together take exactly \<open>n\<close> bytes.\<close>

fun accepts_bytes :: "write_reply list \<Rightarrow> nat \<Rightarrow> bool" where
  "accepts_bytes [] n \<longleftrightarrow> n = 0"
| "accepts_bytes (WIntr # ws) n \<longleftrightarrow> 0 < n \<and> accepts_bytes ws n"
| "accepts_bytes (Wrote k # ws) n \<longleftrightarrow> 0 < k \<and> k \<le> int n \<and> accepts_bytes ws (n - nat k)"
| "accepts_bytes (WFail # ws) n \<longleftrightarrow> False"
| "accepts_bytes (WBase # ws) n \<longleftrightarrow> False"

lemma accepts_bytes_0: "accepts_bytes ws 0 \<longleftrightarrow> ws = []"
  by (cases "(ws, 0 :: nat)" rule: accepts_bytes.cases) auto

lemma write_all_progress:
  "accepts_bytes ws (length raw) \<Longrightarrow> w_writes w = ws @ rest \<Longrightarrow>
     write_all raw w = (Inr (), w\<lparr>w_writes := rest, w_content := w_content w @ raw\<rparr>)"
proof (induction ws arbitrary: raw w)
  case Nil
  then have "w\<lparr>w_writes := rest, w_content := w_content w @ raw\<rparr> = w" by simp
  then show ?case using Nil by (simp add: write_all_end)
next
  case (Cons a ws)
  have raw: "raw \<noteq> []" using Cons.prems(1) by (auto simp: accepts_bytes_0)
  show ?case
  proof (cases a)
    case WIntr
    let ?w = "w\<lparr>w_writes := ws @ rest\<rparr>"
    have "write_all raw ?w = (Inr (), ?w\<lparr>w_writes := rest, w_content := w_content ?w @ raw\<rparr>)"
      using Cons.prems(1) WIntr by (intro Cons.IH) simp_all
    then show ?thesis using raw Cons.prems(2) WIntr by (simp add: write_all_step os_write_def pop_def Let_def)
  next
    case (Wrote k)
    let ?w = "w\<lparr>w_writes := ws @ rest, w_content := w_content w @ take (nat k) raw\<rparr>"
    have "write_all (drop (nat k) raw) ?w = (Inr (), ?w\<lparr>w_writes := rest, w_content := w_content ?w @ drop (nat k) raw\<rparr>)"
      using Cons.prems(1) Wrote by (intro Cons.IH) simp_all
    then show ?thesis using raw Cons.prems Wrote by (simp add: write_all_step os_write_def pop_def Let_def)
  qed (use Cons.prems in simp_all)
qed

text \<open>A round of \<open>stat\<close> that finds the file where it was, as \<open>info\<close>.\<close>

definition in_place :: "st \<Rightarrow> stat_reply \<Rightarrow> bool" where
  "in_place info reply \<longleftrightarrow> (\<exists>named parent. reply = Some (info, named, parent, parent) \<and> st_isreg info \<and> st_nlink info = 1 \<and>
     st_isreg named \<and> st_dev named = st_dev info \<and> st_ino named = st_ino info)"

lemma identity_in_place: "w_stats w = reply # rs \<Longrightarrow> in_place info reply \<Longrightarrow> ledger_identity w = (Inr info, w\<lparr>w_stats := rs\<rparr>)"
  by (auto simp: ledger_identity_def os_stat_def pop_def in_place_def Let_def)

section \<open>Property\<close>

text \<open>C11. A healthy disk acknowledges: an append of a new intent that fits in a record, on a usable handle of the
  process that opened it, returns the receipt of the record when the file is where it was, the writes are
  interruptions and short writes that add up to the line, the sync succeeds and the file has grown by the line.\<close>
theorem progress_acknowledges:
  assumes "ledger_ok sha lid is (l, w)" "live l" "w_pid w = l_pid l" "recordable sha lid (state_of sha lid is) i"
    and "w_stats w = reply # reply' # stats" "in_place info reply" "stamp_of info = l_stamp l"
    and "in_place info' reply'" "st_size info' = st_size info + int (length (line_of sha lid (state_of sha lid is) i))"
    and "w_writes w = ws @ writes" "accepts_bytes ws (length (line_of sha lid (state_of sha lid is) i))" "w_syncs w = True # syncs"
  shows "\<exists>s'. ledger_append sha i (l, w) = (Inr (receipt_of sha lid (state_of sha lid is) i), s')"
proof -
  let ?st = "state_of sha lid is"
  let ?row = "ledger_record sha (l_ledger_id l) (int (length (l_records l)) + 1) (l_tip l) (intent_to_dict i)"
  have a: "agrees sha lid is l" using assms(1) by (simp add: ledger_ok_def)
  have row: "row_of sha lid ?st i = ?row" by (rule row_of_agrees [OF a])
  then have raw: "canonical ?row @ NL = line_of sha lid ?st i" by (simp add: line_of_def)
  have rc: "ledger_receipt ?row = Inr (receipt_of sha lid ?st i)"
    using ledger_receipt_row [of sha lid ?st i] assms(4) row by (simp add: recordable_def)
  have new: "map_of (l_by_id l) (oi_intent_id i) = None" "intent_payload i = Inr (intent_to_dict i)"
      "\<not> MAX_LINE_BYTES < length (line_of sha lid ?st i)"
    using assms(4) a valid_payload by (auto simp: recordable_def agrees_def wf_intent_def dest: arg_cong [where f = "\<lambda>x. fst (snd (snd x))"])
  have e: "entered (l, w) = (Inr (), (l, w\<lparr>w_stats := reply' # stats\<rparr>))"
    using assms(2,3,7) identity_in_place [OF assms(5,6)]
    by (simp add: entered_def ledger_owner_def ledger_guard_def live_def)
  have size: "stamp_size (l_stamp l) = st_size info" unfolding assms(7) [symmetric] by simp
  obtain w' where p: "append_persist (line_of sha lid ?st i) (l_stamp l) (w\<lparr>w_stats := reply' # stats\<rparr>) = (Inr info', w')"
    using write_all_progress [OF assms(11), of "w\<lparr>w_stats := reply' # stats\<rparr>" writes] assms(8,9,10,12) size
    by (simp add: append_persist_def os_fsync_def pop_def Let_def identity_in_place)
  show ?thesis
    by (simp add: ledger_append_def e new append_record_def Let_def raw rc p new(3) [folded raw, unfolded length_append]
        del: length_append cong: eval_cong)
qed

theorem progress_acknowledges_witness:
  "\<exists>s'. ledger_append demo_sha demo_order (demo_ledger [] 150, demo_disk [] [WIntr, Wrote 500, WIntr, Wrote 93] [150, 743]) = (Inr demo_receipt, s')"
proof -
  have st: "in_place (demo_st n) (demo_stat n)" for n by (simp add: in_place_def demo_st_def demo_stat_def)
  have rec: "recordable demo_sha ''L'' (state_of demo_sha ''L'' []) demo_order"
    using demo_recordable(1) by (simp add: recordable_list_def state_of_def)
  have live: "live (demo_ledger [] 150)" "w_pid (demo_disk [] ws ns) = l_pid (demo_ledger [] 150)" for ws ns
    by (simp_all add: live_def demo_ledger_def fresh_ledger_def demo_disk_def demo_world_def demo_state)
  let ?w = "demo_disk [] [WIntr, Wrote 500, WIntr, Wrote 93] [150, 743]"
  have ok: "ledger_ok demo_sha ''L'' [] (demo_ledger [] 150, ?w)" by (rule demo_disk_ok) simp
  have "\<exists>s'. ledger_append demo_sha demo_order (demo_ledger [] 150, ?w) = (Inr (receipt_of demo_sha ''L'' (state_of demo_sha ''L'' []) demo_order), s')"
    by (rule progress_acknowledges [OF ok live rec _ st [of 150] _ st [of 743], of "[]" "[WIntr, Wrote 500, WIntr, Wrote 93]" "[]" "[True]"])
      (simp_all add: demo_disk_def demo_world_def demo_ledger_def fresh_ledger_def demo_texts state_of_Nil split_def demo_st_def)
  then show ?thesis by (simp add: demo_receipt_def state_of_Nil)
qed

end
