(* ===== verification/ShadowProtocol.thy ===== *)
theory ShadowProtocol
  imports Contracts
begin

text \<open>
  The shadow execution boundary: \<open>market_identifier.py\<close> resolves the token of an outcome,
  \<open>clodds_mapping.py\<close> translates an intent into a CloddsBot request, \<open>clodds_shadow_protocol.py\<close> wraps
  it into a SHADOW request, validates one and answers with a synthetic acknowledgement, and
  \<open>clodds_shadow_client.py\<close> puts them together over a transport the caller injects.  The transport is a
  parameter, a function from the request and its own state to an answer or an exception and the state
  it leaves; the sidecar of \<open>scripts/run_clodds_shadow_sidecar.py\<close> is one such transport.

  Payloads are JSON values.  A value that is neither text nor a number, a boolean or null is written as
  JSON in the text of an error, where Python writes its \<open>repr\<close>.
\<close>

section \<open>Market identifiers\<close>

definition require_nonempty_string :: "string \<Rightarrow> string \<Rightarrow> unit res" where
  "require_nonempty_string v name =
     raise_if (py_strip v = []) (MarketIdentifierError (name @ '' must be a non-empty string'')) (Inr ())"

text \<open>The loop over the pairs; \<open>m\<close> is \<open>outcome_to_token\<close>, \<open>seen\<close> is \<open>seen_token_ids\<close>.\<close>

fun outcome_tokens ::
  "(string \<times> string) list \<Rightarrow> (string \<times> string) list \<Rightarrow> string list \<Rightarrow> (string \<times> string) list res" where
  "outcome_tokens [] m seen = Inr m"
| "outcome_tokens ((token_id, outcome) # pairs) m seen =
     bindE (require_nonempty_string token_id ''token_id'') (\<lambda>_.
     bindE (require_nonempty_string outcome ''outcome'') (\<lambda>_.
     raise_if (map_of m outcome \<noteq> None) (MarketIdentifierError (''duplicate outcome mapping: '' @ outcome)) (
     raise_if (token_id \<in> set seen) (MarketIdentifierError (''duplicate token_id mapping: '' @ token_id)) (
     outcome_tokens pairs (dput outcome token_id m) (token_id # seen)))))"

definition resolve_token_id :: "string \<Rightarrow> string \<Rightarrow> string \<Rightarrow> (string \<times> string) list \<Rightarrow> string res" where
  "resolve_token_id intent_condition_id intent_outcome market_condition_id tokens =
     bindE (require_nonempty_string intent_condition_id ''intent_condition_id'') (\<lambda>_.
     bindE (require_nonempty_string intent_outcome ''intent_outcome'') (\<lambda>_.
     bindE (require_nonempty_string market_condition_id ''market_condition_id'') (\<lambda>_.
     raise_if (intent_condition_id \<noteq> market_condition_id)
       (MarketIdentifierError ''intent condition_id does not match market condition_id'') (
     raise_if (tokens = []) (MarketIdentifierError ''market token mapping is empty'') (
     bindE (outcome_tokens tokens [] []) (\<lambda>m.
     case map_of m intent_outcome of
       None \<Rightarrow> Inl (MarketIdentifierError (''outcome not found in market mapping: '' @ intent_outcome))
     | Some token_id \<Rightarrow> Inr token_id))))))"

section \<open>The CloddsBot request\<close>

definition CLODDS_MAPPING_VERSION_V1 :: string where
  "CLODDS_MAPPING_VERSION_V1 = ''clodds_order_request_mapping_v1''"

fun clodds_side :: "order_side \<Rightarrow> string" where
  "clodds_side BUY = ''buy''"
| "clodds_side SELL = ''sell''"

fun clodds_order_type :: "time_in_force \<Rightarrow> string" where
  "clodds_order_type GTC = ''GTC''"
| "clodds_order_type IOC = ''FAK''"
| "clodds_order_type FOK = ''FOK''"

text \<open>The token and the flag are JSON values: the validator of requests passes what it finds there.\<close>

definition map_order_intent_to_clodds_request :: "order_intent \<Rightarrow> json \<Rightarrow> json \<Rightarrow> (string \<times> json) list res" where
  "map_order_intent_to_clodds_request intent token_id post_only =
     raise_if (case token_id of JStr t \<Rightarrow> py_strip t = [] | _ \<Rightarrow> True)
       (CloddsMappingError ''token_id must be a non-empty string'') (
     raise_if (case post_only of JBool _ \<Rightarrow> False | _ \<Rightarrow> True) (CloddsMappingError ''post_only must be bool'') (
     raise_if (oi_time_in_force intent \<in> {IOC, FOK} \<and> post_only = JBool True)
       (CloddsMappingError ''IOC/FOK cannot be mapped with post_only=True'') (
     Inr [(''platform'', JStr ''polymarket''), (''marketId'', JStr (oi_condition_id intent)),
          (''tokenId'', token_id), (''side'', JStr (clodds_side (oi_side intent))),
          (''price'', JFloat (oi_limit_price intent)), (''size'', JFloat (oi_qty intent)),
          (''orderType'', JStr (clodds_order_type (oi_time_in_force intent))), (''postOnly'', post_only)])))"

section \<open>The SHADOW protocol\<close>

definition CLODDS_SHADOW_PROTOCOL_V1 :: string where
  "CLODDS_SHADOW_PROTOCOL_V1 = ''clodds_shadow_jsonl_v1''"

definition AUDITED_CLODDS_COMMIT_V1 :: string where
  "AUDITED_CLODDS_COMMIT_V1 = ''e71a5f635d99f453ef25ca1138d5f3ef7c4c686b''"

definition FORBIDDEN_KEYS :: "string list" where
  "FORBIDDEN_KEYS = [''privateKey'', ''private_key'', ''apiKey'', ''api_key'', ''secret'', ''funderAddress'',
     ''funder_address'', ''dryRun'', ''dry_run'', ''live'', ''execute'', ''credentials'']"

definition forbidden_in :: "(string \<times> json) list \<Rightarrow> string list" where
  "forbidden_in d = filter (\<lambda>k. k \<in> set (map fst d)) FORBIDDEN_KEYS"

lemma mapE_cong [fundef_cong]:
  "xs = ys \<Longrightarrow> (\<And>x. x \<in> set ys \<Longrightarrow> f x = g x) \<Longrightarrow> mapE f xs = mapE g ys"
  by (induction ys arbitrary: xs) auto

fun reject_forbidden_keys :: "json \<Rightarrow> unit res" where
  "reject_forbidden_keys (JObj d) =
     raise_if (forbidden_in d \<noteq> [])
       (CloddsShadowProtocolError (''forbidden execution-control fields: '' @ join '','' (sort (forbidden_in d)))) (
     bindE (mapE (\<lambda>(k, v). reject_forbidden_keys v) d) (\<lambda>_. Inr ()))"
| "reject_forbidden_keys (JList vs) = bindE (mapE reject_forbidden_keys vs) (\<lambda>_. Inr ())"
| "reject_forbidden_keys _ = Inr ()"

text \<open>\<open>==\<close> of two decoded JSON values: numbers and booleans by value, objects as dictionaries.\<close>

fun json_number :: "json \<Rightarrow> pyfloat option" where
  "json_number (JInt i) = Some (Fin (of_int i))"
| "json_number (JFloat x) = Some x"
| "json_number (JBool b) = Some (Fin (if b then 1 else 0))"
| "json_number _ = None"

lemma zip_snd_smaller [termination_simp]:
  "(n, v) \<in> set (zip ns vs) \<Longrightarrow> size v < Suc (size_list size vs)"
  by (meson le_imp_less_Suc order_refl set_zip_rightD size_list_estimation')

fun json_eq :: "json \<Rightarrow> json \<Rightarrow> bool" where
  "json_eq (JObj d) j = (case j of
     JObj e \<Rightarrow> length d = length e \<and>
       list_all (\<lambda>(k, v). case map_of e k of None \<Rightarrow> False | Some w \<Rightarrow> json_eq v w) d
   | _ \<Rightarrow> False)"
| "json_eq (JList vs) j = (case j of
     JList ws \<Rightarrow> length vs = length ws \<and> list_all (\<lambda>(n, v). json_eq v (ws ! n)) (zip [0..<length vs] vs)
   | _ \<Rightarrow> False)"
| "json_eq (JStr s) j = (j = JStr s)"
| "json_eq JNull j = (j = JNull)"
| "json_eq i j = (case (json_number i, json_number j) of (Some x, Some y) \<Rightarrow> feq x y | _ \<Rightarrow> False)"

definition build_shadow_request :: "order_intent \<Rightarrow> string \<Rightarrow> bool \<Rightarrow> json res" where
  "build_shadow_request intent token_id post_only =
     bindE (map_order_intent_to_clodds_request intent (JStr token_id) (JBool post_only)) (\<lambda>clodds_request.
     let payload = JObj
       [(''protocol_version'', JStr CLODDS_SHADOW_PROTOCOL_V1), (''mode'', JStr ''SHADOW''),
        (''clodds_commit'', JStr AUDITED_CLODDS_COMMIT_V1), (''mapping_version'', JStr CLODDS_MAPPING_VERSION_V1),
        (''intent'', intent_to_dict intent), (''clodds_request'', JObj clodds_request)] in
     bindE (reject_forbidden_keys payload) (\<lambda>_. Inr payload))"

text \<open>\<open>str(exc)\<close>, and the wrapping done by \<open>except (TypeError, ValueError) as exc\<close>.\<close>

fun err_text :: "pyerr \<Rightarrow> string" where
  "err_text (ValueError m) = m"
| "err_text (TypeError m) = m"
| "err_text (MarketIdentifierError m) = m"
| "err_text (CloddsMappingError m) = m"
| "err_text (CloddsShadowProtocolError m) = m"
| "err_text (CloddsShadowClientError m) = m"
| "err_text (JsonlProcessTransportError m) = m"
| "err_text _ = []"

fun is_value_error :: "pyerr \<Rightarrow> bool" where
  "is_value_error (ValueError _) = True"
| "is_value_error (MarketIdentifierError _) = True"
| "is_value_error (CloddsMappingError _) = True"
| "is_value_error (CloddsShadowProtocolError _) = True"
| "is_value_error _ = False"

fun is_type_error :: "pyerr \<Rightarrow> bool" where
  "is_type_error (TypeError _) = True"
| "is_type_error _ = False"

definition wrap_error :: "(string \<Rightarrow> pyerr) \<Rightarrow> string \<Rightarrow> 'a res \<Rightarrow> 'a res" where
  "wrap_error err label r = (case r of
     Inl e \<Rightarrow> Inl (if is_type_error e \<or> is_value_error e then err (label @ err_text e) else e)
   | Inr x \<Rightarrow> Inr x)"

definition key_set_is :: "(string \<times> json) list \<Rightarrow> string list \<Rightarrow> bool" where
  "key_set_is d ks \<longleftrightarrow> known_keys d ks \<and> list_all (\<lambda>k. map_of d k \<noteq> None) ks"

text \<open>\<open>d.get(k)\<close>.\<close>

definition json_get :: "(string \<times> json) list \<Rightarrow> string \<Rightarrow> json" where
  "json_get d k = (case map_of d k of None \<Rightarrow> JNull | Some v \<Rightarrow> v)"

definition request_fields :: "string list" where
  "request_fields = [''protocol_version'', ''mode'', ''clodds_commit'', ''mapping_version'', ''intent'', ''clodds_request'']"

definition validate_shadow_request :: "json \<Rightarrow> order_intent res" where
  "validate_shadow_request payload = (case payload of
     JObj d \<Rightarrow>
       raise_if (\<not> key_set_is d request_fields) (CloddsShadowProtocolError ''request fields do not match protocol v1'') (
       raise_if (json_get d ''protocol_version'' \<noteq> JStr CLODDS_SHADOW_PROTOCOL_V1)
         (CloddsShadowProtocolError ''unsupported shadow protocol version'') (
       raise_if (json_get d ''mode'' \<noteq> JStr ''SHADOW'') (CloddsShadowProtocolError ''non-SHADOW mode refused'') (
       raise_if (json_get d ''clodds_commit'' \<noteq> JStr AUDITED_CLODDS_COMMIT_V1)
         (CloddsShadowProtocolError ''CloddsBot commit mismatch'') (
       raise_if (json_get d ''mapping_version'' \<noteq> JStr CLODDS_MAPPING_VERSION_V1)
         (CloddsShadowProtocolError ''mapping version mismatch'') (
       bindE (reject_forbidden_keys payload) (\<lambda>_.
       case json_get d ''intent'' of
         JObj intent_payload \<Rightarrow>
           bindE (wrap_error CloddsShadowProtocolError ''invalid OrderIntent: '' (intent_from_dict intent_payload)) (\<lambda>intent.
           case json_get d ''clodds_request'' of
             JObj clodds_request \<Rightarrow>
               bindE (wrap_error CloddsShadowProtocolError ''invalid Clodds request mapping: ''
                  (map_order_intent_to_clodds_request intent (json_get clodds_request ''tokenId'') (json_get clodds_request ''postOnly'')))
                 (\<lambda>expected_request.
               raise_if (\<not> json_eq (JObj clodds_request) (JObj expected_request))
                 (CloddsShadowProtocolError ''clodds_request does not match OrderIntent'') (Inr intent))
           | _ \<Rightarrow> Inl (CloddsShadowProtocolError ''clodds_request must be a JSON object''))
       | _ \<Rightarrow> Inl (CloddsShadowProtocolError ''intent must be a JSON object'')))))))
   | _ \<Rightarrow> Inl (CloddsShadowProtocolError ''request must be a JSON object''))"

definition make_shadow_ack :: "json \<Rightarrow> pyfloat \<Rightarrow> json res" where
  "make_shadow_ack payload receive_ts_ms =
     bindE (validate_shadow_request payload) (\<lambda>intent.
     raise_if (\<not> isfinite receive_ts_ms \<or> flt receive_ts_ms (Fin 0))
       (CloddsShadowProtocolError ''receive_ts_ms must be finite and >= 0'') (
     bindE (order_event_post_init
       \<lparr>oe_event_id = oi_intent_id intent @ '':shadow_ack'', oe_intent_id = oi_intent_id intent,
        oe_event_type = event_type_value VENUE_ACK, oe_receive_ts_ms = receive_ts_ms, oe_venue_ts_ms = None,
        oe_venue_order_id = Some (''shadow:'' @ oi_intent_id intent), oe_fill_qty = Fin 0, oe_fill_price = None,
        oe_cumulative_filled_qty = Fin 0, oe_remaining_qty = Some (oi_qty intent),
        oe_reason = Some ''SHADOW_SYNTHETIC_ACK'', oe_schema_version = ORDER_EVENT_SCHEMA_V1\<rparr>) (\<lambda>event.
     Inr (JObj
       [(''protocol_version'', JStr CLODDS_SHADOW_PROTOCOL_V1), (''mode'', JStr ''SHADOW''),
        (''intent_id'', JStr (oi_intent_id intent)), (''clodds_commit'', JStr AUDITED_CLODDS_COMMIT_V1),
        (''event'', event_to_dict event)]))))"

text \<open>One line of the sidecar's loop: the decoded line, or None when it is not JSON, and the clock.\<close>

definition sidecar_response :: "json option \<Rightarrow> string \<Rightarrow> pyfloat \<Rightarrow> json res" where
  "sidecar_response payload decode_error receive_ts_ms =
     (let reject = \<lambda>m. Inr (JObj [(''protocol_version'', JStr CLODDS_SHADOW_PROTOCOL_V1), (''mode'', JStr ''SHADOW''),
        (''error'', JObj [(''type'', JStr ''PROTOCOL_REJECT''), (''message'', JStr m)])]) in
      case payload of None \<Rightarrow> reject decode_error
      | Some p \<Rightarrow> (case make_shadow_ack p receive_ts_ms of
          Inr response \<Rightarrow> Inr response
        | Inl e \<Rightarrow> if is_type_error e \<or> is_value_error e then reject (err_text e) else Inl e))"

section \<open>The integrated client\<close>

fun fstring :: "json \<Rightarrow> string" where
  "fstring (JStr s) = s"
| "fstring JNull = ''None''"
| "fstring (JBool b) = (if b then ''True'' else ''False'')"
| "fstring (JInt i) = int_str i"
| "fstring (JFloat x) = float_repr x"
| "fstring j = dumps j"

definition response_fields :: "string list" where
  "response_fields = [''protocol_version'', ''mode'', ''intent_id'', ''clodds_commit'', ''event'']"

definition decode_response :: "order_intent \<Rightarrow> json \<Rightarrow> order_event res" where
  "decode_response intent response = (case response of
     JObj d \<Rightarrow>
       raise_if (json_get d ''protocol_version'' \<noteq> JStr CLODDS_SHADOW_PROTOCOL_V1)
         (CloddsShadowClientError ''shadow response protocol mismatch'') (
       raise_if (json_get d ''mode'' \<noteq> JStr ''SHADOW'') (CloddsShadowClientError ''non-SHADOW response refused'') (
       case map_of d ''error'' of
         Some (JObj error) \<Rightarrow>
           Inl (CloddsShadowClientError (''sidecar rejected request: '' @
             fstring (case map_of error ''type'' of None \<Rightarrow> JStr ''UNKNOWN'' | Some v \<Rightarrow> v) @ '': '' @
             fstring (case map_of error ''message'' of None \<Rightarrow> JStr [] | Some v \<Rightarrow> v)))
       | Some _ \<Rightarrow> Inl (CloddsShadowClientError ''sidecar returned malformed error'')
       | None \<Rightarrow>
       raise_if (\<not> key_set_is d response_fields)
         (CloddsShadowClientError ''shadow response fields do not match protocol v1'') (
       raise_if (json_get d ''clodds_commit'' \<noteq> JStr AUDITED_CLODDS_COMMIT_V1)
         (CloddsShadowClientError ''shadow response CloddsBot commit mismatch'') (
       raise_if (json_get d ''intent_id'' \<noteq> JStr (oi_intent_id intent))
         (CloddsShadowClientError ''shadow response intent_id mismatch'') (
       case json_get d ''event'' of
         JObj event_payload \<Rightarrow>
           bindE (wrap_error CloddsShadowClientError ''invalid OrderEvent: '' (event_from_dict event_payload)) (\<lambda>event.
           raise_if (oe_intent_id event \<noteq> oi_intent_id intent)
             (CloddsShadowClientError ''OrderEvent intent_id mismatch'') (
           raise_if (oe_venue_ts_ms event \<noteq> None)
             (CloddsShadowClientError ''shadow synthetic event cannot claim venue timestamp'') (
           raise_if (oe_reason event \<noteq> Some ''SHADOW_SYNTHETIC_ACK'')
             (CloddsShadowClientError ''unexpected shadow event reason'') (Inr event))))
       | _ \<Rightarrow> Inl (CloddsShadowClientError ''shadow response event must be an object''))))))
   | _ \<Rightarrow> Inl (CloddsShadowClientError ''shadow response must be a JSON object''))"

type_synonym 't transport = "json \<Rightarrow> 't \<Rightarrow> json res \<times> 't"

definition client_submit ::
  "'t transport \<Rightarrow> order_intent \<Rightarrow> string \<Rightarrow> (string \<times> string) list \<Rightarrow> bool \<Rightarrow> 't \<Rightarrow> order_event res \<times> 't" where
  "client_submit transport intent market_condition_id tokens post_only t =
     checkS (resolve_token_id (oi_condition_id intent) (oi_outcome intent) market_condition_id tokens) t (\<lambda>token_id.
     checkS (build_shadow_request intent token_id post_only) t (\<lambda>request.
     thenS (transport request t) (\<lambda>response t1.
     (decode_response intent response, t1))))"

section \<open>Resolution is exact\<close>

definition nonblank_pairs :: "(string \<times> string) list \<Rightarrow> bool" where
  "nonblank_pairs tokens \<longleftrightarrow> list_all (\<lambda>(token_id, outcome). py_strip token_id \<noteq> [] \<and> py_strip outcome \<noteq> []) tokens"

lemma require_nonempty_Inr [simp]: "require_nonempty_string v n = Inr u \<longleftrightarrow> py_strip v \<noteq> []"
  by (simp add: require_nonempty_string_def raise_if_def)

lemma outcome_tokens_Inr:
  "outcome_tokens ps m seen = Inr m' \<longleftrightarrow>
     nonblank_pairs ps \<and> distinct (map fst ps) \<and> distinct (map snd ps) \<and>
     set (map fst ps) \<inter> set seen = {} \<and> set (map snd ps) \<inter> fst ` set m = {} \<and>
     m' = m @ map (\<lambda>(t, u). (u, t)) ps"
proof (induction ps m seen arbitrary: m' rule: outcome_tokens.induct)
  case (2 t u ps m seen)
  show ?case
  proof (cases "map_of m u = None \<and> t \<notin> set seen \<and> py_strip t \<noteq> [] \<and> py_strip u \<noteq> []")
    case True
    then have fresh: "u \<notin> fst ` set m" by (simp add: map_of_eq_None_iff)
    then have "dput u t m = m @ [(u, t)]" by (rule dput_fresh)
    with True fresh 2 show ?thesis
      by (simp add: err_simps nonblank_pairs_def) (auto simp: nonblank_pairs_def)
  next
    case False
    then show ?thesis by (auto simp: err_simps nonblank_pairs_def map_of_eq_None_iff image_iff)
  qed
qed (auto simp: nonblank_pairs_def)

lemma outcome_tokens_error:
  "outcome_tokens ps m seen = Inl e \<Longrightarrow> \<exists>t. e = MarketIdentifierError t"
  by (induction ps m seen rule: outcome_tokens.induct)
    (auto simp: err_simps require_nonempty_string_def)

lemma swapped_lookup:
  assumes "distinct (map snd ps)"
  shows "map_of (map (\<lambda>(t, u). (u, t)) ps) u = Some t \<longleftrightarrow> (t, u) \<in> set ps"
proof -
  have "distinct (map fst (map (\<lambda>(t, u). (u, t)) ps))"
    using assms by (simp add: case_prod_beta comp_def)
  then show ?thesis by (auto simp: map_of_eq_Some_iff)
qed

lemma found_Inr: "(case x of None \<Rightarrow> Inl e | Some v \<Rightarrow> Inr v) = Inr w \<longleftrightarrow> x = Some w"
  by (cases x) simp_all

lemma resolve_Inr:
  "resolve_token_id c u m ts = Inr t \<longleftrightarrow>
     c = m \<and> py_strip c \<noteq> [] \<and> py_strip u \<noteq> [] \<and> nonblank_pairs ts \<and>
     distinct (map fst ts) \<and> distinct (map snd ts) \<and> (t, u) \<in> set ts"
  by (auto simp: resolve_token_id_def err_simps outcome_tokens_Inr found_Inr swapped_lookup)

lemma resolve_error: "resolve_token_id c u m ts = Inl e \<Longrightarrow> \<exists>t. e = MarketIdentifierError t"
  by (auto simp: resolve_token_id_def err_simps require_nonempty_string_def dest: outcome_tokens_error
      split: option.splits)

section \<open>Keys at every depth\<close>

fun all_keys :: "json \<Rightarrow> string list" where
  "all_keys (JObj d) = map fst d @ concat (map (\<lambda>(k, v). all_keys v) d)"
| "all_keys (JList vs) = concat (map all_keys vs)"
| "all_keys _ = []"

definition no_controls :: "json \<Rightarrow> bool" where
  "no_controls j \<longleftrightarrow> set (all_keys j) \<inter> set FORBIDDEN_KEYS = {}"

lemma mapE_unit: "(\<exists>us. mapE f xs = Inr us) \<longleftrightarrow> (\<forall>x\<in>set xs. \<exists>u. f x = Inr u)"
  by (induction xs) (auto simp: err_simps)

lemma forbidden_in_Nil: "forbidden_in d = [] \<longleftrightarrow> set (map fst d) \<inter> set FORBIDDEN_KEYS = {}"
  unfolding forbidden_in_def filter_empty_conv by blast

lemma no_controls_simps:
  "no_controls (JObj d) \<longleftrightarrow> forbidden_in d = [] \<and> (\<forall>(k, v)\<in>set d. no_controls v)"
  "no_controls (JList vs) \<longleftrightarrow> (\<forall>v\<in>set vs. no_controls v)"
  unfolding no_controls_def forbidden_in_Nil by (fastforce, auto)

lemma reject_forbidden_Inr: "reject_forbidden_keys j = Inr () \<longleftrightarrow> no_controls j"
proof (induction j)
  case (JList vs)
  have "reject_forbidden_keys (JList vs) = Inr () \<longleftrightarrow> (\<exists>us. mapE reject_forbidden_keys vs = Inr us)"
    by (simp add: err_simps)
  also have "\<dots> \<longleftrightarrow> (\<forall>v\<in>set vs. no_controls v)"
    using JList by (simp add: mapE_unit)
  finally show ?case by (simp only: no_controls_simps)
next
  case (JObj d)
  have IH: "(\<exists>u. reject_forbidden_keys v = Inr u) \<longleftrightarrow> no_controls v" if "(k, v) \<in> set d" for k v
    using JObj [OF that, of v] by simp
  have "reject_forbidden_keys (JObj d) = Inr () \<longleftrightarrow>
      forbidden_in d = [] \<and> (\<exists>us. mapE (\<lambda>(k, v). reject_forbidden_keys v) d = Inr us)"
    by (simp add: err_simps)
  also have "\<dots> \<longleftrightarrow> forbidden_in d = [] \<and> (\<forall>(k, v)\<in>set d. no_controls v)"
    using IH by (auto simp: mapE_unit)
  finally show ?case by (simp only: no_controls_simps)
qed (simp_all add: no_controls_def)

lemma json_eq_refl: "wf_json j \<Longrightarrow> json_eq j j"
proof (induction j)
  case (JFloat x)
  then show ?case by (cases x) auto
next
  case (JList vs)
  then show ?case by (auto simp: list_all_iff in_set_zip)
next
  case (JObj d)
  then show ?case by (fastforce simp: list_all_iff)
qed simp_all

section \<open>What is built validates\<close>

definition clodds_fields :: "order_intent \<Rightarrow> string \<Rightarrow> bool \<Rightarrow> (string \<times> json) list" where
  "clodds_fields i t p =
     [(''platform'', JStr ''polymarket''), (''marketId'', JStr (oi_condition_id i)), (''tokenId'', JStr t),
      (''side'', JStr (clodds_side (oi_side i))), (''price'', JFloat (oi_limit_price i)), (''size'', JFloat (oi_qty i)),
      (''orderType'', JStr (clodds_order_type (oi_time_in_force i))), (''postOnly'', JBool p)]"

definition request_of :: "order_intent \<Rightarrow> string \<Rightarrow> bool \<Rightarrow> (string \<times> json) list" where
  "request_of i t p =
     [(''protocol_version'', JStr CLODDS_SHADOW_PROTOCOL_V1), (''mode'', JStr ''SHADOW''),
      (''clodds_commit'', JStr AUDITED_CLODDS_COMMIT_V1), (''mapping_version'', JStr CLODDS_MAPPING_VERSION_V1),
      (''intent'', intent_to_dict i), (''clodds_request'', JObj (clodds_fields i t p))]"

definition mappable :: "order_intent \<Rightarrow> string \<Rightarrow> bool \<Rightarrow> bool" where
  "mappable i t p \<longleftrightarrow> py_strip t \<noteq> [] \<and> \<not> (oi_time_in_force i \<in> {IOC, FOK} \<and> p)"

lemma map_order_intent_Inr:
  "map_order_intent_to_clodds_request i tj pj = Inr r \<longleftrightarrow>
     (\<exists>t p. tj = JStr t \<and> pj = JBool p \<and> mappable i t p \<and> r = clodds_fields i t p)"
  by (cases tj; cases pj) (auto simp: map_order_intent_to_clodds_request_def mappable_def clodds_fields_def err_simps)

lemma map_order_intent_error:
  "map_order_intent_to_clodds_request i tj pj = Inl e \<Longrightarrow> \<exists>m. e = CloddsMappingError m"
  by (auto simp: map_order_intent_to_clodds_request_def err_simps)

lemma request_no_controls: "no_controls (JObj (request_of i t p))"
  by (simp add: no_controls_def request_of_def intent_to_dict_def clodds_fields_def FORBIDDEN_KEYS_def)

lemma build_Inr: "build_shadow_request i t p = Inr req \<longleftrightarrow> mappable i t p \<and> req = JObj (request_of i t p)"
proof -
  have "reject_forbidden_keys (JObj (request_of i t p)) = Inr ()"
    using request_no_controls by (simp only: reject_forbidden_Inr)
  then show ?thesis
    unfolding build_shadow_request_def err_simps map_order_intent_Inr Let_def
    by (auto simp: request_of_def err_simps simp del: reject_forbidden_keys.simps)
qed

lemma distinct_request: "distinct (map fst (request_of i t p))" "distinct (map fst (clodds_fields i t p))"
  by (simp_all add: request_of_def clodds_fields_def)

lemma wf_request: "wf_intent i \<Longrightarrow> wf_json (JObj (request_of i t p))"
  using wf_json_intent [of i] by (simp add: request_of_def clodds_fields_def wf_intent_def valid_intent_def)

lemma key_set_request: "key_set_is (request_of i t p) request_fields"
  by (simp add: key_set_is_def known_keys_def request_of_def request_fields_def)

text \<open>Sorting the keys, which is what the two JSON texts on the pipe do to a payload, changes nothing.\<close>

lemma sort_json_JObj: "sort_json (JObj d) = JObj (obj_fields (sort_json (JObj d)))"
  by (simp add: obj_fields_def)

lemma json_get_sorted:
  "distinct (map fst d) \<Longrightarrow> json_get (obj_fields (sort_json (JObj d))) k = sort_json (json_get d k)"
  by (cases "map_of d k") (simp_all add: json_get_def sort_json_fields del: sort_json.simps, simp)

lemma key_set_sorted:
  "distinct (map fst d) \<Longrightarrow> key_set_is d ks \<Longrightarrow> key_set_is (obj_fields (sort_json (JObj d))) ks"
  unfolding key_set_is_def known_keys_sort list_all_iff by (simp add: sort_json_fields del: sort_json.simps)

lemma all_keys_sorted: "set (all_keys (sort_json j)) = set (all_keys j)"
proof (induction j)
  case (JObj d)
  have "set (all_keys (sort_json v)) = set (all_keys v)" if "(k, v) \<in> set d" for k v
    using JObj [OF that, of v] by simp
  then show ?case by (simp add: image_image case_prod_beta) (metis (no_types, lifting) SUP_cong prod.collapse)
qed simp_all

lemma no_controls_sorted: "no_controls (sort_json j) \<longleftrightarrow> no_controls j"
  by (simp add: no_controls_def all_keys_sorted)

lemma json_eq_sorted: "wf_json j \<Longrightarrow> json_eq (sort_json j) j"
proof (induction j)
  case (JFloat x)
  then show ?case by (cases x) auto
next
  case (JList vs)
  then show ?case by (auto simp: list_all_iff in_set_zip)
next
  case (JObj d)
  have "map_of d k = Some v \<and> json_eq (sort_json v) v" if "(k, v) \<in> set d" for k v
    using JObj.prems JObj.IH [OF that, of v] that by (auto simp: list_all_iff)
  then show ?case by (fastforce simp: list_all_iff)
qed simp_all

lemma validates_from:
  assumes "key_set_is d request_fields" "no_controls (JObj d)"
    "json_get d ''protocol_version'' = JStr CLODDS_SHADOW_PROTOCOL_V1" "json_get d ''mode'' = JStr ''SHADOW''"
    "json_get d ''clodds_commit'' = JStr AUDITED_CLODDS_COMMIT_V1"
    "json_get d ''mapping_version'' = JStr CLODDS_MAPPING_VERSION_V1"
    "json_get d ''intent'' = JObj e" "intent_from_dict e = Inr i"
    "json_get d ''clodds_request'' = JObj c" "json_get c ''tokenId'' = JStr t" "json_get c ''postOnly'' = JBool p"
    "mappable i t p" "json_eq (JObj c) (JObj (clodds_fields i t p))"
  shows "validate_shadow_request (JObj d) = Inr i"
proof -
  have "map_order_intent_to_clodds_request i (JStr t) (JBool p) = Inr (clodds_fields i t p)"
    using assms(12) by (simp add: map_order_intent_Inr)
  moreover have "reject_forbidden_keys (JObj d) = Inr ()"
    using assms(2) by (simp only: reject_forbidden_Inr)
  ultimately show ?thesis
    using assms by (simp add: validate_shadow_request_def wrap_error_def
        del: reject_forbidden_keys.simps json_eq.simps)
qed

lemma sorted_request_validates:
  assumes "wf_intent i" "mappable i t p"
  shows "validate_shadow_request (sort_json (JObj (request_of i t p))) = Inr i"
proof (subst sort_json_JObj, rule validates_from)
  let ?d = "obj_fields (sort_json (JObj (request_of i t p)))"
  note get = json_get_sorted [OF distinct_request(1)]
  show "key_set_is ?d request_fields"
    by (rule key_set_sorted [OF distinct_request(1) key_set_request])
  show "no_controls (JObj ?d)"
    using request_no_controls by (simp only: no_controls_sorted flip: sort_json_JObj)
  show "json_get ?d ''protocol_version'' = JStr CLODDS_SHADOW_PROTOCOL_V1" "json_get ?d ''mode'' = JStr ''SHADOW''"
    "json_get ?d ''clodds_commit'' = JStr AUDITED_CLODDS_COMMIT_V1"
    "json_get ?d ''mapping_version'' = JStr CLODDS_MAPPING_VERSION_V1"
    by (simp_all only: get) (simp_all add: json_get_def request_of_def)
  show "json_get ?d ''intent'' = JObj (obj_fields (sort_json (intent_to_dict i)))"
    by (simp only: get) (simp add: json_get_def request_of_def intent_to_dict_def obj_fields_def)
  show "intent_from_dict (obj_fields (sort_json (intent_to_dict i))) = Inr i"
    using assms(1) by (simp add: intent_from_sorted valid_post_init wf_intent_def)
  show "json_get ?d ''clodds_request'' = JObj (obj_fields (sort_json (JObj (clodds_fields i t p))))"
    by (simp only: get) (simp add: json_get_def request_of_def obj_fields_def)
  show "json_get (obj_fields (sort_json (JObj (clodds_fields i t p)))) ''tokenId'' = JStr t"
    "json_get (obj_fields (sort_json (JObj (clodds_fields i t p)))) ''postOnly'' = JBool p"
    by (simp_all only: json_get_sorted [OF distinct_request(2)]) (simp_all add: json_get_def clodds_fields_def)
  show "json_eq (JObj (obj_fields (sort_json (JObj (clodds_fields i t p))))) (JObj (clodds_fields i t p))"
    using json_eq_sorted [of "JObj (clodds_fields i t p)"] wf_request [OF assms(1), of t p]
    by (simp only: flip: sort_json_JObj) (simp add: request_of_def)
qed (rule assms(2))

lemma request_validates:
  assumes "wf_intent i" "mappable i t p"
  shows "validate_shadow_request (JObj (request_of i t p)) = Inr i"
proof (rule validates_from [OF key_set_request request_no_controls])
  show "json_get (request_of i t p) ''intent'' = JObj (obj_fields (intent_to_dict i))"
    by (simp add: json_get_def request_of_def intent_to_dict_def obj_fields_def)
  show "intent_from_dict (obj_fields (intent_to_dict i)) = Inr i"
    using assms(1) by (simp add: intent_from_to_dict valid_post_init wf_intent_def)
  show "json_eq (JObj (clodds_fields i t p)) (JObj (clodds_fields i t p))"
    using wf_request [OF assms(1), of t p] by (intro json_eq_refl) (simp add: request_of_def)
qed (use assms(2) in \<open>simp_all add: json_get_def request_of_def clodds_fields_def\<close>)

end
