(* ===== verification/ShadowTransport.thy ===== *)
theory ShadowTransport
  imports ShadowProtocol
begin

text \<open>
  \<open>jsonl_process_transport.py\<close>: one JSON object per line to a child process and one back.  The object keeps
  whether it is closed and what \<open>poll()\<close> reports; the child is the environment, and what the operating
  system reports during one call is a record of observations.  The two JSON texts on the pipe carry the payload
  with its keys sorted, so a line is the value it decodes to.  A wait that times out after \<open>kill\<close> lets
  \<open>TimeoutExpired\<close> escape.
\<close>

record transport_config =
  tc_command :: "string list"
  tc_cwd :: "string option"
  tc_timeout_seconds :: pyfloat

definition transport_config_post_init :: "transport_config \<Rightarrow> transport_config res" where
  "transport_config_post_init c =
     raise_if (tc_command c = []) (ValueError ''command must not be empty'') (
     raise_if ([] \<in> set (tc_command c)) (ValueError ''command entries must be non-empty strings'') (
     raise_if (\<not> isfinite (tc_timeout_seconds c) \<or> fle (tc_timeout_seconds c) (Fin 0))
       (ValueError ''timeout_seconds must be finite and > 0'') (Inr c)))"

record jsonl_transport =
  jt_config :: transport_config
  jt_closed :: bool
  jt_code :: "int option"

text \<open>What a line read from the child is: nothing at the end of the stream, a text that is not JSON with
  the decoder's message, or a value.\<close>

datatype child_line = EndOfStream | NotJson string | Decoded json

record observations =
  ob_poll :: "int option"
  ob_write_error :: "string option"
  ob_ready :: bool
  ob_line :: child_line
  ob_exit :: "int option"
  ob_stderr :: "string option"
  ob_reaped :: "int option"

definition transport_init :: "transport_config \<Rightarrow> string option \<Rightarrow> bool \<Rightarrow> jsonl_transport res" where
  "transport_init config popen_error pipes_created =
     (case popen_error of
        Some m \<Rightarrow> Inl (JsonlProcessTransportError (''failed to start sidecar: '' @ m))
      | None \<Rightarrow> raise_if (\<not> pipes_created) (JsonlProcessTransportError ''sidecar pipes were not created'')
          (Inr \<lparr>jt_config = config, jt_closed = False, jt_code = None\<rparr>))"

definition poll_with :: "int option \<Rightarrow> jsonl_transport \<Rightarrow> jsonl_transport" where
  "poll_with seen t = (case jt_code t of None \<Rightarrow> t\<lparr>jt_code := seen\<rparr> | Some _ \<Rightarrow> t)"

definition terminated_message :: "jsonl_transport \<Rightarrow> observations \<Rightarrow> string" where
  "terminated_message t ob =
     (let stderr = (if jt_code t = None then [] else case ob_stderr ob of None \<Rightarrow> [] | Some s \<Rightarrow> py_strip s) in
      ''sidecar terminated with return code '' @
      (case jt_code t of None \<Rightarrow> ''None'' | Some c \<Rightarrow> int_str c) @ (if stderr = [] then [] else ''; stderr='' @ stderr))"

definition terminate_fail_closed :: "observations \<Rightarrow> jsonl_transport \<Rightarrow> unit res \<times> jsonl_transport" where
  "terminate_fail_closed ob t =
     (case jt_code t of
        Some _ \<Rightarrow> (Inr (), t)
      | None \<Rightarrow> (case ob_reaped ob of None \<Rightarrow> (Inl OtherException, t) | Some c \<Rightarrow> (Inr (), t\<lparr>jt_code := Some c\<rparr>)))"

definition transport_submit :: "observations \<Rightarrow> jsonl_transport \<Rightarrow> json res \<times> jsonl_transport" where
  "transport_submit ob t =
     failS (jt_closed t) (JsonlProcessTransportError ''transport is closed'') t (
     let t1 = poll_with (ob_poll ob) t in
     failS (jt_code t1 \<noteq> None) (JsonlProcessTransportError (terminated_message t1 ob)) t1 (
     let stop = \<lambda>m. thenS (terminate_fail_closed ob t1) (\<lambda>_ t2. (Inl (JsonlProcessTransportError m), t2)) in
     case ob_write_error ob of
       Some m \<Rightarrow> stop (''failed to write sidecar request: '' @ m)
     | None \<Rightarrow>
     if \<not> ob_ready ob then stop ''sidecar response timeout''
     else (case ob_line ob of
       EndOfStream \<Rightarrow> (let t2 = poll_with (ob_exit ob) t1 in
         (Inl (JsonlProcessTransportError (terminated_message t2 ob)), t2))
     | NotJson m \<Rightarrow> stop (''sidecar returned invalid JSON: '' @ m)
     | Decoded response \<Rightarrow> (case response of
         JObj _ \<Rightarrow> (Inr response, t1)
       | _ \<Rightarrow> stop ''sidecar response must be a JSON object''))))"

definition transport_close :: "observations \<Rightarrow> jsonl_transport \<Rightarrow> unit res \<times> jsonl_transport" where
  "transport_close ob t =
     (if jt_closed t then (Inr (), t)
      else let t1 = poll_with (ob_poll ob) (t\<lparr>jt_closed := True\<rparr>) in terminate_fail_closed ob t1)"

text \<open>The transport of a client: the child's observations are one record for each call, and a child that has
  no more of them is gone.\<close>

definition gone :: observations where
  "gone = \<lparr>ob_poll = Some 0, ob_write_error = None, ob_ready = False, ob_line = EndOfStream, ob_exit = Some 0,
     ob_stderr = None, ob_reaped = Some 0\<rparr>"

definition process_transport :: "((json \<Rightarrow> observations) list \<times> jsonl_transport) transport" where
  "process_transport request s = (case s of
     ([], t) \<Rightarrow> (case transport_submit gone t of (r, t1) \<Rightarrow> (r, [], t1))
   | (ob # obs, t) \<Rightarrow> (case transport_submit (ob (sort_json request)) t of (r, t1) \<Rightarrow> (r, obs, t1)))"

section \<open>The transport fails closed\<close>

definition stopped :: "jsonl_transport \<Rightarrow> bool" where
  "stopped t \<longleftrightarrow> jt_closed t \<or> jt_code t \<noteq> None"

lemma stopped_raises: "stopped t \<Longrightarrow> \<exists>m. transport_submit ob t = (Inl (JsonlProcessTransportError m), t)"
  by (auto simp: stopped_def transport_submit_def poll_with_def failS_def Let_def split: option.splits)

lemma terminate_stops:
  "terminate_fail_closed ob t = (r, t') \<Longrightarrow> (ob_reaped ob \<noteq> None \<longrightarrow> r = Inr () \<and> stopped t') \<and> jt_closed t' = jt_closed t"
  by (auto simp: terminate_fail_closed_def stopped_def split: option.splits)

lemma failed_submit_stops:
  assumes "transport_submit ob t = (Inl e, t')" "ob_line ob \<noteq> EndOfStream" "ob_reaped ob \<noteq> None"
  shows "stopped t'"
  using assms terminate_stops [of ob "poll_with (ob_poll ob) t"]
  by (auto simp: transport_submit_def err_simps Let_def stopped_def thenS_def
      split: option.splits if_splits child_line.splits json.splits prod.splits sum.splits)

lemma closed_is_stopped: "transport_close ob t = (r, t') \<Longrightarrow> jt_closed t'"
  by (auto simp: transport_close_def Let_def poll_with_def dest!: terminate_stops split: if_splits option.splits)

end
