(* ===== verification/ShadowProps.thy ===== *)
theory ShadowProps
  imports ShadowProtocol
begin

text \<open>
  What the shadow boundary promises: a token is resolved exactly, only SHADOW requests that the sidecar
  would validate reach the transport, an accepted event is a synthetic one for the submitted intent, and a
  healthy sidecar acknowledges.
\<close>

section \<open>Requests\<close>

lemma validated_request:
  assumes "validate_shadow_request p = Inr i"
  obtains d e c t b where "p = JObj d" "key_set_is d request_fields" "no_controls p"
    "json_get d ''mode'' = JStr ''SHADOW''" "json_get d ''protocol_version'' = JStr CLODDS_SHADOW_PROTOCOL_V1"
    "json_get d ''clodds_commit'' = JStr AUDITED_CLODDS_COMMIT_V1"
    "json_get d ''mapping_version'' = JStr CLODDS_MAPPING_VERSION_V1"
    "json_get d ''intent'' = JObj e" "intent_from_dict e = Inr i"
    "json_get d ''clodds_request'' = JObj c" "mappable i t b"
    "json_get c ''tokenId'' = JStr t" "json_get c ''postOnly'' = JBool b"
    "json_eq (JObj c) (JObj (clodds_fields i t b))"
proof -
  obtain d where d: "p = JObj d"
    using assms by (cases p) (simp_all add: validate_shadow_request_def)
  note v = assms [unfolded d validate_shadow_request_def json.case err_simps]
  obtain e where e: "json_get d ''intent'' = JObj e"
    using v by (cases "json_get d ''intent''") (auto simp: err_simps)
  obtain c where c: "json_get d ''clodds_request'' = JObj c"
    using v e by (cases "json_get d ''clodds_request''") (auto simp: err_simps)
  have i: "intent_from_dict e = Inr i"
    using v by (auto simp: e c err_simps wrap_error_def split: sum.splits)
  obtain r where r: "map_order_intent_to_clodds_request i (json_get c ''tokenId'') (json_get c ''postOnly'') = Inr r"
      "json_eq (JObj c) (JObj r)"
    using v by (cases "map_order_intent_to_clodds_request i (json_get c ''tokenId'') (json_get c ''postOnly'')")
      (auto simp: e c i err_simps wrap_error_def simp del: json_eq.simps reject_forbidden_keys.simps)
  then obtain t b where tb: "json_get c ''tokenId'' = JStr t" "json_get c ''postOnly'' = JBool b" "mappable i t b"
      "r = clodds_fields i t b"
    by (auto simp only: map_order_intent_Inr)
  have "no_controls (JObj d)"
    using v by (simp only: reject_forbidden_Inr [symmetric]) auto
  then show thesis
    using v r tb by (intro that [OF d _ _ _ _ _ _ e i c, of t b]) (simp_all add: d del: json_eq.simps reject_forbidden_keys.simps)
qed

lemma built_token_nonblank: "resolve_token_id c u m ts = Inr t \<Longrightarrow> py_strip t \<noteq> []"
  by (auto simp: resolve_Inr nonblank_pairs_def list_all_iff)

section \<open>The acknowledgement\<close>

lemma lstrip_keeps:
  assumes "\<forall>t\<in>set toks. c \<notin> set t" "c \<in> set s"
  shows "c \<in> set (lstrip_by toks s)"
  using assms
proof (induction toks s rule: lstrip_by.induct)
  case (1 toks s)
  show ?case
  proof (cases "ws_prefix toks s")
    case None
    then show ?thesis using 1 by (simp add: lstrip_by_fix)
  next
    case (Some t)
    then have t: "t \<in> set toks" "take (length t) s = t"
      by (auto simp: ws_prefix_def find_Some_iff)
    then have "c \<in> set (drop (length t) s)"
      using 1(2,3) by (metis Un_iff append_take_drop_id set_append)
    then show ?thesis using 1 Some by (subst lstrip_by.simps) simp
  qed
qed

lemma py_strip_keeps:
  assumes "\<forall>t\<in>set ws_tokens. c \<notin> set t" "c \<in> set s"
  shows "c \<in> set (py_strip s)"
proof -
  have "c \<in> set (lstrip_by (map rev ws_tokens) (rev (lstrip_by ws_tokens s)))"
    using assms by (intro lstrip_keeps) (simp_all add: lstrip_keeps)
  then show ?thesis by (simp add: py_strip_def)
qed

lemma tagged_not_blank: "py_strip (s @ CHR '':'' # t) \<noteq> []"
proof -
  have "CHR '':'' \<in> set (py_strip (s @ CHR '':'' # t))"
    by (intro py_strip_keeps) (simp_all add: ws_tokens_def)
  then show ?thesis by auto
qed

definition ack_event :: "order_intent \<Rightarrow> pyfloat \<Rightarrow> order_event" where
  "ack_event i ts =
     \<lparr>oe_event_id = py_strip (oi_intent_id i @ '':shadow_ack''), oe_intent_id = oi_intent_id i,
      oe_event_type = VENUE_ACK, oe_receive_ts_ms = ts, oe_venue_ts_ms = None,
      oe_venue_order_id = Some (''shadow:'' @ oi_intent_id i), oe_fill_qty = Fin 0, oe_fill_price = None,
      oe_cumulative_filled_qty = Fin 0, oe_remaining_qty = Some (oi_qty i),
      oe_reason = Some ''SHADOW_SYNTHETIC_ACK'', oe_schema_version = ORDER_EVENT_SCHEMA_V1\<rparr>"

lemma ack_event_valid:
  assumes "valid_intent i" "isfinite ts" "fle (Fin 0) ts"
  shows "valid_event (ack_event i ts)"
proof -
  have "fle (Fin 0) (oi_qty i)" "isfinite (oi_qty i)"
    using assms(1) by (cases "oi_qty i"; simp add: valid_intent_def fle_def)+
  then show ?thesis
    using assms tagged_not_blank [of "oi_intent_id i" "''shadow_ack''"]
    by (simp add: valid_event_def ack_event_def valid_text_def valid_intent_def opt_ok_def fill_event_type_def)
qed

text \<open>The answer of a sidecar with event \<open>e\<close>.\<close>

definition response_of :: "order_intent \<Rightarrow> order_event \<Rightarrow> (string \<times> json) list" where
  "response_of i e =
     [(''protocol_version'', JStr CLODDS_SHADOW_PROTOCOL_V1), (''mode'', JStr ''SHADOW''),
      (''intent_id'', JStr (oi_intent_id i)), (''clodds_commit'', JStr AUDITED_CLODDS_COMMIT_V1),
      (''event'', event_to_dict e)]"

lemma make_ack_Inr:
  assumes "validate_shadow_request p = Inr i" "valid_intent i" "isfinite ts" "fle (Fin 0) ts"
  shows "make_shadow_ack p ts = Inr (JObj (response_of i (ack_event i ts)))"
proof -
  have "nonempty (py_strip x) n = nonempty x n" for x n
    by (simp add: nonempty_def)
  then have strip: "order_event_post_init (r\<lparr>oe_event_id := py_strip x\<rparr>) = order_event_post_init (r\<lparr>oe_event_id := x\<rparr>)" for r x
    by (simp add: order_event_post_init_def cong: option.case_cong)
  let ?raw = "raw_of_event (ack_event i ts)" and ?id = "oi_intent_id i @ '':shadow_ack''"
  have "order_event_post_init (?raw\<lparr>oe_event_id := ?id\<rparr>) = order_event_post_init (?raw\<lparr>oe_event_id := py_strip ?id\<rparr>)"
    by (rule strip [symmetric])
  also have "?raw\<lparr>oe_event_id := py_strip ?id\<rparr> = ?raw"
    by (simp add: raw_of_event_def ack_event_def)
  also have "order_event_post_init ?raw = Inr (ack_event i ts)"
    by (intro valid_event_post_init ack_event_valid assms)
  finally have "order_event_post_init (?raw\<lparr>oe_event_id := ?id\<rparr>) = Inr (ack_event i ts)" .
  moreover have "\<not> flt ts (Fin 0)"
    using assms(4) flt_not_fle by blast
  ultimately show ?thesis
    using assms(1,3) by (simp add: make_shadow_ack_def raw_of_event_def ack_event_def response_of_def)
qed

lemma decode_from:
  assumes "key_set_is d response_fields" "map_of d ''error'' = None"
    "json_get d ''protocol_version'' = JStr CLODDS_SHADOW_PROTOCOL_V1" "json_get d ''mode'' = JStr ''SHADOW''"
    "json_get d ''clodds_commit'' = JStr AUDITED_CLODDS_COMMIT_V1" "json_get d ''intent_id'' = JStr (oi_intent_id i)"
    "json_get d ''event'' = JObj f" "event_from_dict f = Inr e" "oe_intent_id e = oi_intent_id i"
    "oe_venue_ts_ms e = None" "oe_reason e = Some ''SHADOW_SYNTHETIC_ACK''"
  shows "decode_response i (JObj d) = Inr e"
  using assms by (simp add: decode_response_def wrap_error_def)

lemma response_decodes:
  assumes "valid_event e" "oe_intent_id e = oi_intent_id i" "oe_venue_ts_ms e = None"
    "oe_reason e = Some ''SHADOW_SYNTHETIC_ACK''"
  shows "decode_response i (sort_json (JObj (response_of i e))) = Inr e"
proof (subst sort_json_JObj, rule decode_from)
  let ?d = "obj_fields (sort_json (JObj (response_of i e)))"
  have dist: "distinct (map fst (response_of i e))"
    by (simp add: response_of_def)
  note get = json_get_sorted [OF dist]
  show "key_set_is ?d response_fields"
    by (rule key_set_sorted [OF dist]) (simp add: key_set_is_def known_keys_def response_of_def response_fields_def)
  have "map_of ?d ''error'' = map_option sort_json (map_of (response_of i e) ''error'')"
    by (rule sort_json_fields [OF dist])
  then show "map_of ?d ''error'' = None" by (simp add: response_of_def)
  show "json_get ?d ''protocol_version'' = JStr CLODDS_SHADOW_PROTOCOL_V1" "json_get ?d ''mode'' = JStr ''SHADOW''"
    "json_get ?d ''clodds_commit'' = JStr AUDITED_CLODDS_COMMIT_V1" "json_get ?d ''intent_id'' = JStr (oi_intent_id i)"
    by (simp_all only: get) (simp_all add: json_get_def response_of_def)
  show "json_get ?d ''event'' = JObj (obj_fields (sort_json (event_to_dict e)))"
    by (simp only: get) (simp add: json_get_def response_of_def event_to_dict_def obj_fields_def)
  show "event_from_dict (obj_fields (sort_json (event_to_dict e))) = Inr e"
    using assms(1) by (simp add: event_from_sorted valid_event_post_init)
qed (use assms in simp_all)

lemma decoded_event:
  assumes "decode_response i r = Inr e"
  shows "valid_event e \<and> oe_intent_id e = oi_intent_id i \<and> oe_venue_ts_ms e = None \<and>
    oe_reason e = Some ''SHADOW_SYNTHETIC_ACK''"
proof -
  obtain d where d: "r = JObj d"
    using assms by (cases r) (simp_all add: decode_response_def)
  have none: "map_of d ''error'' = None"
    using assms by (auto simp: d decode_response_def err_simps split: option.splits json.splits)
  obtain f where f: "json_get d ''event'' = JObj f"
    using assms by (cases "json_get d ''event''") (auto simp: d none decode_response_def err_simps)
  have e: "event_from_dict f = Inr e"
    using assms by (auto simp: d none f decode_response_def err_simps wrap_error_def split: sum.splits)
  have "valid_event e"
    using e by (auto simp: event_from_dict_def err_simps intro: event_post_init_valid)
  then show ?thesis
    using assms by (simp add: d none f e decode_response_def err_simps wrap_error_def)
qed

end
