(* ===== verification/StrategyCandidate.thy ===== *)
theory StrategyCandidate
  imports Risk IntentLedger "HOL-Library.Product_Lexorder"
begin

text \<open>
  \<open>strategy_candidate.py\<close>: a strategy's order candidate, its assessment by the risk gate, and the order intent
  built from an assessment that allows it.  The assessment carries the hashes of the candidate, the limits,
  the context and the portfolio it was made with, and the builder compares them with those of what it is
  given.  The hash function is a parameter; the JSON text hashed here is the canonical one, except that
  \<open>json.dumps\<close> may write the non-finite floats.
\<close>

section \<open>JSON with the non-finite floats\<close>

fun dumps_nan :: "json \<Rightarrow> string" where
  "dumps_nan (JFloat PInf) = ''Infinity''"
| "dumps_nan (JFloat NInf) = ''-Infinity''"
| "dumps_nan (JFloat NaN) = ''NaN''"
| "dumps_nan (JList vs) = ''['' @ join '','' (map dumps_nan vs) @ '']''"
| "dumps_nan (JObj kvs) = ''{'' @ join '','' (map (\<lambda>(k, v). quote k @ '':'' @ dumps_nan v) kvs) @ ''}''"
| "dumps_nan j = dumps j"

definition canonical_nan :: "json \<Rightarrow> string" where
  "canonical_nan j = dumps_nan (sort_json j)"

definition sha256_json :: "hasher \<Rightarrow> json \<Rightarrow> string" where
  "sha256_json sha value = sha (canonical_nan value)"

lemma dumps_nan_finite: "wf_json j \<Longrightarrow> dumps_nan j = dumps j"
proof (induction j)
  case (JFloat x)
  then show ?case by (cases x) auto
next
  case (JList vs)
  then have "map dumps_nan vs = map dumps vs" by (auto simp: list_all_iff)
  then show ?case by (simp only: dumps_nan.simps dumps.simps)
next
  case (JObj kvs)
  then have "map (\<lambda>(k, v). quote k @ '':'' @ dumps_nan v) kvs = map (\<lambda>(k, v). quote k @ '':'' @ dumps v) kvs"
    by (auto simp: list_all_iff)
  then show ?case by (simp only: dumps_nan.simps dumps.simps)
qed simp_all

lemma canonical_nan_wf: "wf_json j \<Longrightarrow> canonical_nan j = canonical j"
  by (simp add: canonical_nan_def canonical_def dumps_nan_finite wf_sort_json)

section \<open>Candidates\<close>

definition STRATEGY_ORDER_CANDIDATE_SCHEMA_V1 :: string where
  "STRATEGY_ORDER_CANDIDATE_SCHEMA_V1 = ''strategy_order_candidate_v1''"

definition STRATEGY_RISK_ASSESSMENT_SCHEMA_V1 :: string where
  "STRATEGY_RISK_ASSESSMENT_SCHEMA_V1 = ''strategy_risk_assessment_v1''"

record candidate =
  sc_candidate_id :: string
  sc_alpha_id :: string
  sc_alpha_version :: string
  sc_risk_policy_version :: string
  sc_condition_id :: string
  sc_outcome :: string
  sc_side :: string
  sc_qty :: pyfloat
  sc_limit_price :: pyfloat
  sc_time_in_force :: string
  sc_decision_ts_ms :: pyfloat
  sc_market_data_ts_ms :: pyfloat
  sc_schema_version :: string

definition candidate_post_init :: "candidate \<Rightarrow> candidate res" where
  "candidate_post_init c =
     bindE (nonempty (sc_candidate_id c) ''candidate_id'') (\<lambda>cand.
     bindE (nonempty (sc_alpha_id c) ''alpha_id'') (\<lambda>alpha.
     bindE (nonempty (sc_alpha_version c) ''alpha_version'') (\<lambda>version.
     bindE (nonempty (sc_risk_policy_version c) ''risk_policy_version'') (\<lambda>policy.
     bindE (nonempty (sc_condition_id c) ''condition_id'') (\<lambda>cond.
     bindE (nonempty (sc_outcome c) ''outcome'') (\<lambda>outcome.
     bindE (nonempty (sc_side c) ''side'') (\<lambda>side.
     bindE (nonempty (sc_time_in_force c) ''time_in_force'') (\<lambda>tif0.
     bindE (risk_intent_post_init \<lparr>ri_condition_id = cond, ri_outcome = outcome, ri_side = side,
        ri_qty = sc_qty c, ri_limit_price = sc_limit_price c\<rparr>) (\<lambda>risk_intent.
     let tif = py_upper tif0 in
     raise_if (tif \<notin> {''GTC'', ''IOC'', ''FOK''}) (ValueError ''time_in_force must be GTC, IOC or FOK'') (
     raise_if (\<not> isfinite (sc_decision_ts_ms c) \<or> \<not> isfinite (sc_market_data_ts_ms c) \<or>
         flt (sc_decision_ts_ms c) (Fin 0) \<or> flt (sc_market_data_ts_ms c) (Fin 0))
       (ValueError ''timestamps must be nonnegative finite numbers'') (
     raise_if (flt (sc_decision_ts_ms c) (sc_market_data_ts_ms c))
       (ValueError ''market_data_ts_ms cannot be after decision_ts_ms'') (
     raise_if (sc_schema_version c \<noteq> STRATEGY_ORDER_CANDIDATE_SCHEMA_V1)
       (ValueError ''unsupported StrategyOrderCandidate schema_version'') (
     Inr \<lparr>sc_candidate_id = cand, sc_alpha_id = alpha, sc_alpha_version = version,
          sc_risk_policy_version = policy, sc_condition_id = ri_condition_id risk_intent,
          sc_outcome = ri_outcome risk_intent, sc_side = ri_side risk_intent, sc_qty = ri_qty risk_intent,
          sc_limit_price = ri_limit_price risk_intent, sc_time_in_force = tif,
          sc_decision_ts_ms = sc_decision_ts_ms c, sc_market_data_ts_ms = sc_market_data_ts_ms c,
          sc_schema_version = sc_schema_version c\<rparr>)))))))))))))"

definition candidate_to_dict :: "candidate \<Rightarrow> json" where
  "candidate_to_dict c = JObj
     [(''candidate_id'', JStr (sc_candidate_id c)), (''alpha_id'', JStr (sc_alpha_id c)),
      (''alpha_version'', JStr (sc_alpha_version c)), (''risk_policy_version'', JStr (sc_risk_policy_version c)),
      (''condition_id'', JStr (sc_condition_id c)), (''outcome'', JStr (sc_outcome c)),
      (''side'', JStr (sc_side c)), (''qty'', JFloat (sc_qty c)), (''limit_price'', JFloat (sc_limit_price c)),
      (''time_in_force'', JStr (sc_time_in_force c)), (''decision_ts_ms'', JFloat (sc_decision_ts_ms c)),
      (''market_data_ts_ms'', JFloat (sc_market_data_ts_ms c)), (''schema_version'', JStr (sc_schema_version c))]"

definition strategy_candidate_hash :: "hasher \<Rightarrow> candidate \<Rightarrow> string" where
  "strategy_candidate_hash sha c = sha256_json sha (candidate_to_dict c)"

section \<open>What the risk gate was given\<close>

definition risk_limits_json :: "risk_limits \<Rightarrow> json" where
  "risk_limits_json l = JObj
     [(''max_order_notional'', JFloat (max_order_notional l)), (''max_market_exposure'', JFloat (max_market_exposure l)),
      (''max_gross_exposure'', JFloat (max_gross_exposure l)), (''max_daily_loss'', JFloat (max_daily_loss l)),
      (''max_market_data_age_ms'', JFloat (max_market_data_age_ms l))]"

definition risk_limits_hash :: "hasher \<Rightarrow> risk_limits \<Rightarrow> string" where
  "risk_limits_hash sha l = sha256_json sha (risk_limits_json l)"

definition risk_context_json :: "risk_context \<Rightarrow> json" where
  "risk_context_json x = JObj
     [(''now_ts_ms'', JFloat (now_ts_ms x)), (''market_data_ts_ms'', JFloat (market_data_ts_ms x)),
      (''kill_switch'', JBool (kill_switch x)), (''estimated_fee_cost'', JFloat (estimated_fee_cost x))]"

definition risk_context_hash :: "hasher \<Rightarrow> risk_context \<Rightarrow> string" where
  "risk_context_hash sha x = sha256_json sha (risk_context_json x)"

fun position_row :: "pkey \<times> position \<Rightarrow> json" where
  "position_row ((cid, u), q) = JObj
     [(''key_condition_id'', JStr cid), (''key_outcome'', JStr u), (''condition_id'', JStr (po_condition_id q)),
      (''outcome'', JStr (po_outcome q)), (''qty'', JFloat (po_qty q)), (''cost_basis'', JFloat (po_cost_basis q))]"

fun reserved_row :: "pkey \<times> pyfloat \<Rightarrow> json" where
  "reserved_row ((cid, u), q) = JObj [(''condition_id'', JStr cid), (''outcome'', JStr u), (''qty'', JFloat q)]"

definition portfolio_json :: "portfolio \<Rightarrow> json" where
  "portfolio_json p = JObj
     [(''cash'', JFloat (pf_cash p)), (''reserved_cash'', JFloat (pf_reserved_cash p)),
      (''realized_pnl'', JFloat (pf_realized_pnl p)),
      (''positions'', JList (map position_row (sort_key fst (pf_positions p)))),
      (''reserved_positions'', JList (map reserved_row (sort_key fst (pf_reserved_positions p))))]"

definition portfolio_state_hash :: "hasher \<Rightarrow> portfolio \<Rightarrow> string" where
  "portfolio_state_hash sha p = sha256_json sha (portfolio_json p)"

section \<open>Assessments\<close>

record assessment =
  ra_candidate_hash :: string
  ra_risk_policy_version :: string
  ra_risk_limits_hash :: string
  ra_portfolio_hash :: string
  ra_risk_context_hash :: string
  ra_risk :: risk_result
  ra_schema_version :: string

definition assessment_post_init :: "assessment \<Rightarrow> assessment res" where
  "assessment_post_init a =
     bindE (nonempty (ra_candidate_hash a) ''candidate_hash'') (\<lambda>ch.
     bindE (nonempty (ra_risk_policy_version a) ''risk_policy_version'') (\<lambda>rv.
     bindE (nonempty (ra_risk_limits_hash a) ''risk_limits_hash'') (\<lambda>lh.
     bindE (nonempty (ra_portfolio_hash a) ''portfolio_hash'') (\<lambda>ph.
     bindE (nonempty (ra_risk_context_hash a) ''risk_context_hash'') (\<lambda>xh.
     raise_if (ra_schema_version a \<noteq> STRATEGY_RISK_ASSESSMENT_SCHEMA_V1)
       (ValueError ''unsupported StrategyRiskAssessment schema_version'') (
     Inr (a\<lparr>ra_candidate_hash := ch, ra_risk_policy_version := rv, ra_risk_limits_hash := lh,
            ra_portfolio_hash := ph, ra_risk_context_hash := xh\<rparr>)))))))"

definition assess_strategy_candidate ::
  "hasher \<Rightarrow> candidate \<Rightarrow> portfolio \<Rightarrow> risk_limits \<Rightarrow> risk_context \<Rightarrow> assessment res" where
  "assess_strategy_candidate sha candidate p limits context =
     raise_if (\<not> feq (now_ts_ms context) (sc_decision_ts_ms candidate))
       (ValueError ''risk context now_ts_ms must match candidate decision_ts_ms'') (
     raise_if (\<not> feq (market_data_ts_ms context) (sc_market_data_ts_ms candidate))
       (ValueError ''risk context market_data_ts_ms must match candidate'') (
     bindE (risk_intent_post_init \<lparr>ri_condition_id = sc_condition_id candidate, ri_outcome = sc_outcome candidate,
        ri_side = sc_side candidate, ri_qty = sc_qty candidate, ri_limit_price = sc_limit_price candidate\<rparr>) (\<lambda>risk_intent.
     bindE (evaluate_order_risk p risk_intent limits context) (\<lambda>risk.
     assessment_post_init
       \<lparr>ra_candidate_hash = strategy_candidate_hash sha candidate,
        ra_risk_policy_version = sc_risk_policy_version candidate,
        ra_risk_limits_hash = risk_limits_hash sha limits, ra_portfolio_hash = portfolio_state_hash sha p,
        ra_risk_context_hash = risk_context_hash sha context, ra_risk = risk,
        ra_schema_version = STRATEGY_RISK_ASSESSMENT_SCHEMA_V1\<rparr>))))"

definition build_order_intent ::
  "hasher \<Rightarrow> candidate \<Rightarrow> assessment \<Rightarrow> portfolio \<Rightarrow> risk_limits \<Rightarrow> risk_context \<Rightarrow> order_intent res" where
  "build_order_intent sha candidate a p limits context =
     raise_if (ra_candidate_hash a \<noteq> strategy_candidate_hash sha candidate) (ValueError ''candidate hash mismatch'') (
     raise_if (ra_risk_policy_version a \<noteq> sc_risk_policy_version candidate)
       (ValueError ''risk policy version mismatch'') (
     raise_if (ra_portfolio_hash a \<noteq> portfolio_state_hash sha p) (ValueError ''portfolio hash mismatch'') (
     raise_if (ra_risk_limits_hash a \<noteq> risk_limits_hash sha limits) (ValueError ''risk limits hash mismatch'') (
     raise_if (ra_risk_context_hash a \<noteq> risk_context_hash sha context) (ValueError ''risk context hash mismatch'') (
     raise_if (rr_decision (ra_risk a) \<noteq> ALLOW) (ValueError ''risk decision must be ALLOW'') (
     order_intent_post_init
       \<lparr>oi_intent_id = sc_candidate_id candidate, oi_condition_id = sc_condition_id candidate,
        oi_outcome = sc_outcome candidate, oi_side = sc_side candidate, oi_qty = sc_qty candidate,
        oi_limit_price = sc_limit_price candidate, oi_time_in_force = sc_time_in_force candidate,
        oi_decision_ts_ms = sc_decision_ts_ms candidate, oi_market_data_ts_ms = sc_market_data_ts_ms candidate,
        oi_strategy_id = sc_alpha_id candidate, oi_strategy_version = sc_alpha_version candidate,
        oi_risk_policy_version = sc_risk_policy_version candidate, oi_schema_version = ORDER_INTENT_SCHEMA_V1\<rparr>))))))"

end
