(* ===== verification/StrategyFacts.thy ===== *)
theory StrategyFacts
  imports StrategyCandidate IntentLedgerLaws
begin

text \<open>
  What the hashes of an assessment determine, when the hash function has no collision among the texts that
  were hashed, and what an assessment that allows a candidate is worth to the builder of the order intent.
\<close>

section \<open>Constructed candidates\<close>

definition risk_view :: "candidate \<Rightarrow> risk_intent" where
  "risk_view c = \<lparr>ri_condition_id = sc_condition_id c, ri_outcome = sc_outcome c, ri_side = sc_side c,
     ri_qty = sc_qty c, ri_limit_price = sc_limit_price c\<rparr>"

lemma risk_view_simps [simp]:
  "ri_condition_id (risk_view c) = sc_condition_id c" "ri_outcome (risk_view c) = sc_outcome c"
  "ri_side (risk_view c) = sc_side c" "ri_qty (risk_view c) = sc_qty c" "ri_limit_price (risk_view c) = sc_limit_price c"
  by (simp_all add: risk_view_def)

definition valid_candidate :: "candidate \<Rightarrow> bool" where
  "valid_candidate c \<longleftrightarrow>
     valid_text (sc_candidate_id c) \<and> valid_text (sc_alpha_id c) \<and> valid_text (sc_alpha_version c) \<and>
     valid_text (sc_risk_policy_version c) \<and> valid_risk_intent (risk_view c) \<and>
     sc_time_in_force c \<in> {''GTC'', ''IOC'', ''FOK''} \<and>
     isfinite (sc_decision_ts_ms c) \<and> isfinite (sc_market_data_ts_ms c) \<and>
     fle (Fin 0) (sc_decision_ts_ms c) \<and> fle (Fin 0) (sc_market_data_ts_ms c) \<and>
     \<not> flt (sc_decision_ts_ms c) (sc_market_data_ts_ms c) \<and>
     sc_schema_version c = STRATEGY_ORDER_CANDIDATE_SCHEMA_V1"

lemma finite_not_flt: "isfinite x \<Longrightarrow> \<not> flt x (Fin 0) \<longleftrightarrow> fle (Fin 0) x"
  by (cases x) auto

lemma valid_risk_intent_post_init: "valid_risk_intent r \<Longrightarrow> risk_intent_post_init r = Inr r"
proof -
  assume v: "valid_risk_intent r"
  have "py_upper (ri_side r) = ri_side r"
    using v by (auto simp: valid_risk_intent_def)
  then show ?thesis
    using v by (auto simp: risk_intent_post_init_def valid_risk_intent_def validators_ok valid_text_def Let_def raise_if_def)
qed

lemma candidate_post_init_valid:
  assumes "candidate_post_init raw = Inr c"
  shows "valid_candidate c"
  using assms unfolding candidate_post_init_def Let_def err_simps
  by (elim exE conjE) (auto simp: valid_candidate_def valid_text_def contract_simps finite_not_flt valid_risk_intent_def
      dest!: risk_intent_post_init_valid)

lemma code_words:
  "valid_text ''BUY''" "valid_text ''SELL''" "valid_text ''GTC''" "valid_text ''IOC''" "valid_text ''FOK''"
  by (code_simp)+

lemma valid_candidate_post_init: "valid_candidate c \<Longrightarrow> candidate_post_init c = Inr c"
proof -
  assume v: "valid_candidate c"
  have words: "valid_text (sc_condition_id c)" "valid_text (sc_outcome c)" "valid_text (sc_side c)"
    "valid_text (sc_time_in_force c)" "py_upper (sc_time_in_force c) = sc_time_in_force c"
    using v code_words by (auto simp: valid_candidate_def valid_risk_intent_def risk_view_def valid_text_def)
  have r: "risk_intent_post_init (risk_view c) = Inr (risk_view c)"
    using v by (simp add: valid_candidate_def valid_risk_intent_post_init)
  show ?thesis
    using v words r by (auto simp: candidate_post_init_def valid_candidate_def validators_ok finite_not_flt raise_if_def simp flip: risk_view_def)
qed

section \<open>Building from an assessment\<close>

definition intent_of :: "candidate \<Rightarrow> order_intent" where
  "intent_of c = \<lparr>oi_intent_id = sc_candidate_id c, oi_condition_id = sc_condition_id c, oi_outcome = sc_outcome c,
     oi_side = (if sc_side c = ''BUY'' then BUY else SELL), oi_qty = sc_qty c, oi_limit_price = sc_limit_price c,
     oi_time_in_force = (if sc_time_in_force c = ''GTC'' then GTC else if sc_time_in_force c = ''IOC'' then IOC else FOK),
     oi_decision_ts_ms = sc_decision_ts_ms c, oi_market_data_ts_ms = sc_market_data_ts_ms c,
     oi_strategy_id = sc_alpha_id c, oi_strategy_version = sc_alpha_version c,
     oi_risk_policy_version = sc_risk_policy_version c, oi_schema_version = ORDER_INTENT_SCHEMA_V1\<rparr>"

lemma intent_of_valid:
  assumes "valid_candidate c"
  shows "valid_intent (intent_of c)"
  using assms by (simp add: valid_candidate_def valid_intent_def intent_of_def valid_risk_intent_def risk_view_def valid_text_def)

lemma intent_of_raw:
  assumes "valid_candidate c"
  shows "raw_of_intent (intent_of c) =
      \<lparr>oi_intent_id = sc_candidate_id c, oi_condition_id = sc_condition_id c, oi_outcome = sc_outcome c,
       oi_side = sc_side c, oi_qty = sc_qty c, oi_limit_price = sc_limit_price c, oi_time_in_force = sc_time_in_force c,
       oi_decision_ts_ms = sc_decision_ts_ms c, oi_market_data_ts_ms = sc_market_data_ts_ms c,
       oi_strategy_id = sc_alpha_id c, oi_strategy_version = sc_alpha_version c,
       oi_risk_policy_version = sc_risk_policy_version c, oi_schema_version = ORDER_INTENT_SCHEMA_V1\<rparr>"
  using assms by (auto simp: raw_of_intent_def intent_of_def valid_candidate_def valid_risk_intent_def risk_view_def)

lemma build_Inr_iff:
  assumes "valid_candidate c"
  shows "build_order_intent sha c a p l x = Inr i \<longleftrightarrow>
     ra_candidate_hash a = strategy_candidate_hash sha c \<and> ra_risk_policy_version a = sc_risk_policy_version c \<and>
     ra_portfolio_hash a = portfolio_state_hash sha p \<and> ra_risk_limits_hash a = risk_limits_hash sha l \<and>
     ra_risk_context_hash a = risk_context_hash sha x \<and> rr_allowed (ra_risk a) \<and> i = intent_of c"
  using valid_post_init [OF intent_of_valid [OF assms]]
  by (auto simp: build_order_intent_def err_simps intent_of_raw [OF assms] rr_allowed_def)

text \<open>A digest is a text the constructor of the assessment keeps as it is.\<close>

lemma hex_not_space: "list_all is_lower_hex s \<Longrightarrow> s \<noteq> [] \<Longrightarrow> valid_text s"
proof -
  assume h: "list_all is_lower_hex s" "s \<noteq> []"
  have none: "ws_prefix toks t = None" if "\<forall>u\<in>set toks. \<forall>c\<in>set u. \<not> is_lower_hex c" "list_all is_lower_hex t" for toks t
  proof -
    have "\<not> (u \<noteq> [] \<and> take (length u) t = u)" if u: "u \<in> set toks" for u
    proof
      assume *: "u \<noteq> [] \<and> take (length u) t = u"
      then have "hd u \<in> set u" "hd u \<in> set t" by (simp, metis hd_in_set in_set_takeD)
      then show False using that \<open>\<forall>u\<in>set toks. \<forall>c\<in>set u. \<not> is_lower_hex c\<close> \<open>list_all is_lower_hex t\<close>
        by (auto simp: list_all_iff)
    qed
    then show ?thesis by (auto simp: ws_prefix_def find_None_iff)
  qed
  have "\<forall>u\<in>set ws_tokens. \<forall>c\<in>set u. \<not> is_lower_hex c"
    by (simp add: ws_tokens_def is_lower_hex_def)
  then have "ws_prefix ws_tokens s = None" "ws_prefix (map rev ws_tokens) (rev s) = None"
    using h(1) by (auto intro!: none simp: list_all_iff)
  then show "valid_text s"
    using h(2) by (simp add: valid_text_def py_strip_def lstrip_by_fix)
qed

lemma digest_text: "hex_digest sha \<Longrightarrow> valid_text (sha s)"
  by (rule hex_not_space) (auto simp: hex_digest_def dest: spec [of _ s])

lemma assess_Inr:
  assumes "hex_digest sha" "valid_candidate c"
  shows "assess_strategy_candidate sha c p l x = Inr a \<longleftrightarrow>
     feq (now_ts_ms x) (sc_decision_ts_ms c) \<and> feq (market_data_ts_ms x) (sc_market_data_ts_ms c) \<and>
     (\<exists>r. evaluate_order_risk p (risk_view c) l x = Inr r \<and>
       a = \<lparr>ra_candidate_hash = strategy_candidate_hash sha c, ra_risk_policy_version = sc_risk_policy_version c,
            ra_risk_limits_hash = risk_limits_hash sha l, ra_portfolio_hash = portfolio_state_hash sha p,
            ra_risk_context_hash = risk_context_hash sha x, ra_risk = r,
            ra_schema_version = STRATEGY_RISK_ASSESSMENT_SCHEMA_V1\<rparr>)"
proof -
  have t: "valid_text (sha256_json sha j)" for j
    by (simp add: sha256_json_def digest_text [OF assms(1)])
  have v: "risk_intent_post_init (risk_view c) = Inr (risk_view c)" "valid_text (sc_risk_policy_version c)"
    using assms(2) by (simp_all add: valid_candidate_def valid_risk_intent_post_init)
  show ?thesis
    using t v by (auto simp: assess_strategy_candidate_def err_simps assessment_post_init_def validators_ok
        strategy_candidate_hash_def risk_limits_hash_def portfolio_state_hash_def risk_context_hash_def
        simp flip: risk_view_def)
qed

section \<open>What the hashes determine\<close>

definition wf_candidate :: "candidate \<Rightarrow> bool" where
  "wf_candidate c \<longleftrightarrow> valid_candidate c \<and> wf_float (sc_qty c) \<and> wf_float (sc_limit_price c) \<and>
     wf_float (sc_decision_ts_ms c) \<and> wf_float (sc_market_data_ts_ms c)"

definition wf_limits :: "risk_limits \<Rightarrow> bool" where
  "wf_limits l \<longleftrightarrow> wf_json (risk_limits_json l)"

definition wf_context :: "risk_context \<Rightarrow> bool" where
  "wf_context x \<longleftrightarrow> wf_json (risk_context_json x)"

definition wf_portfolio :: "portfolio \<Rightarrow> bool" where
  "wf_portfolio p \<longleftrightarrow> wf_json (portfolio_json p) \<and> distinct (map fst (pf_positions p)) \<and>
     distinct (map fst (pf_reserved_positions p))"

lemma candidate_text_inj:
  assumes "wf_candidate c" "wf_candidate c'" "canonical_nan (candidate_to_dict c) = canonical_nan (candidate_to_dict c')"
  shows "c = c'"
proof -
  have w: "wf_json (candidate_to_dict b)" if "wf_candidate b" for b
    using that by (simp add: candidate_to_dict_def wf_candidate_def valid_candidate_def valid_risk_intent_def)
  then have e: "canonical (candidate_to_dict c) = canonical (candidate_to_dict c')"
    using assms by (simp add: canonical_nan_wf)
  note f = canonical_obj_fields [OF w [OF assms(1), unfolded candidate_to_dict_def]
      w [OF assms(2), unfolded candidate_to_dict_def] e [unfolded candidate_to_dict_def]]
  show ?thesis
    using f [of "''candidate_id''"] f [of "''alpha_id''"] f [of "''alpha_version''"] f [of "''risk_policy_version''"]
      f [of "''condition_id''"] f [of "''outcome''"] f [of "''side''"] f [of "''qty''"] f [of "''limit_price''"]
      f [of "''time_in_force''"] f [of "''decision_ts_ms''"] f [of "''market_data_ts_ms''"] f [of "''schema_version''"]
    by simp
qed

lemma limits_text_inj:
  assumes "wf_limits l" "wf_limits l'" "canonical_nan (risk_limits_json l) = canonical_nan (risk_limits_json l')"
  shows "l = l'"
proof -
  have e: "canonical (risk_limits_json l) = canonical (risk_limits_json l')"
    using assms by (simp add: canonical_nan_wf wf_limits_def)
  note f = canonical_obj_fields [OF assms(1) [unfolded wf_limits_def risk_limits_json_def]
      assms(2) [unfolded wf_limits_def risk_limits_json_def] e [unfolded risk_limits_json_def]]
  show ?thesis
    using f [of "''max_order_notional''"] f [of "''max_market_exposure''"] f [of "''max_gross_exposure''"]
      f [of "''max_daily_loss''"] f [of "''max_market_data_age_ms''"]
    by simp
qed

lemma context_text_inj:
  assumes "wf_context x" "wf_context x'" "canonical_nan (risk_context_json x) = canonical_nan (risk_context_json x')"
  shows "x = x'"
proof -
  have e: "canonical (risk_context_json x) = canonical (risk_context_json x')"
    using assms by (simp add: canonical_nan_wf wf_context_def)
  note f = canonical_obj_fields [OF assms(1) [unfolded wf_context_def risk_context_json_def]
      assms(2) [unfolded wf_context_def risk_context_json_def] e [unfolded risk_context_json_def]]
  show ?thesis
    using f [of "''now_ts_ms''"] f [of "''market_data_ts_ms''"] f [of "''kill_switch''"] f [of "''estimated_fee_cost''"]
    by simp
qed

text \<open>Two portfolios with the same hash hold the same, in whatever order the dictionaries were filled.\<close>

definition same_holdings :: "portfolio \<Rightarrow> portfolio \<Rightarrow> bool" where
  "same_holdings p p' \<longleftrightarrow> pf_cash p = pf_cash p' \<and> pf_reserved_cash p = pf_reserved_cash p' \<and>
     pf_realized_pnl p = pf_realized_pnl p' \<and> map_of (pf_positions p) = map_of (pf_positions p') \<and>
     map_of (pf_reserved_positions p) = map_of (pf_reserved_positions p')"

lemma position_row_inj: "sort_json (position_row a) = sort_json (position_row b) \<Longrightarrow> a = b"
proof -
  assume eq: "sort_json (position_row a) = sort_json (position_row b)"
  obtain c u q d v r where ab: "a = ((c, u), q)" "b = ((d, v), r)"
    by (cases a; cases b) force
  note f = sort_json_map_of [OF _ _ eq [unfolded ab position_row.simps]]
  show ?thesis
    using f [of "''key_condition_id''"] f [of "''key_outcome''"] f [of "''condition_id''"] f [of "''outcome''"]
      f [of "''qty''"] f [of "''cost_basis''"]
    by (simp add: ab)
qed

lemma reserved_row_inj: "sort_json (reserved_row a) = sort_json (reserved_row b) \<Longrightarrow> a = b"
proof -
  assume eq: "sort_json (reserved_row a) = sort_json (reserved_row b)"
  obtain c u q d v r where ab: "a = ((c, u), q)" "b = ((d, v), r)"
    by (cases a; cases b) force
  note f = sort_json_map_of [OF _ _ eq [unfolded ab reserved_row.simps]]
  show ?thesis
    using f [of "''condition_id''"] f [of "''outcome''"] f [of "''qty''"] by (simp add: ab)
qed

lemma rows_determine:
  assumes "\<And>a b. sort_json (row a) = sort_json (row b) \<Longrightarrow> a = b" "distinct (map fst xs)" "distinct (map fst ys)"
    "sort_json (JList (map row (sort_key fst xs))) = sort_json (JList (map row (sort_key fst ys)))"
  shows "map_of xs = map_of ys"
proof -
  have "map (\<lambda>a. sort_json (row a)) (sort_key fst xs) = map (\<lambda>a. sort_json (row a)) (sort_key fst ys)"
    using assms(4) by (simp add: comp_def)
  moreover have "inj (\<lambda>a. sort_json (row a))"
    using assms(1) by (intro injI)
  ultimately have "sort_key fst xs = sort_key fst ys"
    using inj_map_eq_map by blast
  then have "set xs = set ys"
    by (metis set_sort)
  then show ?thesis
    using map_of_inject_set [OF assms(2,3)] by blast
qed

lemma portfolio_text_inj:
  assumes "wf_portfolio p" "wf_portfolio p'" "canonical_nan (portfolio_json p) = canonical_nan (portfolio_json p')"
  shows "same_holdings p p'"
proof -
  have w: "wf_json (portfolio_json p)" "wf_json (portfolio_json p')"
    using assms by (simp_all add: wf_portfolio_def)
  then have e: "canonical (portfolio_json p) = canonical (portfolio_json p')"
    using assms(3) by (simp add: canonical_nan_wf)
  note f = canonical_obj_fields [OF w [unfolded portfolio_json_def] e [unfolded portfolio_json_def]]
  have "map_of (pf_positions p) = map_of (pf_positions p')"
    by (rule rows_determine [OF position_row_inj])
      (use f [of "''positions''"] assms(1,2) in \<open>simp_all add: wf_portfolio_def\<close>)
  moreover have "map_of (pf_reserved_positions p) = map_of (pf_reserved_positions p')"
    by (rule rows_determine [OF reserved_row_inj])
      (use f [of "''reserved_positions''"] assms(1,2) in \<open>simp_all add: wf_portfolio_def\<close>)
  ultimately show ?thesis
    using f [of "''cash''"] f [of "''reserved_cash''"] f [of "''realized_pnl''"] by (simp add: same_holdings_def)
qed

text \<open>The texts hashed on either side of an assessment.\<close>

definition assessed_texts :: "candidate \<Rightarrow> portfolio \<Rightarrow> risk_limits \<Rightarrow> risk_context \<Rightarrow> string set" where
  "assessed_texts c p l x = {canonical_nan (candidate_to_dict c), canonical_nan (portfolio_json p),
     canonical_nan (risk_limits_json l), canonical_nan (risk_context_json x)}"

lemma hashes_determine:
  assumes "inj_on sha (assessed_texts c p l x \<union> assessed_texts c' p' l' x')"
    "wf_candidate c" "wf_candidate c'" "wf_portfolio p" "wf_portfolio p'" "wf_limits l" "wf_limits l'"
    "wf_context x" "wf_context x'"
    "strategy_candidate_hash sha c = strategy_candidate_hash sha c'" "portfolio_state_hash sha p = portfolio_state_hash sha p'"
    "risk_limits_hash sha l = risk_limits_hash sha l'" "risk_context_hash sha x = risk_context_hash sha x'"
  shows "c = c' \<and> same_holdings p p' \<and> l = l' \<and> x = x'"
proof (intro conjI)
  note d = inj_onD [OF assms(1)] and h = assms(10-13) [unfolded strategy_candidate_hash_def portfolio_state_hash_def
      risk_limits_hash_def risk_context_hash_def sha256_json_def]
  show "c = c'" by (rule candidate_text_inj [OF assms(2,3) d [OF h(1)]]) (simp_all add: assessed_texts_def)
  show "same_holdings p p'" by (rule portfolio_text_inj [OF assms(4,5) d [OF h(2)]]) (simp_all add: assessed_texts_def)
  show "l = l'" by (rule limits_text_inj [OF assms(6,7) d [OF h(3)]]) (simp_all add: assessed_texts_def)
  show "x = x'" by (rule context_text_inj [OF assms(8,9) d [OF h(4)]]) (simp_all add: assessed_texts_def)
qed

end
