(* ===== verification/ShadowRun.thy ===== *)
theory ShadowRun
  imports StrategyFacts ShadowProps ShadowTransport
begin

text \<open>
  \<open>batch_shadow_runner.py\<close> and \<open>strategy_shadow_run.py\<close>: a batch of requests submitted one by one through a
  client, each ending in an item that passed or failed, and the run of one strategy candidate through the risk
  gate and such a batch.  The client is a parameter, a function of a request and its own state;
  \<open>client_submit\<close> over any transport is one.
\<close>

type_synonym 'c client = "order_intent \<Rightarrow> string \<Rightarrow> (string \<times> string) list \<Rightarrow> bool \<Rightarrow> 'c \<Rightarrow> order_event res \<times> 'c"

section \<open>Batch data\<close>

definition BATCH_SHADOW_ARTIFACT_SCHEMA_V1 :: string where
  "BATCH_SHADOW_ARTIFACT_SCHEMA_V1 = ''batch_shadow_artifact_v1''"

definition BATCH_SHADOW_RUNNER_VERSION_V1 :: string where
  "BATCH_SHADOW_RUNNER_VERSION_V1 = ''batch_shadow_runner_v1''"

record shadow_request =
  bq_intent :: order_intent
  bq_market_condition_id :: string
  bq_tokens :: "(string \<times> string) list"
  bq_post_only :: bool

definition shadow_request_post_init :: "shadow_request \<Rightarrow> shadow_request res" where
  "shadow_request_post_init q =
     bindE (nonempty (bq_market_condition_id q) ''market_condition_id'') (\<lambda>market.
     bindE (mapE (\<lambda>(token_id, outcome).
        bindE (nonempty token_id ''token_id'') (\<lambda>t. bindE (nonempty outcome ''token_outcome'') (\<lambda>u. Inr (t, u))))
        (bq_tokens q)) (\<lambda>tokens.
     raise_if (tokens = []) (ValueError ''tokens must not be empty'') (
     Inr (q\<lparr>bq_market_condition_id := market, bq_tokens := tokens\<rparr>))))"

definition shadow_request_to_dict :: "shadow_request \<Rightarrow> json" where
  "shadow_request_to_dict q = JObj
     [(''intent'', intent_to_dict (bq_intent q)), (''market_condition_id'', JStr (bq_market_condition_id q)),
      (''tokens'', JList (map (\<lambda>(t, u). JList [JStr t, JStr u]) (bq_tokens q))), (''post_only'', JBool (bq_post_only q))]"

record shadow_item =
  si_index :: int
  si_intent_id :: string
  si_condition_id :: string
  si_status :: string
  si_request :: shadow_request
  si_event :: "order_event option"
  si_error_type :: "string option"
  si_error_message :: "string option"

text \<open>\<open>str(None)\<close> is a non-empty text.\<close>

definition str_opt :: "string option \<Rightarrow> string" where
  "str_opt v = (case v of None \<Rightarrow> ''None'' | Some s \<Rightarrow> s)"

definition shadow_item_post_init :: "shadow_item \<Rightarrow> shadow_item res" where
  "shadow_item_post_init s =
     raise_if (si_index s < 0) (ValueError ''index must be a nonnegative integer'') (
     bindE (nonempty (si_intent_id s) ''intent_id'') (\<lambda>iid.
     bindE (nonempty (si_condition_id s) ''condition_id'') (\<lambda>cid.
     raise_if (si_status s \<notin> {''PASS'', ''FAIL''}) (ValueError ''status must be PASS or FAIL'') (
     if si_status s = ''PASS'' then
       raise_if (si_event s = None) (ValueError ''PASS requires event'') (
       raise_if (si_error_type s \<noteq> None \<or> si_error_message s \<noteq> None) (ValueError ''PASS cannot contain error fields'') (
       Inr (s\<lparr>si_intent_id := iid, si_condition_id := cid\<rparr>)))
     else
       raise_if (si_event s \<noteq> None) (ValueError ''FAIL cannot contain event'') (
       bindE (nonempty (str_opt (si_error_type s)) ''error_type'') (\<lambda>et.
       bindE (nonempty (str_opt (si_error_message s)) ''error_message'') (\<lambda>em.
       Inr (s\<lparr>si_intent_id := iid, si_condition_id := cid, si_error_type := Some et, si_error_message := Some em\<rparr>))))))))"

definition shadow_item_to_dict :: "shadow_item \<Rightarrow> json" where
  "shadow_item_to_dict s = JObj
     [(''index'', JInt (si_index s)), (''intent_id'', JStr (si_intent_id s)), (''condition_id'', JStr (si_condition_id s)),
      (''status'', JStr (si_status s)), (''request'', shadow_request_to_dict (si_request s)),
      (''event'', opt_json event_to_dict (si_event s)), (''error_type'', opt_json JStr (si_error_type s)),
      (''error_message'', opt_json JStr (si_error_message s))]"

record batch_artifact =
  ba_run_id :: string
  ba_n_total :: int
  ba_n_pass :: int
  ba_n_fail :: int
  ba_items :: "shadow_item list"
  ba_artifact_hash :: string
  ba_runner_version :: string
  ba_mode :: string
  ba_protocol_version :: string
  ba_clodds_commit :: string
  ba_mapping_version :: string
  ba_schema_version :: string

definition count_status :: "string \<Rightarrow> shadow_item list \<Rightarrow> int" where
  "count_status status items = int (length (filter (\<lambda>s. si_status s = status) items))"

definition batch_artifact_post_init :: "batch_artifact \<Rightarrow> batch_artifact res" where
  "batch_artifact_post_init b =
     bindE (nonempty (ba_run_id b) ''run_id'') (\<lambda>run.
     bindE (nonempty (ba_artifact_hash b) ''artifact_hash'') (\<lambda>h.
     raise_if (ba_n_total b \<noteq> int (length (ba_items b))) (ValueError ''n_total does not match items'') (
     raise_if (ba_n_pass b + ba_n_fail b \<noteq> ba_n_total b) (ValueError ''PASS/FAIL counts do not sum to n_total'') (
     raise_if (ba_n_pass b \<noteq> count_status ''PASS'' (ba_items b)) (ValueError ''n_pass does not match items'') (
     raise_if (ba_n_fail b \<noteq> count_status ''FAIL'' (ba_items b)) (ValueError ''n_fail does not match items'') (
     raise_if (ba_runner_version b \<noteq> BATCH_SHADOW_RUNNER_VERSION_V1) (ValueError ''unsupported runner_version'') (
     raise_if (ba_mode b \<noteq> ''SHADOW'') (ValueError ''non-SHADOW mode refused'') (
     raise_if (ba_protocol_version b \<noteq> CLODDS_SHADOW_PROTOCOL_V1) (ValueError ''shadow protocol mismatch'') (
     raise_if (ba_clodds_commit b \<noteq> AUDITED_CLODDS_COMMIT_V1) (ValueError ''Clodds commit mismatch'') (
     raise_if (ba_mapping_version b \<noteq> CLODDS_MAPPING_VERSION_V1) (ValueError ''mapping version mismatch'') (
     raise_if (ba_schema_version b \<noteq> BATCH_SHADOW_ARTIFACT_SCHEMA_V1) (ValueError ''unsupported schema_version'') (
     Inr (b\<lparr>ba_run_id := run, ba_artifact_hash := h\<rparr>)))))))))))))"

definition batch_artifact_to_dict :: "batch_artifact \<Rightarrow> json" where
  "batch_artifact_to_dict b = JObj
     [(''run_id'', JStr (ba_run_id b)), (''n_total'', JInt (ba_n_total b)), (''n_pass'', JInt (ba_n_pass b)),
      (''n_fail'', JInt (ba_n_fail b)), (''items'', JList (map shadow_item_to_dict (ba_items b))),
      (''artifact_hash'', JStr (ba_artifact_hash b)), (''runner_version'', JStr (ba_runner_version b)),
      (''mode'', JStr (ba_mode b)), (''protocol_version'', JStr (ba_protocol_version b)),
      (''clodds_commit'', JStr (ba_clodds_commit b)), (''mapping_version'', JStr (ba_mapping_version b)),
      (''schema_version'', JStr (ba_schema_version b))]"

definition batch_payload :: "batch_artifact \<Rightarrow> json" where
  "batch_payload b = JObj
     [(''n_total'', JInt (ba_n_total b)), (''n_pass'', JInt (ba_n_pass b)), (''n_fail'', JInt (ba_n_fail b)),
      (''items'', JList (map shadow_item_to_dict (ba_items b))), (''runner_version'', JStr (ba_runner_version b)),
      (''mode'', JStr (ba_mode b)), (''protocol_version'', JStr (ba_protocol_version b)),
      (''clodds_commit'', JStr (ba_clodds_commit b)), (''mapping_version'', JStr (ba_mapping_version b)),
      (''schema_version'', JStr (ba_schema_version b))]"

definition batch_shadow_artifact_hash :: "hasher \<Rightarrow> batch_artifact \<Rightarrow> string" where
  "batch_shadow_artifact_hash sha b = sha256_json sha (batch_payload b)"

section \<open>Running a batch\<close>

definition batch_draft :: "string \<Rightarrow> shadow_item list \<Rightarrow> string \<Rightarrow> batch_artifact" where
  "batch_draft run_id items h =
     (let n_pass = count_status ''PASS'' items in
      \<lparr>ba_run_id = run_id, ba_n_total = int (length items), ba_n_pass = n_pass,
       ba_n_fail = int (length items) - n_pass, ba_items = items, ba_artifact_hash = h,
       ba_runner_version = BATCH_SHADOW_RUNNER_VERSION_V1, ba_mode = ''SHADOW'',
       ba_protocol_version = CLODDS_SHADOW_PROTOCOL_V1, ba_clodds_commit = AUDITED_CLODDS_COMMIT_V1,
       ba_mapping_version = CLODDS_MAPPING_VERSION_V1, ba_schema_version = BATCH_SHADOW_ARTIFACT_SCHEMA_V1\<rparr>)"

definition build_batch_artifact :: "hasher \<Rightarrow> string \<Rightarrow> shadow_item list \<Rightarrow> batch_artifact res" where
  "build_batch_artifact sha run_id items =
     bindE (batch_artifact_post_init (batch_draft run_id items ''PENDING'')) (\<lambda>provisional.
     batch_artifact_post_init (provisional\<lparr>ba_run_id := run_id, ba_artifact_hash := batch_shadow_artifact_hash sha provisional\<rparr>))"

text \<open>\<open>except (ValueError, CloddsShadowClientError, JsonlProcessTransportError)\<close>, and \<open>type(exc).__name__\<close>.\<close>

fun caught :: "pyerr \<Rightarrow> bool" where
  "caught (CloddsShadowClientError _) = True"
| "caught (JsonlProcessTransportError _) = True"
| "caught e = is_value_error e"

fun err_name :: "pyerr \<Rightarrow> string" where
  "err_name (ValueError _) = ''ValueError''"
| "err_name (MarketIdentifierError _) = ''MarketIdentifierError''"
| "err_name (CloddsMappingError _) = ''CloddsMappingError''"
| "err_name (CloddsShadowProtocolError _) = ''CloddsShadowProtocolError''"
| "err_name (CloddsShadowClientError _) = ''CloddsShadowClientError''"
| "err_name (JsonlProcessTransportError _) = ''JsonlProcessTransportError''"
| "err_name _ = ''Exception''"

definition item_of :: "int \<Rightarrow> shadow_request \<Rightarrow> order_event res \<Rightarrow> shadow_item" where
  "item_of n q r = \<lparr>si_index = n, si_intent_id = oi_intent_id (bq_intent q), si_condition_id = oi_condition_id (bq_intent q),
     si_status = (case r of Inl _ \<Rightarrow> ''FAIL'' | Inr _ \<Rightarrow> ''PASS''), si_request = q,
     si_event = (case r of Inl _ \<Rightarrow> None | Inr e \<Rightarrow> Some e),
     si_error_type = (case r of Inl e \<Rightarrow> Some (err_name e) | Inr _ \<Rightarrow> None),
     si_error_message = (case r of Inl e \<Rightarrow> Some (err_text e) | Inr _ \<Rightarrow> None)\<rparr>"

fun batch_items :: "'c client \<Rightarrow> int \<Rightarrow> shadow_request list \<Rightarrow> 'c \<Rightarrow> shadow_item list res \<times> 'c" where
  "batch_items submit n [] c = (Inr [], c)"
| "batch_items submit n (q # qs) c =
     (case submit (bq_intent q) (bq_market_condition_id q) (bq_tokens q) (bq_post_only q) c of (r, c1) \<Rightarrow>
      let record_and_go_on =
        checkS (shadow_item_post_init (item_of n q r)) c1 (\<lambda>item.
        thenS (batch_items submit (n + 1) qs c1) (\<lambda>items c2. (Inr (item # items), c2))) in
      case r of
        Inl e \<Rightarrow> if caught e then record_and_go_on else (Inl e, c1)
      | Inr _ \<Rightarrow> record_and_go_on)"

definition run_shadow_batch :: "hasher \<Rightarrow> 'c client \<Rightarrow> shadow_request list \<Rightarrow> string \<Rightarrow> 'c \<Rightarrow> batch_artifact res \<times> 'c" where
  "run_shadow_batch sha submit requests run_id0 c =
     checkS (nonempty run_id0 ''run_id'') c (\<lambda>run_id.
     failS (\<not> distinct (map (\<lambda>q. oi_intent_id (bq_intent q)) requests)) (ValueError ''duplicate intent_id in batch'') c (
     thenS (batch_items submit 0 requests c) (\<lambda>items c1.
     (build_batch_artifact sha run_id items, c1))))"

section \<open>One strategy candidate\<close>

definition STRATEGY_SHADOW_RUN_SCHEMA_V1 :: string where
  "STRATEGY_SHADOW_RUN_SCHEMA_V1 = ''strategy_shadow_run_artifact_v1''"

definition STRATEGY_SHADOW_RUNNER_VERSION_V1 :: string where
  "STRATEGY_SHADOW_RUNNER_VERSION_V1 = ''strategy_shadow_run_v1''"

text \<open>This module's \<open>_nonempty\<close> checks without stripping.\<close>

definition checked_text :: "string \<Rightarrow> string \<Rightarrow> string res" where
  "checked_text v name = raise_if (py_strip v = []) (ValueError (name @ '' must be a non-empty string'')) (Inr v)"

record run_artifact =
  sr_run_id :: string
  sr_status :: string
  sr_candidate_hash :: string
  sr_risk_policy_version :: string
  sr_portfolio_hash :: string
  sr_risk_limits_hash :: string
  sr_risk_context_hash :: string
  sr_risk_assessment :: assessment
  sr_order_intent :: "order_intent option"
  sr_shadow_run_id :: "string option"
  sr_shadow_artifact :: "batch_artifact option"
  sr_artifact_hash :: string
  sr_runner_version :: string
  sr_mode :: string
  sr_protocol_version :: string
  sr_clodds_commit :: string
  sr_mapping_version :: string
  sr_schema_version :: string

definition run_artifact_verdict :: "run_artifact \<Rightarrow> run_artifact res" where
  "run_artifact_verdict r =
     (if sr_status r = ''RISK_REJECTED'' then
        raise_if (sr_order_intent r \<noteq> None) (ValueError ''RISK_REJECTED cannot contain OrderIntent'') (
        raise_if (sr_shadow_run_id r \<noteq> None) (ValueError ''RISK_REJECTED cannot contain shadow_run_id'') (
        raise_if (sr_shadow_artifact r \<noteq> None) (ValueError ''RISK_REJECTED cannot contain shadow artifact'') (Inr r)))
      else
        raise_if (sr_order_intent r = None) (TypeError ''shadow result requires OrderIntent'') (
        case sr_shadow_run_id r of
          None \<Rightarrow> Inl (ValueError ''shadow result requires shadow_run_id'')
        | Some shadow_run_id \<Rightarrow>
        bindE (checked_text shadow_run_id ''shadow_run_id'') (\<lambda>_.
        case sr_shadow_artifact r of
          None \<Rightarrow> Inl (TypeError ''shadow result requires BatchShadowArtifact'')
        | Some b \<Rightarrow>
        raise_if (ba_run_id b \<noteq> shadow_run_id) (ValueError ''shadow run id mismatch'') (
        raise_if (ba_n_total b \<noteq> 1) (ValueError ''strategy shadow v1 requires exactly one shadow item'') (
        raise_if (sr_status r = ''SHADOW_PASS'' \<and> (ba_n_pass b \<noteq> 1 \<or> ba_n_fail b \<noteq> 0))
          (ValueError ''SHADOW_PASS requires one PASS and zero FAIL'') (
        raise_if (sr_status r = ''SHADOW_FAIL'' \<and> (ba_n_pass b \<noteq> 0 \<or> ba_n_fail b \<noteq> 1))
          (ValueError ''SHADOW_FAIL requires zero PASS and one FAIL'') (Inr r)))))))"

definition run_artifact_post_init :: "run_artifact \<Rightarrow> run_artifact res" where
  "run_artifact_post_init r =
     bindE (checked_text (sr_run_id r) ''run_id'') (\<lambda>_.
     bindE (checked_text (sr_candidate_hash r) ''candidate_hash'') (\<lambda>_.
     bindE (checked_text (sr_risk_policy_version r) ''risk_policy_version'') (\<lambda>_.
     bindE (checked_text (sr_portfolio_hash r) ''portfolio_hash'') (\<lambda>_.
     bindE (checked_text (sr_risk_limits_hash r) ''risk_limits_hash'') (\<lambda>_.
     bindE (checked_text (sr_risk_context_hash r) ''risk_context_hash'') (\<lambda>_.
     bindE (checked_text (sr_artifact_hash r) ''artifact_hash'') (\<lambda>_.
     raise_if (sr_status r \<notin> {''RISK_REJECTED'', ''SHADOW_PASS'', ''SHADOW_FAIL''})
       (ValueError ''unsupported strategy shadow status'') (
     let a = sr_risk_assessment r in
     raise_if (sr_candidate_hash r \<noteq> ra_candidate_hash a) (ValueError ''candidate hash mismatch'') (
     raise_if (sr_risk_policy_version r \<noteq> ra_risk_policy_version a) (ValueError ''risk policy version mismatch'') (
     raise_if (sr_portfolio_hash r \<noteq> ra_portfolio_hash a) (ValueError ''portfolio hash mismatch'') (
     raise_if (sr_risk_limits_hash r \<noteq> ra_risk_limits_hash a) (ValueError ''risk limits hash mismatch'') (
     raise_if (sr_risk_context_hash r \<noteq> ra_risk_context_hash a) (ValueError ''risk context hash mismatch'') (
     raise_if (sr_runner_version r \<noteq> STRATEGY_SHADOW_RUNNER_VERSION_V1) (ValueError ''unsupported runner_version'') (
     raise_if (sr_mode r \<noteq> ''SHADOW'') (ValueError ''strategy shadow mode must be SHADOW'') (
     raise_if (sr_protocol_version r \<noteq> CLODDS_SHADOW_PROTOCOL_V1) (ValueError ''unsupported shadow protocol'') (
     raise_if (sr_clodds_commit r \<noteq> AUDITED_CLODDS_COMMIT_V1) (ValueError ''unsupported audited Clodds commit'') (
     raise_if (sr_mapping_version r \<noteq> CLODDS_MAPPING_VERSION_V1) (ValueError ''unsupported mapping version'') (
     raise_if (sr_schema_version r \<noteq> STRATEGY_SHADOW_RUN_SCHEMA_V1) (ValueError ''unsupported schema_version'') (
     run_artifact_verdict r)))))))))))))))))))"

fun decision_value :: "risk_decision \<Rightarrow> string" where
  "decision_value ALLOW = ''ALLOW''"
| "decision_value REJECT = ''REJECT''"

text \<open>\<open>_jsonable\<close> of the data classes an artifact holds.\<close>

definition risk_result_json :: "risk_result \<Rightarrow> json" where
  "risk_result_json r = JObj
     [(''decision'', JStr (decision_value (rr_decision r))), (''reasons'', JList (map JStr (rr_reasons r))),
      (''order_notional'', JFloat (rr_order_notional r)), (''cash_required'', JFloat (rr_cash_required r)),
      (''market_exposure_before'', JFloat (rr_market_exposure_before r)),
      (''market_exposure_after'', JFloat (rr_market_exposure_after r)),
      (''gross_exposure_before'', JFloat (rr_gross_exposure_before r)),
      (''gross_exposure_after'', JFloat (rr_gross_exposure_after r))]"

definition assessment_json :: "assessment \<Rightarrow> json" where
  "assessment_json a = JObj
     [(''candidate_hash'', JStr (ra_candidate_hash a)), (''risk_policy_version'', JStr (ra_risk_policy_version a)),
      (''risk_limits_hash'', JStr (ra_risk_limits_hash a)), (''portfolio_hash'', JStr (ra_portfolio_hash a)),
      (''risk_context_hash'', JStr (ra_risk_context_hash a)), (''risk'', risk_result_json (ra_risk a)),
      (''schema_version'', JStr (ra_schema_version a))]"

definition run_payload :: "run_artifact \<Rightarrow> json" where
  "run_payload r = JObj
     [(''status'', JStr (sr_status r)), (''candidate_hash'', JStr (sr_candidate_hash r)),
      (''risk_policy_version'', JStr (sr_risk_policy_version r)), (''portfolio_hash'', JStr (sr_portfolio_hash r)),
      (''risk_limits_hash'', JStr (sr_risk_limits_hash r)), (''risk_context_hash'', JStr (sr_risk_context_hash r)),
      (''risk_assessment'', assessment_json (sr_risk_assessment r)),
      (''order_intent'', opt_json intent_to_dict (sr_order_intent r)),
      (''shadow_artifact'', opt_json (\<lambda>b. JObj
        [(''artifact_hash'', JStr (ba_artifact_hash b)), (''n_total'', JInt (ba_n_total b)), (''n_pass'', JInt (ba_n_pass b)),
         (''n_fail'', JInt (ba_n_fail b)), (''runner_version'', JStr (ba_runner_version b)), (''mode'', JStr (ba_mode b)),
         (''protocol_version'', JStr (ba_protocol_version b)), (''clodds_commit'', JStr (ba_clodds_commit b)),
         (''mapping_version'', JStr (ba_mapping_version b)), (''schema_version'', JStr (ba_schema_version b))])
        (sr_shadow_artifact r)),
      (''runner_version'', JStr (sr_runner_version r)), (''mode'', JStr (sr_mode r)),
      (''protocol_version'', JStr (sr_protocol_version r)), (''clodds_commit'', JStr (sr_clodds_commit r)),
      (''mapping_version'', JStr (sr_mapping_version r)), (''schema_version'', JStr (sr_schema_version r))]"

definition strategy_shadow_run_artifact_hash :: "hasher \<Rightarrow> run_artifact \<Rightarrow> string" where
  "strategy_shadow_run_artifact_hash sha r = sha256_json sha (run_payload r)"

definition run_draft ::
  "string \<Rightarrow> string \<Rightarrow> assessment \<Rightarrow> (order_intent \<times> string \<times> batch_artifact) option \<Rightarrow> string \<Rightarrow> run_artifact" where
  "run_draft run_id status a outcome h =
     \<lparr>sr_run_id = run_id, sr_status = status, sr_candidate_hash = ra_candidate_hash a,
      sr_risk_policy_version = ra_risk_policy_version a, sr_portfolio_hash = ra_portfolio_hash a,
      sr_risk_limits_hash = ra_risk_limits_hash a, sr_risk_context_hash = ra_risk_context_hash a,
      sr_risk_assessment = a, sr_order_intent = map_option fst outcome,
      sr_shadow_run_id = map_option (fst \<circ> snd) outcome, sr_shadow_artifact = map_option (snd \<circ> snd) outcome,
      sr_artifact_hash = h, sr_runner_version = STRATEGY_SHADOW_RUNNER_VERSION_V1, sr_mode = ''SHADOW'',
      sr_protocol_version = CLODDS_SHADOW_PROTOCOL_V1, sr_clodds_commit = AUDITED_CLODDS_COMMIT_V1,
      sr_mapping_version = CLODDS_MAPPING_VERSION_V1, sr_schema_version = STRATEGY_SHADOW_RUN_SCHEMA_V1\<rparr>"

definition build_run_artifact ::
  "hasher \<Rightarrow> string \<Rightarrow> string \<Rightarrow> assessment \<Rightarrow> (order_intent \<times> string \<times> batch_artifact) option \<Rightarrow> run_artifact res" where
  "build_run_artifact sha run_id status a outcome =
     bindE (run_artifact_post_init (run_draft run_id status a outcome ''PENDING'')) (\<lambda>provisional.
     run_artifact_post_init (provisional\<lparr>sr_artifact_hash := strategy_shadow_run_artifact_hash sha provisional\<rparr>))"

definition run_strategy_shadow ::
  "hasher \<Rightarrow> 'c client \<Rightarrow> candidate \<Rightarrow> portfolio \<Rightarrow> risk_limits \<Rightarrow> risk_context \<Rightarrow> string \<Rightarrow> (string \<times> string) list \<Rightarrow> bool \<Rightarrow>
    string \<Rightarrow> string \<Rightarrow> 'c \<Rightarrow> run_artifact res \<times> 'c" where
  "run_strategy_shadow sha submit candidate p limits context market_condition_id tokens post_only run_id shadow_run_id c =
     checkS (checked_text run_id ''run_id'') c (\<lambda>_.
     checkS (checked_text shadow_run_id ''shadow_run_id'') c (\<lambda>_.
     checkS (assess_strategy_candidate sha candidate p limits context) c (\<lambda>a.
     if \<not> rr_allowed (ra_risk a) then (build_run_artifact sha run_id ''RISK_REJECTED'' a None, c)
     else
       checkS (build_order_intent sha candidate a p limits context) c (\<lambda>intent.
       checkS (shadow_request_post_init \<lparr>bq_intent = intent, bq_market_condition_id = market_condition_id,
          bq_tokens = tokens, bq_post_only = post_only\<rparr>) c (\<lambda>request.
       thenS (run_shadow_batch sha submit [request] shadow_run_id c) (\<lambda>shadow c1.
       let status = (if ba_n_pass shadow = 1 \<and> ba_n_fail shadow = 0 then ''SHADOW_PASS'' else ''SHADOW_FAIL'') in
       (build_run_artifact sha run_id status a (Some (intent, shadow_run_id, shadow)), c1)))))))"

end
