(* ===== verification/ShadowRunLaws.thy ===== *)
theory ShadowRunLaws
  imports ShadowRun
begin

text \<open>
  The contracts between the runner, the client and the transport as locales: a transport answers or raises an
  error that says why; a client over such a transport answers for the intent it was given or raises an error
  the runner catches; a batch over such a client always ends in an artifact, one item for each request.
\<close>

section \<open>Errors that say why\<close>

text \<open>A text with a character that is part of no whitespace is not blank.\<close>

definition worded :: "string \<Rightarrow> bool" where
  "worded s \<longleftrightarrow> list_ex (\<lambda>c. c \<notin> set (concat ws_tokens)) s"

lemma worded_not_blank: "worded s \<Longrightarrow> py_strip s \<noteq> []"
proof -
  assume "worded s"
  then obtain c where c: "c \<in> set s" "c \<notin> set (concat ws_tokens)"
    by (auto simp: worded_def list_ex_iff)
  then have "c \<in> set (py_strip s)"
    by (intro py_strip_keeps) auto
  then show "py_strip s \<noteq> []" by auto
qed

lemma worded_append: "worded (s @ t) \<longleftrightarrow> worded s \<or> worded t"
  by (auto simp: worded_def)

definition plain :: "pyerr \<Rightarrow> bool" where
  "plain e \<longleftrightarrow> caught e \<and> worded (err_text e)"

lemma plain_errors:
  "worded m \<Longrightarrow> plain (MarketIdentifierError m)" "worded m \<Longrightarrow> plain (CloddsMappingError m)"
  "worded m \<Longrightarrow> plain (CloddsShadowClientError m)" "worded m \<Longrightarrow> plain (JsonlProcessTransportError m)"
  by (simp_all add: plain_def)

lemma worded_letter [simp]:
  assumes "65 \<le> (of_char c :: nat)" "(of_char c :: nat) \<le> 122"
  shows "worded (c # s)"
proof -
  have "list_all (\<lambda>d. (of_char d :: nat) < 65 \<or> 122 < (of_char d :: nat)) (concat ws_tokens)"
    by code_simp
  moreover have "\<not> ((of_char c :: nat) < 65 \<or> 122 < (of_char c :: nat))"
    using assms by simp
  ultimately have "c \<notin> set (concat ws_tokens)"
    unfolding list_all_iff by blast
  then show ?thesis by (simp add: worded_def)
qed

lemma worded_Cons: "worded s \<Longrightarrow> worded (c # s)"
  by (simp add: worded_def)

lemma resolve_error_plain: "resolve_token_id c u m ts = Inl e \<Longrightarrow> plain e"
proof -
  have "worded '' must be a non-empty string''"
    by (rule worded_Cons) simp
  then have req: "require_nonempty_string v n = Inl e \<Longrightarrow> plain e" for v n
    by (auto simp: require_nonempty_string_def err_simps worded_append intro!: plain_errors)
  have loop: "outcome_tokens ps d seen = Inl e \<Longrightarrow> plain e" for ps d seen
    by (induction ps d seen rule: outcome_tokens.induct)
      (auto simp: err_simps dest: req intro!: plain_errors)
  show "resolve_token_id c u m ts = Inl e \<Longrightarrow> plain e"
    by (auto simp: resolve_token_id_def err_simps dest: req loop intro!: plain_errors
        split: option.splits)
qed

lemma build_error_plain: "build_shadow_request i t p = Inl e \<Longrightarrow> plain e"
proof -
  assume a: "build_shadow_request i t p = Inl e"
  have "reject_forbidden_keys (JObj (request_of i t p)) = Inr ()"
    using request_no_controls by (simp only: reject_forbidden_Inr)
  then have "map_order_intent_to_clodds_request i (JStr t) (JBool p) = Inl e"
    using a unfolding build_shadow_request_def err_simps map_order_intent_Inr Let_def request_of_def [symmetric]
    by (auto simp: request_of_def simp del: reject_forbidden_keys.simps)
  then show "plain e"
    by (auto simp: map_order_intent_to_clodds_request_def err_simps intro!: plain_errors)
qed

lemma decode_error_plain: "decode_response i r = Inl e \<Longrightarrow> plain e"
proof -
  have wrap: "wrap_error CloddsShadowClientError ''invalid OrderEvent: '' (event_from_dict f) = Inl e \<Longrightarrow> plain e" for f
  proof -
    assume "wrap_error CloddsShadowClientError ''invalid OrderEvent: '' (event_from_dict f) = Inl e"
    then obtain e0 where e0: "event_from_dict f = Inl e0"
      "e = (if is_type_error e0 \<or> is_value_error e0 then CloddsShadowClientError (''invalid OrderEvent: '' @ err_text e0) else e0)"
      by (cases "event_from_dict f") (auto simp: wrap_error_def)
    have g: "get_str f k = Inl e0 \<Longrightarrow> is_type_error e0" "get_float f k = Inl e0 \<Longrightarrow> is_type_error e0"
      "get_opt_str f k = Inl e0 \<Longrightarrow> is_type_error e0" "get_opt_float f k = Inl e0 \<Longrightarrow> is_type_error e0"
      "get_str_default f k v = Inl e0 \<Longrightarrow> is_type_error e0" "get_float_default f k x = Inl e0 \<Longrightarrow> is_type_error e0" for k v x
      by (auto simp: getters split: option.splits json.splits)
    have n: "nonempty v k = Inl e0 \<Longrightarrow> is_value_error e0" "nonnegative x k = Inl e0 \<Longrightarrow> is_value_error e0"
      "positive x k = Inl e0 \<Longrightarrow> is_value_error e0" for v k x
      by (auto simp: nonempty_def nonnegative_def positive_def Let_def split: if_splits)
    have o: "opt_check (\<lambda>x. nonnegative x k) w = Inl e0 \<Longrightarrow> is_value_error e0"
      "opt_check (\<lambda>x. positive x k) w = Inl e0 \<Longrightarrow> is_value_error e0" for k w
      by (auto simp: opt_check_def err_simps dest: n split: option.splits)
    have pi: "order_event_post_init raw = Inl e0 \<Longrightarrow> is_value_error e0" for raw
      unfolding order_event_post_init_def
      by (cases "parse_event_type (oe_event_type raw)") (auto simp: err_simps dest: n o)
    then have "is_type_error e0 \<or> is_value_error e0"
      using e0(1) unfolding event_from_dict_def err_simps by (elim disjE exE conjE) (auto dest: g pi)
    then show "plain e"
      by (simp add: e0(2) plain_errors)
  qed
  show "decode_response i r = Inl e \<Longrightarrow> plain e"
    by (cases r) (auto simp: decode_response_def err_simps dest: wrap intro!: plain_errors
        split: option.splits json.splits)
qed

section \<open>Transport and client as interfaces\<close>

locale shadow_transport =
  fixes transport :: "'t transport" and healthy :: "'t \<Rightarrow> bool"
  assumes healthy_step: "healthy t \<Longrightarrow> transport q t = (r, t') \<Longrightarrow> healthy t'"
    and transport_error: "healthy t \<Longrightarrow> transport q t = (Inl e, t') \<Longrightarrow> plain e"

locale shadow_client =
  fixes submit :: "'c client" and ready :: "'c \<Rightarrow> bool"
  assumes ready_step: "ready c \<Longrightarrow> submit i m ts p c = (r, c') \<Longrightarrow> ready c'"
    and submit_error: "ready c \<Longrightarrow> submit i m ts p c = (Inl e, c') \<Longrightarrow> plain e"
    and submit_event: "submit i m ts p c = (Inr ev, c') \<Longrightarrow> valid_event ev \<and> oe_intent_id ev = oi_intent_id i"

sublocale shadow_transport \<subseteq> shadow_client "client_submit transport" healthy
proof
  fix c i m ts p r c' e ev
  show "healthy c \<Longrightarrow> client_submit transport i m ts p c = (r, c') \<Longrightarrow> healthy c'"
    by (cases r) (auto simp: client_submit_def err_simps dest: healthy_step)
  show "healthy c \<Longrightarrow> client_submit transport i m ts p c = (Inl e, c') \<Longrightarrow> plain e"
    by (auto simp: client_submit_def err_simps dest: resolve_error_plain build_error_plain decode_error_plain transport_error)
  show "client_submit transport i m ts p c = (Inr ev, c') \<Longrightarrow> valid_event ev \<and> oe_intent_id ev = oi_intent_id i"
    by (auto simp: client_submit_def err_simps dest: decoded_event)
qed

text \<open>The process transport: a child that \<open>kill\<close> can always reap.\<close>

definition reaped :: "(json \<Rightarrow> observations) list \<times> jsonl_transport \<Rightarrow> bool" where
  "reaped s \<longleftrightarrow> (\<forall>ob\<in>set (fst s). \<forall>q. ob_reaped (ob q) \<noteq> None)"

lemma transport_submit_error:
  "ob_reaped ob \<noteq> None \<Longrightarrow> transport_submit ob t = (Inl e, t') \<Longrightarrow> plain e"
  by (auto simp: transport_submit_def err_simps Let_def terminate_fail_closed_def terminated_message_def thenS_def intro!: plain_errors
      split: option.splits if_splits child_line.splits json.splits prod.splits sum.splits)

interpretation pt: shadow_transport process_transport reaped
proof
  fix t q r t' e
  show "reaped t \<Longrightarrow> process_transport q t = (r, t') \<Longrightarrow> reaped t'"
    by (cases t; cases "fst t") (auto simp: process_transport_def reaped_def split: prod.splits)
  show "reaped t \<Longrightarrow> process_transport q t = (Inl e, t') \<Longrightarrow> plain e"
    by (cases t; cases "fst t")
      (auto simp: process_transport_def reaped_def gone_def split: prod.splits dest!: transport_submit_error [rotated])
qed

text \<open>The reference sidecar as the child of a process transport: it always answers.\<close>

definition sidecar_child :: "pyfloat \<Rightarrow> json \<Rightarrow> observations" where
  "sidecar_child ts request = \<lparr>ob_poll = None, ob_write_error = None, ob_ready = True,
     ob_line = (case sidecar_response (Some request) [] ts of Inl _ \<Rightarrow> EndOfStream | Inr r \<Rightarrow> Decoded (sort_json r)),
     ob_exit = Some 1, ob_stderr = None, ob_reaped = Some 0\<rparr>"

definition running :: "jsonl_transport \<Rightarrow> bool" where
  "running t \<longleftrightarrow> \<not> jt_closed t \<and> jt_code t = None"

lemma sidecar_answers:
  assumes "wf_intent i" "mappable i t p" "isfinite ts" "fle (Fin 0) ts" "running tr"
  shows "process_transport (JObj (request_of i t p)) (sidecar_child ts # obs, tr) =
     (Inr (sort_json (JObj (response_of i (ack_event i ts)))), obs, tr)"
proof -
  have v: "valid_intent i"
    using assms(1) by (simp add: wf_intent_def)
  have a: "make_shadow_ack (sort_json (JObj (request_of i t p))) ts = Inr (JObj (response_of i (ack_event i ts)))"
    by (rule make_ack_Inr [OF sorted_request_validates [OF assms(1,2)] v assms(3,4)])
  obtain d where d: "sort_json (JObj (response_of i (ack_event i ts))) = JObj d"
    using sort_json_JObj by blast
  show ?thesis
    using assms(5) by (simp add: process_transport_def transport_submit_def sidecar_child_def sidecar_response_def a d
        poll_with_def running_def del: sort_json.simps)
qed

lemma sidecar_acknowledges_submission:
  assumes "wf_intent i" "resolve_token_id (oi_condition_id i) (oi_outcome i) m ts = Inr t"
    "\<not> (oi_time_in_force i \<in> {IOC, FOK} \<and> p)" "isfinite now" "fle (Fin 0) now" "running tr"
  shows "client_submit process_transport i m ts p (sidecar_child now # obs, tr) = (Inr (ack_event i now), obs, tr)"
proof -
  have map: "mappable i t p"
    using assms(2,3) by (simp add: mappable_def built_token_nonblank)
  then have b: "build_shadow_request i t p = Inr (JObj (request_of i t p))"
    by (simp add: build_Inr)
  have v: "valid_intent i"
    using assms(1) by (simp add: wf_intent_def)
  have d: "decode_response i (sort_json (JObj (response_of i (ack_event i now)))) = Inr (ack_event i now)"
    by (rule response_decodes [OF ack_event_valid [OF v assms(4,5)]]) (simp_all add: ack_event_def)
  show ?thesis
    by (simp add: client_submit_def assms(2) b sidecar_answers [OF assms(1) map assms(4-6)] d del: sort_json.simps)
qed

section \<open>Items and artifacts\<close>

text \<open>The item the constructor makes of a result: the text of an error is stripped.\<close>

definition kept_item :: "int \<Rightarrow> shadow_request \<Rightarrow> order_event res \<Rightarrow> shadow_item" where
  "kept_item n q r = (item_of n q r)\<lparr>si_error_message := map_option py_strip (si_error_message (item_of n q r))\<rparr>"

lemma err_name_text: "caught e \<Longrightarrow> valid_text (err_name e)"
proof -
  have "valid_text ''ValueError''" "valid_text ''MarketIdentifierError''" "valid_text ''CloddsMappingError''"
    "valid_text ''CloddsShadowProtocolError''" "valid_text ''CloddsShadowClientError''"
    "valid_text ''JsonlProcessTransportError''"
    by code_simp+
  then show "caught e \<Longrightarrow> valid_text (err_name e)" by (cases e) simp_all
qed

lemma item_kept:
  assumes "0 \<le> n" "valid_intent (bq_intent q)" "case r of Inl e \<Rightarrow> plain e | Inr _ \<Rightarrow> True"
  shows "shadow_item_post_init (item_of n q r) = Inr (kept_item n q r)"
proof -
  have t: "valid_text (oi_intent_id (bq_intent q))" "valid_text (oi_condition_id (bq_intent q))"
    using assms(2) by (simp_all add: valid_intent_def)
  show ?thesis
  proof (cases r)
    case (Inl e)
    then have e: "valid_text (err_name e)" "py_strip (err_text e) \<noteq> []"
      using assms(3) by (simp_all add: plain_def err_name_text worded_not_blank)
    then have "nonempty (err_text e) ''error_message'' = Inr (py_strip (err_text e))"
      by (simp add: nonempty_def)
    with Inl t e assms(1) show ?thesis
      by (simp add: shadow_item_post_init_def item_of_def kept_item_def validators_ok str_opt_def)
  next
    case (Inr ev)
    with t assms(1) show ?thesis
      by (simp add: shadow_item_post_init_def item_of_def kept_item_def validators_ok)
  qed
qed

lemma kept_status [simp]:
  "si_status (kept_item n q r) = (case r of Inl _ \<Rightarrow> ''FAIL'' | Inr _ \<Rightarrow> ''PASS'')"
  by (simp add: kept_item_def item_of_def)

definition two_valued :: "shadow_item list \<Rightarrow> bool" where
  "two_valued items \<longleftrightarrow> list_all (\<lambda>s. si_status s = ''PASS'' \<or> si_status s = ''FAIL'') items"

lemma counts_add_up: "two_valued items \<Longrightarrow> count_status ''FAIL'' items = int (length items) - count_status ''PASS'' items"
  by (induction items) (auto simp: two_valued_def count_status_def)

lemma batch_artifact_built:
  assumes "hex_digest sha" "valid_text run_id" "two_valued items"
  shows "build_batch_artifact sha run_id items =
     Inr (batch_draft run_id items (batch_shadow_artifact_hash sha (batch_draft run_id items ''PENDING'')))"
proof -
  have "valid_text ''PENDING''" by code_simp
  moreover have "valid_text (sha256_json sha j)" for j
    by (simp add: sha256_json_def digest_text [OF assms(1)])
  ultimately show ?thesis
    using assms(2) counts_add_up [OF assms(3)]
    by (simp add: build_batch_artifact_def batch_artifact_post_init_def batch_draft_def validators_ok Let_def
        batch_shadow_artifact_hash_def)
qed

lemma batch_hash_self: "batch_shadow_artifact_hash sha (b\<lparr>ba_artifact_hash := h\<rparr>) = batch_shadow_artifact_hash sha b"
  by (simp add: batch_shadow_artifact_hash_def batch_payload_def)

section \<open>A batch always ends in an artifact\<close>

text \<open>Reference: every request is submitted, in order, whatever became of the ones before it.\<close>

fun submit_all :: "'c client \<Rightarrow> shadow_request list \<Rightarrow> 'c \<Rightarrow> order_event res list \<times> 'c" where
  "submit_all submit [] c = ([], c)"
| "submit_all submit (q # qs) c =
     (case submit (bq_intent q) (bq_market_condition_id q) (bq_tokens q) (bq_post_only q) c of (r, c1) \<Rightarrow>
      case submit_all submit qs c1 of (rs, c2) \<Rightarrow> (r # rs, c2))"

fun kept_items :: "int \<Rightarrow> shadow_request list \<Rightarrow> order_event res list \<Rightarrow> shadow_item list" where
  "kept_items n (q # qs) (r # rs) = kept_item n q r # kept_items (n + 1) qs rs"
| "kept_items n _ _ = []"

lemma kept_items_two_valued: "two_valued (kept_items n qs rs)"
  by (induction n qs rs rule: kept_items.induct) (auto simp: two_valued_def split: sum.splits)

context shadow_client
begin

lemma batch_items_all:
  assumes "ready c" "list_all (\<lambda>q. valid_intent (bq_intent q)) qs" "0 \<le> n" "submit_all submit qs c = (rs, c')"
  shows "batch_items submit n qs c = (Inr (kept_items n qs rs), c')"
  using assms
proof (induction qs arbitrary: c n rs)
  case (Cons q qs)
  obtain r c1 where r: "submit (bq_intent q) (bq_market_condition_id q) (bq_tokens q) (bq_post_only q) c = (r, c1)"
    by fastforce
  then obtain rs1 where rs: "submit_all submit qs c1 = (rs1, c')" "rs = r # rs1"
    using Cons.prems(4) by (auto split: prod.splits)
  have "case r of Inl e \<Rightarrow> plain e | Inr _ \<Rightarrow> True"
    using submit_error [OF Cons.prems(1)] r by (auto split: sum.splits)
  then have "shadow_item_post_init (item_of n q r) = Inr (kept_item n q r)" "case r of Inl e \<Rightarrow> caught e | Inr _ \<Rightarrow> True"
    using Cons.prems by (auto intro!: item_kept simp: plain_def split: sum.splits)
  moreover have "batch_items submit (n + 1) qs c1 = (Inr (kept_items (n + 1) qs rs1), c')"
    by (rule Cons.IH) (use Cons.prems ready_step [OF Cons.prems(1) r] rs in auto)
  ultimately show ?case
    by (cases r) (simp_all add: r rs Let_def)
qed simp

lemma batch_runs:
  assumes "ready c" "hex_digest sha" "py_strip run_id \<noteq> []" "list_all (\<lambda>q. valid_intent (bq_intent q)) qs"
    "distinct (map (\<lambda>q. oi_intent_id (bq_intent q)) qs)" "submit_all submit qs c = (rs, c')"
  shows "run_shadow_batch sha submit qs run_id c =
     (Inr (batch_draft (py_strip run_id) (kept_items 0 qs rs)
        (batch_shadow_artifact_hash sha (batch_draft (py_strip run_id) (kept_items 0 qs rs) ''PENDING''))), c')"
proof -
  have "nonempty run_id ''run_id'' = Inr (py_strip run_id)" "valid_text (py_strip run_id)"
    using assms(3) by (simp_all add: nonempty_def valid_text_def)
  then show ?thesis
    using assms batch_items_all [OF assms(1,4) _ assms(6), of 0] kept_items_two_valued
    by (simp add: run_shadow_batch_def batch_artifact_built)
qed

end

end
