(* ===== verification/ShadowRunProps.thy ===== *)
theory ShadowRunProps
  imports ShadowRunLaws LedgerDemo
begin

text \<open>
  The properties of the shadow path, from the candidate of a strategy to the artifact of its run, with their
  witnesses.
\<close>

section \<open>One run, computed\<close>

definition stripped_pairs :: "(string \<times> string) list \<Rightarrow> (string \<times> string) list" where
  "stripped_pairs tokens = map (\<lambda>(t, u). (py_strip t, py_strip u)) tokens"

lemma request_built:
  assumes "py_strip market \<noteq> []" "nonblank_pairs tokens" "tokens \<noteq> []"
  shows "shadow_request_post_init \<lparr>bq_intent = i, bq_market_condition_id = market, bq_tokens = tokens, bq_post_only = b\<rparr> =
     Inr \<lparr>bq_intent = i, bq_market_condition_id = py_strip market, bq_tokens = stripped_pairs tokens, bq_post_only = b\<rparr>"
proof -
  have "mapE (\<lambda>(token_id, outcome).
      bindE (nonempty token_id ''token_id'') (\<lambda>t. bindE (nonempty outcome ''token_outcome'') (\<lambda>u. Inr (t, u)))) tokens =
    Inr (stripped_pairs tokens)"
    using assms(2) by (induction tokens) (auto simp: stripped_pairs_def nonblank_pairs_def nonempty_def)
  then show ?thesis
    using assms(1,3) by (simp add: shadow_request_post_init_def nonempty_def stripped_pairs_def)
qed

lemma checked_text_ok: "py_strip v \<noteq> [] \<Longrightarrow> checked_text v n = Inr v"
  by (simp add: checked_text_def)

lemma valid_text_nonblank: "valid_text v \<Longrightarrow> py_strip v \<noteq> []"
  by (simp add: valid_text_def)

definition assessed :: "hasher \<Rightarrow> candidate \<Rightarrow> portfolio \<Rightarrow> risk_limits \<Rightarrow> risk_context \<Rightarrow> risk_result \<Rightarrow> assessment" where
  "assessed sha c p l x r =
     \<lparr>ra_candidate_hash = strategy_candidate_hash sha c, ra_risk_policy_version = sc_risk_policy_version c,
      ra_risk_limits_hash = risk_limits_hash sha l, ra_portfolio_hash = portfolio_state_hash sha p,
      ra_risk_context_hash = risk_context_hash sha x, ra_risk = r,
      ra_schema_version = STRATEGY_RISK_ASSESSMENT_SCHEMA_V1\<rparr>"

lemma run_artifact_built:
  assumes "hex_digest sha" "py_strip run_id \<noteq> []" "valid_candidate c"
    and "status \<in> {''RISK_REJECTED'', ''SHADOW_PASS'', ''SHADOW_FAIL''}"
    and "\<And>h. run_artifact_verdict (run_draft run_id status (assessed sha c p l x r) outcome h) = v h"
    and "\<And>h. v h = Inr (run_draft run_id status (assessed sha c p l x r) outcome h) \<or> v h = Inl err"
  shows "build_run_artifact sha run_id status (assessed sha c p l x r) outcome =
     bindE (v ''PENDING'') (\<lambda>d. v (strategy_shadow_run_artifact_hash sha d))"
proof -
  let ?d = "run_draft run_id status (assessed sha c p l x r) outcome"
  have "valid_text (sc_risk_policy_version c)" "valid_text ''PENDING''"
    using assms(3) by (simp_all add: valid_candidate_def) code_simp
  moreover have t: "valid_text (sha256_json sha j)" for j
    by (simp add: sha256_json_def digest_text [OF assms(1)])
  ultimately have post: "run_artifact_post_init (?d h) = v h" if "valid_text h" for h
    using assms(2,4) that by (simp add: run_artifact_post_init_def run_draft_def assessed_def Let_def checked_text_ok
        valid_text_nonblank strategy_candidate_hash_def risk_limits_hash_def portfolio_state_hash_def
        risk_context_hash_def flip: assms(5))
  moreover have "(?d h)\<lparr>sr_artifact_hash := g\<rparr> = ?d g" for g h
    by (simp add: run_draft_def)
  moreover have "valid_text (strategy_shadow_run_artifact_hash sha d)" for d
    by (simp add: strategy_shadow_run_artifact_hash_def t)
  ultimately show ?thesis
    using assms(6) [of "''PENDING''"] \<open>valid_text ''PENDING''\<close>
    by (auto simp: build_run_artifact_def)
qed

definition run_final ::
  "hasher \<Rightarrow> string \<Rightarrow> string \<Rightarrow> assessment \<Rightarrow> (order_intent \<times> string \<times> batch_artifact) option \<Rightarrow> run_artifact" where
  "run_final sha run_id status a outcome =
     run_draft run_id status a outcome (strategy_shadow_run_artifact_hash sha (run_draft run_id status a outcome ''PENDING''))"

lemma run_final_fields [simp]:
  "sr_status (run_final sha run_id status a outcome) = status"
  "sr_risk_assessment (run_final sha run_id status a outcome) = a"
  "sr_order_intent (run_final sha run_id status a outcome) = map_option fst outcome"
  "sr_shadow_artifact (run_final sha run_id status a outcome) = map_option (snd \<circ> snd) outcome"
  by (simp_all add: run_final_def run_draft_def)

lemma run_final_hash:
  "sr_artifact_hash (run_final sha run_id status a outcome) =
     strategy_shadow_run_artifact_hash sha (run_final sha run_id status a outcome)"
  by (simp add: run_final_def run_draft_def strategy_shadow_run_artifact_hash_def run_payload_def)

text \<open>The batch of one request that ended in \<open>r\<close>.\<close>

definition one_batch :: "hasher \<Rightarrow> string \<Rightarrow> shadow_request \<Rightarrow> order_event res \<Rightarrow> batch_artifact" where
  "one_batch sha run_id q r =
     batch_draft run_id [kept_item 0 q r] (batch_shadow_artifact_hash sha (batch_draft run_id [kept_item 0 q r] ''PENDING''))"

lemma one_batch_fields [simp]:
  "ba_run_id (one_batch sha run_id q r) = run_id" "ba_n_total (one_batch sha run_id q r) = 1"
  "ba_n_pass (one_batch sha run_id q r) = (case r of Inl _ \<Rightarrow> 0 | Inr _ \<Rightarrow> 1)"
  "ba_n_fail (one_batch sha run_id q r) = (case r of Inl _ \<Rightarrow> 1 | Inr _ \<Rightarrow> 0)"
  "ba_items (one_batch sha run_id q r) = [kept_item 0 q r]"
  by (cases r; simp add: one_batch_def batch_draft_def Let_def count_status_def)+

definition verdict_of :: "order_event res \<Rightarrow> string" where
  "verdict_of r = (case r of Inl _ \<Rightarrow> ''SHADOW_FAIL'' | Inr _ \<Rightarrow> ''SHADOW_PASS'')"

lemma rejected_artifact:
  assumes "hex_digest sha" "py_strip run_id \<noteq> []" "valid_candidate c"
  shows "build_run_artifact sha run_id ''RISK_REJECTED'' (assessed sha c p l x r) None =
     Inr (run_final sha run_id ''RISK_REJECTED'' (assessed sha c p l x r) None)"
  by (subst run_artifact_built [OF assms, where v = "\<lambda>h. Inr (run_draft run_id ''RISK_REJECTED'' (assessed sha c p l x r) None h)"])
    (simp_all add: run_artifact_verdict_def run_final_def, simp_all add: run_draft_def)

lemma submitted_artifact:
  assumes "hex_digest sha" "py_strip run_id \<noteq> []" "valid_candidate c" "py_strip srid \<noteq> []"
  shows "build_run_artifact sha run_id (verdict_of res) (assessed sha c p l x r) (Some (i, srid, one_batch sha bid q res)) =
     (if bid = srid then Inr (run_final sha run_id (verdict_of res) (assessed sha c p l x r) (Some (i, srid, one_batch sha bid q res)))
      else Inl (ValueError ''shadow run id mismatch''))"
proof -
  let ?d = "run_draft run_id (verdict_of res) (assessed sha c p l x r) (Some (i, srid, one_batch sha bid q res))"
  let ?v = "\<lambda>h. if bid = srid then Inr (?d h) else Inl (ValueError ''shadow run id mismatch'')"
  have "run_artifact_verdict (?d h) = ?v h" for h
    using assms(4) by (cases res) (simp_all add: run_artifact_verdict_def verdict_of_def run_draft_def checked_text_ok)
  moreover have "verdict_of res \<in> {''RISK_REJECTED'', ''SHADOW_PASS'', ''SHADOW_FAIL''}"
    by (cases res) (simp_all add: verdict_of_def)
  ultimately show ?thesis
    by (subst run_artifact_built [OF assms(1-3), where v = ?v and err = "ValueError ''shadow run id mismatch''"])
      (simp_all add: run_final_def)
qed

text \<open>What the caller hands over is usable: texts that are not blank and a context that matches.\<close>

definition usable ::
  "candidate \<Rightarrow> risk_context \<Rightarrow> string \<Rightarrow> (string \<times> string) list \<Rightarrow> string \<Rightarrow> string \<Rightarrow> bool" where
  "usable c x market tokens run_id srid \<longleftrightarrow>
     feq (now_ts_ms x) (sc_decision_ts_ms c) \<and> feq (market_data_ts_ms x) (sc_market_data_ts_ms c) \<and>
     py_strip market \<noteq> [] \<and> nonblank_pairs tokens \<and> tokens \<noteq> [] \<and> py_strip run_id \<noteq> [] \<and> py_strip srid \<noteq> []"

context shadow_client
begin

lemma run_rejected:
  assumes "hex_digest sha" "valid_candidate cand" "usable cand x market tokens run_id srid"
    "evaluate_order_risk p (risk_view cand) l x = Inr r" "\<not> rr_allowed r"
  shows "run_strategy_shadow sha submit cand p l x market tokens po run_id srid c =
     (Inr (run_final sha run_id ''RISK_REJECTED'' (assessed sha cand p l x r) None), c)"
proof -
  have a: "assess_strategy_candidate sha cand p l x = Inr (assessed sha cand p l x r)"
    using assms(3,4) by (simp add: assess_Inr [OF assms(1,2)] assessed_def usable_def)
  have "ra_risk (assessed sha cand p l x r) = r"
    by (simp add: assessed_def)
  then show ?thesis
    using assms(3,5) rejected_artifact [OF assms(1) _ assms(2)]
    by (simp add: run_strategy_shadow_def usable_def checked_text_ok a)
qed

lemma run_submitted:
  assumes "hex_digest sha" "valid_candidate cand" "usable cand x market tokens run_id srid" "ready c"
    "evaluate_order_risk p (risk_view cand) l x = Inr r" "rr_allowed r"
    "submit (intent_of cand) (py_strip market) (stripped_pairs tokens) po c = (res, c')"
    "q = \<lparr>bq_intent = intent_of cand, bq_market_condition_id = py_strip market, bq_tokens = stripped_pairs tokens, bq_post_only = po\<rparr>"
  shows "run_strategy_shadow sha submit cand p l x market tokens po run_id srid c =
     (if py_strip srid = srid
      then Inr (run_final sha run_id (verdict_of res) (assessed sha cand p l x r)
        (Some (intent_of cand, srid, one_batch sha (py_strip srid) q res)))
      else Inl (ValueError ''shadow run id mismatch''), c')"
proof -
  let ?a = "assessed sha cand p l x r"
  have a: "assess_strategy_candidate sha cand p l x = Inr ?a" "ra_risk ?a = r"
    using assms(3,5) by (simp_all add: assess_Inr [OF assms(1,2)] assessed_def usable_def)
  have b: "build_order_intent sha cand ?a p l x = Inr (intent_of cand)"
    using assms(6) by (simp add: build_Inr_iff [OF assms(2)] assessed_def)
  have u: "py_strip market \<noteq> []" "nonblank_pairs tokens" "tokens \<noteq> []" "py_strip run_id \<noteq> []" "py_strip srid \<noteq> []"
    using assms(3) by (simp_all add: usable_def)
  have "submit_all submit [q] c = ([res], c')"
    using assms(7) by (simp add: assms(8))
  then have batch: "run_shadow_batch sha submit [q] srid c = (Inr (one_batch sha (py_strip srid) q res), c')"
    using batch_runs [OF assms(4,1) u(5), of "[q]"] intent_of_valid [OF assms(2)]
    by (simp add: one_batch_def assms(8))
  have status: "(if ba_n_pass (one_batch sha s q res) = 1 \<and> ba_n_fail (one_batch sha s q res) = 0
      then ''SHADOW_PASS'' else ''SHADOW_FAIL'') = verdict_of res" for s
    by (cases res) (simp_all add: verdict_of_def)
  have "run_strategy_shadow sha submit cand p l x market tokens po run_id srid c =
      thenS (run_shadow_batch sha submit [q] srid c) (\<lambda>shadow c1.
       (build_run_artifact sha run_id (if ba_n_pass shadow = 1 \<and> ba_n_fail shadow = 0 then ''SHADOW_PASS'' else ''SHADOW_FAIL'')
          ?a (Some (intent_of cand, srid, shadow)), c1))"
    by (simp only: run_strategy_shadow_def checked_text_ok [OF u(4)] checked_text_ok [OF u(5)] a b request_built [OF u(1-3)]
        checkS_simps assms(6,8) Let_def not_True_eq_False if_False)
  then show ?thesis
    by (simp only: batch thenS_simps status submitted_artifact [OF assms(1) u(4) assms(2) u(5)])
qed

end

section \<open>The boundary\<close>

definition resolves :: "order_intent \<Rightarrow> string \<Rightarrow> (string \<times> string) list \<Rightarrow> string \<Rightarrow> bool" where
  "resolves i m tokens t \<longleftrightarrow> oi_condition_id i = m \<and> nonblank_pairs tokens \<and> distinct (map fst tokens) \<and>
     distinct (map snd tokens) \<and> (t, oi_outcome i) \<in> set tokens"

lemma resolves_iff:
  "valid_intent i \<Longrightarrow> resolve_token_id (oi_condition_id i) (oi_outcome i) m tokens = Inr t \<longleftrightarrow> resolves i m tokens t"
  by (auto simp: resolve_Inr resolves_def valid_intent_def valid_text_def)


text \<open>The event of a fill, dressed as an acknowledgement.\<close>

definition fill_event_of :: "order_intent \<Rightarrow> order_event" where
  "fill_event_of i = (ack_event i (Fin 0))\<lparr>oe_event_type := FILLED_EVENT, oe_fill_qty := oi_qty i,
     oe_fill_price := Some (oi_limit_price i), oe_cumulative_filled_qty := oi_qty i, oe_remaining_qty := Some (Fin 0)\<rparr>"

definition answering :: "json \<Rightarrow> json \<Rightarrow> observations" where
  "answering response request = gone\<lparr>ob_poll := None, ob_ready := True, ob_line := Decoded (sort_json response)\<rparr>"

lemma fill_event_valid:
  assumes "valid_intent i"
  shows "valid_event (fill_event_of i)"
proof -
  have "fle (Fin 0) (oi_qty i)" "isfinite (oi_qty i)"
    using assms by (cases "oi_qty i"; simp add: valid_intent_def fle_def)+
  moreover have "valid_event (ack_event i (Fin 0))"
    by (rule ack_event_valid [OF assms]) (simp_all add: fle_def)
  ultimately show ?thesis
    using assms by (auto simp: valid_event_def fill_event_of_def ack_event_def valid_intent_def opt_ok_def fill_event_type_def fle_def)
qed

text \<open>C18. The client does not look at the type of the event: a child that answers with a complete fill of
  the order, at its limit price, and only gives the reason of an acknowledgement, gets that fill accepted - for
  every intent that can be submitted at all, the submission returns a FILLED event over the whole quantity,
  which a batch then counts as a PASS.\<close>
theorem fill_accepted_as_acknowledgement:
  assumes "wf_intent i" "resolves i m tokens t" "mappable i t po" "running tr"
  shows "client_submit process_transport i m tokens po ([answering (JObj (response_of i (fill_event_of i)))], tr) =
      (Inr (fill_event_of i), [], tr) \<and>
    oe_event_type (fill_event_of i) = FILLED_EVENT \<and> oe_fill_qty (fill_event_of i) = oi_qty i \<and>
    si_status (kept_item n q (Inr (fill_event_of i))) = ''PASS''"
proof -
  have v: "valid_intent i" using assms(1) by (simp add: wf_intent_def)
  obtain d where d: "sort_json (JObj (response_of i (fill_event_of i))) = JObj d"
    using sort_json_JObj by blast
  have "decode_response i (sort_json (JObj (response_of i (fill_event_of i)))) = Inr (fill_event_of i)"
    by (rule response_decodes [OF fill_event_valid [OF v]]) (simp_all add: fill_event_of_def ack_event_def)
  moreover have "resolve_token_id (oi_condition_id i) (oi_outcome i) m tokens = Inr t"
    using assms(2) by (simp add: resolves_iff [OF v])
  moreover have "build_shadow_request i t po = Inr (JObj (request_of i t po))"
    using assms(3) by (simp add: build_Inr)
  ultimately have "client_submit process_transport i m tokens po ([answering (JObj (response_of i (fill_event_of i)))], tr) =
      (Inr (fill_event_of i), [], tr)"
    using assms(4) by (simp add: client_submit_def process_transport_def transport_submit_def answering_def gone_def
        poll_with_def running_def d del: sort_json.simps)
  then show ?thesis
    by (simp add: fill_event_of_def)
qed

section \<open>Batches and runs\<close>

lemma kept_counts:
  "length rs = length qs \<Longrightarrow> count_status ''PASS'' (kept_items n qs rs) = int (length (filter (\<lambda>r. \<exists>ev. r = Inr ev) rs))"
  by (induction n qs rs rule: kept_items.induct) (auto simp: count_status_def split: sum.splits)

lemma submit_all_length: "submit_all submit qs c = (rs, c') \<Longrightarrow> length rs = length qs"
  by (induction qs arbitrary: c rs) (auto split: prod.splits)

lemma kept_items_length: "length rs = length qs \<Longrightarrow> length (kept_items n qs rs) = length qs"
  by (induction n qs rs rule: kept_items.induct) auto


text \<open>C12. An intent only comes from an approval of this very candidate: when an assessment was made of a
  candidate against a portfolio, limits and a context, and the builder returns an intent for a candidate with
  that assessment against a portfolio, limits and a context, then both candidates, limits and contexts are the
  same and both portfolios hold the same, unless the hash function collides on the texts hashed; the gate allowed
  the order - no kill switch, fresh data, every limit respected - and the intent is the candidate, field by field.\<close>
theorem intent_only_from_approval:
  assumes "hex_digest sha" "inj_on sha (assessed_texts c p l x \<union> assessed_texts c' p' l' x')"
    and "wf_candidate c" "wf_candidate c'" "wf_portfolio p" "wf_portfolio p'" "wf_limits l" "wf_limits l'"
    and "wf_context x" "wf_context x'"
    and "assess_strategy_candidate sha c p l x = Inr a" "build_order_intent sha c' a p' l' x' = Inr i"
  shows "c' = c \<and> same_holdings p p' \<and> l' = l \<and> x' = x \<and> i = intent_of c \<and>
    (\<exists>r. evaluate_order_risk p (risk_view c) l x = Inr r \<and> rr_allowed r \<and> \<not> kill_switch x \<and> fresh_data l x \<and>
       within_limits p l r)"
proof -
  have v: "valid_candidate c" "valid_candidate c'"
    using assms(3,4) by (simp_all add: wf_candidate_def)
  obtain r where r: "evaluate_order_risk p (risk_view c) l x = Inr r" and a: "a = assessed sha c p l x r"
    using assms(11) by (auto simp: assess_Inr [OF assms(1) v(1)] assessed_def)
  have b: "strategy_candidate_hash sha c = strategy_candidate_hash sha c'" "portfolio_state_hash sha p = portfolio_state_hash sha p'"
    "risk_limits_hash sha l = risk_limits_hash sha l'" "risk_context_hash sha x = risk_context_hash sha x'"
    "rr_allowed r" "i = intent_of c'"
    using assms(12) by (simp_all add: build_Inr_iff [OF v(2)] a assessed_def)
  have "c = c' \<and> same_holdings p p' \<and> l = l' \<and> x = x'"
    by (rule hashes_determine [OF assms(2-10) b(1-4)])
  moreover have "valid_risk_intent (risk_view c)"
    using v(1) by (simp add: valid_candidate_def)
  ultimately show ?thesis
    using r b(5,6) evaluate_iff(1) [OF _ r] by auto
qed


text \<open>C17. A padded id loses the run: a \<open>shadow_run_id\<close> with a space around it passes the check at the start,
  which does not strip it; the batch strips it, so that after the order has gone to the client - whatever came
  back - the two ids differ and the run raises instead of returning its artifact.\<close>
theorem padded_run_id_loses_the_run:
  assumes "hex_digest sha" "candidate_post_init raw = Inr cand" "usable cand x market tokens run_id srid"
    and "py_strip srid \<noteq> srid" "reaped s" "evaluate_order_risk p (risk_view cand) l x = Inr r" "rr_allowed r"
  shows "\<exists>res s'. client_submit process_transport (intent_of cand) (py_strip market) (stripped_pairs tokens) po s = (res, s') \<and>
    run_strategy_shadow sha (client_submit process_transport) cand p l x market tokens po run_id srid s =
      (Inl (ValueError ''shadow run id mismatch''), s')"
proof -
  have v: "valid_candidate cand" by (rule candidate_post_init_valid [OF assms(2)])
  obtain res s' where c: "client_submit process_transport (intent_of cand) (py_strip market) (stripped_pairs tokens) po s = (res, s')"
    by (rule prod.exhaust)
  show ?thesis
    using pt.run_submitted [OF assms(1) v assms(3,5,6,7) c refl] assms(4) c by simp
qed


section \<open>A concrete candidate\<close>

definition demo_cand :: candidate where
  "demo_cand = \<lparr>sc_candidate_id = ''c1'', sc_alpha_id = ''a'', sc_alpha_version = ''1'', sc_risk_policy_version = ''1'',
     sc_condition_id = ''m'', sc_outcome = ''YES'', sc_side = ''BUY'', sc_qty = Fin 4, sc_limit_price = Fin 2,
     sc_time_in_force = ''GTC'', sc_decision_ts_ms = Fin 5000, sc_market_data_ts_ms = Fin 4500,
     sc_schema_version = STRATEGY_ORDER_CANDIDATE_SCHEMA_V1\<rparr>"

definition demo_tokens :: "(string \<times> string) list" where
  "demo_tokens = [(''t1'', ''YES''), (''t2'', ''NO'')]"

definition demo_tr :: jsonl_transport where
  "demo_tr = \<lparr>jt_config = \<lparr>tc_command = [''sidecar''], tc_cwd = None, tc_timeout_seconds = Fin 5\<rparr>, jt_closed = False, jt_code = None\<rparr>"

text \<open>A hash of the right shape that tells the four hashed texts apart by their first key.\<close>

definition demo_tag :: hasher where
  "demo_tag s = replicate 64 (case s of _ # _ # c # _ \<Rightarrow> if is_lower_hex c then c else CHR ''0'' | _ \<Rightarrow> CHR ''1'')"

lemma demo_tag_hex: "hex_digest demo_tag"
  by (auto simp: hex_digest_def demo_tag_def list_all_iff is_lower_hex_def split: list.split)

lemma demo_risk_view: "risk_view demo_cand = demo_intent"
  by (simp add: risk_view_def demo_cand_def demo_intent_def)

lemma demo_cand_init: "candidate_post_init demo_cand = Inr demo_cand"
proof -
  have "valid_risk_intent (risk_view demo_cand)"
    using risk_intent_post_init_valid [OF demo_post_init] by (simp add: demo_risk_view)
  moreover have "valid_text ''c1''" "valid_text ''a''" "valid_text ''1''"
    by code_simp+
  ultimately show ?thesis
    by (intro valid_candidate_post_init) (simp add: valid_candidate_def demo_cand_def fle_def)
qed

lemma demo_cand_valid: "valid_candidate demo_cand"
  by (rule candidate_post_init_valid [OF demo_cand_init])

lemma demo_cand_wf: "wf_candidate demo_cand" "wf_intent (intent_of demo_cand)"
  using demo_cand_valid intent_of_valid [OF demo_cand_valid]
  by (simp_all add: wf_candidate_def wf_intent_def demo_cand_def intent_of_def wf_numeral del: wf_float.simps)

lemma demo_strips: "py_strip ''m'' = ''m''" "py_strip ''r1'' = ''r1''" "py_strip ''s1'' = ''s1''" "py_strip ''s1 '' = ''s1''"
  "stripped_pairs demo_tokens = demo_tokens" "nonblank_pairs demo_tokens"
  by code_simp+

lemma demo_usable: "py_strip srid = ''s1'' \<Longrightarrow> usable demo_cand demo_context ''m'' demo_tokens ''r1'' srid"
  using demo_strips by (simp add: usable_def demo_cand_def demo_context_def demo_tokens_def)

lemma demo_resolves: "resolves (intent_of demo_cand) ''m'' demo_tokens ''t1''"
  using demo_strips(6) by (simp add: resolves_def intent_of_def demo_cand_def demo_tokens_def)

lemma demo_mappable: "mappable (intent_of demo_cand) ''t1'' False"
proof -
  have "py_strip ''t1'' = ''t1''" by code_simp
  then show ?thesis by (simp add: mappable_def)
qed

lemma demo_running: "running demo_tr"
  by (simp add: running_def demo_tr_def)

lemma demo_reaped: "reaped ([sidecar_child (Fin 0)], demo_tr)" "reaped ([], demo_tr)"
  by (simp_all add: reaped_def sidecar_child_def)

text \<open>The gate allows the candidate under \<open>demo_limits 50\<close>.\<close>

lemma demo_gate:
  obtains r where "evaluate_order_risk demo_portfolio (risk_view demo_cand) (demo_limits 50) demo_context = Inr r" "rr_allowed r"
  using demo_allowed [of 50] by (auto simp: demo_risk_view)

lemma demo_wf_rest: "wf_limits (demo_limits 50)" "wf_context demo_context" "wf_portfolio demo_portfolio"
  using wf_zero
  by (simp_all add: wf_limits_def risk_limits_json_def demo_limits_def wf_context_def risk_context_json_def demo_context_def
      wf_portfolio_def portfolio_json_def demo_portfolio_def wf_numeral del: wf_float.simps)

lemma demo_tag_third: "take 3 s = [a, b, c] \<Longrightarrow> demo_tag s = replicate 64 (if is_lower_hex c then c else CHR ''0'')"
  by (cases s; cases "tl s"; cases "tl (tl s)") (auto simp: demo_tag_def)

lemma demo_tag_inj: "inj_on demo_tag (assessed_texts demo_cand demo_portfolio (demo_limits 50) demo_context)"
proof -
  have "take 3 (canonical_nan (candidate_to_dict demo_cand)) = ''{\"a''"
    "take 3 (canonical_nan (portfolio_json demo_portfolio)) = ''{\"c''"
    "take 3 (canonical_nan (risk_limits_json (demo_limits 50))) = ''{\"m''"
    "take 3 (canonical_nan (risk_context_json demo_context)) = ''{\"e''"
    by code_simp+
  then have "demo_tag (canonical_nan (candidate_to_dict demo_cand)) = replicate 64 (CHR ''a'')"
    "demo_tag (canonical_nan (portfolio_json demo_portfolio)) = replicate 64 (CHR ''c'')"
    "demo_tag (canonical_nan (risk_limits_json (demo_limits 50))) = replicate 64 (CHR ''0'')"
    "demo_tag (canonical_nan (risk_context_json demo_context)) = replicate 64 (CHR ''e'')"
    by (simp_all add: demo_tag_third is_lower_hex_def)
  then show ?thesis by (simp add: inj_on_def assessed_texts_def)
qed

section \<open>Witnesses\<close>


theorem fill_accepted_as_acknowledgement_witness:
  "\<exists>ev. client_submit process_transport (intent_of demo_cand) ''m'' demo_tokens False
      ([answering (JObj (response_of (intent_of demo_cand) (fill_event_of (intent_of demo_cand))))], demo_tr) = (Inr ev, [], demo_tr) \<and>
     oe_event_type ev = FILLED_EVENT \<and> oe_fill_qty ev = Fin 4"
  using fill_accepted_as_acknowledgement [OF demo_cand_wf(2) demo_resolves demo_mappable demo_running]
  by (simp add: intent_of_def demo_cand_def)

definition demo_batch :: "shadow_request list" where
  "demo_batch = [\<lparr>bq_intent = intent_of demo_cand, bq_market_condition_id = ''m'', bq_tokens = demo_tokens, bq_post_only = False\<rparr>]"


theorem intent_only_from_approval_witness:
  "\<exists>a i. assess_strategy_candidate demo_tag demo_cand demo_portfolio (demo_limits 50) demo_context = Inr a \<and>
     build_order_intent demo_tag demo_cand a demo_portfolio (demo_limits 50) demo_context = Inr i \<and>
     i = intent_of demo_cand \<and> (\<exists>r. within_limits demo_portfolio (demo_limits 50) r)"
proof -
  obtain r where r: "evaluate_order_risk demo_portfolio (risk_view demo_cand) (demo_limits 50) demo_context = Inr r" "rr_allowed r"
    by (rule demo_gate)
  let ?a = "assessed demo_tag demo_cand demo_portfolio (demo_limits 50) demo_context r"
  have a: "assess_strategy_candidate demo_tag demo_cand demo_portfolio (demo_limits 50) demo_context = Inr ?a"
    using r(1) demo_usable [OF demo_strips(3)]
    by (simp add: assess_Inr [OF demo_tag_hex demo_cand_valid] assessed_def usable_def)
  have b: "build_order_intent demo_tag demo_cand ?a demo_portfolio (demo_limits 50) demo_context = Inr (intent_of demo_cand)"
    using r(2) by (simp add: build_Inr_iff [OF demo_cand_valid] assessed_def)
  have inj: "inj_on demo_tag (assessed_texts demo_cand demo_portfolio (demo_limits 50) demo_context \<union>
      assessed_texts demo_cand demo_portfolio (demo_limits 50) demo_context)"
    using demo_tag_inj by simp
  show ?thesis
    using a b intent_only_from_approval [OF demo_tag_hex inj demo_cand_wf(1) demo_cand_wf(1) demo_wf_rest(3) demo_wf_rest(3)
        demo_wf_rest(1) demo_wf_rest(1) demo_wf_rest(2) demo_wf_rest(2) a b] by blast
qed


theorem padded_run_id_loses_the_run_witness:
  "\<exists>s'. run_strategy_shadow demo_tag (client_submit process_transport) demo_cand demo_portfolio (demo_limits 50) demo_context
      ''m'' demo_tokens False ''r1'' ''s1 '' ([sidecar_child (Fin 0)], demo_tr) = (Inl (ValueError ''shadow run id mismatch''), s')"
proof -
  obtain r where r: "evaluate_order_risk demo_portfolio (risk_view demo_cand) (demo_limits 50) demo_context = Inr r" "rr_allowed r"
    by (rule demo_gate)
  have "py_strip ''s1 '' \<noteq> ''s1 ''"
    by (simp add: demo_strips(4))
  then show ?thesis
    using padded_run_id_loses_the_run [OF demo_tag_hex demo_cand_init demo_usable [OF demo_strips(4)] _ demo_reaped(1) r, of False]
    by blast
qed


end
