(* ===== verification/Spec2Isabelle.thy ===== *)
theory Spec2Isabelle
  imports Prelude PyFloat PyDecimal Json PyText Contracts OrderState Portfolio Risk OsFile DurableLog
    IntentLedger IntentLedgerLaws LedgerDemo LedgerProps Lots FifoQueue Fills Timestamps CancelRace LotOrder PassiveSim TakerSim CostPnl
    Pipelines PipelineFacts ExactAccounts PipelineProps ReservationGap
    Reconciliation ExactDecimals ReconcileFacts ReconcileScan ReconcileRows ReconcileDemo ReportText SnapshotHistory
    ReplayMachine ReconcileProps EventJournal EventJournalLaws JournalHandle JournalOpen HashChain JournalExport JournalDemo JournalProps SubmitPath SubmitLaws SubmitGate SubmitAttempts SubmitDemo SubmitProps LedgerProgress
    ShadowProtocol ShadowTransport ShadowProps StrategyCandidate StrategyFacts ShadowRun ShadowRunLaws ShadowRunProps
begin

text \<open>
  A model of the order-execution core of \<open>Polymarket-quant\<close>
  (\<open>src/src/std0_quant/execution\<close>).

  Layers.  Strategy code builds an \<open>OrderIntent\<close> (Contracts); the risk gate (Risk) judges it against
  the portfolio (Portfolio); the intent is written to a durable ledger (IntentLedger) before anything
  is submitted; the order itself runs through a state machine (OrderState).  The submit path (SubmitPath)
  composes gate, portfolio and ledger and calls the built-in offline stub.  Observed execution events go
  to an append-only journal (EventJournal), whose exports feed the reconciler (Reconciliation).  Before any
  of this a strategy's candidate can be run in shadow mode (StrategyCandidate, ShadowRun): gate, intent and a
  submission to a sidecar process that only acknowledges (ShadowProtocol, ShadowTransport).

  Theories.
  \<^item> \<open>Prelude\<close>: Python exceptions as values (\<open>'a res\<close>), the error monad, methods that mutate an object
    and may raise half way (\<open>checkS\<close>, \<open>failS\<close>, \<open>thenS\<close>), dictionaries in insertion order.
  \<^item> \<open>PyFloat\<close>: binary64 arithmetic with round-to-nearest-even, \<open>sum\<close>, \<open>math.fsum\<close>, \<open>math.isclose\<close>;
    \<open>PyDecimal\<close>: \<open>repr\<close> of a float and the numbers of a JSON text, with their round trip.
  \<^item> \<open>Json\<close>: JSON values, canonical texts, parsing; \<open>loads_dumps\<close> and \<open>canonical_inj\<close>.
  \<^item> \<open>PyText\<close>: \<open>strip\<close>, \<open>upper\<close>, hexadecimal digests.
  \<^item> \<open>Contracts\<close>: \<open>execution/contracts.py\<close>.  \<open>OrderState\<close>: \<open>execution/order_state.py\<close>.
  \<^item> \<open>Portfolio\<close>: \<open>execution/portfolio.py\<close>.  \<open>Risk\<close>: \<open>execution/risk.py\<close>.
  \<^item> \<open>OsFile\<close>: one append-only file as the operating system shows it; \<open>write_all\<close>.
  \<^item> \<open>DurableLog\<close>: the contract of a durable append-only log, as a locale.
  \<^item> \<open>IntentLedger\<close>: \<open>execution/durable_intent_ledger_v1.py\<close>; \<open>IntentLedgerLaws\<close> interprets the durable-log
    contract on it; \<open>LedgerDemo\<close> holds a concrete ledger with its calls evaluated, \<open>LedgerProps\<close> the
    properties of the ledger.
  \<^item> \<open>Lots\<close>: quantities on a dyadic grid, where binary64 arithmetic is exact; the reference definitions
    in natural numbers (a greedy allocation, a closed form of the queue) are stated on it.
  \<^item> \<open>FifoQueue\<close>: \<open>execution/queue_model.py\<close>.  \<open>Fills\<close>: \<open>execution/fill_model.py\<close>.
  \<^item> \<open>Timestamps\<close>: \<open>execution/execution_timestamps.py\<close>, \<open>execution/latency_model.py\<close>.
  \<^item> \<open>CancelRace\<close>: \<open>execution/cancel_fill_race.py\<close>, \<open>execution/cancel_replace.py\<close>.
  \<^item> \<open>LotOrder\<close>: the order state machine on the grid.
  \<^item> \<open>PassiveSim\<close>: \<open>execution/simulator.py\<close>, \<open>execution/replacement_simulator.py\<close>.
  \<^item> \<open>TakerSim\<close>: \<open>execution/taker_simulator.py\<close>.
  \<^item> \<open>CostPnl\<close>: \<open>execution/cost_pnl.py\<close>, \<open>execution/costed_simulator.py\<close>.
  \<^item> \<open>Pipelines\<close>: \<open>execution/risk_execution_pipeline.py\<close>, \<open>execution/passive_risk_pipeline.py\<close>, the
    composition of gate, portfolio, simulators and costs; \<open>PipelineFacts\<close> and \<open>ExactAccounts\<close> hold lemmas
    about reservations and an exact account of a BUY order, \<open>PipelineProps\<close> the properties,
    \<open>ReservationGap\<close> an order whose reservation is too small by a rounding error.
  \<^item> \<open>Reconciliation\<close>: \<open>execution/execution_reconciliation_v1.py\<close>, the offline report over a ledger snapshot and
    supplied events.  \<open>ExactDecimals\<close>: its quantities are exact decimals; \<open>ReconcileFacts\<close>: when it returns;
    \<open>ReconcileScan\<close> and \<open>ReconcileRows\<close>: closed forms of its passes; \<open>ReportText\<close>: the text of a report
    determines it; \<open>SnapshotHistory\<close>: a validated snapshot is a history of the ledger; \<open>ReplayMachine\<close>: the
    replay is simulated by the order state machine; \<open>ReconcileDemo\<close>: a concrete run; \<open>ReconcileProps\<close>: the
    properties.
  \<^item> \<open>EventJournal\<close>: \<open>execution/durable_execution_event_journal_v1.py\<close>.  \<open>EventJournalLaws\<close>: the file a
    history of captures makes, and its recovery; \<open>JournalHandle\<close>: the invariant of an open handle and the
    durable-log contract of \<open>DurableLog\<close> interpreted on it; \<open>JournalOpen\<close>: creation and reopening;
    \<open>HashChain\<close>: in a hash chain the last hash determines the history, as a locale; \<open>JournalExport\<close>
    interprets it and shows which exports verify; \<open>JournalDemo\<close>: a concrete run; \<open>JournalProps\<close>: the
    properties.
  \<^item> \<open>SubmitPath\<close>: \<open>execution/exclusive_submit_path_v1.py\<close>.  Its function \<open>_submit_locked\<close> is cut at the
    places where it samples clock, kill switch and ledger (\<open>sp_decide\<close>, \<open>sp_assess\<close>, \<open>sp_commit\<close>,
    \<open>sp_precommit\<close>, \<open>sp_redeem\<close>, \<open>sp_call_stub\<close>), each a definition that calls the next.  \<open>SubmitLaws\<close>: its
    invariant, kept by every call in any order (\<open>sp_reach\<close>); \<open>SubmitGate\<close>: what a submission passed when the
    stub gets a request; \<open>SubmitAttempts\<close>: the attempts it returns; \<open>SubmitDemo\<close>: a concrete run;
    \<open>SubmitProps\<close>: the properties.
  \<^item> \<open>LedgerProgress\<close>: when an append to the intent ledger is acknowledged.

  \<^item> \<open>ShadowProtocol\<close>: the shadow boundary, \<open>execution/market_identifier.py\<close>, \<open>execution/clodds_mapping.py\<close>,
    \<open>execution/clodds_shadow_protocol.py\<close>, \<open>execution/clodds_shadow_client.py\<close> and the reference sidecar of
    \<open>scripts/run_clodds_shadow_sidecar.py\<close>; \<open>ShadowProps\<close>: which requests validate and which answers are
    accepted.  \<open>ShadowTransport\<close>: \<open>execution/jsonl_process_transport.py\<close>, which never answers again after a failure.
  \<^item> \<open>StrategyCandidate\<close>: \<open>execution/strategy_candidate.py\<close>, from a strategy's candidate to an order intent;
    \<open>StrategyFacts\<close>: what its hashes determine.
  \<^item> \<open>ShadowRun\<close>: \<open>execution/batch_shadow_runner.py\<close>, \<open>execution/strategy_shadow_run.py\<close>, the composition of the
    risk gate, the builder of intents and the shadow client; \<open>ShadowRunLaws\<close>: the contracts between runner,
    client and transport as locales, interpreted on the process transport; \<open>ShadowRunProps\<close>: the properties.

  Conventions.  A string is the list of the bytes of its UTF-8 encoding, so \<open>encode\<close> and \<open>decode\<close> are
  the identity and a file that is not UTF-8 is outside the model.  The sign of a floating-point zero
  is not represented.  Arguments have their annotated types, so the \<open>type(x) is not T\<close> checks cannot
  fail.  JSON fields of another type than expected are rejected.  A method of a locked object is one
  atomic step.  The answers of the operating system are arbitrary finite lists, and an exhausted list
  is a failing system; no fuel is used.  The hash function is an argument (\<open>sha\<close>).  Exhausting the
  interpreter's stack or memory is not modelled.  The trusted clock of the submit path is the list of its
  readings (exhausted, it reads \<open>nan\<close>), and what other threads do to its kill switch is a list with one
  entry per sample.  The verification of the governance evidence is the argument \<open>verify\<close>.

  Not modelled.  The modules that compute statistics over data frames (\<open>research\<close>, \<open>features\<close>, \<open>events\<close>,
  \<open>audit\<close>, \<open>modeling\<close>), those that read the network (\<open>collectors\<close>, the agent shadow), the scripts other
  than the sidecar, and of \<open>execution\<close> the shadow adapter, the validation and eligibility artifacts and the
  venue evidence: they are contracts over documents of other components, and no module of the paths above
  calls them, except that the submit path verifies an eligibility decision.
\<close>

end
